(* ===== verification/Prelude.thy ===== *)
theory Prelude
  imports Main "HOL-Library.Word" "HOL-Library.Char_ord" "HOL-Library.List_Lexorder"
begin

text \<open>
  Shared vocabulary of the development: bytes and times, the error values the Go code
  returns, computations that thread a state and may fail (\<open>comp\<close>), the loops over slices
  (\<open>mapE\<close>, \<open>forE\<close>), the calculus of frames (what a computation leaves alone, locale
  \<open>frame_rel\<close>), and lemmas on lists that several components use.

  A Go function \<open>f(x) (T, error)\<close> with side effects is a function from \<open>x\<close> to a
  \<open>comp\<close>: given the state it returns \<open>Inl\<close> of the error or \<open>Inr\<close> of the result, and
  the state the call leaves behind, on the error paths too.
\<close>

section \<open>Types\<close>

type_synonym byte = "8 word"
type_synonym bytes = "byte list"
type_synonym uint64 = "64 word"

text \<open>Nanoseconds since the Go zero time; the zero time itself is \<open>0\<close>.\<close>

type_synonym gotime = int

datatype error =
    ErrIO                             \<comment> \<open>a call to the operating system, network or SQL engine failed\<close>
  | ErrPanic                          \<comment> \<open>a Go run-time panic\<close>
  | ErrDiverge                        \<comment> \<open>the Go code loops for ever\<close>
  | ErrUnconfiguredBackend string
  | ErrSimulated
  | ErrBlobNotFound string
  | ErrTooLarge nat nat
  | ErrNoAttachment string
  | ErrEmptyURL string
  | ErrNoDocument string
  | ErrNotDownloaded string
  | ErrBadLocation string
  | ErrRemote string
  | ErrNoBackend
  | ErrEmptyData
  | ErrInvalidPayload nat nat
  | ErrNotEnoughShards
  | ErrMissingShard nat
  | ErrReedSolomon
  | ErrCompressionType int
  | ErrZstd
  | ErrEncryptionType int
  | ErrEncryptionName string
  | ErrKeySize nat
  | ErrKeyIdRequired
  | ErrCiphertextShort
  | ErrAead
  | ErrKmsNotInit
  | ErrKeyNotFound int
  | ErrKeyFile
  | ErrPayload
  | ErrReader
  | ErrRangeBegin
  | ErrRangeBeyond
  | ErrRangeEnd
  | ErrNoDatabase
  | ErrConstraint string
  | ErrNoRows string
  | ErrParse string
  | ErrField string
  | ErrHeader string
  | ErrChecksum nat
  | ErrMissingAuthorization
  | ErrInvalidAuthorization string
  | ErrInvalidDate
  | ErrInvalidSignature
  | ErrSetting string
  | ErrUnknownKind string
  | ErrBackendsFile string
  | ErrTooFewBackends nat int
  | ErrBucketNameRequired

type_synonym 'a res = "error + 'a"
type_synonym ('s, 'a) comp = "'s \<Rightarrow> 'a res \<times> 's"

section \<open>Computations\<close>

definition returnE :: "'a \<Rightarrow> ('s, 'a) comp" where
  "returnE x = (\<lambda>s. (Inr x, s))"

definition raiseE :: "error \<Rightarrow> ('s, 'a) comp" where
  "raiseE e = (\<lambda>s. (Inl e, s))"

definition bindE :: "('s, 'a) comp \<Rightarrow> ('a \<Rightarrow> ('s, 'b) comp) \<Rightarrow> ('s, 'b) comp" where
  "bindE m k = (\<lambda>s. case m s of (r, s') \<Rightarrow> (case r of Inl e \<Rightarrow> (Inl e, s') | Inr x \<Rightarrow> k x s'))"

text \<open>A pure fallible value as a computation, reading and writing the state, and a guard
  (\<open>if !p { return err }\<close>).\<close>

definition liftE :: "'a res \<Rightarrow> ('s, 'a) comp" where
  "liftE r = (\<lambda>s. (r, s))"

definition getsE :: "('s \<Rightarrow> 'a) \<Rightarrow> ('s, 'a) comp" where
  "getsE f = (\<lambda>s. (Inr (f s), s))"

definition modifyE :: "('s \<Rightarrow> 's) \<Rightarrow> ('s, unit) comp" where
  "modifyE f = (\<lambda>s. (Inr (), f s))"

definition guardE :: "bool \<Rightarrow> error \<Rightarrow> ('s, unit) comp" where
  "guardE p e = (if p then returnE () else raiseE e)"

text \<open>A call whose error is dropped (\<open>_ = f(x)\<close>).\<close>

definition ignoreE :: "('s, 'a) comp \<Rightarrow> ('s, unit) comp" where
  "ignoreE m = (\<lambda>s. (Inr (), snd (m s)))"

text \<open>\<open>for _, x := range xs\<close>: collecting results, or for the effects only; both stop at the
  first error.\<close>

primrec mapE :: "('a \<Rightarrow> ('s, 'b) comp) \<Rightarrow> 'a list \<Rightarrow> ('s, 'b list) comp" where
  "mapE f [] = returnE []"
| "mapE f (x # xs) = bindE (f x) (\<lambda>y. bindE (mapE f xs) (\<lambda>ys. returnE (y # ys)))"

primrec forE :: "('a \<Rightarrow> ('s, unit) comp) \<Rightarrow> 'a list \<Rightarrow> ('s, unit) comp" where
  "forE f [] = returnE ()"
| "forE f (x # xs) = bindE (f x) (\<lambda>_. forE f xs)"

lemmas comp_defs = returnE_def raiseE_def bindE_def liftE_def getsE_def modifyE_def
  guardE_def ignoreE_def

lemma returnE_eq [simp]: "returnE x s = (r, t) \<longleftrightarrow> r = Inr x \<and> t = s"
  by (auto simp: returnE_def)

lemma raiseE_eq [simp]: "raiseE e s = (r, t) \<longleftrightarrow> r = Inl e \<and> t = s"
  by (auto simp: raiseE_def)

lemma liftE_eq [simp]: "liftE r s = (r', t) \<longleftrightarrow> r' = r \<and> t = s"
  by (auto simp: liftE_def)

lemma guardE_eq [simp]: "guardE p e s = (r, t) \<longleftrightarrow> r = (if p then Inr () else Inl e) \<and> t = s"
  by (auto simp: guardE_def)

lemma pure_comp_snd [simp]:
  "snd (returnE x s) = s" "snd (raiseE e s) = s" "snd (liftE r s) = s" "snd (guardE p e s) = s"
  by (simp_all add: comp_defs)

lemma pure_comp_fst [simp]:
  "fst (returnE x s) = Inr x" "fst (raiseE e s) = Inl e" "fst (liftE r s) = r"
  "fst (guardE p e s) = (if p then Inr () else Inl e)"
  by (simp_all add: comp_defs)

lemma getsE_eq [simp]: "getsE f s = (Inr (f s), s)"
  by (simp add: getsE_def)

lemma modifyE_eq [simp]: "modifyE f s = (Inr (), f s)"
  by (simp add: modifyE_def)

lemma ignoreE_eq [simp]: "ignoreE m s = (Inr (), snd (m s))"
  by (simp add: ignoreE_def)

lemma bindE_Inr [simp]: "m s = (Inr x, s') \<Longrightarrow> bindE m k s = k x s'"
  by (simp add: bindE_def)

lemma bindE_Inl [simp]: "m s = (Inl e, s') \<Longrightarrow> bindE m k s = (Inl e, s')"
  by (simp add: bindE_def)

lemma bindE_eq_Inr_iff:
  "bindE m k s = (Inr y, t) \<longleftrightarrow> (\<exists>x s'. m s = (Inr x, s') \<and> k x s' = (Inr y, t))"
  by (auto simp: bindE_def split: prod.splits sum.splits)

lemma bindE_eq_Inl_iff:
  "bindE m k s = (Inl e, t) \<longleftrightarrow>
     m s = (Inl e, t) \<or> (\<exists>x s'. m s = (Inr x, s') \<and> k x s' = (Inl e, t))"
  by (auto simp: bindE_def split: prod.splits sum.splits)

lemma bindE_InrE [elim]:
  assumes "bindE m k s = (Inr y, t)"
  obtains x s' where "m s = (Inr x, s')" and "k x s' = (Inr y, t)"
  using assms by (auto simp: bindE_eq_Inr_iff)

lemma bindE_returnE [simp]: "bindE (returnE x) k = k x"
  by (simp add: bindE_def returnE_def)

lemma bindE_raiseE [simp]: "bindE (raiseE e) k = raiseE e"
  by (simp add: bindE_def raiseE_def)

lemma bindE_guardE [simp]: "bindE (guardE p e) k = (if p then k () else raiseE e)"
  by (simp add: guardE_def)

lemma bindE_returnE_right [simp]: "bindE m returnE = m"
  by (rule ext) (simp add: bindE_def returnE_def split: prod.splits sum.splits)

lemma bindE_assoc: "bindE (bindE m k) h = bindE m (\<lambda>x. bindE (k x) h)"
  by (rule ext) (simp add: bindE_def split: prod.splits sum.splits)

lemma mapE_append:
  "mapE f (xs @ ys) = bindE (mapE f xs) (\<lambda>as. bindE (mapE f ys) (\<lambda>bs. returnE (as @ bs)))"
  by (induction xs) (simp_all add: bindE_assoc)

lemma forE_append: "forE f (xs @ ys) = bindE (forE f xs) (\<lambda>_. forE f ys)"
  by (induction xs) (simp_all add: bindE_assoc)

lemma mapE_length: "mapE f xs s = (Inr ys, t) \<Longrightarrow> length ys = length xs"
  by (induction xs arbitrary: s ys) (auto simp: bindE_eq_Inr_iff)

section \<open>Frames\<close>

text \<open>
  \<open>keeps R m\<close>: whatever its outcome, the computation \<open>m\<close> moves the state along \<open>R\<close>. With
  \<open>R s t\<close> saying that a part of the state is unchanged this is a frame property; with
  \<open>R s t = (I s \<longrightarrow> I t)\<close> it is the preservation of an invariant. For a preorder \<open>R\<close> the
  property is compositional, which the locale proves once for every relation of the
  development.
\<close>

definition keeps :: "('s \<Rightarrow> 's \<Rightarrow> bool) \<Rightarrow> ('s, 'a) comp \<Rightarrow> bool" where
  "keeps R m \<longleftrightarrow> (\<forall>s. R s (snd (m s)))"

lemma keepsI: "(\<And>s. R s (snd (m s))) \<Longrightarrow> keeps R m"
  by (simp add: keeps_def)

lemma keepsD: "keeps R m \<Longrightarrow> m s = (r, t) \<Longrightarrow> R s t"
  by (metis keeps_def snd_conv)

lemma keeps_snd: "keeps R m \<Longrightarrow> R s (snd (m s))"
  by (simp add: keeps_def)

locale frame_rel =
  fixes R :: "'s \<Rightarrow> 's \<Rightarrow> bool"
  assumes reflR: "R s s"
    and transR: "R s t \<Longrightarrow> R t u \<Longrightarrow> R s u"
begin

lemma keeps_returnE [simp, intro]: "keeps R (returnE x)"
  by (simp add: keeps_def reflR)

lemma keeps_raiseE [simp, intro]: "keeps R (raiseE e)"
  by (simp add: keeps_def reflR)

lemma keeps_liftE [simp, intro]: "keeps R (liftE r)"
  by (simp add: keeps_def reflR)

lemma keeps_getsE [simp, intro]: "keeps R (getsE f)"
  by (simp add: keeps_def reflR)

lemma keeps_guardE [simp, intro]: "keeps R (guardE p e)"
  by (simp add: keeps_def reflR)

lemma keeps_modifyE: "(\<And>s. R s (f s)) \<Longrightarrow> keeps R (modifyE f)"
  by (simp add: keeps_def)

lemma keeps_ignoreE [intro]: "keeps R m \<Longrightarrow> keeps R (ignoreE m)"
  by (simp add: keeps_def)

lemma bindE_from:
  assumes "R s (snd (m s))" and "\<And>x. keeps R (k x)"
  shows "R s (snd (bindE m k s))"
proof -
  obtain r s' where m: "m s = (r, s')" by (cases "m s")
  with assms(1) have R1: "R s s'" by simp
  show ?thesis
  proof (cases r)
    case (Inl e)
    with m R1 show ?thesis by simp
  next
    case (Inr x)
    with assms(2) [of x] have "R s' (snd (k x s'))" by (simp add: keeps_def)
    with Inr m R1 show ?thesis by (auto intro: transR)
  qed
qed

lemma keeps_bindE [intro]:
  assumes "keeps R m" and "\<And>x. keeps R (k x)"
  shows "keeps R (bindE m k)"
  using assms(1) by (intro keepsI bindE_from assms(2)) (simp add: keeps_def)

lemma keeps_if [intro]: "keeps R m \<Longrightarrow> keeps R n \<Longrightarrow> keeps R (if b then m else n)"
  by simp

lemma keeps_option [intro]:
  "keeps R m \<Longrightarrow> (\<And>x. keeps R (k x)) \<Longrightarrow> keeps R (case v of None \<Rightarrow> m | Some x \<Rightarrow> k x)"
  by (cases v) simp_all

lemma keeps_mapE [intro]: "(\<And>x. keeps R (f x)) \<Longrightarrow> keeps R (mapE f xs)"
  by (induction xs) (auto intro!: keeps_bindE)

lemma keeps_forE [intro]: "(\<And>x. keeps R (f x)) \<Longrightarrow> keeps R (forE f xs)"
  by (induction xs) (auto intro!: keeps_bindE)

lemmas keeps_rules = keeps_returnE keeps_raiseE keeps_liftE keeps_getsE keeps_guardE
  keeps_ignoreE keeps_bindE keeps_if keeps_option keeps_mapE keeps_forE

end

section \<open>Lists\<close>

text \<open>Splitting a byte slice into pieces of a given size, the last one possibly shorter: the
  reference for every chunking loop of the program.\<close>

function pieces :: "nat \<Rightarrow> 'a list \<Rightarrow> 'a list list" where
  "pieces n xs = (if xs = [] \<or> n = 0 then [] else take n xs # pieces n (drop n xs))"
  by pat_completeness auto
termination
  by (relation "measure (\<lambda>(n, xs). length xs)") auto

declare pieces.simps [simp del]

lemma pieces_Nil [simp]: "pieces n [] = []"
  by (simp add: pieces.simps)

lemma concat_pieces: "0 < n \<Longrightarrow> concat (pieces n xs) = xs"
proof (induction n xs rule: pieces.induct)
  case (1 n xs)
  then show ?case
    by (cases "xs = []") (simp_all add: pieces.simps [of n xs])
qed

lemma pieces_nonempty: "x \<in> set (pieces n xs) \<Longrightarrow> x \<noteq> []"
proof (induction n xs rule: pieces.induct)
  case (1 n xs)
  then show ?case
    by (auto simp: pieces.simps [of n xs] split: if_splits)
qed

lemma concat_const_length:
  "(\<forall>x \<in> set xss. length x = n) \<Longrightarrow> length (concat xss) = length xss * n"
  by (induction xss) auto

lemma nth_concat_const:
  assumes "\<forall>x \<in> set xss. length x = n" and "i < length xss"
  shows "take n (drop (i * n) (concat xss)) = xss ! i"
  using assms
proof (induction xss arbitrary: i)
  case Nil
  then show ?case by simp
next
  case (Cons x xss)
  then show ?case by (cases i) auto
qed

end
