(* ===== verification/Host.thy ===== *)
theory Host
  imports Prelude
begin

text \<open>
  What the program runs on. The record \<open>env\<close> holds every parameter of the model: the
  configuration (\<open>internal/platform/config\<close>), the choices of the world (which calls fail,
  the UUIDs, the clock, random bytes, the scheduler) and the third-party packages the code
  calls (Reed-Solomon, zstd, xxhash, AEAD ciphers, the Discord and Telegram clients, the HTTP
  routers) together with the codecs and digests of the Go library that are only called through
  (time formats, JSON and XML, HTML forms, base64, HMAC and the checksum algorithms) and the arithmetic of
  \<open>float64\<close>. The
  record \<open>host\<close> is the part of the state that belongs to the operating system and to the
  remote services.

  A counter \<open>tick\<close> numbers the calls that may fail or draw a fresh value: call number \<open>n\<close>
  fails when \<open>fault n\<close> holds, the \<open>n\<close>-th UUID is \<open>uuid_new n\<close>, and so on. The remote
  services keep their own state, of an unknown type \<open>'r\<close>.
\<close>

section \<open>Configuration\<close>

text \<open>The struct \<open>Config\<close> of \<open>config.go\<close>.\<close>

record config =
  ServiceName :: string
  Environment :: string
  S3Address :: string
  DashboardAddress :: string
  FQDN :: string
  StorageClass :: string
  EnableDashboard :: bool
  BackendsConfigPath :: string
  S3AccountID :: string
  S3Region :: string
  S3AccessKeyID :: string
  S3SecretAccessKey :: string
  S3AllowedSkewSec :: int
  KMSPasswordKeyPath :: string
  SQLitePath :: string
  SQLiteBusyTimeoutMS :: int
  SQLiteMaxOpenConns :: int
  ChunkSize :: int
  ChunkConcurrency :: int
  CompressionLevel :: int
  EncryptionMethod :: string
  FailureTolerance :: int

section \<open>Parameters\<close>

text \<open>Values the two client libraries return.\<close>

record attachment =
  att_URL :: string
  att_ProxyURL :: string

record td_file =
  td_completed :: bool
  td_path :: string

text \<open>The three base64 fields of the encrypted key payload (\<open>kms.go\<close>, \<open>encryptedPayload\<close>),
  which \<open>encoding/json\<close> writes and reads.\<close>

record encryptedPayload =
  SaltB64 :: string
  NonceB64 :: string
  CiphertextB64 :: string

text \<open>A setting that \<open>yaml.v3\<close> decoded into an \<open>any\<close>: a signed integer of any width, an unsigned one of up
  to 32 bits or of type \<open>uint\<close>, a \<open>uint64\<close>, a \<open>float64\<close> (by its value truncated towards zero), a string, or
  anything else; and an entry of \<open>backends.yaml\<close> (\<open>backendconfig/config.go\<close>).\<close>

datatype any_val = AnyInt int | AnyUint nat | AnyUint64 nat | AnyFloat int | AnyString string | AnyOther

record BackendDef =
  Def_ID :: string
  Def_Kind :: string
  Def_Enabled :: bool
  Def_Settings :: "string \<rightharpoonup> any_val"

record 'r env =
  Cfg :: config
  fault :: "nat \<Rightarrow> bool"
  uuid_new :: "nat \<Rightarrow> string"
  uuid_valid :: "string \<Rightarrow> bool"
  now_at :: "nat \<Rightarrow> gotime"
  sql_time :: "gotime \<Rightarrow> string"
  time_parse :: "string \<Rightarrow> string \<Rightarrow> gotime option"
  rand_read :: "nat \<Rightarrow> nat \<Rightarrow> bytes"
  sched :: "nat \<Rightarrow> nat list"
  xxhash64 :: "bytes \<Rightarrow> uint64"
  rs_new :: "nat \<Rightarrow> nat \<Rightarrow> bool"
  rs_encode :: "nat \<Rightarrow> nat \<Rightarrow> bytes list \<Rightarrow> bytes list option"
  rs_reconstruct :: "nat \<Rightarrow> nat \<Rightarrow> bytes option list \<Rightarrow> bytes option list option"
  zstd_writer :: "int \<Rightarrow> bool"
  zstd_encode :: "int \<Rightarrow> bytes \<Rightarrow> bytes"
  zstd_reader :: bool
  zstd_decode :: "bytes \<Rightarrow> bytes option"
  gcm_seal :: "bytes \<Rightarrow> bytes \<Rightarrow> bytes \<Rightarrow> bytes"
  gcm_open :: "bytes \<Rightarrow> bytes \<Rightarrow> bytes \<Rightarrow> bytes option"
  chacha_seal :: "bytes \<Rightarrow> bytes \<Rightarrow> bytes \<Rightarrow> bytes"
  chacha_open :: "bytes \<Rightarrow> bytes \<Rightarrow> bytes \<Rightarrow> bytes option"
  sha256 :: "bytes \<Rightarrow> bytes"
  b64_encode :: "bytes \<Rightarrow> string"
  b64_decode :: "string \<Rightarrow> bytes option"
  json_marshal :: "encryptedPayload \<Rightarrow> bytes option"
  json_unmarshal :: "bytes \<Rightarrow> encryptedPayload option"
  dg_new :: "string \<Rightarrow> bool"
  dg_message :: "'r \<Rightarrow> string \<Rightarrow> string \<Rightarrow> attachment list option"
  dg_request :: "'r \<Rightarrow> string \<Rightarrow> bytes option"
  dg_send :: "'r \<Rightarrow> string \<Rightarrow> bytes \<Rightarrow> string option \<times> 'r"
  dg_delete :: "'r \<Rightarrow> string \<Rightarrow> string \<Rightarrow> bool \<times> 'r"
  td_connect :: "'r \<Rightarrow> int \<Rightarrow> string \<Rightarrow> int \<Rightarrow> string \<Rightarrow> string \<Rightarrow> bool"
  td_message :: "'r \<Rightarrow> int \<Rightarrow> int \<Rightarrow> int option option"
  td_download :: "'r \<Rightarrow> int \<Rightarrow> td_file option option"
  td_local :: "'r \<Rightarrow> string \<Rightarrow> bytes option"
  td_send :: "'r \<Rightarrow> int \<Rightarrow> bytes \<Rightarrow> int option \<times> 'r"
  td_delete :: "'r \<Rightarrow> int \<Rightarrow> int \<Rightarrow> bool \<times> 'r"
  time_format :: "string \<Rightarrow> gotime \<Rightarrow> string"
  hmac_sum :: "bytes \<Rightarrow> bytes \<Rightarrow> bytes"
  hash_sum :: "string \<Rightarrow> bytes \<Rightarrow> bytes"
  xml_delete :: "bytes \<Rightarrow> (string list \<times> bool) option"
  xml_complete :: "bytes \<Rightarrow> (int \<times> string) list option"
  host_route :: "string list \<Rightarrow> (string \<times> string) list \<Rightarrow> string \<Rightarrow> string option"
  chi_match :: "string list \<Rightarrow> string \<Rightarrow> string \<Rightarrow> bool"
  router_status :: int
  yaml_backends :: "bytes \<Rightarrow> BackendDef list option"
  os_env :: "string \<Rightarrow> string option"
  float_int :: "nat \<Rightarrow> int \<Rightarrow> int"
  float_percent :: "int \<Rightarrow> int \<Rightarrow> int"
  float_fixed1 :: "int \<Rightarrow> int \<Rightarrow> string"
  parse_form :: "string \<Rightarrow> (string \<times> string) list \<Rightarrow> bytes \<Rightarrow> (string \<Rightarrow> string) option"

section \<open>The host state and its primitive operations\<close>

record 'r host =
  tick :: nat
  files :: "string \<rightharpoonup> bytes"
  remote :: 'r

definition next_tick :: "(('r, 'x) host_scheme, nat) comp" where
  "next_tick = (\<lambda>w. (Inr (tick w), w\<lparr>tick := Suc (tick w)\<rparr>))"

text \<open>A call to the outside that either works or returns an error.\<close>

definition ext_call :: "'r env \<Rightarrow> (('r, 'x) host_scheme, unit) comp" where
  "ext_call env = bindE next_tick (\<lambda>n. guardE (\<not> fault env n) ErrIO)"

definition uuid_New :: "'r env \<Rightarrow> (('r, 'x) host_scheme, string) comp" where
  "uuid_New env = bindE next_tick (\<lambda>n. returnE (uuid_new env n))"

definition time_Now :: "'r env \<Rightarrow> (('r, 'x) host_scheme, gotime) comp" where
  "time_Now env = bindE next_tick (\<lambda>n. returnE (now_at env n))"

definition rand_Read :: "'r env \<Rightarrow> nat \<Rightarrow> (('r, 'x) host_scheme, bytes) comp" where
  "rand_Read env len = bindE next_tick
     (\<lambda>n. if fault env n then raiseE ErrIO else returnE (rand_read env n len))"

definition os_ReadFile :: "string \<Rightarrow> (('r, 'x) host_scheme, bytes) comp" where
  "os_ReadFile path = bindE (getsE (\<lambda>w. files w path))
     (\<lambda>c. case c of None \<Rightarrow> raiseE ErrIO | Some d \<Rightarrow> returnE d)"

definition os_WriteFile :: "'r env \<Rightarrow> string \<Rightarrow> bytes \<Rightarrow> (('r, 'x) host_scheme, unit) comp" where
  "os_WriteFile env path d = bindE (ext_call env)
     (\<lambda>_. modifyE (\<lambda>w. w\<lparr>files := (files w)(path \<mapsto> d)\<rparr>))"

definition os_Remove :: "'r env \<Rightarrow> string \<Rightarrow> (('r, 'x) host_scheme, unit) comp" where
  "os_Remove env path = bindE (ext_call env) (\<lambda>_. bindE (getsE (\<lambda>w. files w path))
     (\<lambda>c. case c of None \<Rightarrow> raiseE ErrIO
        | Some _ \<Rightarrow> modifyE (\<lambda>w. w\<lparr>files := (files w)(path := None)\<rparr>)))"

lemmas host_defs = next_tick_def ext_call_def uuid_New_def time_Now_def rand_Read_def
  os_ReadFile_def os_WriteFile_def os_Remove_def

text \<open>No outside call fails: the hypothesis of the statements that an operation succeeds.\<close>

definition no_faults :: "'r env \<Rightarrow> bool" where
  "no_faults env \<longleftrightarrow> (\<forall>n. \<not> fault env n)"

text \<open>Documented behaviour of \<open>uuid.New\<close>: the identifiers it returns are pairwise different,
  non-empty, free of the path separator, and accepted by \<open>uuid.Parse\<close>.\<close>

definition uuid_law :: "'r env \<Rightarrow> bool" where
  "uuid_law env \<longleftrightarrow> inj (uuid_new env) \<and>
     (\<forall>n. uuid_new env n \<noteq> [] \<and> CHR ''/'' \<notin> set (uuid_new env n) \<and> uuid_valid env (uuid_new env n))"

lemma uuid_new_inject: "uuid_law env \<Longrightarrow> uuid_new env m = uuid_new env n \<longleftrightarrow> m = n"
  by (auto simp: uuid_law_def inj_def)

lemma next_tick_eq [simp]:
  "next_tick w = (r, w') \<longleftrightarrow> r = Inr (tick w) \<and> w' = w\<lparr>tick := Suc (tick w)\<rparr>"
  by (auto simp: next_tick_def)

lemma ext_call_eq:
  "ext_call env w = (if fault env (tick w) then Inl ErrIO else Inr (), w\<lparr>tick := Suc (tick w)\<rparr>)"
  by (simp add: ext_call_def next_tick_def comp_defs)

lemma uuid_New_eq:
  "uuid_New env w = (Inr (uuid_new env (tick w)), w\<lparr>tick := Suc (tick w)\<rparr>)"
  by (simp add: uuid_New_def next_tick_def comp_defs)

lemma time_Now_eq:
  "time_Now env w = (Inr (now_at env (tick w)), w\<lparr>tick := Suc (tick w)\<rparr>)"
  by (simp add: time_Now_def next_tick_def comp_defs)

lemma rand_Read_eq:
  "rand_Read env n w =
     (if fault env (tick w) then Inl ErrIO else Inr (rand_read env (tick w) n),
      w\<lparr>tick := Suc (tick w)\<rparr>)"
  by (simp add: rand_Read_def next_tick_def comp_defs)

lemma os_ReadFile_eq:
  "os_ReadFile p w = (case files w p of None \<Rightarrow> Inl ErrIO | Some d \<Rightarrow> Inr d, w)"
  by (simp add: os_ReadFile_def comp_defs split: option.splits)

lemma os_WriteFile_eq:
  "os_WriteFile env p d w =
     (if fault env (tick w) then (Inl ErrIO, w\<lparr>tick := Suc (tick w)\<rparr>)
      else (Inr (), w\<lparr>tick := Suc (tick w), files := (files w)(p \<mapsto> d)\<rparr>))"
  by (simp add: os_WriteFile_def ext_call_eq bindE_def)

lemma os_Remove_eq:
  "os_Remove env p w =
     (if fault env (tick w) \<or> files w p = None then (Inl ErrIO, w\<lparr>tick := Suc (tick w)\<rparr>)
      else (Inr (), w\<lparr>tick := Suc (tick w), files := (files w)(p := None)\<rparr>))"
  by (auto simp: os_Remove_def ext_call_eq bindE_def raiseE_def split: option.splits)

lemmas host_eqs = ext_call_eq uuid_New_eq time_Now_eq rand_Read_eq os_ReadFile_eq
  os_WriteFile_eq os_Remove_eq

end
