(* ===== verification/Strconv.thy ===== *)
theory Strconv
  imports Prelude
begin

text \<open>
  The parts of Go's packages \<open>strings\<close> and \<open>strconv\<close> the program uses, on byte strings:
  trimming, prefixes and suffixes, and the decimal formatting and parsing of 64-bit integers.
  White space is the ASCII white space of \<open>strings.TrimSpace\<close>. The locale \<open>text_codec\<close>
  states what the callers rely on: a printed value parses back to itself.
\<close>

section \<open>strings\<close>

definition isSpace :: "char \<Rightarrow> bool" where
  "isSpace c \<longleftrightarrow> of_char c \<in> {9, 10, 11, 12, 13, 32 :: nat}"

definition trimSpace :: "string \<Rightarrow> string" where
  "trimSpace s = rev (dropWhile isSpace (rev (dropWhile isSpace s)))"

definition hasPrefix :: "string \<Rightarrow> string \<Rightarrow> bool" where
  "hasPrefix s p \<longleftrightarrow> take (length p) s = p"

definition trimPrefix :: "string \<Rightarrow> string \<Rightarrow> string" where
  "trimPrefix s p = (if hasPrefix s p then drop (length p) s else s)"

definition hasSuffix :: "string \<Rightarrow> string \<Rightarrow> bool" where
  "hasSuffix s p \<longleftrightarrow> length p \<le> length s \<and> drop (length s - length p) s = p"

definition trimSuffix :: "string \<Rightarrow> string \<Rightarrow> string" where
  "trimSuffix s p = (if hasSuffix s p then take (length s - length p) s else s)"

lemma hasPrefix_append [simp]: "hasPrefix (p @ s) p"
  by (simp add: hasPrefix_def)

lemma trimPrefix_append [simp]: "trimPrefix (p @ s) p = s"
  by (simp add: trimPrefix_def)

lemma hasSuffix_append [simp]: "hasSuffix (s @ p) p"
  by (simp add: hasSuffix_def)

lemma trimSuffix_append [simp]: "trimSuffix (s @ p) p = s"
  by (simp add: trimSuffix_def)

lemma trimSpace_id:
  assumes "s \<noteq> []" and "\<not> isSpace (hd s)" and "\<not> isSpace (last s)"
  shows "trimSpace s = s"
proof -
  from assms(1,2) have "dropWhile isSpace s = s" by (cases s) auto
  moreover from assms(1,3) have "dropWhile isSpace (rev s) = rev s"
    by (cases "rev s") (auto simp: last_rev hd_rev dest: arg_cong [of _ _ hd])
  ultimately show ?thesis by (simp add: trimSpace_def)
qed

section \<open>Decimal numbers\<close>

definition digit :: "nat \<Rightarrow> char" where
  "digit n = char_of (48 + n)"

definition digit_val :: "char \<Rightarrow> nat option" where
  "digit_val c = (let n = of_char c in if 48 \<le> n \<and> n \<le> 57 then Some (n - 48) else None)"

fun dec :: "nat \<Rightarrow> string" where
  "dec n = (if n < 10 then [digit n] else dec (n div 10) @ [digit (n mod 10)])"

declare dec.simps [simp del]

fun parse_dec_acc :: "nat \<Rightarrow> string \<Rightarrow> nat option" where
  "parse_dec_acc a [] = Some a"
| "parse_dec_acc a (c # cs) =
     (case digit_val c of None \<Rightarrow> None | Some d \<Rightarrow> parse_dec_acc (10 * a + d) cs)"

definition parse_dec :: "string \<Rightarrow> nat option" where
  "parse_dec s = (if s = [] then None else parse_dec_acc 0 s)"

lemma digit_val_digit [simp]: "n < 10 \<Longrightarrow> digit_val (digit n) = Some n"
  by (simp add: digit_val_def digit_def of_char_of)

lemma parse_dec_acc_append:
  "parse_dec_acc a (xs @ ys) =
     (case parse_dec_acc a xs of None \<Rightarrow> None | Some b \<Rightarrow> parse_dec_acc b ys)"
  by (induction xs arbitrary: a) (auto split: option.splits)

lemma parse_dec_acc_dec: "parse_dec_acc 0 (dec n) = Some n"
proof (induction n rule: dec.induct)
  case (1 n)
  show ?case
  proof (cases "n < 10")
    case True
    then show ?thesis by (simp add: dec.simps [of n])
  next
    case False
    with 1 have "parse_dec_acc 0 (dec (n div 10)) = Some (n div 10)" by simp
    with False show ?thesis
      by (simp add: dec.simps [of n] parse_dec_acc_append)
  qed
qed

lemma dec_nonempty [simp]: "dec n \<noteq> []"
  by (simp add: dec.simps [of n])

lemma parse_dec_dec [simp]: "parse_dec (dec n) = Some n"
  by (simp add: parse_dec_def parse_dec_acc_dec)

lemma dec_digits: "c \<in> set (dec n) \<Longrightarrow> \<exists>d < 10. c = digit d"
proof (induction n rule: dec.induct)
  case (1 n)
  then show ?case
    by (cases "n < 10") (auto simp: dec.simps [of n] intro: exI [of _ "n mod 10"])
qed

lemma digit_neq:
  assumes "d < 10"
  shows "digit d \<noteq> CHR ''-''" "digit d \<noteq> CHR ''+''" "\<not> isSpace (digit d)"
proof -
  have "of_char (digit d) = 48 + d" using assms by (simp add: digit_def of_char_of)
  moreover have "of_char CHR ''-'' = (45 :: nat)" "of_char CHR ''+'' = (43 :: nat)" by simp_all
  ultimately show "digit d \<noteq> CHR ''-''" "digit d \<noteq> CHR ''+''"
    by (auto dest: arg_cong [of _ _ "of_char :: char \<Rightarrow> nat"])
  show "\<not> isSpace (digit d)"
    using \<open>of_char (digit d) = 48 + d\<close> by (simp add: isSpace_def)
qed

section \<open>strconv\<close>

definition FormatUint :: "uint64 \<Rightarrow> string" where
  "FormatUint x = dec (unat x)"

definition ParseUint :: "string \<Rightarrow> uint64 res" where
  "ParseUint s = (case parse_dec s of
      None \<Rightarrow> Inl (ErrParse s)
    | Some n \<Rightarrow> if n < 2 ^ 64 then Inr (word_of_nat n) else Inl (ErrParse s))"

definition FormatInt :: "int \<Rightarrow> string" where
  "FormatInt x = (if x < 0 then ''-'' @ dec (nat (- x)) else dec (nat x))"

definition ParseInt :: "nat \<Rightarrow> string \<Rightarrow> int res" where
  "ParseInt bits s =
     (let neg = (s \<noteq> [] \<and> hd s = CHR ''-'');
          body = (if s \<noteq> [] \<and> (hd s = CHR ''-'' \<or> hd s = CHR ''+'') then tl s else s)
      in case parse_dec body of
           None \<Rightarrow> Inl (ErrParse s)
         | Some n \<Rightarrow>
             (if neg then (if n \<le> 2 ^ (bits - 1) then Inr (- int n) else Inl (ErrParse s))
              else (if n < 2 ^ (bits - 1) then Inr (int n) else Inl (ErrParse s))))"

definition int_range :: "nat \<Rightarrow> int \<Rightarrow> bool" where
  "int_range bits x \<longleftrightarrow> - (2 ^ (bits - 1)) \<le> x \<and> x < 2 ^ (bits - 1)"

locale text_codec =
  fixes ok :: "'a \<Rightarrow> bool"
    and enc :: "'a \<Rightarrow> string"
    and parse :: "string \<Rightarrow> 'a res"
  assumes parse_enc: "ok x \<Longrightarrow> parse (enc x) = Inr x"
begin

lemma enc_inject: "ok x \<Longrightarrow> ok y \<Longrightarrow> enc x = enc y \<longleftrightarrow> x = y"
  by (metis parse_enc sum.inject(2))

text \<open>Reading back a column of printed values.\<close>

lemma parse_all:
  "(\<forall>x \<in> set xs. ok x) \<Longrightarrow> mapE (\<lambda>t. liftE (parse t)) (map enc xs) s = (Inr xs, s)"
  by (induction xs) (simp_all add: parse_enc bindE_eq_Inr_iff)

end

lemma dec_hd_last:
  shows dec_hd: "\<exists>d < 10. hd (dec n) = digit d" and dec_last: "\<exists>d < 10. last (dec n) = digit d"
  using dec_digits [of _ n] by (simp_all add: hd_in_set last_in_set)

interpretation u64: text_codec "\<lambda>_. True" FormatUint ParseUint
proof unfold_locales
  fix x :: uint64
  have "unat x < 2 ^ 64" using unsigned_less [where ?w = x and ?'a = nat] by simp
  then show "ParseUint (FormatUint x) = Inr x"
    by (simp add: ParseUint_def FormatUint_def)
qed

interpretation i64: text_codec "int_range 64" FormatInt "ParseInt 64"
proof unfold_locales
  fix x assume x: "int_range 64 x"
  obtain d where d: "d < 10" "hd (dec (nat x)) = digit d" using dec_hd by blast
  show "ParseInt 64 (FormatInt x) = Inr x"
  proof (cases "x < 0")
    case True
    with x show ?thesis
      by (simp add: ParseInt_def FormatInt_def int_range_def nat_le_iff)
  next
    case False
    with x d digit_neq [of d] show ?thesis
      by (simp add: ParseInt_def FormatInt_def int_range_def nat_less_iff)
  qed
qed

lemma trim_FormatInt: "trimSpace (FormatInt x) = FormatInt x"
proof -
  have dash: "\<not> isSpace CHR ''-''" by (simp add: isSpace_def)
  have h: "\<not> isSpace (hd (dec n))" and l: "\<not> isSpace (last (dec n))" for n
    using dec_hd [of n] dec_last [of n] digit_neq(3) by auto
  have "\<not> isSpace (hd (FormatInt x))" "\<not> isSpace (last (FormatInt x))" "FormatInt x \<noteq> []"
    using h l dash by (auto simp: FormatInt_def)
  then show ?thesis by (simp add: trimSpace_id)
qed

lemma FormatInt_nonempty: "FormatInt x \<noteq> []"
  by (simp add: FormatInt_def)

end
