(* ===== verification/Interfaces.thy ===== *)
theory Interfaces
  imports Host Strconv
begin

text \<open>
  The storage backends (\<open>storage/interfaces\<close>): the three drivers behind the Go interface
  \<open>Service\<close> (\<open>file.go\<close>, \<open>discord.go\<close>, \<open>telegram.go\<close>, \<open>telegram_remote_unix.go\<close>), the
  registry of configured instances (\<open>registry.go\<close>) and the functions the sharding layer
  calls (\<open>service.go\<close>: \<open>GetMaxShardSize\<close>, \<open>GetShard\<close>, \<open>PutShard\<close>, \<open>DeleteShard\<close>).

  Reads depend on the state only and never fail at random: an unreachable backend is a state
  in which its reads fail. What the backends promise is in \<open>Backend_Laws\<close>.
\<close>

section \<open>State\<close>

record file_service =
  fs_fail :: bool
  fs_dir :: string

text \<open>The pointer fields \<open>session\<close> and \<open>remote\<close> only record whether a client was made; a nil
  map is an empty one.\<close>

record discord_service =
  ds_channelID :: string
  ds_botToken :: string
  ds_session :: bool
  ds_objects :: "string \<rightharpoonup> bytes"

record telegram_service =
  tg_chatID :: int
  tg_botToken :: string
  tg_apiID :: int
  tg_apiHash :: string
  tg_tdlibWorkDir :: string
  tg_remote :: bool
  tg_objects :: "string \<rightharpoonup> bytes"

datatype service =
    FileService file_service
  | DiscordService discord_service
  | TelegramService telegram_service

type_synonym BackendType = string

record 'r iface = "'r host" +
  instances :: "BackendType \<rightharpoonup> service"
  availableBackends :: "BackendType list"

text \<open>The registry: a service is reached through the identifier of its instance, and the
  methods with a pointer receiver write their fields back under it (\<open>setService\<close>).\<close>

definition RegisterInstance :: "BackendType \<Rightarrow> service \<Rightarrow> (('r, 'x) iface_scheme, unit) comp" where
  "RegisterInstance b svc = modifyE (\<lambda>w. w\<lparr>instances := (instances w)(b \<mapsto> svc)\<rparr>)"

abbreviation setService :: "BackendType \<Rightarrow> service \<Rightarrow> (('r, 'x) iface_scheme, unit) comp" where
  "setService \<equiv> RegisterInstance"

definition getService :: "BackendType \<Rightarrow> (('r, 'x) iface_scheme, service) comp" where
  "getService b = bindE (getsE (\<lambda>w. instances w b))
     (\<lambda>s. case s of None \<Rightarrow> raiseE (ErrUnconfiguredBackend b) | Some svc \<Rightarrow> returnE svc)"

definition SetAvailableBackends :: "BackendType list \<Rightarrow> (('r, 'x) iface_scheme, unit) comp" where
  "SetAvailableBackends bs = modifyE (\<lambda>w. w\<lparr>availableBackends := bs\<rparr>)"

definition GetAvailableBackends :: "(('r, 'x) iface_scheme, BackendType list) comp" where
  "GetAvailableBackends = getsE availableBackends"

section \<open>The file driver\<close>

definition storageDirectory :: "file_service \<Rightarrow> string" where
  "storageDirectory s = (if fs_dir s = [] then ''./testdata'' else fs_dir s)"

text \<open>\<open>filepath.Clean\<close> and \<open>filepath.Join\<close> on Unix: empty and \<open>.\<close> elements go, \<open>..\<close> takes
  back the element before it (kept at the front of a relative path, dropped at the root).\<close>

fun splitSlash :: "string \<Rightarrow> string list" where
  "splitSlash [] = [[]]"
| "splitSlash (c # cs) =
     (if c = CHR ''/'' then [] # splitSlash cs
      else case splitSlash cs of [] \<Rightarrow> [[c]] | x # xs \<Rightarrow> (c # x) # xs)"

fun joinSlash :: "string list \<Rightarrow> string" where
  "joinSlash [] = []"
| "joinSlash [x] = x"
| "joinSlash (x # y # ys) = x @ ''/'' @ joinSlash (y # ys)"

definition clean_elem :: "bool \<Rightarrow> string list \<Rightarrow> string \<Rightarrow> string list" where
  "clean_elem rooted out x =
     (if x = [] \<or> x = ''.'' then out
      else if x = ''..'' then
        (if out \<noteq> [] \<and> last out \<noteq> ''..'' then butlast out
         else if rooted then out else out @ [''..''])
      else out @ [x])"

definition filepath_Clean :: "string \<Rightarrow> string" where
  "filepath_Clean path =
     (let rooted = hasPrefix path ''/'';
          out = (if rooted then ''/'' else []) @
                joinSlash (foldl (clean_elem rooted) [] (splitSlash path))
      in if out = [] then ''.'' else out)"

definition filepath_Join :: "string \<Rightarrow> string \<Rightarrow> string" where
  "filepath_Join dir name =
     (if dir \<noteq> [] then filepath_Clean (dir @ ''/'' @ name)
      else if name \<noteq> [] then filepath_Clean name else [])"

definition generateLocation :: "'r env \<Rightarrow> (('r, 'x) iface_scheme, string) comp" where
  "generateLocation env = bindE (uuid_New env) (\<lambda>u. returnE (''shard_'' @ u))"

definition file_GetMaxObjectSize :: nat where
  "file_GetMaxObjectSize = 30 * 1024 * 1024"

definition file_GetObject :: "file_service \<Rightarrow> string \<Rightarrow> (('r, 'x) iface_scheme, bytes) comp" where
  "file_GetObject s location =
     (if fs_fail s then raiseE ErrSimulated
      else os_ReadFile (filepath_Join (storageDirectory s) location))"

definition file_PutObject :: "'r env \<Rightarrow> file_service \<Rightarrow> bytes \<Rightarrow> (('r, 'x) iface_scheme, string) comp" where
  "file_PutObject env s data =
     (if fs_fail s then raiseE ErrSimulated
      else bindE (ext_call env)
        (\<lambda>_. bindE (generateLocation env)
        (\<lambda>location. bindE (os_WriteFile env (filepath_Join (storageDirectory s) location) data)
        (\<lambda>_. returnE location))))"

definition file_DeleteObject :: "'r env \<Rightarrow> file_service \<Rightarrow> string \<Rightarrow> (('r, 'x) iface_scheme, unit) comp" where
  "file_DeleteObject env s location =
     (if fs_fail s then raiseE ErrSimulated
      else os_Remove env (filepath_Join (storageDirectory s) location))"

section \<open>The Discord driver\<close>

definition discordMaxObjectSize :: nat where
  "discordMaxObjectSize = 25 * 1024 * 1024"

definition ds_isConfigured :: "discord_service \<Rightarrow> bool" where
  "ds_isConfigured s \<longleftrightarrow> trimSpace (ds_channelID s) \<noteq> [] \<and> trimSpace (ds_botToken s) \<noteq> []"

definition ds_getSession :: "'r env \<Rightarrow> BackendType \<Rightarrow> discord_service \<Rightarrow> (('r, 'x) iface_scheme, unit) comp" where
  "ds_getSession env b s =
     (if ds_session s then returnE ()
      else let t = trimSpace (ds_botToken s);
               token = (if hasPrefix t ''Bot '' then t else ''Bot '' @ t)
           in if dg_new env token then setService b (DiscordService (s\<lparr>ds_session := True\<rparr>))
              else raiseE (ErrRemote ''create session''))"

definition ds_getObjectInMemory :: "discord_service \<Rightarrow> string \<Rightarrow> bytes res" where
  "ds_getObjectInMemory s location =
     (case ds_objects s location of None \<Rightarrow> Inl (ErrBlobNotFound location) | Some d \<Rightarrow> Inr d)"

definition ds_putObjectInMemory ::
  "'r env \<Rightarrow> BackendType \<Rightarrow> discord_service \<Rightarrow> bytes \<Rightarrow> (('r, 'x) iface_scheme, string) comp" where
  "ds_putObjectInMemory env b s data = bindE (uuid_New env) (\<lambda>u.
     bindE (setService b (DiscordService (s\<lparr>ds_objects := (ds_objects s)(''discord-'' @ u \<mapsto> data)\<rparr>)))
       (\<lambda>_. returnE (''discord-'' @ u)))"

definition ds_deleteObjectInMemory ::
  "BackendType \<Rightarrow> discord_service \<Rightarrow> string \<Rightarrow> (('r, 'x) iface_scheme, unit) comp" where
  "ds_deleteObjectInMemory b s location =
     (if ds_objects s location = None then raiseE (ErrBlobNotFound location)
      else setService b (DiscordService (s\<lparr>ds_objects := (ds_objects s)(location := None)\<rparr>)))"

text \<open>The read of a message's attachment, once a session exists.\<close>

definition ds_download :: "'r env \<Rightarrow> 'r \<Rightarrow> string \<Rightarrow> string \<Rightarrow> bytes res" where
  "ds_download env r channel location =
     (case dg_message env r channel location of
        None \<Rightarrow> Inl (ErrRemote ''get message'')
      | Some [] \<Rightarrow> Inl (ErrNoAttachment location)
      | Some (a # _) \<Rightarrow>
          (let url = (if att_URL a = [] then att_ProxyURL a else att_URL a)
           in if url = [] then Inl (ErrEmptyURL location)
              else case dg_request env r url of
                     None \<Rightarrow> Inl (ErrRemote ''download attachment'')
                   | Some body \<Rightarrow> Inr body))"

definition discord_GetObject ::
  "'r env \<Rightarrow> BackendType \<Rightarrow> discord_service \<Rightarrow> string \<Rightarrow> (('r, 'x) iface_scheme, bytes) comp" where
  "discord_GetObject env b s location =
     (if \<not> ds_isConfigured s then liftE (ds_getObjectInMemory s location)
      else bindE (ds_getSession env b s) (\<lambda>_. bindE (getsE remote)
             (\<lambda>r. liftE (ds_download env r (ds_channelID s) location))))"

definition discord_PutObject ::
  "'r env \<Rightarrow> BackendType \<Rightarrow> discord_service \<Rightarrow> bytes \<Rightarrow> (('r, 'x) iface_scheme, string) comp" where
  "discord_PutObject env b s data =
     (if discordMaxObjectSize < length data then raiseE (ErrTooLarge (length data) discordMaxObjectSize)
      else if \<not> ds_isConfigured s then ds_putObjectInMemory env b s data
      else bindE (ds_getSession env b s) (\<lambda>_ w.
        case dg_send env (remote w) (ds_channelID s) data of
          (None, r') \<Rightarrow> (Inl (ErrRemote ''upload shard''), w\<lparr>remote := r'\<rparr>)
        | (Some msg, r') \<Rightarrow> (Inr msg, w\<lparr>remote := r'\<rparr>)))"

definition discord_DeleteObject ::
  "'r env \<Rightarrow> BackendType \<Rightarrow> discord_service \<Rightarrow> string \<Rightarrow> (('r, 'x) iface_scheme, unit) comp" where
  "discord_DeleteObject env b s location =
     (if \<not> ds_isConfigured s then ds_deleteObjectInMemory b s location
      else bindE (ds_getSession env b s) (\<lambda>_ w.
        case dg_delete env (remote w) (ds_channelID s) location of
          (ok, r') \<Rightarrow> (if ok then Inr () else Inl (ErrRemote ''delete message''), w\<lparr>remote := r'\<rparr>)))"

section \<open>The Telegram driver\<close>

definition telegramMaxObjectSize :: nat where
  "telegramMaxObjectSize = 2 * 1024 * 1024 * 1024"

definition tg_isConfigured :: "telegram_service \<Rightarrow> bool" where
  "tg_isConfigured s \<longleftrightarrow> tg_chatID s \<noteq> 0 \<and> tg_botToken s \<noteq> [] \<and> tg_apiID s \<noteq> 0 \<and> tg_apiHash s \<noteq> []"

text \<open>\<open>newTelegramRemote\<close>: the working directory defaults to one named after the chat; making
  the directories, the client and opening the chat is the parameter \<open>td_connect\<close>.\<close>

definition newTelegramRemote :: "'r env \<Rightarrow> 'r \<Rightarrow> telegram_service \<Rightarrow> bool" where
  "newTelegramRemote env r s =
     (let wd = trimSpace (tg_tdlibWorkDir s);
          workDir = (if wd = [] then ''/tmp/shards3-tdlib-'' @ FormatInt (tg_chatID s) else wd)
      in td_connect env r (tg_chatID s) (tg_botToken s) (tg_apiID s) (tg_apiHash s) workDir)"

definition tg_getRemote :: "'r env \<Rightarrow> BackendType \<Rightarrow> telegram_service \<Rightarrow> (('r, 'x) iface_scheme, unit) comp" where
  "tg_getRemote env b s =
     (if tg_remote s then returnE ()
      else bindE (getsE remote) (\<lambda>r.
        if newTelegramRemote env r s then setService b (TelegramService (s\<lparr>tg_remote := True\<rparr>))
        else raiseE (ErrRemote ''initialize tdlib client'')))"

definition tg_getObjectInMemory :: "telegram_service \<Rightarrow> string \<Rightarrow> bytes res" where
  "tg_getObjectInMemory s location =
     (case tg_objects s location of None \<Rightarrow> Inl (ErrBlobNotFound location) | Some d \<Rightarrow> Inr d)"

definition tg_putObjectInMemory ::
  "'r env \<Rightarrow> BackendType \<Rightarrow> telegram_service \<Rightarrow> bytes \<Rightarrow> (('r, 'x) iface_scheme, string) comp" where
  "tg_putObjectInMemory env b s data = bindE (uuid_New env) (\<lambda>u.
     bindE (setService b (TelegramService (s\<lparr>tg_objects := (tg_objects s)(''telegram-'' @ u \<mapsto> data)\<rparr>)))
       (\<lambda>_. returnE (''telegram-'' @ u)))"

definition tg_deleteObjectInMemory ::
  "BackendType \<Rightarrow> telegram_service \<Rightarrow> string \<Rightarrow> (('r, 'x) iface_scheme, unit) comp" where
  "tg_deleteObjectInMemory b s location =
     (if tg_objects s location = None then raiseE (ErrBlobNotFound location)
      else setService b (TelegramService (s\<lparr>tg_objects := (tg_objects s)(location := None)\<rparr>)))"

definition parseTelegramMessageID :: "string \<Rightarrow> int res" where
  "parseTelegramMessageID location =
     (let trimmed = trimSpace location
      in if trimmed = [] then Inl (ErrBadLocation location)
         else case ParseInt 64 trimmed of
                Inl _ \<Rightarrow> Inl (ErrBadLocation location)
              | Inr messageID \<Rightarrow> if messageID = 0 then Inl (ErrBadLocation location) else Inr messageID)"

text \<open>\<open>telegramTDLibRemote\<close>: the document of a message is downloaded and read from disk.\<close>

definition td_GetObject :: "'r env \<Rightarrow> 'r \<Rightarrow> int \<Rightarrow> string \<Rightarrow> bytes res" where
  "td_GetObject env r chatID location =
     (case parseTelegramMessageID location of
        Inl e \<Rightarrow> Inl e
      | Inr messageID \<Rightarrow>
         (case td_message env r chatID messageID of
            None \<Rightarrow> Inl (ErrRemote ''get message'')
          | Some None \<Rightarrow> Inl (ErrNoDocument location)
          | Some (Some fileId) \<Rightarrow>
             (case td_download env r fileId of
                None \<Rightarrow> Inl (ErrRemote ''download file'')
              | Some None \<Rightarrow> Inl (ErrNotDownloaded location)
              | Some (Some f) \<Rightarrow>
                  (if \<not> td_completed f \<or> td_path f = [] then Inl (ErrNotDownloaded location)
                   else case td_local env r (td_path f) of
                          None \<Rightarrow> Inl ErrIO
                        | Some d \<Rightarrow> Inr d))))"

text \<open>The data goes through a temporary file (created, written, closed) before it is sent.\<close>

definition td_PutObject :: "'r env \<Rightarrow> int \<Rightarrow> bytes \<Rightarrow> (('r, 'x) iface_scheme, string) comp" where
  "td_PutObject env chatID data =
     bindE (ext_call env) (\<lambda>_. bindE (ext_call env) (\<lambda>_. bindE (ext_call env) (\<lambda>_ w.
       case td_send env (remote w) chatID data of
         (None, r') \<Rightarrow> (Inl (ErrRemote ''send document''), w\<lparr>remote := r'\<rparr>)
       | (Some mid, r') \<Rightarrow> (Inr (FormatInt mid), w\<lparr>remote := r'\<rparr>))))"

definition td_DeleteObject :: "'r env \<Rightarrow> int \<Rightarrow> string \<Rightarrow> (('r, 'x) iface_scheme, unit) comp" where
  "td_DeleteObject env chatID location =
     bindE (liftE (parseTelegramMessageID location)) (\<lambda>messageID w.
       case td_delete env (remote w) chatID messageID of
         (ok, r') \<Rightarrow> (if ok then Inr () else Inl (ErrRemote ''delete message''), w\<lparr>remote := r'\<rparr>))"

definition telegram_GetObject ::
  "'r env \<Rightarrow> BackendType \<Rightarrow> telegram_service \<Rightarrow> string \<Rightarrow> (('r, 'x) iface_scheme, bytes) comp" where
  "telegram_GetObject env b s location =
     (if \<not> tg_isConfigured s then liftE (tg_getObjectInMemory s location)
      else bindE (tg_getRemote env b s) (\<lambda>_. bindE (getsE remote)
             (\<lambda>r. liftE (td_GetObject env r (tg_chatID s) location))))"

definition telegram_PutObject ::
  "'r env \<Rightarrow> BackendType \<Rightarrow> telegram_service \<Rightarrow> bytes \<Rightarrow> (('r, 'x) iface_scheme, string) comp" where
  "telegram_PutObject env b s data =
     (if telegramMaxObjectSize < length data then raiseE (ErrTooLarge (length data) telegramMaxObjectSize)
      else if \<not> tg_isConfigured s then tg_putObjectInMemory env b s data
      else bindE (tg_getRemote env b s) (\<lambda>_. td_PutObject env (tg_chatID s) data))"

definition telegram_DeleteObject ::
  "'r env \<Rightarrow> BackendType \<Rightarrow> telegram_service \<Rightarrow> string \<Rightarrow> (('r, 'x) iface_scheme, unit) comp" where
  "telegram_DeleteObject env b s location =
     (if \<not> tg_isConfigured s then tg_deleteObjectInMemory b s location
      else bindE (tg_getRemote env b s) (\<lambda>_. td_DeleteObject env (tg_chatID s) location))"

section \<open>Dispatch\<close>

fun svc_GetMaxObjectSize :: "service \<Rightarrow> nat" where
  "svc_GetMaxObjectSize (FileService _) = file_GetMaxObjectSize"
| "svc_GetMaxObjectSize (DiscordService _) = discordMaxObjectSize"
| "svc_GetMaxObjectSize (TelegramService _) = telegramMaxObjectSize"

fun svc_GetObject :: "'r env \<Rightarrow> BackendType \<Rightarrow> service \<Rightarrow> string \<Rightarrow> (('r, 'x) iface_scheme, bytes) comp" where
  "svc_GetObject env b (FileService s) location = file_GetObject s location"
| "svc_GetObject env b (DiscordService s) location = discord_GetObject env b s location"
| "svc_GetObject env b (TelegramService s) location = telegram_GetObject env b s location"

fun svc_PutObject :: "'r env \<Rightarrow> BackendType \<Rightarrow> service \<Rightarrow> bytes \<Rightarrow> (('r, 'x) iface_scheme, string) comp" where
  "svc_PutObject env b (FileService s) data = file_PutObject env s data"
| "svc_PutObject env b (DiscordService s) data = discord_PutObject env b s data"
| "svc_PutObject env b (TelegramService s) data = telegram_PutObject env b s data"

fun svc_DeleteObject :: "'r env \<Rightarrow> BackendType \<Rightarrow> service \<Rightarrow> string \<Rightarrow> (('r, 'x) iface_scheme, unit) comp" where
  "svc_DeleteObject env b (FileService s) location = file_DeleteObject env s location"
| "svc_DeleteObject env b (DiscordService s) location = discord_DeleteObject env b s location"
| "svc_DeleteObject env b (TelegramService s) location = telegram_DeleteObject env b s location"

definition GetMaxShardSize :: "BackendType \<Rightarrow> (('r, 'x) iface_scheme, nat) comp" where
  "GetMaxShardSize b = bindE (getService b) (\<lambda>s. returnE (svc_GetMaxObjectSize s))"

definition GetShard :: "'r env \<Rightarrow> BackendType \<Rightarrow> string \<Rightarrow> (('r, 'x) iface_scheme, bytes) comp" where
  "GetShard env b location = bindE (getService b) (\<lambda>s. svc_GetObject env b s location)"

definition PutShard :: "'r env \<Rightarrow> BackendType \<Rightarrow> bytes \<Rightarrow> (('r, 'x) iface_scheme, string) comp" where
  "PutShard env b data = bindE (getService b) (\<lambda>s. svc_PutObject env b s data)"

definition DeleteShard :: "'r env \<Rightarrow> BackendType \<Rightarrow> string \<Rightarrow> (('r, 'x) iface_scheme, unit) comp" where
  "DeleteShard env b location = bindE (getService b) (\<lambda>s. svc_DeleteObject env b s location)"

end
