(* ===== verification/Database.thy ===== *)
theory Database
  imports Interfaces
begin

text \<open>
  The SQLite database (\<open>platform/db/db.go\<close>): its tables as lists of rows in insertion order,
  the statements the program executes as functions from databases to databases, with the
  constraints of the schema (primary keys, unique indexes, foreign keys with cascading deletes,
  the CHECK on chunk ownership), and transactions. A statement either takes effect as a whole
  or fails and changes nothing; a failed transaction restores the database it began with.
  Columns that only the program writes, and never as NULL, are not optional.

  Strings are byte strings ordered bytewise (SQLite's collation BINARY); \<open>LIKE\<close> ignores the
  case of ASCII letters and knows the wildcards \<open>%\<close> and \<open>_\<close>.
\<close>

section \<open>Tables\<close>

record kms_row =
  kms_id :: int
  kms_ciphertext :: bytes
  kms_created :: gotime
  kms_deleted :: "gotime option"

record bucket_row =
  bk_name :: string
  bk_created :: gotime
  bk_updated :: gotime

record object_row =
  ob_bucket :: string
  ob_key :: string
  ob_etag :: string
  ob_size :: int
  ob_ctype :: int
  ob_clevel :: int
  ob_created :: gotime
  ob_updated :: gotime

record upload_row =
  ul_id :: string
  ul_bucket :: string
  ul_key :: string
  ul_ctype :: int
  ul_clevel :: int
  ul_initiated :: gotime

record part_row =
  pa_upload :: string
  pa_number :: int
  pa_etag :: string
  pa_size :: int
  pa_created :: gotime

record chunk_row =
  ch_id :: string
  ch_bucket :: string
  ch_key :: "string option"
  ch_upload :: "string option"
  ch_part :: "int option"
  ch_ordinal :: int
  ch_shardSize :: int
  ch_dataShards :: int
  ch_parityShards :: int
  ch_encryption :: int
  ch_kms :: "int option"
  ch_size :: int

record shard_row =
  sh_chunk :: string
  sh_first :: int
  sh_last :: int
  sh_backend :: string
  sh_location :: string
  sh_verified :: gotime
  sh_checksum :: int

text \<open>\<open>kms_seq\<close> is the AUTOINCREMENT counter of \<open>kms_keys\<close>: the largest identifier ever used.\<close>

record database =
  kms_keys :: "kms_row list"
  kms_seq :: int
  t_buckets :: "bucket_row list"
  t_objects :: "object_row list"
  t_uploads :: "upload_row list"
  t_parts :: "part_row list"
  t_chunks :: "chunk_row list"
  t_shards :: "shard_row list"

text \<open>The schema as \<open>runMigrations\<close> leaves it on a new file.\<close>

definition empty_db :: database where
  "empty_db = \<lparr>kms_keys = [], kms_seq = 0, t_buckets = [], t_objects = [], t_uploads = [], t_parts = [],
     t_chunks = [], t_shards = []\<rparr>"

text \<open>The whole state: \<open>metaDB\<close> tells whether \<open>metadata.Configure\<close> was called, \<open>defaultKMS\<close> is the
  key file of the configured key manager.\<close>

record 'r world = "'r iface" +
  db :: database
  metaDB :: bool
  defaultKMS :: "string option"

section \<open>Statements\<close>

abbreviation obj_keys :: "database \<Rightarrow> (string \<times> string) set" where
  "obj_keys d \<equiv> (\<lambda>x. (ob_bucket x, ob_key x)) ` set (t_objects d)"

abbreviation part_keys :: "database \<Rightarrow> (string \<times> int) set" where
  "part_keys d \<equiv> (\<lambda>x. (pa_upload x, pa_number x)) ` set (t_parts d)"

abbreviation kms_ids :: "database \<Rightarrow> int set" where
  "kms_ids d \<equiv> kms_id ` set (kms_keys d)"

type_synonym 'a stmt = "database \<Rightarrow> ('a \<times> database) res"

text \<open>\<open>INSERT INTO kms_keys ... RETURNING id\<close>.\<close>

definition insert_kms :: "bytes \<Rightarrow> gotime \<Rightarrow> int stmt" where
  "insert_kms ciphertext now d =
     (let i = kms_seq d + 1
      in Inr (i, d\<lparr>kms_keys := kms_keys d @ [\<lparr>kms_id = i, kms_ciphertext = ciphertext, kms_created = now,
                  kms_deleted = None\<rparr>], kms_seq := i\<rparr>))"

definition delete_kms :: "int \<Rightarrow> gotime \<Rightarrow> nat stmt" where
  "delete_kms i now d =
     (let hit = (\<lambda>r. kms_id r = i \<and> kms_deleted r = None)
      in Inr (length (filter hit (kms_keys d)),
              d\<lparr>kms_keys := map (\<lambda>r. if hit r then r\<lparr>kms_deleted := Some now\<rparr> else r) (kms_keys d)\<rparr>))"

definition insert_bucket :: "string \<Rightarrow> gotime \<Rightarrow> unit stmt" where
  "insert_bucket name now d =
     (if name \<in> bk_name ` set (t_buckets d) then Inl (ErrConstraint ''buckets.name'')
      else Inr ((), d\<lparr>t_buckets := t_buckets d @ [\<lparr>bk_name = name, bk_created = now, bk_updated = now\<rparr>]\<rparr>))"

definition insert_or_ignore_bucket :: "string \<Rightarrow> gotime \<Rightarrow> unit stmt" where
  "insert_or_ignore_bucket name now d =
     (case insert_bucket name now d of Inl _ \<Rightarrow> Inr ((), d) | Inr r \<Rightarrow> Inr r)"

text \<open>Cascading deletes: shards of missing chunks go with the chunks, and so on upwards.\<close>

definition delete_chunks :: "(chunk_row \<Rightarrow> bool) \<Rightarrow> database \<Rightarrow> database" where
  "delete_chunks P d =
     d\<lparr>t_chunks := filter (\<lambda>c. \<not> P c) (t_chunks d),
       t_shards := filter (\<lambda>s. sh_chunk s \<notin> ch_id ` set (filter P (t_chunks d))) (t_shards d)\<rparr>"

definition delete_parts :: "(part_row \<Rightarrow> bool) \<Rightarrow> database \<Rightarrow> database" where
  "delete_parts P d =
     (let gone = (\<lambda>p. (pa_upload p, pa_number p)) ` set (filter P (t_parts d))
      in delete_chunks (\<lambda>c. case (ch_upload c, ch_part c) of (Some u, Some n) \<Rightarrow> (u, n) \<in> gone | _ \<Rightarrow> False)
           (d\<lparr>t_parts := filter (\<lambda>p. \<not> P p) (t_parts d)\<rparr>))"

definition delete_uploads :: "(upload_row \<Rightarrow> bool) \<Rightarrow> nat stmt" where
  "delete_uploads P d =
     Inr (length (filter P (t_uploads d)),
          delete_parts (\<lambda>p. pa_upload p \<in> ul_id ` set (filter P (t_uploads d)))
            (d\<lparr>t_uploads := filter (\<lambda>u. \<not> P u) (t_uploads d)\<rparr>))"

definition delete_objects :: "(object_row \<Rightarrow> bool) \<Rightarrow> nat stmt" where
  "delete_objects P d =
     (let gone = (\<lambda>r. (ob_bucket r, ob_key r)) ` set (filter P (t_objects d))
      in Inr (length (filter P (t_objects d)),
              delete_chunks (\<lambda>c. case ch_key c of Some k \<Rightarrow> (ch_bucket c, k) \<in> gone | None \<Rightarrow> False)
                (d\<lparr>t_objects := filter (\<lambda>r. \<not> P r) (t_objects d)\<rparr>)))"

definition delete_bucket :: "string \<Rightarrow> nat stmt" where
  "delete_bucket name d =
     (let d1 = d\<lparr>t_buckets := filter (\<lambda>b. bk_name b \<noteq> name) (t_buckets d)\<rparr>
      in case delete_objects (\<lambda>r. ob_bucket r = name) d1 of
           Inl e \<Rightarrow> Inl e
         | Inr (_, d2) \<Rightarrow>
             (case delete_uploads (\<lambda>u. ul_bucket u = name) d2 of
                Inl e \<Rightarrow> Inl e
              | Inr (_, d3) \<Rightarrow> Inr (length (filter (\<lambda>b. bk_name b = name) (t_buckets d)), d3)))"

text \<open>\<open>INSERT ... ON CONFLICT(bucket, object_key) DO UPDATE\<close>: an existing row keeps its place and
  its creation time.\<close>

definition upsert_object :: "object_row \<Rightarrow> unit stmt" where
  "upsert_object r d =
     (if ob_bucket r \<notin> bk_name ` set (t_buckets d) then Inl (ErrConstraint ''objects.bucket'')
      else if (ob_bucket r, ob_key r) \<in> obj_keys d
      then Inr ((), d\<lparr>t_objects := map (\<lambda>x. if (ob_bucket x, ob_key x) = (ob_bucket r, ob_key r)
                        then x\<lparr>ob_etag := ob_etag r, ob_size := ob_size r, ob_ctype := ob_ctype r,
                               ob_clevel := ob_clevel r, ob_updated := ob_updated r\<rparr> else x) (t_objects d)\<rparr>)
      else Inr ((), d\<lparr>t_objects := t_objects d @ [r]\<rparr>))"

definition insert_upload :: "upload_row \<Rightarrow> unit stmt" where
  "insert_upload u d =
     (if ul_bucket u \<notin> bk_name ` set (t_buckets d) then Inl (ErrConstraint ''multipart_uploads.bucket'')
      else if ul_id u \<in> ul_id ` set (t_uploads d) then Inl (ErrConstraint ''multipart_uploads.upload_id'')
      else Inr ((), d\<lparr>t_uploads := t_uploads d @ [u]\<rparr>))"

definition upsert_part :: "part_row \<Rightarrow> unit stmt" where
  "upsert_part p d =
     (if pa_upload p \<notin> ul_id ` set (t_uploads d) then Inl (ErrConstraint ''multipart_parts.upload_id'')
      else if (pa_upload p, pa_number p) \<in> part_keys d
      then Inr ((), d\<lparr>t_parts := map (\<lambda>x. if (pa_upload x, pa_number x) = (pa_upload p, pa_number p)
                        then p else x) (t_parts d)\<rparr>)
      else Inr ((), d\<lparr>t_parts := t_parts d @ [p]\<rparr>))"

text \<open>The constraints on a chunk row: one owner, which exists, an existing key, and an ordinal that
  no other chunk of the owner has (the two partial unique indexes).\<close>

definition chunk_refs :: "(string \<times> string) set \<Rightarrow> (string \<times> int) set \<Rightarrow> int set \<Rightarrow> chunk_row \<Rightarrow> bool" where
  "chunk_refs os ps ks c \<longleftrightarrow>
     (ch_key c = None) \<noteq> (ch_upload c = None) \<and>
     (case ch_key c of None \<Rightarrow> True | Some k \<Rightarrow> (ch_bucket c, k) \<in> os) \<and>
     (case (ch_upload c, ch_part c) of (Some u, Some n) \<Rightarrow> (u, n) \<in> ps | _ \<Rightarrow> True) \<and>
     (case ch_kms c of None \<Rightarrow> True | Some k \<Rightarrow> k \<in> ks)"

abbreviation chunk_refs_ok :: "database \<Rightarrow> chunk_row \<Rightarrow> bool" where
  "chunk_refs_ok d c \<equiv> chunk_refs (obj_keys d) (part_keys d) (kms_ids d) c"

definition ordinal_clash :: "chunk_row \<Rightarrow> chunk_row \<Rightarrow> bool" where
  "ordinal_clash c x \<longleftrightarrow>
     ch_key c \<noteq> None \<and> (ch_bucket x, ch_key x, ch_ordinal x) = (ch_bucket c, ch_key c, ch_ordinal c) \<or>
     ch_upload c \<noteq> None \<and> ch_part c \<noteq> None \<and>
       (ch_upload x, ch_part x, ch_ordinal x) = (ch_upload c, ch_part c, ch_ordinal c)"

definition insert_chunk_row :: "chunk_row \<Rightarrow> unit stmt" where
  "insert_chunk_row c d =
     (if ch_id c \<in> ch_id ` set (t_chunks d) then Inl (ErrConstraint ''chunks.id'')
      else if \<not> chunk_refs_ok d c then Inl (ErrConstraint ''chunks'')
      else if (\<exists>x \<in> set (t_chunks d). ordinal_clash c x) then Inl (ErrConstraint ''chunks.ordinal'')
      else Inr ((), d\<lparr>t_chunks := t_chunks d @ [c]\<rparr>))"

text \<open>\<open>UPDATE chunks SET object_key = ?, upload_id = NULL, part_number = NULL, ordinal = ? WHERE id = ?\<close>.\<close>

definition reassign_chunk :: "string \<Rightarrow> int \<Rightarrow> string \<Rightarrow> unit stmt" where
  "reassign_chunk key ordinal i d =
     (let new = (\<lambda>c. c\<lparr>ch_key := Some key, ch_upload := None, ch_part := None, ch_ordinal := ordinal\<rparr>)
      in if (\<exists>c \<in> set (t_chunks d). ch_id c = i \<and> (\<not> chunk_refs_ok d (new c) \<or>
               (\<exists>x \<in> set (t_chunks d). ch_id x \<noteq> i \<and> ordinal_clash (new c) x)))
         then Inl (ErrConstraint ''chunks'')
         else Inr ((), d\<lparr>t_chunks := map (\<lambda>c. if ch_id c = i then new c else c) (t_chunks d)\<rparr>))"

definition insert_shard_row :: "shard_row \<Rightarrow> unit stmt" where
  "insert_shard_row s d =
     (if sh_chunk s \<notin> ch_id ` set (t_chunks d) then Inl (ErrConstraint ''shards.chunk_id'')
      else if (sh_chunk s, sh_first s, sh_last s) \<in> (\<lambda>x. (sh_chunk x, sh_first x, sh_last x)) ` set (t_shards d)
      then Inl (ErrConstraint ''shards'')
      else Inr ((), d\<lparr>t_shards := t_shards d @ [s]\<rparr>))"

section \<open>Executing statements\<close>

definition exec :: "'r env \<Rightarrow> 'a stmt \<Rightarrow> (('r, 'x) world_scheme, 'a) comp" where
  "exec env st = bindE (ext_call env) (\<lambda>_ w.
     case st (db w) of Inl e \<Rightarrow> (Inl e, w) | Inr (x, d') \<Rightarrow> (Inr x, w\<lparr>db := d'\<rparr>))"

definition query :: "'r env \<Rightarrow> (database \<Rightarrow> 'a) \<Rightarrow> (('r, 'x) world_scheme, 'a) comp" where
  "query env f = bindE (ext_call env) (\<lambda>_. getsE (\<lambda>w. f (db w)))"

text \<open>\<open>tx := Begin(); defer tx.Rollback(); ...; return tx.Commit()\<close>.\<close>

definition transaction :: "'r env \<Rightarrow> (('r, 'x) world_scheme, 'a) comp \<Rightarrow> (('r, 'x) world_scheme, 'a) comp" where
  "transaction env body = bindE (ext_call env) (\<lambda>_ w.
     case bindE body (\<lambda>x. bindE (ext_call env) (\<lambda>_. returnE x)) w of
       (Inl e, w') \<Rightarrow> (Inl e, w'\<lparr>db := db w\<rparr>)
     | (Inr x, w') \<Rightarrow> (Inr x, w'))"

section \<open>Pattern matching\<close>

definition to_lower :: "char \<Rightarrow> char" where
  "to_lower c = (let n = (of_char c :: nat) in if 65 \<le> n \<and> n \<le> 90 then char_of (n + 32) else c)"

fun like :: "string \<Rightarrow> string \<Rightarrow> bool" where
  "like [] s \<longleftrightarrow> s = []"
| "like (p # ps) s \<longleftrightarrow>
     (if p = CHR ''%'' then like ps s \<or> (case s of [] \<Rightarrow> False | _ # cs \<Rightarrow> like (p # ps) cs)
      else case s of [] \<Rightarrow> False
         | c # cs \<Rightarrow> (p = CHR ''_'' \<or> to_lower p = to_lower c) \<and> like ps cs)"

text \<open>\<open>LIMIT ? OFFSET ?\<close>: a negative limit is none, a negative offset is zero.\<close>

definition limit_offset :: "int \<Rightarrow> int \<Rightarrow> 'a list \<Rightarrow> 'a list" where
  "limit_offset lim off xs =
     (let ys = drop (nat off) xs in if lim < 0 then ys else take (nat lim) ys)"

end
