(* ===== verification/Database_Laws.thy ===== *)
theory Database_Laws
  imports Database
begin

text \<open>
  The invariant of the database (keys are unique, every reference has its target, one owner and
  one place per chunk, key identifiers are never reused) and that every statement and every
  transaction keeps it; what a failed transaction leaves; what the other parts of the state see
  of the database.
\<close>

section \<open>The invariant\<close>

definition keys_unique :: "database \<Rightarrow> bool" where
  "keys_unique d \<longleftrightarrow> distinct (map kms_id (kms_keys d)) \<and> distinct (map bk_name (t_buckets d)) \<and>
     distinct (map (\<lambda>r. (ob_bucket r, ob_key r)) (t_objects d)) \<and> distinct (map ul_id (t_uploads d)) \<and>
     distinct (map (\<lambda>p. (pa_upload p, pa_number p)) (t_parts d)) \<and> distinct (map ch_id (t_chunks d)) \<and>
     distinct (map (\<lambda>s. (sh_chunk s, sh_first s, sh_last s)) (t_shards d))"

definition refs_ok :: "database \<Rightarrow> bool" where
  "refs_ok d \<longleftrightarrow> (\<forall>r \<in> set (t_objects d). ob_bucket r \<in> bk_name ` set (t_buckets d)) \<and>
     (\<forall>u \<in> set (t_uploads d). ul_bucket u \<in> bk_name ` set (t_buckets d)) \<and>
     (\<forall>p \<in> set (t_parts d). pa_upload p \<in> ul_id ` set (t_uploads d)) \<and>
     (\<forall>c \<in> set (t_chunks d). chunk_refs_ok d c) \<and>
     (\<forall>s \<in> set (t_shards d). sh_chunk s \<in> ch_id ` set (t_chunks d))"

definition ordinals_ok :: "database \<Rightarrow> bool" where
  "ordinals_ok d \<longleftrightarrow> (\<forall>c \<in> set (t_chunks d). \<forall>x \<in> set (t_chunks d). ch_id c \<noteq> ch_id x \<longrightarrow> \<not> ordinal_clash c x)"

definition kms_ok :: "database \<Rightarrow> bool" where
  "kms_ok d \<longleftrightarrow> 0 \<le> kms_seq d \<and> (\<forall>k \<in> set (kms_keys d). 0 < kms_id k \<and> kms_id k \<le> kms_seq d)"

definition db_inv :: "database \<Rightarrow> bool" where
  "db_inv d \<longleftrightarrow> keys_unique d \<and> refs_ok d \<and> ordinals_ok d \<and> kms_ok d"

lemmas db_inv_defs = db_inv_def keys_unique_def refs_ok_def ordinals_ok_def kms_ok_def

text \<open>A statement keeps the invariant.\<close>

definition stmt_ok :: "'a stmt \<Rightarrow> bool" where
  "stmt_ok st \<longleftrightarrow> (\<forall>d x d'. db_inv d \<longrightarrow> st d = Inr (x, d') \<longrightarrow> db_inv d')"

lemma empty_db_inv: "db_inv empty_db"
  by (simp add: db_inv_defs empty_db_def)

lemma distinct_map_filter: "distinct (map f xs) \<Longrightarrow> distinct (map f (filter P xs))"
  by (induction xs) auto

lemma chunk_refs_mono:
  "chunk_refs os ps ks c \<Longrightarrow> os \<subseteq> os' \<Longrightarrow> ps \<subseteq> ps' \<Longrightarrow> ks \<subseteq> ks' \<Longrightarrow> chunk_refs os' ps' ks' c"
  unfolding chunk_refs_def by (auto split: option.splits)

text \<open>Appending a row with a new key, and rewriting rows without touching their keys.\<close>

lemma image_set_map_id: "(\<And>x. k (f x) = k x) \<Longrightarrow> k ` set (map f xs) = k ` set xs"
  by (simp add: image_image)

lemma ball_set_map_id: "(\<And>x. k (f x) = k x) \<Longrightarrow> (\<forall>x \<in> set (map f xs). P (k x)) = (\<forall>x \<in> set xs. P (k x))"
  by simp

lemma map_map_id: "(\<And>x. k (f x) = k x) \<Longrightarrow> map k (map f xs) = map k xs"
  by simp

lemma image_filter_rest:
  "x \<in> k ` set xs \<Longrightarrow> x \<notin> k ` set (filter P xs) \<Longrightarrow> x \<in> k ` set (filter (\<lambda>y. \<not> P y) xs)"
  by auto

lemma insert_kms_ok: "stmt_ok (insert_kms c now)"
  by (auto simp: stmt_ok_def insert_kms_def Let_def db_inv_defs elim!: chunk_refs_mono)

lemma delete_kms_ok: "stmt_ok (delete_kms i now)"
  unfolding stmt_ok_def
proof (intro allI impI)
  fix d x d' assume inv: "db_inv d" and i: "delete_kms i now d = Inr (x, d')"
  let ?f = "\<lambda>r. if kms_id r = i \<and> kms_deleted r = None then r\<lparr>kms_deleted := Some now\<rparr> else r"
  have f: "kms_id (?f r) = kms_id r" for r by simp
  note k = image_set_map_id [of kms_id ?f, OF f] map_map_id [of kms_id ?f, OF f]
    ball_set_map_id [of kms_id ?f _ "\<lambda>i. 0 < i \<and> i \<le> kms_seq d", OF f]
  from i have d': "d' = d\<lparr>kms_keys := map ?f (kms_keys d)\<rparr>" by (simp add: delete_kms_def Let_def)
  from inv show "db_inv d'" unfolding d' db_inv_defs by (simp add: k del: set_map map_map)
qed

lemma insert_bucket_ok: "stmt_ok (insert_bucket n now)"
  by (auto simp: stmt_ok_def insert_bucket_def db_inv_defs split: if_splits)

lemma insert_or_ignore_bucket_ok: "stmt_ok (insert_or_ignore_bucket n now)"
  using insert_bucket_ok [of n now]
  by (auto simp: stmt_ok_def insert_or_ignore_bucket_def split: sum.splits)

lemma insert_upload_ok: "stmt_ok (insert_upload u)"
  by (auto simp: stmt_ok_def insert_upload_def db_inv_defs split: if_splits)

lemma upsert_object_ok: "stmt_ok (upsert_object r)"
  unfolding stmt_ok_def
proof (intro allI impI)
  fix d x d' assume inv: "db_inv d" and u: "upsert_object r d = Inr (x, d')"
  let ?k = "\<lambda>x. (ob_bucket x, ob_key x)"
  define f :: "object_row \<Rightarrow> object_row" where "f = (\<lambda>x. if ?k x = ?k r then x\<lparr>ob_etag := ob_etag r, ob_size := ob_size r, ob_ctype := ob_ctype r,
     ob_clevel := ob_clevel r, ob_updated := ob_updated r\<rparr> else x)"
  have f: "?k (f x) = ?k x" "ob_bucket (f x) = ob_bucket x" for x by (simp_all add: f_def)
  note k = image_set_map_id [of ?k f, OF f(1)] map_map_id [of ?k f, OF f(1)]
  note b = ball_set_map_id [of ob_bucket f _ "\<lambda>b. b \<in> bk_name ` set (t_buckets d)", OF f(2)]
  show "db_inv d'"
  proof (cases "?k r \<in> obj_keys d")
    case True
    with u have d': "d' = d\<lparr>t_objects := map f (t_objects d)\<rparr>"
      by (auto simp: upsert_object_def f_def split: if_splits)
    from inv show ?thesis unfolding d' db_inv_defs by (simp add: k b del: set_map map_map)
  next
    case False
    with u have d': "d' = d\<lparr>t_objects := t_objects d @ [r]\<rparr>" "ob_bucket r \<in> bk_name ` set (t_buckets d)"
      by (auto simp: upsert_object_def split: if_splits)
    with inv False show ?thesis by (auto simp: db_inv_defs elim!: chunk_refs_mono)
  qed
qed

lemma upsert_part_ok: "stmt_ok (upsert_part p)"
  unfolding stmt_ok_def
proof (intro allI impI)
  fix d x d' assume inv: "db_inv d" and u: "upsert_part p d = Inr (x, d')"
  let ?k = "\<lambda>x. (pa_upload x, pa_number x)"
  define f :: "part_row \<Rightarrow> part_row" where "f = (\<lambda>x. if ?k x = ?k p then p else x)"
  have f: "?k (f x) = ?k x" "pa_upload (f x) = pa_upload x" for x by (simp_all add: f_def)
  note k = image_set_map_id [of ?k f, OF f(1)] map_map_id [of ?k f, OF f(1)]
  note b = ball_set_map_id [of pa_upload f _ "\<lambda>u. u \<in> ul_id ` set (t_uploads d)", OF f(2)]
  show "db_inv d'"
  proof (cases "?k p \<in> part_keys d")
    case True
    with u have d': "d' = d\<lparr>t_parts := map f (t_parts d)\<rparr>"
      by (auto simp: upsert_part_def f_def split: if_splits)
    from inv show ?thesis unfolding d' db_inv_defs by (simp add: k b del: set_map map_map)
  next
    case False
    with u have d': "d' = d\<lparr>t_parts := t_parts d @ [p]\<rparr>" "pa_upload p \<in> ul_id ` set (t_uploads d)"
      by (auto simp: upsert_part_def split: if_splits)
    with inv False show ?thesis by (auto simp: db_inv_defs elim!: chunk_refs_mono)
  qed
qed

lemma ordinal_clash_sym:
  "chunk_refs os ps ks c \<Longrightarrow> chunk_refs os ps ks x \<Longrightarrow> ordinal_clash x c \<longleftrightarrow> ordinal_clash c x"
  by (auto simp: ordinal_clash_def chunk_refs_def)

lemma insert_chunk_row_ok: "stmt_ok (insert_chunk_row c)"
  unfolding stmt_ok_def
proof (intro allI impI)
  fix d x d' assume inv: "db_inv d" and u: "insert_chunk_row c d = Inr (x, d')"
  then have d': "d' = d\<lparr>t_chunks := t_chunks d @ [c]\<rparr>" and c: "ch_id c \<notin> ch_id ` set (t_chunks d)"
      "chunk_refs_ok d c" "\<forall>y \<in> set (t_chunks d). \<not> ordinal_clash c y"
    by (auto simp: insert_chunk_row_def split: if_splits)
  have "\<forall>y \<in> set (t_chunks d). \<not> ordinal_clash y c"
    using c(2,3) inv ordinal_clash_sym [OF c(2)] by (auto simp: db_inv_defs)
  with inv c show "db_inv d'" by (auto simp: db_inv_defs d')
qed

lemma insert_shard_row_ok: "stmt_ok (insert_shard_row s)"
  by (auto simp: stmt_ok_def insert_shard_row_def db_inv_defs split: if_splits)

section \<open>Deletes and updates\<close>

lemma delete_chunks_inv:
  assumes "keys_unique d" "ordinals_ok d" "kms_ok d"
    and "\<forall>r \<in> set (t_objects d). ob_bucket r \<in> bk_name ` set (t_buckets d)"
    and "\<forall>u \<in> set (t_uploads d). ul_bucket u \<in> bk_name ` set (t_buckets d)"
    and "\<forall>p \<in> set (t_parts d). pa_upload p \<in> ul_id ` set (t_uploads d)"
    and "\<forall>s \<in> set (t_shards d). sh_chunk s \<in> ch_id ` set (t_chunks d)"
    and "\<forall>c \<in> set (t_chunks d). \<not> P c \<longrightarrow> chunk_refs_ok d c"
  shows "db_inv (delete_chunks P d)"
proof -
  have "sh_chunk s \<in> ch_id ` set (filter (\<lambda>c. \<not> P c) (t_chunks d))"
    if "s \<in> set (t_shards d)" "sh_chunk s \<notin> ch_id ` set (filter P (t_chunks d))" for s
    using assms(7) that by auto
  with assms show ?thesis
    by (auto simp: db_inv_defs delete_chunks_def distinct_map_filter)
qed

lemma delete_chunks_ok: "db_inv d \<Longrightarrow> db_inv (delete_chunks P d)"
  by (rule delete_chunks_inv) (simp_all add: db_inv_def refs_ok_def)

lemma delete_objects_ok: "stmt_ok (delete_objects P)"
  unfolding stmt_ok_def
proof (intro allI impI)
  fix d x d' assume inv: "db_inv d" and e: "delete_objects P d = Inr (x, d')"
  let ?k = "\<lambda>r. (ob_bucket r, ob_key r)"
  let ?gone = "?k ` set (filter P (t_objects d))"
  let ?d = "d\<lparr>t_objects := filter (\<lambda>r. \<not> P r) (t_objects d)\<rparr>"
  let ?P = "\<lambda>c. case ch_key c of Some k \<Rightarrow> (ch_bucket c, k) \<in> ?gone | None \<Rightarrow> False"
  from e have d': "d' = delete_chunks ?P ?d" by (simp only: delete_objects_def Let_def sum.inject prod.inject)
  have "chunk_refs_ok ?d c" if "c \<in> set (t_chunks d)" "\<not> ?P c" for c
  proof -
    have "chunk_refs_ok d c" using inv that(1) by (simp add: db_inv_defs)
    with that(2) show ?thesis unfolding chunk_refs_def by (fastforce split: option.splits)
  qed
  with inv show "db_inv d'"
    unfolding d' by (intro delete_chunks_inv) (auto simp: db_inv_defs distinct_map_filter)
qed

lemma delete_parts_inv:
  assumes "keys_unique d" "ordinals_ok d" "kms_ok d"
    and "\<forall>r \<in> set (t_objects d). ob_bucket r \<in> bk_name ` set (t_buckets d)"
    and "\<forall>u \<in> set (t_uploads d). ul_bucket u \<in> bk_name ` set (t_buckets d)"
    and "\<forall>p \<in> set (t_parts d). \<not> P p \<longrightarrow> pa_upload p \<in> ul_id ` set (t_uploads d)"
    and "\<forall>s \<in> set (t_shards d). sh_chunk s \<in> ch_id ` set (t_chunks d)"
    and "\<forall>c \<in> set (t_chunks d). chunk_refs_ok d c"
  shows "db_inv (delete_parts P d)"
proof -
  let ?k = "\<lambda>p. (pa_upload p, pa_number p)"
  let ?gone = "?k ` set (filter P (t_parts d))"
  let ?d = "d\<lparr>t_parts := filter (\<lambda>p. \<not> P p) (t_parts d)\<rparr>"
  let ?P = "\<lambda>c. case (ch_upload c, ch_part c) of (Some u, Some n) \<Rightarrow> (u, n) \<in> ?gone | _ \<Rightarrow> False"
  have "chunk_refs_ok ?d c" if "c \<in> set (t_chunks d)" "\<not> ?P c" for c
  proof -
    have "chunk_refs_ok d c" using assms(8) that(1) by simp
    with that(2) show ?thesis unfolding chunk_refs_def by (fastforce split: option.splits)
  qed
  with assms(1-7) have "db_inv (delete_chunks ?P ?d)"
    by (intro delete_chunks_inv) (auto simp: db_inv_defs distinct_map_filter)
  then show ?thesis by (simp only: delete_parts_def Let_def)
qed

lemma delete_uploads_ok: "stmt_ok (delete_uploads P)"
  unfolding stmt_ok_def
proof (intro allI impI)
  fix d x d' assume inv: "db_inv d" and e: "delete_uploads P d = Inr (x, d')"
  let ?d = "d\<lparr>t_uploads := filter (\<lambda>u. \<not> P u) (t_uploads d)\<rparr>"
  from e have d': "d' = delete_parts (\<lambda>p. pa_upload p \<in> ul_id ` set (filter P (t_uploads d))) ?d"
    by (simp only: delete_uploads_def sum.inject prod.inject)
  have "pa_upload p \<in> ul_id ` set (t_uploads ?d)"
    if "p \<in> set (t_parts d)" "pa_upload p \<notin> ul_id ` set (filter P (t_uploads d))" for p
    using image_filter_rest [OF _ that(2)] that(1) inv by (simp add: db_inv_defs)
  with inv show "db_inv d'"
    unfolding d' by (intro delete_parts_inv) (auto simp: db_inv_defs distinct_map_filter)
qed

lemma delete_bucket_ok: "stmt_ok (delete_bucket name)"
  unfolding stmt_ok_def
proof (intro allI impI)
  fix d x d' assume inv: "db_inv d" and e: "delete_bucket name d = Inr (x, d')"
  let ?o = "\<lambda>r. ob_bucket r = name" and ?u = "\<lambda>u. ul_bucket u = name"
  let ?b = "\<lambda>d. d\<lparr>t_buckets := filter (\<lambda>b. bk_name b \<noteq> name) (t_buckets d)\<rparr>"
  obtain n2 d2 n3 d3 where e2: "delete_objects ?o d = Inr (n2, d2)" and e3: "delete_uploads ?u d2 = Inr (n3, d3)"
    by (auto simp: delete_objects_def delete_uploads_def Let_def)
  have comm: "delete_objects ?o (?b d) = Inr (n2, ?b d2)" "delete_uploads ?u (?b d2) = Inr (n3, ?b d3)"
    using e2 e3 by (auto simp: delete_objects_def delete_uploads_def delete_parts_def delete_chunks_def Let_def)
  have d': "d' = ?b d3" using e comm by (simp add: delete_bucket_def Let_def)
  have "db_inv d2" using inv e2 delete_objects_ok unfolding stmt_ok_def by blast
  then have "db_inv d3" using e3 delete_uploads_ok unfolding stmt_ok_def by blast
  moreover have "ob_bucket r \<noteq> name" if "r \<in> set (t_objects d3)" for r
    using that e2 e3 by (auto simp: delete_objects_def delete_uploads_def delete_parts_def delete_chunks_def Let_def)
  moreover have "ul_bucket u \<noteq> name" if "u \<in> set (t_uploads d3)" for u
    using that e3 by (auto simp: delete_uploads_def delete_parts_def delete_chunks_def Let_def)
  moreover have "b \<in> bk_name ` set (filter (\<lambda>b. bk_name b \<noteq> name) (t_buckets d3))"
    if "b \<in> bk_name ` set (t_buckets d3)" "b \<noteq> name" for b
    using that by auto
  ultimately show "db_inv d'"
    unfolding d' db_inv_defs by (simp add: distinct_map_filter del: set_filter)
qed

lemma reassign_chunk_ok: "stmt_ok (reassign_chunk key n i)"
  unfolding stmt_ok_def
proof (intro allI impI)
  fix d x d' assume inv: "db_inv d" and e: "reassign_chunk key n i d = Inr (x, d')"
  let ?new = "\<lambda>c. c\<lparr>ch_key := Some key, ch_upload := None, ch_part := None, ch_ordinal := n\<rparr>"
  define f :: "chunk_row \<Rightarrow> chunk_row" where "f = (\<lambda>c. if ch_id c = i then ?new c else c)"
  from e have d': "d' = d\<lparr>t_chunks := map f (t_chunks d)\<rparr>"
    and good: "c \<in> set (t_chunks d) \<Longrightarrow> ch_id c = i \<Longrightarrow> chunk_refs_ok d (?new c)"
      "c \<in> set (t_chunks d) \<Longrightarrow> ch_id c = i \<Longrightarrow> y \<in> set (t_chunks d) \<Longrightarrow> ch_id y \<noteq> i \<Longrightarrow> \<not> ordinal_clash (?new c) y" for c y
    by (auto simp: reassign_chunk_def Let_def f_def split: if_splits)
  have f: "ch_id (f c) = ch_id c" for c by (simp add: f_def)
  note k = image_set_map_id [of ch_id f, OF f] map_map_id [of ch_id f, OF f]
  have refs: "chunk_refs_ok d (f c)" if "c \<in> set (t_chunks d)" for c
    using that inv good(1) by (simp add: f_def db_inv_defs)
  have clash: "\<not> ordinal_clash (f c) (f y)" if "c \<in> set (t_chunks d)" "y \<in> set (t_chunks d)" "ch_id c \<noteq> ch_id y" for c y
  proof -
    consider "ch_id c = i" | "ch_id y = i" | "ch_id c \<noteq> i" "ch_id y \<noteq> i" by blast
    then show ?thesis
    proof cases
      case 1
      with good(2) [OF that(1) 1 that(2)] that(3) show ?thesis by (simp add: f_def)
    next
      case 2
      with good(2) [OF that(2) 2 that(1)] that(3) have "\<not> ordinal_clash (f y) (f c)" by (simp add: f_def)
      with ordinal_clash_sym [OF refs [OF that(1)] refs [OF that(2)]] show ?thesis by simp
    next
      case 3
      with that inv show ?thesis by (simp add: f_def db_inv_defs)
    qed
  qed
  from inv refs clash show "db_inv d'"
    unfolding d' db_inv_defs by (auto simp: f image_image comp_def)
qed

section \<open>Execution\<close>

lemma exec_eq:
  "exec env st w = (if fault env (tick w) then (Inl ErrIO, w\<lparr>tick := Suc (tick w)\<rparr>)
     else case st (db w) of Inl e \<Rightarrow> (Inl e, w\<lparr>tick := Suc (tick w)\<rparr>)
        | Inr (x, d') \<Rightarrow> (Inr x, w\<lparr>tick := Suc (tick w), db := d'\<rparr>))"
  by (simp add: exec_def ext_call_eq bindE_def split: sum.split prod.split)

lemma query_eq:
  "query env f w = (if fault env (tick w) then Inl ErrIO else Inr (f (db w)), w\<lparr>tick := Suc (tick w)\<rparr>)"
  by (simp add: query_def ext_call_eq bindE_def)

lemma transaction_Inr:
  "transaction env body w = (Inr x, t) \<longleftrightarrow> \<not> fault env (tick w) \<and>
     (\<exists>w'. body (w\<lparr>tick := Suc (tick w)\<rparr>) = (Inr x, w') \<and> \<not> fault env (tick w') \<and> t = w'\<lparr>tick := Suc (tick w')\<rparr>)"
  by (auto simp: transaction_def ext_call_eq bindE_def returnE_def split: prod.splits sum.splits)

text \<open>A failed transaction leaves the database as it was.\<close>

lemma transaction_Inl: "transaction env body w = (Inl e, t) \<Longrightarrow> db t = db w"
  by (auto simp: transaction_def ext_call_eq bindE_def returnE_def split: prod.splits sum.splits if_splits)

definition db_step :: "('r, 'x) world_scheme \<Rightarrow> ('r, 'x) world_scheme \<Rightarrow> bool" where
  "db_step w w' \<longleftrightarrow> (db_inv (db w) \<longrightarrow> db_inv (db w'))"

interpretation dstep: frame_rel db_step
  by unfold_locales (auto simp: db_step_def)

lemma exec_db_step: "stmt_ok st \<Longrightarrow> keeps db_step (exec env st)"
  by (rule keepsI) (auto simp: exec_eq db_step_def stmt_ok_def split: sum.split prod.split)

lemma query_db_step: "keeps db_step (query env f)"
  by (rule keepsI) (simp add: query_eq db_step_def)

lemma transaction_db_step:
  assumes "keeps db_step body"
  shows "keeps db_step (transaction env body)"
proof (rule keepsI)
  fix w
  obtain r t where t: "transaction env body w = (r, t)" by (cases "transaction env body w")
  show "db_step w (snd (transaction env body w))"
  proof (cases r)
    case (Inl e)
    with transaction_Inl [of env body w e t] t show ?thesis by (simp add: db_step_def)
  next
    case (Inr x)
    with t obtain w' where "body (w\<lparr>tick := Suc (tick w)\<rparr>) = (Inr x, w')" "t = w'\<lparr>tick := Suc (tick w')\<rparr>"
      by (auto simp: transaction_Inr)
    with keepsD [OF assms this(1)] t show ?thesis by (simp add: db_step_def)
  qed
qed

text \<open>What the storage layer sees of a database call: time passes, nothing else changes.\<close>

definition store_same :: "('r, 'x) world_scheme \<Rightarrow> ('r, 'x) world_scheme \<Rightarrow> bool" where
  "store_same w w' \<longleftrightarrow> tick w \<le> tick w' \<and> files w' = files w \<and> remote w' = remote w \<and>
     instances w' = instances w \<and> availableBackends w' = availableBackends w \<and>
     metaDB w' = metaDB w \<and> defaultKMS w' = defaultKMS w"

interpretation sstep: frame_rel store_same
  by unfold_locales (auto simp: store_same_def)

lemma exec_store_same: "keeps store_same (exec env st)"
  by (rule keepsI) (auto simp: exec_eq store_same_def split: sum.split prod.split)

lemma query_store_same: "keeps store_same (query env f)"
  by (rule keepsI) (simp add: query_eq store_same_def)

lemma ext_call_store_same: "keeps store_same (ext_call env)"
  by (rule keepsI) (simp add: ext_call_eq store_same_def)

lemma time_Now_store_same: "keeps store_same (time_Now env)"
  by (rule keepsI) (simp add: time_Now_eq store_same_def)

lemma uuid_New_store_same: "keeps store_same (uuid_New env)"
  by (rule keepsI) (simp add: uuid_New_eq store_same_def)

lemma transaction_store_same:
  assumes "keeps store_same body"
  shows "keeps store_same (transaction env body)"
proof -
  have k: "keeps store_same (bindE body (\<lambda>x. bindE (ext_call env) (\<lambda>_. returnE x)))"
    by (intro sstep.keeps_bindE sstep.keeps_returnE assms ext_call_store_same)
  have "store_same w (snd (case bindE body (\<lambda>x. bindE (ext_call env) (\<lambda>_. returnE x)) w of
       (Inl e, w') \<Rightarrow> (Inl e, w'\<lparr>db := db w\<rparr>) | (Inr x, w') \<Rightarrow> (Inr x, w')))" for w
  proof -
    obtain r w' where m: "bindE body (\<lambda>x. bindE (ext_call env) (\<lambda>_. returnE x)) w = (r, w')"
      by (cases "bindE body (\<lambda>x. bindE (ext_call env) (\<lambda>_. returnE x)) w")
    from keepsD [OF k m] show ?thesis by (cases r) (simp_all add: m store_same_def)
  qed
  then show ?thesis unfolding transaction_def
    by (intro sstep.keeps_bindE ext_call_store_same keepsI)
qed

lemmas store_same_rules = exec_store_same query_store_same ext_call_store_same time_Now_store_same
  uuid_New_store_same transaction_store_same sstep.keeps_rules

end
