(* ===== verification/Kms.thy ===== *)
theory Kms
  imports Database_Laws
begin

text \<open>
  The key manager (\<open>storage/encryption/kms.go\<close>): data keys are kept in the table \<open>kms_keys\<close>,
  each encrypted under a password that a key file holds, and deleted by marking. The package
  variable \<open>defaultKMS\<close> is the field of that name: the path of the key file once
  \<open>ConfigureKMS\<close> was called.
\<close>

definition string_bytes :: "string \<Rightarrow> bytes" where
  "string_bytes s = map (\<lambda>c. word_of_nat (of_char c)) s"

definition bytes_string :: "bytes \<Rightarrow> string" where
  "bytes_string b = map (\<lambda>x. char_of (unat x)) b"

lemma bytes_string_bytes [simp]: "bytes_string (string_bytes s) = s"
proof -
  have "char_of (unat (word_of_nat (of_char c) :: byte)) = c" for c
    by (simp add: unat_of_nat of_char_mod_256 take_bit_eq_mod)
  then show ?thesis by (simp add: bytes_string_def string_bytes_def comp_def)
qed

section \<open>The encrypted payload\<close>

definition deriveKey :: "'r env \<Rightarrow> bytes \<Rightarrow> bytes \<Rightarrow> bytes" where
  "deriveKey env password salt = sha256 env (salt @ password)"

text \<open>\<open>aes.NewCipher\<close> accepts keys of 16, 24 or 32 bytes.\<close>

definition aes_key :: "bytes \<Rightarrow> bool" where
  "aes_key key \<longleftrightarrow> length key \<in> {16, 24, 32}"

definition gcmNonceSize :: nat where
  "gcmNonceSize = 12"

definition encryptJSON :: "'r env \<Rightarrow> bytes \<Rightarrow> bytes \<Rightarrow> (('r, 'x) world_scheme, bytes) comp" where
  "encryptJSON env plain password = bindE (rand_Read env 16) (\<lambda>salt.
     let key = deriveKey env password salt
     in if \<not> aes_key key then raiseE (ErrKeySize (length key))
        else bindE (rand_Read env gcmNonceSize) (\<lambda>nonce.
          case json_marshal env \<lparr>SaltB64 = b64_encode env salt, NonceB64 = b64_encode env nonce,
                 CiphertextB64 = b64_encode env (gcm_seal env key nonce plain)\<rparr> of
            None \<Rightarrow> raiseE ErrPayload
          | Some enc \<Rightarrow> returnE enc))"

text \<open>\<open>gcm.Open\<close> panics on a nonce of the wrong length.\<close>

definition decryptJSON :: "'r env \<Rightarrow> bytes \<Rightarrow> bytes \<Rightarrow> bytes res" where
  "decryptJSON env enc password =
     (case json_unmarshal env enc of
        None \<Rightarrow> Inl ErrPayload
      | Some payload \<Rightarrow>
         (case (b64_decode env (SaltB64 payload), b64_decode env (NonceB64 payload),
                b64_decode env (CiphertextB64 payload)) of
            (Some salt, Some nonce, Some ciphertext) \<Rightarrow>
              (let key = deriveKey env password salt
               in if \<not> aes_key key then Inl (ErrKeySize (length key))
                  else if length nonce \<noteq> gcmNonceSize then Inl ErrPanic
                  else case gcm_open env key nonce ciphertext of
                         None \<Rightarrow> Inl ErrAead | Some plain \<Rightarrow> Inr plain)
          | _ \<Rightarrow> Inl ErrPayload))"

section \<open>The password file\<close>

definition filepath_Dir :: "string \<Rightarrow> string" where
  "filepath_Dir path = filepath_Clean (rev (dropWhile (\<lambda>c. c \<noteq> CHR ''/'') (rev path)))"

definition ensurePasswordFile :: "'r env \<Rightarrow> string \<Rightarrow> (('r, 'x) world_scheme, unit) comp" where
  "ensurePasswordFile env path = bindE (ext_call env) (\<lambda>_. bindE (getsE (\<lambda>w. files w path)) (\<lambda>f.
     case f of
       Some _ \<Rightarrow> returnE ()
     | None \<Rightarrow> bindE (rand_Read env 32) (\<lambda>password. bindE next_tick (\<lambda>n.
         if fault env n \<and> filepath_Dir path \<noteq> ''.'' then raiseE ErrKeyFile
         else os_WriteFile env path (string_bytes (b64_encode env password))))))"

definition readPassword :: "'r env \<Rightarrow> string \<Rightarrow> (('r, 'x) world_scheme, bytes) comp" where
  "readPassword env path = bindE (os_ReadFile path) (\<lambda>raw.
     let s = trimSpace (bytes_string raw)
     in if s = [] then raiseE ErrKeyFile
        else case b64_decode env s of None \<Rightarrow> raiseE ErrKeyFile | Some d \<Rightarrow> returnE d)"

definition NewKMS :: "'r env \<Rightarrow> (('r, 'x) world_scheme, string) comp" where
  "NewKMS env =
     (let p = trimSpace (KMSPasswordKeyPath (Cfg env));
          path = (if p = [] then ''kms.key'' else p)
      in bindE (ensurePasswordFile env path) (\<lambda>_. returnE path))"

definition ConfigureKMS :: "'r env \<Rightarrow> (('r, 'x) world_scheme, unit) comp" where
  "ConfigureKMS env = bindE (NewKMS env) (\<lambda>path. modifyE (\<lambda>w. w\<lparr>defaultKMS := Some path\<rparr>))"

definition getDefaultKMS :: "(('r, 'x) world_scheme, string) comp" where
  "getDefaultKMS = bindE (getsE defaultKMS)
     (\<lambda>k. case k of None \<Rightarrow> raiseE ErrKmsNotInit | Some path \<Rightarrow> returnE path)"

section \<open>Keys\<close>

definition kms_CreateKey :: "'r env \<Rightarrow> string \<Rightarrow> (('r, 'x) world_scheme, int) comp" where
  "kms_CreateKey env path = bindE (rand_Read env 32) (\<lambda>keyData. bindE (readPassword env path) (\<lambda>password.
     bindE (encryptJSON env keyData password) (\<lambda>encBytes. bindE (time_Now env) (\<lambda>now.
       exec env (insert_kms encBytes now)))))"

definition live_key :: "int \<Rightarrow> database \<Rightarrow> kms_row option" where
  "live_key keyID d = find (\<lambda>r. kms_id r = keyID \<and> kms_deleted r = None) (kms_keys d)"

definition kms_GetKey :: "'r env \<Rightarrow> string \<Rightarrow> int \<Rightarrow> (('r, 'x) world_scheme, bytes) comp" where
  "kms_GetKey env path keyID = bindE (query env (live_key keyID)) (\<lambda>row.
     case row of
       None \<Rightarrow> raiseE (ErrKeyNotFound keyID)
     | Some r \<Rightarrow> bindE (readPassword env path) (\<lambda>password.
         liftE (decryptJSON env (kms_ciphertext r) password)))"

text \<open>A failed query yields the empty list.\<close>

definition kms_ListKeys :: "'r env \<Rightarrow> (('r, 'x) world_scheme, int list) comp" where
  "kms_ListKeys env = (\<lambda>w.
     case query env (\<lambda>d. sort (map kms_id (filter (\<lambda>r. kms_deleted r = None) (kms_keys d)))) w of
       (Inl _, w') \<Rightarrow> (Inr [], w')
     | (Inr ids, w') \<Rightarrow> (Inr ids, w'))"

definition kms_DeleteKey :: "'r env \<Rightarrow> int \<Rightarrow> (('r, 'x) world_scheme, unit) comp" where
  "kms_DeleteKey env keyID = bindE (time_Now env) (\<lambda>now. bindE (exec env (delete_kms keyID now)) (\<lambda>affected.
     if affected = 0 then raiseE (ErrKeyNotFound keyID) else returnE ()))"

definition CreateKey :: "'r env \<Rightarrow> (('r, 'x) world_scheme, int) comp" where
  "CreateKey env = bindE getDefaultKMS (kms_CreateKey env)"

definition ListKeys :: "'r env \<Rightarrow> (('r, 'x) world_scheme, int list) comp" where
  "ListKeys env = bindE getDefaultKMS (\<lambda>_. kms_ListKeys env)"

definition DeleteKey :: "'r env \<Rightarrow> int \<Rightarrow> (('r, 'x) world_scheme, unit) comp" where
  "DeleteKey env keyID = bindE getDefaultKMS (\<lambda>_. kms_DeleteKey env keyID)"

definition getKey :: "'r env \<Rightarrow> int \<Rightarrow> (('r, 'x) world_scheme, bytes) comp" where
  "getKey env keyID = bindE getDefaultKMS (\<lambda>path. kms_GetKey env path keyID)"

end
