(* ===== verification/Ciphers.thy ===== *)
theory Ciphers
  imports Kms
begin

text \<open>
  Compression (\<open>storage/compression\<close>) and encryption (\<open>storage/encryption/service.go\<close>) of one
  chunk. The two type codes are integers in the program; every value outside the constants is
  an error. An encrypted chunk is the nonce followed by the sealed data, under a key of its own.
\<close>

section \<open>Compression\<close>

record Compression =
  Compression_Type :: int
  Compression_Level :: int

abbreviation (input) Compression_None :: int where "Compression_None \<equiv> 0"
abbreviation (input) Compression_Zstd :: int where "Compression_Zstd \<equiv> 1"

definition Compress :: "'r env \<Rightarrow> bytes \<Rightarrow> Compression \<Rightarrow> bytes res" where
  "Compress env data c =
     (if Compression_Type c = Compression_None then Inr data
      else if Compression_Type c = Compression_Zstd then
        (if zstd_writer env (Compression_Level c) then Inr (zstd_encode env (Compression_Level c) data)
         else Inl ErrZstd)
      else Inl (ErrCompressionType (Compression_Type c)))"

definition Decompress :: "'r env \<Rightarrow> bytes \<Rightarrow> Compression \<Rightarrow> bytes res" where
  "Decompress env data c =
     (if Compression_Type c = Compression_None then Inr data
      else if Compression_Type c = Compression_Zstd then
        (if zstd_reader env then
           (case zstd_decode env data of None \<Rightarrow> Inl ErrZstd | Some d \<Rightarrow> Inr d)
         else Inl ErrZstd)
      else Inl (ErrCompressionType (Compression_Type c)))"

section \<open>Encryption\<close>

record Encryption =
  Encryption_Type :: int
  Encryption_KeyId :: int

abbreviation (input) Encryption_None :: int where "Encryption_None \<equiv> 0"
abbreviation (input) AES_256_GCM :: int where "AES_256_GCM \<equiv> 1"
abbreviation (input) ChaCha20_Poly1305 :: int where "ChaCha20_Poly1305 \<equiv> 2"

definition EncryptionTypeFromString :: "string \<Rightarrow> int res" where
  "EncryptionTypeFromString s =
     (if s = ''None'' then Inr Encryption_None
      else if s = ''AES-256-GCM'' then Inr AES_256_GCM
      else if s = ''ChaCha20-Poly1305'' then Inr ChaCha20_Poly1305
      else Inl (ErrEncryptionName s))"

definition chachaNonceSize :: nat where
  "chachaNonceSize = 12"

definition encryptAES256GCM :: "'r env \<Rightarrow> bytes \<Rightarrow> (('r, 'x) world_scheme, bytes \<times> int) comp" where
  "encryptAES256GCM env data = bindE (CreateKey env) (\<lambda>keyId. bindE (getKey env keyId) (\<lambda>key.
     if length key \<noteq> 32 then raiseE (ErrKeySize (length key))
     else bindE (rand_Read env gcmNonceSize) (\<lambda>nonce.
       returnE (nonce @ gcm_seal env key nonce data, keyId))))"

definition decryptAES256GCM :: "'r env \<Rightarrow> bytes \<Rightarrow> int \<Rightarrow> (('r, 'x) world_scheme, bytes) comp" where
  "decryptAES256GCM env data keyId =
     (if keyId \<le> 0 then raiseE ErrKeyIdRequired
      else bindE (getKey env keyId) (\<lambda>key.
        if length key \<noteq> 32 then raiseE (ErrKeySize (length key))
        else if length data < gcmNonceSize then raiseE ErrCiphertextShort
        else case gcm_open env key (take gcmNonceSize data) (drop gcmNonceSize data) of
               None \<Rightarrow> raiseE ErrAead | Some plain \<Rightarrow> returnE plain))"

definition encryptChaCha20Poly1305 :: "'r env \<Rightarrow> bytes \<Rightarrow> (('r, 'x) world_scheme, bytes \<times> int) comp" where
  "encryptChaCha20Poly1305 env data = bindE (CreateKey env) (\<lambda>keyId. bindE (getKey env keyId) (\<lambda>key.
     if length key \<noteq> 32 then raiseE (ErrKeySize (length key))
     else bindE (rand_Read env chachaNonceSize) (\<lambda>nonce.
       returnE (nonce @ chacha_seal env key nonce data, keyId))))"

definition decryptChaCha20Poly1305 :: "'r env \<Rightarrow> bytes \<Rightarrow> int \<Rightarrow> (('r, 'x) world_scheme, bytes) comp" where
  "decryptChaCha20Poly1305 env data keyId =
     (if keyId \<le> 0 then raiseE ErrKeyIdRequired
      else bindE (getKey env keyId) (\<lambda>key.
        if length key \<noteq> 32 then raiseE (ErrKeySize (length key))
        else if length data < chachaNonceSize then raiseE ErrCiphertextShort
        else case chacha_open env key (take chachaNonceSize data) (drop chachaNonceSize data) of
               None \<Rightarrow> raiseE ErrAead | Some plain \<Rightarrow> returnE plain))"

definition Encrypt :: "'r env \<Rightarrow> bytes \<Rightarrow> int \<Rightarrow> (('r, 'x) world_scheme, bytes \<times> int) comp" where
  "Encrypt env data encryption =
     (if encryption = Encryption_None then returnE (data, 0)
      else if encryption = AES_256_GCM then encryptAES256GCM env data
      else if encryption = ChaCha20_Poly1305 then encryptChaCha20Poly1305 env data
      else raiseE (ErrEncryptionType encryption))"

definition Decrypt :: "'r env \<Rightarrow> bytes \<Rightarrow> Encryption \<Rightarrow> (('r, 'x) world_scheme, bytes) comp" where
  "Decrypt env data encryption =
     (if Encryption_Type encryption = Encryption_None then returnE data
      else if Encryption_Type encryption = AES_256_GCM then decryptAES256GCM env data (Encryption_KeyId encryption)
      else if Encryption_Type encryption = ChaCha20_Poly1305
      then decryptChaCha20Poly1305 env data (Encryption_KeyId encryption)
      else raiseE (ErrEncryptionType (Encryption_Type encryption)))"

section \<open>What the libraries promise\<close>

text \<open>Documented behaviour: random reads fill the buffer, SHA-256 has 32 bytes, base64 and JSON
  round trip (the encoding of a non-empty slice is non-empty and has no surrounding space), the
  ciphers open what they sealed.\<close>

definition crypto_law :: "'r env \<Rightarrow> bool" where
  "crypto_law env \<longleftrightarrow>
     (\<forall>n k. length (rand_read env n k) = k) \<and> (\<forall>x. length (sha256 env x) = 32) \<and>
     (\<forall>x. b64_decode env (b64_encode env x) = Some x) \<and>
     (\<forall>x. x \<noteq> [] \<longrightarrow> b64_encode env x \<noteq> [] \<and> trimSpace (b64_encode env x) = b64_encode env x) \<and>
     (\<forall>p. \<exists>b. json_marshal env p = Some b \<and> json_unmarshal env b = Some p) \<and>
     (\<forall>k n d. length k = 32 \<and> length n = 12 \<longrightarrow> gcm_open env k n (gcm_seal env k n d) = Some d) \<and>
     (\<forall>k n d. length k = 32 \<and> length n = 12 \<longrightarrow> chacha_open env k n (chacha_seal env k n d) = Some d)"

definition zstd_law :: "'r env \<Rightarrow> bool" where
  "zstd_law env \<longleftrightarrow> zstd_reader env \<and> (\<forall>l. zstd_writer env l) \<and> (\<forall>l d. zstd_decode env (zstd_encode env l d) = Some d) \<and>
     (\<forall>l d. d \<noteq> [] \<longrightarrow> zstd_encode env l d \<noteq> [])"

lemma Decompress_Compress:
  "zstd_law env \<Longrightarrow> Compress env d c = Inr x \<Longrightarrow> Decompress env x c = Inr d"
  by (auto simp: Compress_def Decompress_def zstd_law_def split: if_splits)

lemma decryptJSON_encryptJSON:
  assumes "crypto_law env" and "encryptJSON env plain pw w = (Inr enc, t)"
  shows "decryptJSON env enc pw = Inr plain"
proof -
  have l: "length (rand_read env n k) = k" "length (sha256 env x) = 32"
      "b64_decode env (b64_encode env x) = Some x" for n k x
    using assms(1) by (auto simp: crypto_law_def)
  have j: "json_unmarshal env b = Some p" if "json_marshal env p = Some b" for b p
    using assms(1) that unfolding crypto_law_def by (metis option.inject)
  have g: "gcm_open env k n (gcm_seal env k n d) = Some d" if "length k = 32" "length n = 12" for k n d
    using assms(1) that by (simp add: crypto_law_def)
  from assms(2) show ?thesis
    by (auto simp: encryptJSON_def rand_Read_eq bindE_eq_Inr_iff Let_def l deriveKey_def aes_key_def
        gcmNonceSize_def decryptJSON_def g dest!: j split: if_splits option.splits)
qed

text \<open>The password that the key file holds.\<close>

definition password_of :: "'r env \<Rightarrow> ('r, 'x) world_scheme \<Rightarrow> string \<Rightarrow> bytes res" where
  "password_of env w path = (case files w path of None \<Rightarrow> Inl ErrIO
     | Some raw \<Rightarrow> (let s = trimSpace (bytes_string raw) in if s = [] then Inl ErrKeyFile
         else case b64_decode env s of None \<Rightarrow> Inl ErrKeyFile | Some d \<Rightarrow> Inr d))"

lemma readPassword_eq: "readPassword env path w = (password_of env w path, w)"
  by (simp add: readPassword_def os_ReadFile_eq password_of_def bindE_def Let_def returnE_def raiseE_def
      split: option.split)

lemma kms_GetKey_eq:
  "kms_GetKey env path k w = (if fault env (tick w) then Inl ErrIO
     else case live_key k (db w) of None \<Rightarrow> Inl (ErrKeyNotFound k)
        | Some r \<Rightarrow> (case password_of env w path of Inl e \<Rightarrow> Inl e
            | Inr pw \<Rightarrow> decryptJSON env (kms_ciphertext r) pw), w\<lparr>tick := Suc (tick w)\<rparr>)"
proof -
  have "password_of env (w\<lparr>tick := n\<rparr>) path = password_of env w path" for n by (simp add: password_of_def)
  then show ?thesis
    by (simp add: kms_GetKey_def query_eq readPassword_eq bindE_def raiseE_def liftE_def
        split: option.split sum.split)
qed

text \<open>A key with its value: what an encrypted chunk depends on. It survives every step that keeps
  the key file and the live keys.\<close>

definition holds_key :: "'r env \<Rightarrow> ('r, 'x) world_scheme \<Rightarrow> int \<Rightarrow> bytes \<Rightarrow> bool" where
  "holds_key env w k key \<longleftrightarrow> 0 < k \<and> (\<exists>path r pw. defaultKMS w = Some path \<and> live_key k (db w) = Some r \<and>
     password_of env w path = Inr pw \<and> decryptJSON env (kms_ciphertext r) pw = Inr key)"

definition keys_kept :: "('r, 'x) world_scheme \<Rightarrow> ('r, 'x) world_scheme \<Rightarrow> bool" where
  "keys_kept w w' \<longleftrightarrow> defaultKMS w' = defaultKMS w \<and>
     (\<forall>path x. defaultKMS w = Some path \<longrightarrow> files w path = Some x \<longrightarrow> files w' path = Some x) \<and>
     (\<forall>k r. live_key k (db w) = Some r \<longrightarrow> live_key k (db w') = Some r)"

interpretation kkept: frame_rel keys_kept
  by unfold_locales (auto simp: keys_kept_def)

lemma password_kept:
  assumes "keys_kept w w'" and "defaultKMS w = Some path" and "password_of env w path = Inr pw"
  shows "password_of env w' path = Inr pw"
proof -
  from assms(3) obtain x where x: "files w path = Some x" by (auto simp: password_of_def split: option.splits)
  with assms(1,2) have "files w' path = Some x" by (simp add: keys_kept_def)
  with x assms(3) show ?thesis by (simp add: password_of_def)
qed

lemma holds_key_kept: "keys_kept w w' \<Longrightarrow> holds_key env w k key \<Longrightarrow> holds_key env w' k key"
  by (auto simp: holds_key_def) (metis keys_kept_def password_kept)

lemma getKey_holds:
  assumes "holds_key env w k key" and "\<not> fault env (tick w)"
  shows "getKey env k w = (Inr key, w\<lparr>tick := Suc (tick w)\<rparr>)"
  using assms by (auto simp: holds_key_def getKey_def getDefaultKMS_def kms_GetKey_eq bindE_def returnE_def)

lemma getKey_Inr:
  assumes "getKey env k w = (Inr key, t)" and "0 < k"
  shows "holds_key env w k key" "t = w\<lparr>tick := Suc (tick w)\<rparr>"
  using assms by (auto simp: holds_key_def getKey_def getDefaultKMS_def kms_GetKey_eq bindE_eq_Inr_iff
      split: option.splits if_splits sum.splits)

section \<open>Encryption round trip\<close>

lemma rand_Read_store_same: "keeps store_same (rand_Read env n)"
  by (rule keepsI) (simp add: rand_Read_eq store_same_def)

lemma readPassword_store_same: "keeps store_same (readPassword env path)"
  by (rule keepsI) (simp add: readPassword_eq sstep.reflR)

lemma encryptJSON_store_same: "keeps store_same (encryptJSON env d pw)"
  unfolding encryptJSON_def Let_def
  by (intro sstep.keeps_rules rand_Read_store_same)

lemma getDefaultKMS_store_same: "keeps store_same getDefaultKMS"
  unfolding getDefaultKMS_def by (intro sstep.keeps_rules)

lemma CreateKey_store_same: "keeps store_same (CreateKey env)"
  unfolding CreateKey_def kms_CreateKey_def
  by (intro store_same_rules rand_Read_store_same readPassword_store_same encryptJSON_store_same
      getDefaultKMS_store_same)

lemma getKey_store_same: "keeps store_same (getKey env k)"
  unfolding getKey_def kms_GetKey_def
  by (intro store_same_rules readPassword_store_same getDefaultKMS_store_same)

lemma Encrypt_store_same: "keeps store_same (Encrypt env d ty)"
  unfolding Encrypt_def encryptAES256GCM_def encryptChaCha20Poly1305_def
  by (intro store_same_rules rand_Read_store_same CreateKey_store_same getKey_store_same)

lemma Decrypt_store_same: "keeps store_same (Decrypt env d e)"
  unfolding Decrypt_def decryptAES256GCM_def decryptChaCha20Poly1305_def
  by (intro store_same_rules getKey_store_same)

lemma live_key_insert:
  assumes "insert_kms c now d = Inr (i, d')" and "kms_ok d"
  shows "live_key i d' = Some \<lparr>kms_id = i, kms_ciphertext = c, kms_created = now, kms_deleted = None\<rparr>"
    and "live_key k d = Some r \<Longrightarrow> live_key k d' = Some r" and "0 < i"
proof -
  have i: "i = kms_seq d + 1" and d': "kms_keys d' = kms_keys d @ [\<lparr>kms_id = i, kms_ciphertext = c,
      kms_created = now, kms_deleted = None\<rparr>]"
    using assms(1) by (auto simp: insert_kms_def Let_def)
  have f: "find P (xs @ ys) = (case find P xs of None \<Rightarrow> find P ys | Some x \<Rightarrow> Some x)" for P and xs ys :: "kms_row list"
    by (induction xs) auto
  have "live_key i d = None" using assms(2) i by (force simp: live_key_def find_None_iff kms_ok_def)
  then show "live_key i d' = Some \<lparr>kms_id = i, kms_ciphertext = c, kms_created = now, kms_deleted = None\<rparr>"
    by (simp add: live_key_def d' f)
  show "live_key k d = Some r \<Longrightarrow> live_key k d' = Some r" by (simp add: live_key_def d' f)
  show "0 < i" using assms(2) i by (simp add: kms_ok_def)
qed

text \<open>Creating a key keeps the old ones, and the new one can be read.\<close>

lemma CreateKey_Inr:
  assumes law: "crypto_law env" and inv: "db_inv (db w)" and c: "CreateKey env w = (Inr k, t)"
  shows "keys_kept w t" and "\<exists>key. length key = 32 \<and> holds_key env t k key" and "0 < k" and "db_inv (db t)"
proof -
  from c obtain path keyData pw enc w1 w2 now where
    path: "defaultKMS w = Some path" and keyData: "keyData = rand_read env (tick w) 32"
    and w1: "w1 = w\<lparr>tick := Suc (tick w)\<rparr>" and pw: "password_of env w1 path = Inr pw"
    and enc: "encryptJSON env keyData pw w1 = (Inr enc, w2)"
    and ex: "exec env (insert_kms enc now) (w2\<lparr>tick := Suc (tick w2)\<rparr>) = (Inr k, t)"
    by (auto simp: CreateKey_def getDefaultKMS_def kms_CreateKey_def bindE_eq_Inr_iff rand_Read_eq readPassword_eq
        time_Now_eq split: option.splits if_splits)
  have db2: "db w2 = db w"
    using enc by (auto simp: encryptJSON_def rand_Read_eq bindE_eq_Inr_iff Let_def w1 split: if_splits option.splits)
  have same: "store_same w t" using keepsD [OF CreateKey_store_same c] .
  from ex obtain d' where ins: "insert_kms enc now (db w) = Inr (k, d')" and t: "db t = d'"
    by (auto simp: exec_eq db2 split: if_splits sum.splits prod.splits)
  have ok: "kms_ok (db w)" using inv by (simp add: db_inv_def)
  show kept: "keys_kept w t"
    using same live_key_insert(2) [OF ins ok] by (auto simp: keys_kept_def store_same_def t)
  show "0 < k" using live_key_insert(3) [OF ins ok] .
  have "password_of env t path = Inr pw" using same pw by (simp add: store_same_def password_of_def w1)
  moreover have "decryptJSON env enc pw = Inr keyData" by (rule decryptJSON_encryptJSON [OF law enc])
  ultimately have "holds_key env t k keyData"
    using live_key_insert(1) [OF ins ok] path same \<open>0 < k\<close>
    by (auto simp: holds_key_def t store_same_def)
  moreover have "length keyData = 32" using law keyData by (simp add: crypto_law_def)
  ultimately show "\<exists>key. length key = 32 \<and> holds_key env t k key" by blast
  show "db_inv (db t)" using insert_kms_ok inv ins t unfolding stmt_ok_def by blast
qed

definition sealed :: "'r env \<Rightarrow> ('r, 'x) world_scheme \<Rightarrow> bytes \<Rightarrow> Encryption \<Rightarrow> bytes \<Rightarrow> bool" where
  "sealed env w ct e data \<longleftrightarrow>
     (if Encryption_Type e = 0 then ct = data \<and> Encryption_KeyId e = 0
      else \<exists>key nonce. holds_key env w (Encryption_KeyId e) key \<and> length key = 32 \<and> length nonce = 12 \<and>
        (Encryption_Type e = 1 \<and> ct = nonce @ gcm_seal env key nonce data \<or>
         Encryption_Type e = 2 \<and> ct = nonce @ chacha_seal env key nonce data))"

lemma sealed_kept: "keys_kept w w' \<Longrightarrow> sealed env w ct e d \<Longrightarrow> sealed env w' ct e d"
  by (auto simp: sealed_def dest: holds_key_kept split: if_splits)

lemma Decrypt_sealed:
  assumes "crypto_law env" and "sealed env w ct e d" and "\<not> fault env (tick w)"
  shows "\<exists>n. Decrypt env ct e w = (Inr d, w\<lparr>tick := n\<rparr>)"
proof (cases "Encryption_Type e = 0")
  case True
  with assms(2) have "Decrypt env ct e w = (Inr d, w\<lparr>tick := tick w\<rparr>)" by (simp add: sealed_def Decrypt_def)
  then show ?thesis by blast
next
  case False
  with assms(2) obtain key nonce where k: "holds_key env w (Encryption_KeyId e) key" "length key = 32" "length nonce = 12"
    and ct: "Encryption_Type e = 1 \<and> ct = nonce @ gcm_seal env key nonce d \<or>
         Encryption_Type e = 2 \<and> ct = nonce @ chacha_seal env key nonce d"
    by (auto simp: sealed_def)
  have "0 < Encryption_KeyId e" using k(1) by (simp add: holds_key_def)
  moreover have "gcm_open env key nonce (gcm_seal env key nonce d) = Some d"
      "chacha_open env key nonce (chacha_seal env key nonce d) = Some d"
    using assms(1) k(2,3) by (simp_all add: crypto_law_def)
  ultimately have "Decrypt env ct e w = (Inr d, w\<lparr>tick := Suc (tick w)\<rparr>)"
    using ct k(2,3) getKey_holds [OF k(1) assms(3)]
    by (auto simp: Decrypt_def decryptAES256GCM_def decryptChaCha20Poly1305_def bindE_def gcmNonceSize_def
        chachaNonceSize_def)
  then show ?thesis by blast
qed

lemma keys_kept_tick [simp]: "keys_kept w (w\<lparr>tick := n\<rparr>)"
  by (simp add: keys_kept_def)

lemma Encrypt_sealed:
  assumes law: "crypto_law env" and inv: "db_inv (db w)" and e: "Encrypt env d ty w = (Inr (ct, k), t)"
  shows "keys_kept w t \<and> db_inv (db t) \<and> sealed env t ct \<lparr>Encryption_Type = ty, Encryption_KeyId = k\<rparr> d"
proof (cases "ty = 0")
  case True
  with e inv show ?thesis by (auto simp: Encrypt_def sealed_def kkept.reflR)
next
  case False
  with e have "ty = 1 \<or> ty = 2" by (auto simp: Encrypt_def split: if_splits)
  with e False obtain w1 w2 key where c: "CreateKey env w = (Inr k, w1)" and g: "getKey env k w1 = (Inr key, w2)"
    and key: "length key = 32" and t: "t = w2\<lparr>tick := Suc (tick w2)\<rparr>"
    and ct: "ty = 1 \<and> ct = rand_read env (tick w2) 12 @ gcm_seal env key (rand_read env (tick w2) 12) d \<or>
             ty = 2 \<and> ct = rand_read env (tick w2) 12 @ chacha_seal env key (rand_read env (tick w2) 12) d"
    by (auto simp: Encrypt_def encryptAES256GCM_def encryptChaCha20Poly1305_def bindE_eq_Inr_iff rand_Read_eq
        gcmNonceSize_def chachaNonceSize_def split: if_splits)
  note ck = CreateKey_Inr [OF law inv c]
  have w2: "w2 = w1\<lparr>tick := Suc (tick w1)\<rparr>" and h: "holds_key env w1 k key"
    using getKey_Inr [OF g ck(3)] by simp_all
  have kept: "keys_kept w1 t" by (simp add: t w2)
  have "length (rand_read env (tick w2) 12) = 12" using law by (simp add: crypto_law_def)
  with holds_key_kept [OF kept h] key ct have "sealed env t ct \<lparr>Encryption_Type = ty, Encryption_KeyId = k\<rparr> d"
    unfolding sealed_def by auto
  with kkept.transR [OF ck(1) kept] ck(4) show ?thesis by (simp add: t w2)
qed

text \<open>With a readable key file and without faults, encryption succeeds for the three known types.\<close>

definition kms_ready :: "'r env \<Rightarrow> ('r, 'x) world_scheme \<Rightarrow> bool" where
  "kms_ready env w \<longleftrightarrow> (\<exists>path pw. defaultKMS w = Some path \<and> password_of env w path = Inr pw)"

lemma kms_ready_kept: "keys_kept w w' \<Longrightarrow> kms_ready env w \<Longrightarrow> kms_ready env w'"
  unfolding kms_ready_def by (metis keys_kept_def password_kept)

lemma encryptJSON_succeeds:
  assumes "no_faults env" and "crypto_law env"
  shows "\<exists>enc t. encryptJSON env plain pw w = (Inr enc, t) \<and> db t = db w"
proof -
  have "\<not> fault env k" for k using assms(1) by (simp add: no_faults_def)
  moreover have "json_marshal env p \<noteq> None" for p using assms(2) unfolding crypto_law_def by (metis option.distinct(1))
  moreover have "length (sha256 env x) = 32" for x using assms(2) by (simp add: crypto_law_def)
  ultimately show ?thesis
    by (simp add: encryptJSON_def rand_Read_eq bindE_def Let_def deriveKey_def aes_key_def returnE_def
        split: option.split)
qed

lemma CreateKey_succeeds:
  assumes nf: "no_faults env" and law: "crypto_law env" and k: "kms_ready env w"
  shows "\<exists>i t. CreateKey env w = (Inr i, t)"
proof -
  have nf': "\<not> fault env k" for k using nf by (simp add: no_faults_def)
  from k obtain path pw where k: "defaultKMS w = Some path" "password_of env w path = Inr pw" by (auto simp: kms_ready_def)
  let ?w1 = "w\<lparr>tick := Suc (tick w)\<rparr>"
  have pw: "password_of env ?w1 path = Inr pw" using k(2) by (simp add: password_of_def)
  obtain enc w2 where "encryptJSON env (rand_read env (tick w) 32) pw ?w1 = (Inr enc, w2)"
    using encryptJSON_succeeds [OF nf law] by blast
  then show ?thesis
    using k pw nf' by (simp add: CreateKey_def getDefaultKMS_def kms_CreateKey_def bindE_def rand_Read_eq readPassword_eq
        returnE_def time_Now_eq exec_eq insert_kms_def Let_def)
qed

lemma Encrypt_succeeds:
  assumes nf: "no_faults env" and law: "crypto_law env" and inv: "db_inv (db w)" and k: "kms_ready env w"
    and ty: "ty \<in> {0, 1, 2}"
  shows "\<exists>ct i t. Encrypt env d ty w = (Inr (ct, i), t)"
proof (cases "ty = 0")
  case True
  then show ?thesis by (simp add: Encrypt_def returnE_def)
next
  case False
  have nf': "\<not> fault env k" for k using nf by (simp add: no_faults_def)
  obtain i w1 where c: "CreateKey env w = (Inr i, w1)" using CreateKey_succeeds [OF nf law k] by blast
  from CreateKey_Inr [OF law inv c] obtain key where key: "length key = 32" "holds_key env w1 i key" by blast
  with False ty c getKey_holds [OF key(2) nf'] nf' show ?thesis
    by (auto simp: Encrypt_def encryptAES256GCM_def encryptChaCha20Poly1305_def bindE_def rand_Read_eq returnE_def
        gcmNonceSize_def chachaNonceSize_def)
qed

end
