(* ===== verification/Blob_Store.thy ===== *)
theory Blob_Store
  imports Prelude
begin

text \<open>
  The contract between the sharding layer and a storage backend. A blob is addressed by a
  backend and a location; \<open>addr\<close> is its physical address (two locations may name the same
  file). Under the provider's invariant \<open>ok\<close>: reading changes no later read, a put returns a
  fresh address under which the data is read back, puts and deletes elsewhere keep every
  readable blob, a delete makes nothing readable, and a deleted blob is gone.
\<close>

locale blob_store =
  fixes get :: "'b \<Rightarrow> string \<Rightarrow> ('s, bytes) comp"
    and put :: "'b \<Rightarrow> bytes \<Rightarrow> ('s, string) comp"
    and del :: "'b \<Rightarrow> string \<Rightarrow> ('s, unit) comp"
    and addr :: "'s \<Rightarrow> 'b \<Rightarrow> string \<Rightarrow> 'a"
    and ok :: "'s \<Rightarrow> bool"
  assumes get_pure: "fst (get b' l' (snd (get b l s))) = fst (get b' l' s)"
    and get_ok: "ok s \<Longrightarrow> ok (snd (get b l s))"
    and get_addr: "addr (snd (get b l s)) = addr s"
    and put_ok: "ok s \<Longrightarrow> ok (snd (put b d s))"
    and put_addr: "ok s \<Longrightarrow> addr (snd (put b d s)) = addr s"
    and put_get: "ok s \<Longrightarrow> put b d s = (Inr l, t) \<Longrightarrow> fst (get b l t) = Inr d"
    and put_frame: "ok s \<Longrightarrow> fst (get b' l' s) = Inr d' \<Longrightarrow> fst (get b' l' (snd (put b d s))) = Inr d'"
    and put_fresh: "ok s \<Longrightarrow> put b d s = (Inr l, t) \<Longrightarrow> fst (get b' l' s) = Inr d' \<Longrightarrow> addr s b l \<noteq> addr s b' l'"
    and del_ok: "ok s \<Longrightarrow> ok (snd (del b l s))"
    and del_addr: "ok s \<Longrightarrow> addr (snd (del b l s)) = addr s"
    and del_frame: "ok s \<Longrightarrow> addr s b l \<noteq> addr s b' l' \<Longrightarrow> fst (get b' l' s) = Inr d'
           \<Longrightarrow> fst (get b' l' (snd (del b l s))) = Inr d'"
    and del_mono: "ok s \<Longrightarrow> fst (get b' l' (snd (del b l s))) = Inr d' \<Longrightarrow> fst (get b' l' s) = Inr d'"
    and del_gone: "ok s \<Longrightarrow> del b l s = (Inr (), t) \<Longrightarrow> \<exists>e. fst (get b l t) = Inl e"
begin

text \<open>What the clients use: the relation between states under which nothing readable is lost,
  its frames, and the effect of deleting a set of blobs.\<close>

definition grows :: "'s \<Rightarrow> 's \<Rightarrow> bool" where
  "grows s t \<longleftrightarrow> (ok s \<longrightarrow> ok t \<and> addr t = addr s \<and>
     (\<forall>b l d. fst (get b l s) = Inr d \<longrightarrow> fst (get b l t) = Inr d))"

lemma grows_get: "grows s (snd (get b l s))"
  by (simp add: grows_def get_ok get_addr get_pure)

lemma grows_put: "grows s (snd (put b d s))"
  by (simp add: grows_def put_ok put_addr put_frame)

lemma growsD: "grows s t \<Longrightarrow> ok s \<Longrightarrow> fst (get b l s) = Inr d \<Longrightarrow> fst (get b l t) = Inr d"
  by (simp add: grows_def)

lemma grows_ok: "grows s t \<Longrightarrow> ok s \<Longrightarrow> ok t"
  by (simp add: grows_def)

text \<open>Deleting a list of blobs: nothing appears, blobs at other addresses stay, and when every
  delete succeeds all of them are gone.\<close>

lemma forE_del:
  assumes "ok s" and "forE (\<lambda>(b, l). del b l) xs s = (r, t)"
  shows "ok t \<and> addr t = addr s \<and>
    (\<forall>b l d. fst (get b l t) = Inr d \<longrightarrow> fst (get b l s) = Inr d) \<and>
    (\<forall>b l d. fst (get b l s) = Inr d \<longrightarrow> (\<forall>(b', l') \<in> set xs. addr s b' l' \<noteq> addr s b l)
       \<longrightarrow> fst (get b l t) = Inr d) \<and>
    (r = Inr () \<longrightarrow> (\<forall>(b, l) \<in> set xs. \<exists>e. fst (get b l t) = Inl e))"
  using assms
proof (induction xs arbitrary: s)
  case Nil
  then show ?case by auto
next
  case (Cons x xs)
  obtain b l where x: "x = (b, l)" by (cases x)
  obtain q u where d: "del b l s = (q, u)" by (cases "del b l s")
  have su: "snd (del b l s) = u" using d by simp
  note u = del_ok [OF Cons.prems(1), of b l, unfolded su] del_addr [OF Cons.prems(1), of b l, unfolded su]
    del_mono [OF Cons.prems(1), of _ _ b l, unfolded su] del_frame [OF Cons.prems(1), of b l, unfolded su]
  show ?case
  proof (cases q)
    case (Inl e)
    with Cons.prems(2) have "r = Inl e" "t = u" by (simp_all add: x d)
    note rt = this
    have "addr s b l \<noteq> addr s b' l'" if "\<forall>(b'', l'') \<in> set (x # xs). addr s b'' l'' \<noteq> addr s b' l'" for b' l'
      using that x by simp
    with u rt show ?thesis by blast
  next
    case (Inr z)
    with Cons.prems(2) have f: "forE (\<lambda>(b, l). del b l) xs u = (r, t)" by (simp add: x d)
    have gone: "\<exists>e. fst (get b l u) = Inl e" using del_gone [OF Cons.prems(1), of b l u] d Inr by simp
    note IH = Cons.IH [OF u(1) f, unfolded u(2)]
    note mono = IH [THEN conjunct2, THEN conjunct2, THEN conjunct1, rule_format]
    note frame = IH [THEN conjunct2, THEN conjunct2, THEN conjunct2, THEN conjunct1, rule_format]
    note gone' = IH [THEN conjunct2, THEN conjunct2, THEN conjunct2, THEN conjunct2, rule_format]
    have "\<exists>e. fst (get b l t) = Inl e"
      using gone mono by (metis sum.exhaust sum.distinct(1))
    then have all: "\<forall>(b, l) \<in> set (x # xs). \<exists>e. fst (get b l t) = Inl e" if "r = Inr ()"
      using gone' [OF that] x by simp
    have keep: "fst (get b' l' t) = Inr d'" if "fst (get b' l' s) = Inr d'"
      and "\<forall>(b'', l'') \<in> set (x # xs). addr s b'' l'' \<noteq> addr s b' l'" for b' l' d'
      using that x by (intro frame u(4)) auto
    show ?thesis using IH [THEN conjunct1] IH [THEN conjunct2, THEN conjunct1] mono u(3) keep all by blast
  qed
qed

lemma get_mapE_pure:
  "fst (get b l (snd (mapE (\<lambda>(b, l). get b l) xs s))) = fst (get b l s)"
proof (induction xs arbitrary: s)
  case Nil
  then show ?case by simp
next
  case (Cons x xs)
  obtain b' l' where x: "x = (b', l')" by (cases x)
  obtain r t where g: "get b' l' s = (r, t)" by (cases "get b' l' s")
  with get_pure [of b l b' l' s] have t: "fst (get b l t) = fst (get b l s)" by simp
  obtain r' t' where m: "mapE (\<lambda>(b, l). get b l) xs t = (r', t')"
    by (cases "mapE (\<lambda>(b, l). get b l) xs t")
  with Cons.IH [of t] t have t': "fst (get b l t') = fst (get b l s)" by simp
  show ?case
    by (cases r; cases r') (simp_all add: x g m t t' bindE_def returnE_def)
qed

end

sublocale blob_store \<subseteq> growing: frame_rel grows
  by unfold_locales (auto simp: grows_def)

end
