(* ===== verification/Backend_Laws.thy ===== *)
theory Backend_Laws
  imports Interfaces Blob_Store
begin

text \<open>
  What the storage backends promise. The outcome of a read as a pure function of the state,
  the effect of every put and delete on the other blobs, the documented behaviour of the
  remote services and of the UUID generator as predicates on the environment, and the
  interpretation of the contract \<open>blob_store\<close> on \<open>GetShard\<close>, \<open>PutShard\<close> and
  \<open>DeleteShard\<close>, for every environment and state that satisfy them.
\<close>

section \<open>What a read returns\<close>

text \<open>The outcome of \<open>GetShard\<close> as a function of the file system, the remote state and the
  service, without the caching of clients.\<close>

fun svc_read :: "'r env \<Rightarrow> (string \<rightharpoonup> bytes) \<Rightarrow> 'r \<Rightarrow> service \<Rightarrow> string \<Rightarrow> bytes res" where
  "svc_read env fs r (FileService s) l =
     (if fs_fail s then Inl ErrSimulated
      else case fs (filepath_Join (storageDirectory s) l) of None \<Rightarrow> Inl ErrIO | Some d \<Rightarrow> Inr d)"
| "svc_read env fs r (DiscordService s) l =
     (if \<not> ds_isConfigured s then ds_getObjectInMemory s l
      else if ds_session s \<or> dg_new env (let t = trimSpace (ds_botToken s)
                in if hasPrefix t ''Bot '' then t else ''Bot '' @ t)
      then ds_download env r (ds_channelID s) l else Inl (ErrRemote ''create session''))"
| "svc_read env fs r (TelegramService s) l =
     (if \<not> tg_isConfigured s then tg_getObjectInMemory s l
      else if tg_remote s \<or> newTelegramRemote env r s
      then td_GetObject env r (tg_chatID s) l else Inl (ErrRemote ''initialize tdlib client''))"

text \<open>The service after its client was made.\<close>

fun svc_touch :: "'r env \<Rightarrow> 'r \<Rightarrow> service \<Rightarrow> service" where
  "svc_touch env r (FileService s) = FileService s"
| "svc_touch env r (DiscordService s) =
     (if ds_isConfigured s \<and> dg_new env (let t = trimSpace (ds_botToken s)
                in if hasPrefix t ''Bot '' then t else ''Bot '' @ t)
      then DiscordService (s\<lparr>ds_session := True\<rparr>) else DiscordService s)"
| "svc_touch env r (TelegramService s) =
     (if tg_isConfigured s \<and> newTelegramRemote env r s
      then TelegramService (s\<lparr>tg_remote := True\<rparr>) else TelegramService s)"

definition touched :: "'r env \<Rightarrow> ('r, 'x) iface_scheme \<Rightarrow> ('r, 'x) iface_scheme \<Rightarrow> bool" where
  "touched env w w' \<longleftrightarrow> w' = w \<or> (\<exists>b svc. instances w b = Some svc \<and>
     w' = w\<lparr>instances := (instances w)(b \<mapsto> svc_touch env (remote w) svc)\<rparr>)"

lemma svc_read_touch [simp]:
  "svc_read env fs r (svc_touch env r svc) l = svc_read env fs r svc l"
  by (cases svc) (auto simp: ds_isConfigured_def tg_isConfigured_def ds_getObjectInMemory_def
      tg_getObjectInMemory_def newTelegramRemote_def)

lemma ds_getSession_eq:
  "ds_getSession env b s w =
     (if ds_session s then (Inr (), w)
      else if dg_new env (let t = trimSpace (ds_botToken s)
                in if hasPrefix t ''Bot '' then t else ''Bot '' @ t)
      then (Inr (), w\<lparr>instances := (instances w)(b \<mapsto> DiscordService (s\<lparr>ds_session := True\<rparr>))\<rparr>)
      else (Inl (ErrRemote ''create session''), w))"
  by (simp add: ds_getSession_def RegisterInstance_def returnE_def raiseE_def Let_def)

lemma tg_getRemote_eq:
  "tg_getRemote env b s w =
     (if tg_remote s then (Inr (), w)
      else if newTelegramRemote env (remote w) s
      then (Inr (), w\<lparr>instances := (instances w)(b \<mapsto> TelegramService (s\<lparr>tg_remote := True\<rparr>))\<rparr>)
      else (Inl (ErrRemote ''initialize tdlib client''), w))"
  by (simp add: tg_getRemote_def RegisterInstance_def returnE_def raiseE_def bindE_def)

lemma getService_eq:
  "getService b w =
     (case instances w b of None \<Rightarrow> Inl (ErrUnconfiguredBackend b) | Some svc \<Rightarrow> Inr svc, w)"
  by (simp add: getService_def comp_defs split: option.splits)

lemma svc_GetObject_read:
  "fst (svc_GetObject env b svc l w) = svc_read env (files w) (remote w) svc l"
  by (cases svc)
    (auto simp: file_GetObject_def discord_GetObject_def telegram_GetObject_def os_ReadFile_eq
      ds_getSession_eq tg_getRemote_eq bindE_def raiseE_def liftE_def)

lemma GetShard_read:
  "fst (GetShard env b l w) =
     (case instances w b of None \<Rightarrow> Inl (ErrUnconfiguredBackend b)
      | Some svc \<Rightarrow> svc_read env (files w) (remote w) svc l)"
  by (simp add: GetShard_def bindE_def getService_eq svc_GetObject_read split: option.splits)

lemma touchedI: "instances w b = Some svc \<Longrightarrow>
    w' = w\<lparr>instances := (instances w)(b \<mapsto> svc_touch env (remote w) svc)\<rparr> \<Longrightarrow> touched env w w'"
  by (auto simp: touched_def)

lemma touchedE [consumes 1, case_names same touch]:
  assumes "touched env w w'"
  obtains "w' = w"
    | b svc where "instances w b = Some svc"
      and "w' = w\<lparr>instances := (instances w)(b \<mapsto> svc_touch env (remote w) svc)\<rparr>"
  using assms unfolding touched_def by blast

lemma touched_refl [simp]: "touched env w w"
  by (simp add: touched_def)

lemma ds_getSession_touched:
  assumes "instances w b = Some (DiscordService s)" and "ds_isConfigured s"
  shows "touched env w (snd (ds_getSession env b s w))"
  using assms by (auto simp: ds_getSession_eq intro!: touchedI [OF assms(1)])

lemma tg_getRemote_touched:
  assumes "instances w b = Some (TelegramService s)" and "tg_isConfigured s"
  shows "touched env w (snd (tg_getRemote env b s w))"
  using assms by (auto simp: tg_getRemote_eq intro!: touchedI [OF assms(1)])

text \<open>Running a pure continuation after making the client.\<close>

lemma snd_bindE_pure:
  "(\<And>x t. snd (k x t) = t) \<Longrightarrow> snd (bindE m k s) = snd (m s)"
  by (simp add: bindE_def split: prod.splits sum.splits)

lemma GetShard_snd:
  "snd (GetShard env b l w) =
     (case instances w b of None \<Rightarrow> w | Some svc \<Rightarrow> snd (svc_GetObject env b svc l w))"
  by (simp add: GetShard_def bindE_def getService_eq split: option.splits)

lemma svc_GetObject_touched:
  assumes "instances w b = Some svc"
  shows "touched env w (snd (svc_GetObject env b svc l w))"
proof (cases svc)
  case (FileService s)
  then show ?thesis by (simp add: file_GetObject_def os_ReadFile_eq raiseE_def)
next
  case (DiscordService s)
  with assms ds_getSession_touched [of w b s env] show ?thesis
    by (simp add: discord_GetObject_def snd_bindE_pure)
next
  case (TelegramService s)
  with assms tg_getRemote_touched [of w b s env] show ?thesis
    by (simp add: telegram_GetObject_def snd_bindE_pure)
qed

lemma GetShard_touched: "touched env w (snd (GetShard env b l w))"
  by (simp add: GetShard_snd svc_GetObject_touched split: option.splits)

lemma touched_same [simp]:
  assumes "touched env w w'"
  shows "files w' = files w" "remote w' = remote w" "tick w' = tick w"
  using assms by (cases rule: touchedE, simp_all)+

lemma touched_read:
  assumes "touched env w w'"
  shows "fst (GetShard env b l w') = fst (GetShard env b l w)"
  using assms
proof (cases rule: touchedE)
  case (touch a svc)
  then show ?thesis by (cases "b = a") (simp_all add: GetShard_read split: option.split)
qed simp

section \<open>Addresses and laws\<close>

datatype blob_addr =
    AFile string
  | AMemory BackendType string
  | ADiscord string string
  | ATelegram int "int res"
  | ANone

fun svc_addr :: "BackendType \<Rightarrow> service \<Rightarrow> string \<Rightarrow> blob_addr" where
  "svc_addr b (FileService s) l = AFile (filepath_Join (storageDirectory s) l)"
| "svc_addr b (DiscordService s) l =
     (if ds_isConfigured s then ADiscord (ds_channelID s) l else AMemory b l)"
| "svc_addr b (TelegramService s) l =
     (if tg_isConfigured s then ATelegram (tg_chatID s) (parseTelegramMessageID l) else AMemory b l)"

definition shard_addr :: "('r, 'x) iface_scheme \<Rightarrow> BackendType \<Rightarrow> string \<Rightarrow> blob_addr" where
  "shard_addr w b l = (case instances w b of None \<Rightarrow> ANone | Some svc \<Rightarrow> svc_addr b svc l)"

text \<open>Everything that could be read from the remote services still can, and a client that could
  connect still can.\<close>

definition remote_grows :: "'r env \<Rightarrow> 'r \<Rightarrow> 'r \<Rightarrow> bool" where
  "remote_grows env r r' \<longleftrightarrow>
     (\<forall>c m d. ds_download env r c m = Inr d \<longrightarrow> ds_download env r' c m = Inr d) \<and>
     (\<forall>c l d. td_GetObject env r c l = Inr d \<longrightarrow> td_GetObject env r' c l = Inr d) \<and>
     (\<forall>c t a h wd. td_connect env r c t a h wd \<longrightarrow> td_connect env r' c t a h wd)"

text \<open>Documented behaviour of the two messaging services, as far as the drivers rely on it: a
  message that was sent is new, is read back, and stays until it is deleted; deleting one
  message leaves the others alone.\<close>

definition discord_law :: "'r env \<Rightarrow> bool" where
  "discord_law env \<longleftrightarrow>
     (\<forall>r c d x r'. dg_send env r c d = (x, r') \<longrightarrow> remote_grows env r r' \<and>
        (\<forall>m. x = Some m \<longrightarrow> ds_download env r' c m = Inr d \<and> (\<forall>d'. ds_download env r c m \<noteq> Inr d'))) \<and>
     (\<forall>r c m x r'. dg_delete env r c m = (x, r') \<longrightarrow>
        (\<forall>d. ds_download env r' c m = Inr d \<longrightarrow> \<not> x \<and> ds_download env r c m = Inr d) \<and>
        (\<forall>c' m' d. (c', m') \<noteq> (c, m) \<longrightarrow> (ds_download env r' c' m' = Inr d \<longleftrightarrow> ds_download env r c' m' = Inr d)) \<and>
        (\<forall>c l d. td_GetObject env r' c l = Inr d \<longleftrightarrow> td_GetObject env r c l = Inr d) \<and>
        (\<forall>c t a h wd. td_connect env r' c t a h wd \<longleftrightarrow> td_connect env r c t a h wd))"

definition telegram_law :: "'r env \<Rightarrow> bool" where
  "telegram_law env \<longleftrightarrow>
     (\<forall>r c d x r'. td_send env r c d = (x, r') \<longrightarrow> remote_grows env r r' \<and>
        (\<forall>m. x = Some m \<longrightarrow> int_range 64 m \<and> m \<noteq> 0 \<and> td_GetObject env r' c (FormatInt m) = Inr d \<and>
           (\<forall>l d'. parseTelegramMessageID l = Inr m \<longrightarrow> td_GetObject env r c l \<noteq> Inr d'))) \<and>
     (\<forall>r c m x r'. td_delete env r c m = (x, r') \<longrightarrow>
        (\<forall>l d. parseTelegramMessageID l = Inr m \<longrightarrow> td_GetObject env r' c l = Inr d
           \<longrightarrow> \<not> x \<and> td_GetObject env r c l = Inr d) \<and>
        (\<forall>c' l' d. (c', parseTelegramMessageID l') \<noteq> (c, Inr m) \<longrightarrow>
           (td_GetObject env r' c' l' = Inr d \<longleftrightarrow> td_GetObject env r c' l' = Inr d)) \<and>
        (\<forall>c m d. ds_download env r' c m = Inr d \<longleftrightarrow> ds_download env r c m = Inr d) \<and>
        (\<forall>c t a h wd. td_connect env r' c t a h wd \<longleftrightarrow> td_connect env r c t a h wd))"

text \<open>No location a later call will generate is in use.\<close>

definition fresh_inv :: "'r env \<Rightarrow> ('r, 'x) iface_scheme \<Rightarrow> bool" where
  "fresh_inv env w \<longleftrightarrow> (\<forall>n \<ge> tick w.
     (\<forall>dir. files w (filepath_Join dir (''shard_'' @ uuid_new env n)) = None) \<and>
     (\<forall>b s. instances w b = Some (DiscordService s) \<longrightarrow> ds_objects s (''discord-'' @ uuid_new env n) = None) \<and>
     (\<forall>b s. instances w b = Some (TelegramService s) \<longrightarrow> tg_objects s (''telegram-'' @ uuid_new env n) = None))"

definition lawful :: "'r env \<Rightarrow> bool" where
  "lawful env \<longleftrightarrow> uuid_law env \<and> discord_law env \<and> telegram_law env"

text \<open>A state change that loses nothing: addresses stay, readable blobs stay readable, unused
  locations stay unused.\<close>

definition iface_step :: "'r env \<Rightarrow> ('r, 'x) iface_scheme \<Rightarrow> ('r, 'x) iface_scheme \<Rightarrow> bool" where
  "iface_step env w w' \<longleftrightarrow> shard_addr w' = shard_addr w \<and>
     (fresh_inv env w \<longrightarrow> fresh_inv env w') \<and>
     (\<forall>b l d. fst (GetShard env b l w) = Inr d \<longrightarrow> fst (GetShard env b l w') = Inr d)"

interpretation istep: frame_rel "iface_step env" for env
  by unfold_locales (auto simp: iface_step_def)

lemma svc_addr_touch [simp]: "svc_addr b (svc_touch env r svc) = svc_addr b svc"
  by (rule ext, cases svc) (auto simp: ds_isConfigured_def tg_isConfigured_def)

lemma fresh_touch:
  assumes "instances w b = Some svc" and "fresh_inv env w"
  shows "fresh_inv env (w\<lparr>instances := (instances w)(b \<mapsto> svc_touch env (remote w) svc)\<rparr>)"
proof (cases svc)
  case (FileService s)
  with assms have "(instances w)(b \<mapsto> svc_touch env (remote w) svc) = instances w"
    by (simp add: fun_upd_idem)
  with assms(2) show ?thesis by (simp add: fresh_inv_def)
next
  case (DiscordService s)
  with assms show ?thesis by (simp add: fresh_inv_def)
next
  case (TelegramService s)
  with assms show ?thesis by (simp add: fresh_inv_def)
qed

lemma touched_step:
  assumes t: "touched env w w'"
  shows "iface_step env w w'"
proof -
  have "shard_addr w' b l = shard_addr w b l" for b l
    using t
  proof (cases rule: touchedE)
    case (touch a svc)
    then show ?thesis by (cases "b = a") (simp_all add: shard_addr_def)
  qed simp
  then have "shard_addr w' = shard_addr w" by blast
  moreover have "fresh_inv env w \<longrightarrow> fresh_inv env w'"
    using t by (cases rule: touchedE) (simp_all add: fresh_touch)
  ultimately show ?thesis using t by (simp add: iface_step_def touched_read)
qed

lemma tick_step: "tick w \<le> n \<Longrightarrow> iface_step env w (w\<lparr>tick := n\<rparr>)"
  by (auto simp: iface_step_def shard_addr_def fun_eq_iff fresh_inv_def GetShard_read
      split: option.splits)

section \<open>Puts\<close>

text \<open>What follows the last slash of a joined path is the name that was joined.\<close>

lemma splitSlash_nonempty [simp]: "splitSlash cs \<noteq> []"
  by (induction cs) (auto split: list.split)

lemma splitSlash_name: "CHR ''/'' \<notin> set name \<Longrightarrow> splitSlash name = [name]"
  by (induction name) auto

lemma splitSlash_join:
  assumes "CHR ''/'' \<notin> set name"
  shows "splitSlash (dir @ CHR ''/'' # name) = splitSlash dir @ [name]"
proof (induction dir)
  case Nil
  then show ?case by (simp add: splitSlash_name assms)
next
  case (Cons c dir)
  then show ?case by (cases "splitSlash dir") auto
qed

lemma joinSlash_snoc: "joinSlash (xs @ [x]) = (if xs = [] then x else joinSlash xs @ ''/'' @ x)"
  by (induction xs rule: joinSlash.induct) simp_all

definition name_of :: "string \<Rightarrow> string" where
  "name_of p = rev (takeWhile (\<lambda>c. c \<noteq> CHR ''/'') (rev p))"

lemma takeWhile_rev_notin: "c \<notin> set x \<Longrightarrow> takeWhile (\<lambda>d. d \<noteq> c) (rev x) = rev x"
  by (auto simp: takeWhile_eq_all_conv)

lemma name_of_slash: "CHR ''/'' \<notin> set x \<Longrightarrow> name_of (p @ CHR ''/'' # x) = x"
  by (subst name_of_def) (simp, subst takeWhile_append2, auto)

lemma name_of_self: "CHR ''/'' \<notin> set x \<Longrightarrow> name_of x = x"
  by (simp add: name_of_def takeWhile_rev_notin)

lemma name_of_Join:
  assumes "CHR ''/'' \<notin> set x" and "x \<noteq> []" and "x \<noteq> ''.''" and "x \<noteq> ''..''"
  shows "name_of (filepath_Join dir x) = x"
proof -
  have last: "foldl (clean_elem r) [] (splitSlash (dir @ CHR ''/'' # x))
      = foldl (clean_elem r) [] (splitSlash dir) @ [x]" for r
    by (simp add: splitSlash_join assms clean_elem_def)
  have "name_of ((if r then ''/'' else []) @ joinSlash (ys @ [x])) = x" for r ys
    using assms(1) name_of_slash [OF assms(1), of "[]"]
      name_of_slash [OF assms(1), of "joinSlash ys"] name_of_slash [OF assms(1), of "CHR ''/'' # joinSlash ys"]
    by (simp add: joinSlash_snoc name_of_self)
  note n = this
  have ne: "joinSlash (ys @ [x]) \<noteq> []" for ys
    using assms(2) by (simp add: joinSlash_snoc)
  show ?thesis
  proof (cases "dir = []")
    case True
    have "foldl (clean_elem r) [] (splitSlash x) = [] @ [x]" for r
      by (simp add: splitSlash_name assms clean_elem_def)
    with n [of _ "[]"] ne [of "[]"] True assms(2) show ?thesis
      by (simp add: filepath_Join_def filepath_Clean_def Let_def)
  next
    case False
    with n ne show ?thesis
      by (simp add: filepath_Join_def filepath_Clean_def Let_def last del: joinSlash.simps)
  qed
qed

lemma shard_path_inject:
  assumes "uuid_law env"
    and "filepath_Join dir (''shard_'' @ uuid_new env m) = filepath_Join dir' (''shard_'' @ uuid_new env n)"
  shows "m = n"
proof -
  have "name_of (filepath_Join dir (''shard_'' @ uuid_new env k)) = ''shard_'' @ uuid_new env k" for dir k
    using assms(1) by (intro name_of_Join) (simp_all add: uuid_law_def)
  with assms(2) have "''shard_'' @ uuid_new env m = ''shard_'' @ uuid_new env n" by metis
  with assms(1) show ?thesis by (simp add: uuid_new_inject)
qed

lemma write_step:
  assumes "uuid_law env" and "fresh_inv env w" and "tick w \<le> n" and "n < k"
    and "p = filepath_Join dir (''shard_'' @ uuid_new env n)"
  shows "iface_step env w (w\<lparr>tick := k, files := (files w)(p \<mapsto> d)\<rparr>)"
proof -
  have free: "files w p = None"
    using assms(2,3,5) by (simp add: fresh_inv_def)
  have "svc_read env ((files w)(p \<mapsto> d)) (remote w) svc l = Inr d'"
    if "svc_read env (files w) (remote w) svc l = Inr d'" for svc l d'
    using that free by (cases svc) (auto split: if_splits option.splits)
  moreover have "fresh_inv env (w\<lparr>tick := k, files := (files w)(p \<mapsto> d)\<rparr>)"
  proof -
    have "filepath_Join dir' (''shard_'' @ uuid_new env m) \<noteq> p" if "k \<le> m" for m dir'
      using shard_path_inject [OF assms(1), of dir n dir' m] assms(4,5) that by auto
    with assms(2-4) show ?thesis unfolding fresh_inv_def by simp
  qed
  ultimately show ?thesis
    by (auto simp: iface_step_def GetShard_read shard_addr_def fun_eq_iff split: option.splits)
qed

lemma file_PutObject_eq:
  "file_PutObject env s d w =
     (if fs_fail s then (Inl ErrSimulated, w)
      else if fault env (tick w) then (Inl ErrIO, w\<lparr>tick := tick w + 1\<rparr>)
      else if fault env (tick w + 2) then (Inl ErrIO, w\<lparr>tick := tick w + 3\<rparr>)
      else (Inr (''shard_'' @ uuid_new env (tick w + 1)),
        w\<lparr>tick := tick w + 3, files := (files w)
           (filepath_Join (storageDirectory s) (''shard_'' @ uuid_new env (tick w + 1)) \<mapsto> d)\<rparr>))"
  by (simp add: file_PutObject_def generateLocation_def ext_call_eq uuid_New_eq os_WriteFile_eq
      bindE_def returnE_def raiseE_def eval_nat_numeral)

lemma memory_step:
  assumes "uuid_law env" and "fresh_inv env w" and "instances w b = Some svc"
    and "(\<exists>s. svc = DiscordService s \<and> \<not> ds_isConfigured s \<and>
            svc' = DiscordService (s\<lparr>ds_objects := (ds_objects s)(''discord-'' @ uuid_new env (tick w) \<mapsto> d)\<rparr>)) \<or>
         (\<exists>s. svc = TelegramService s \<and> \<not> tg_isConfigured s \<and>
            svc' = TelegramService (s\<lparr>tg_objects := (tg_objects s)(''telegram-'' @ uuid_new env (tick w) \<mapsto> d)\<rparr>))"
  shows "iface_step env w (w\<lparr>tick := Suc (tick w), instances := (instances w)(b \<mapsto> svc')\<rparr>)"
  using assms(4)
proof
  assume "\<exists>s. svc = DiscordService s \<and> \<not> ds_isConfigured s \<and>
    svc' = DiscordService (s\<lparr>ds_objects := (ds_objects s)(''discord-'' @ uuid_new env (tick w) \<mapsto> d)\<rparr>)"
  then obtain s where s: "svc = DiscordService s" "\<not> ds_isConfigured s"
    "svc' = DiscordService (s\<lparr>ds_objects := (ds_objects s)(''discord-'' @ uuid_new env (tick w) \<mapsto> d)\<rparr>)"
    by blast
  have "ds_objects s (''discord-'' @ uuid_new env (tick w)) = None"
    using assms(2,3) s(1) by (simp add: fresh_inv_def)
  with assms s show ?thesis
    by (auto simp: iface_step_def GetShard_read shard_addr_def fun_eq_iff fresh_inv_def
        ds_isConfigured_def ds_getObjectInMemory_def uuid_new_inject split: option.splits if_splits)
next
  assume "\<exists>s. svc = TelegramService s \<and> \<not> tg_isConfigured s \<and>
    svc' = TelegramService (s\<lparr>tg_objects := (tg_objects s)(''telegram-'' @ uuid_new env (tick w) \<mapsto> d)\<rparr>)"
  then obtain s where s: "svc = TelegramService s" "\<not> tg_isConfigured s"
    "svc' = TelegramService (s\<lparr>tg_objects := (tg_objects s)(''telegram-'' @ uuid_new env (tick w) \<mapsto> d)\<rparr>)"
    by blast
  have "tg_objects s (''telegram-'' @ uuid_new env (tick w)) = None"
    using assms(2,3) s(1) by (simp add: fresh_inv_def)
  with assms s show ?thesis
    by (auto simp: iface_step_def GetShard_read shard_addr_def fun_eq_iff fresh_inv_def
        tg_isConfigured_def tg_getObjectInMemory_def uuid_new_inject split: option.splits if_splits)
qed

lemma svc_read_grows:
  "remote_grows env r r' \<Longrightarrow> svc_read env fs r svc l = Inr d \<Longrightarrow> svc_read env fs r' svc l = Inr d"
  by (cases svc) (auto simp: remote_grows_def newTelegramRemote_def Let_def split: if_splits)

lemma remote_step:
  assumes "remote_grows env (remote w) r'"
  shows "iface_step env w (w\<lparr>remote := r'\<rparr>)"
proof -
  show ?thesis using svc_read_grows [OF assms]
    by (auto simp: iface_step_def GetShard_read shard_addr_def fun_eq_iff fresh_inv_def
        split: option.splits)
qed

lemma PutShard_eq:
  "PutShard env b d w =
     (case instances w b of None \<Rightarrow> (Inl (ErrUnconfiguredBackend b), w)
      | Some svc \<Rightarrow> svc_PutObject env b svc d w)"
  by (simp add: PutShard_def bindE_def getService_eq split: option.splits)

lemma ds_putObjectInMemory_eq:
  "ds_putObjectInMemory env b s d w = (Inr (''discord-'' @ uuid_new env (tick w)),
     w\<lparr>tick := Suc (tick w), instances := (instances w)
       (b \<mapsto> DiscordService (s\<lparr>ds_objects := (ds_objects s)(''discord-'' @ uuid_new env (tick w) \<mapsto> d)\<rparr>))\<rparr>)"
  by (simp add: ds_putObjectInMemory_def uuid_New_eq RegisterInstance_def bindE_def returnE_def)

lemma tg_putObjectInMemory_eq:
  "tg_putObjectInMemory env b s d w = (Inr (''telegram-'' @ uuid_new env (tick w)),
     w\<lparr>tick := Suc (tick w), instances := (instances w)
       (b \<mapsto> TelegramService (s\<lparr>tg_objects := (tg_objects s)(''telegram-'' @ uuid_new env (tick w) \<mapsto> d)\<rparr>))\<rparr>)"
  by (simp add: tg_putObjectInMemory_def uuid_New_eq RegisterInstance_def bindE_def returnE_def)

text \<open>The remote puts: connect, then send.\<close>

lemma dg_send_step:
  assumes "discord_law env"
  shows "iface_step env w (snd (case dg_send env (remote w) c d of
     (None, r') \<Rightarrow> (Inl e, w\<lparr>remote := r'\<rparr>) | (Some m, r') \<Rightarrow> (Inr m, w\<lparr>remote := r'\<rparr>)))"
proof -
  obtain x r' where "dg_send env (remote w) c d = (x, r')" by (cases "dg_send env (remote w) c d")
  with assms show ?thesis
    by (cases x) (auto simp: discord_law_def intro!: remote_step)
qed

lemma ext_call_step: "iface_step env w (snd (ext_call env w))"
  by (simp add: ext_call_eq tick_step)

lemma td_send_step:
  assumes "telegram_law env"
  shows "iface_step env w (snd (case td_send env (remote w) c d of
     (None, r') \<Rightarrow> (Inl e, w\<lparr>remote := r'\<rparr>) | (Some m, r') \<Rightarrow> (Inr (FormatInt m), w\<lparr>remote := r'\<rparr>)))"
proof -
  obtain x r' where "td_send env (remote w) c d = (x, r')" by (cases "td_send env (remote w) c d")
  with assms show ?thesis
    by (cases x) (auto simp: telegram_law_def intro!: remote_step)
qed

lemma td_PutObject_step:
  "telegram_law env \<Longrightarrow> keeps (iface_step env) (td_PutObject env c d)"
  unfolding td_PutObject_def
  by (intro istep.keeps_bindE keepsI ext_call_step td_send_step)

lemma svc_PutObject_step:
  assumes "lawful env" and "fresh_inv env w" and "instances w b = Some svc"
  shows "iface_step env w (snd (svc_PutObject env b svc d w))"
proof (cases svc)
  case (FileService s)
  have "uuid_law env" using assms(1) by (simp add: lawful_def)
  from write_step [OF this assms(2), of "tick w + 1" "tick w + 3"] show ?thesis
    by (simp add: FileService file_PutObject_eq tick_step istep.reflR)
next
  case (DiscordService s)
  show ?thesis
  proof (cases "ds_isConfigured s")
    case False
    with assms DiscordService show ?thesis
      by (auto simp: discord_PutObject_def ds_putObjectInMemory_eq lawful_def istep.reflR
          intro!: memory_step)
  next
    case True
    have t: "iface_step env w (snd (ds_getSession env b s w))"
      using ds_getSession_touched [of w b s env] True assms(3) DiscordService
      by (simp add: touched_step)
    have k: "keeps (iface_step env) (\<lambda>w. case dg_send env (remote w) (ds_channelID s) d of
        (None, r') \<Rightarrow> (Inl (ErrRemote ''upload shard''), w\<lparr>remote := r'\<rparr>)
      | (Some msg, r') \<Rightarrow> (Inr msg, w\<lparr>remote := r'\<rparr>))" (is "keeps _ ?m")
      using assms(1) by (intro keepsI dg_send_step) (simp add: lawful_def)
    have "iface_step env w (snd (bindE (ds_getSession env b s) (\<lambda>_. ?m) w))"
      using t k by (rule istep.bindE_from)
    with True DiscordService show ?thesis
      by (simp add: discord_PutObject_def istep.reflR)
  qed
next
  case (TelegramService s)
  show ?thesis
  proof (cases "tg_isConfigured s")
    case False
    with assms TelegramService show ?thesis
      by (auto simp: telegram_PutObject_def tg_putObjectInMemory_eq lawful_def istep.reflR
          intro!: memory_step)
  next
    case True
    have t: "iface_step env w (snd (tg_getRemote env b s w))"
      using tg_getRemote_touched [of w b s env] True assms(3) TelegramService
      by (simp add: touched_step)
    have k: "keeps (iface_step env) (td_PutObject env (tg_chatID s) d)"
      using assms(1) by (simp add: lawful_def td_PutObject_step)
    have "iface_step env w (snd (bindE (tg_getRemote env b s)
        (\<lambda>_. td_PutObject env (tg_chatID s) d) w))"
      using t k by (rule istep.bindE_from)
    with True TelegramService show ?thesis
      by (simp add: telegram_PutObject_def istep.reflR)
  qed
qed

lemma PutShard_step:
  "lawful env \<Longrightarrow> fresh_inv env w \<Longrightarrow> iface_step env w (snd (PutShard env b d w))"
  by (simp add: PutShard_eq svc_PutObject_step istep.reflR split: option.split)

text \<open>A Telegram location is the decimal message identifier.\<close>

lemma parse_FormatInt_id:
  "int_range 64 m \<Longrightarrow> m \<noteq> 0 \<Longrightarrow> parseTelegramMessageID (FormatInt m) = Inr m"
  by (simp add: parseTelegramMessageID_def Let_def trim_FormatInt FormatInt_nonempty i64.parse_enc)

interpretation tgid: text_codec "\<lambda>m. int_range 64 m \<and> m \<noteq> 0" FormatInt parseTelegramMessageID
  by unfold_locales (simp_all add: parse_FormatInt_id)

text \<open>What a successful put leaves: the new blob, at an address no readable blob had.\<close>

definition stored :: "'r env \<Rightarrow> ('r, 'x) iface_scheme \<Rightarrow> BackendType \<Rightarrow> bytes \<Rightarrow> string \<Rightarrow> ('r, 'x) iface_scheme \<Rightarrow> bool" where
  "stored env w b d l t \<longleftrightarrow> fst (GetShard env b l t) = Inr d \<and>
     (\<forall>b' l' d'. fst (GetShard env b' l' w) = Inr d' \<longrightarrow> shard_addr w b l \<noteq> shard_addr w b' l')"

lemma svc_read_AFile:
  "svc_addr b svc l = AFile p \<Longrightarrow> fs p = None \<Longrightarrow> svc_read env fs r svc l \<noteq> Inr d"
  by (cases svc) (auto split: if_splits)

lemma svc_read_ADiscord:
  "svc_addr b svc l = ADiscord c m \<Longrightarrow> (\<And>d. ds_download env r c m \<noteq> Inr d)
     \<Longrightarrow> svc_read env fs r svc l \<noteq> Inr d"
  by (cases svc) (auto split: if_splits)

lemma svc_read_ATelegram:
  "svc_addr b svc l = ATelegram c x \<Longrightarrow> (\<And>l' d. parseTelegramMessageID l' = x \<Longrightarrow> td_GetObject env r c l' \<noteq> Inr d)
     \<Longrightarrow> svc_read env fs r svc l \<noteq> Inr d"
  by (cases svc) (auto split: if_splits)

lemma svc_addr_AMemory: "svc_addr b svc l = AMemory b' l' \<Longrightarrow> b' = b \<and> l' = l"
  by (cases svc) (auto split: if_splits)

lemma file_put_stored:
  assumes "fresh_inv env w" and "instances w b = Some (FileService s)"
    and "file_PutObject env s d w = (Inr l, t)"
  shows "stored env w b d l t"
proof -
  let ?p = "filepath_Join (storageDirectory s) (''shard_'' @ uuid_new env (tick w + 1))"
  have l: "\<not> fs_fail s" "l = ''shard_'' @ uuid_new env (tick w + 1)"
      "t = w\<lparr>tick := tick w + 3, files := (files w)(?p \<mapsto> d)\<rparr>"
    using assms(3) by (auto simp: file_PutObject_eq split: if_splits)
  have "files w ?p = None" using assms(1) by (simp add: fresh_inv_def)
  then have "shard_addr w b l \<noteq> shard_addr w b' l'" if "fst (GetShard env b' l' w) = Inr d'" for b' l' d'
    using that assms(2) svc_read_AFile [of b' _ l' ?p "files w" env "remote w" d'] l(2)
    by (auto simp: GetShard_read shard_addr_def eq_commute [of "AFile _"] split: option.splits)
  with assms(2) l show ?thesis by (simp add: stored_def GetShard_read)
qed

lemma memory_put_stored:
  assumes "instances w b = Some svc" and "instances t b = Some svc'"
    and "svc_read env (files w) (remote w) svc l = Inl e" and "svc_addr b svc l = AMemory b l"
    and "svc_read env (files t) (remote t) svc' l = Inr d"
  shows "stored env w b d l t"
proof -
  have "shard_addr w b l \<noteq> shard_addr w b' l'" if "fst (GetShard env b' l' w) = Inr d'" for b' l' d'
    using that assms(1,3,4)
    by (auto simp: GetShard_read shard_addr_def eq_commute [of "AMemory _ _"] split: option.splits
        dest!: svc_addr_AMemory)
  with assms(2,5) show ?thesis by (simp add: stored_def GetShard_read)
qed

lemma send_eq_Inr:
  "(case x of (None, r') \<Rightarrow> (Inl e, f r') | (Some m, r') \<Rightarrow> (Inr (g m), f r')) = (Inr l, t) \<longleftrightarrow>
     (\<exists>m r'. x = (Some m, r') \<and> l = g m \<and> t = f r')"
  by (cases x; cases "fst x") auto

lemma discord_put_stored:
  assumes "lawful env" and "fresh_inv env w" and "instances w b = Some (DiscordService s)"
    and "discord_PutObject env b s d w = (Inr l, t)"
  shows "stored env w b d l t"
proof (cases "ds_isConfigured s")
  case False
  with assms show ?thesis
    by (intro memory_put_stored) (auto simp: discord_PutObject_def ds_putObjectInMemory_eq
      ds_getObjectInMemory_def fresh_inv_def ds_isConfigured_def split: if_splits)
next
  case True
  with assms(4) obtain w1 r' where w1: "ds_getSession env b s w = (Inr (), w1)"
    and r': "dg_send env (remote w1) (ds_channelID s) d = (Some l, r')" and t: "t = w1\<lparr>remote := r'\<rparr>"
    by (auto simp: discord_PutObject_def bindE_eq_Inr_iff send_eq_Inr split: if_splits)
  have rem: "remote w1 = remote w" using w1 by (auto simp: ds_getSession_eq split: if_splits)
  have law: "ds_download env r' (ds_channelID s) l = Inr d"
      "\<And>d'. ds_download env (remote w) (ds_channelID s) l \<noteq> Inr d'"
    using assms(1) r' unfolding rem lawful_def discord_law_def by blast+
  have "shard_addr w b l \<noteq> shard_addr w b' l'" if "fst (GetShard env b' l' w) = Inr d'" for b' l' d'
    using that assms(3) True law(2) svc_read_ADiscord [of b' _ l' "ds_channelID s" l env "remote w" "files w" d']
    by (auto simp: GetShard_read shard_addr_def eq_commute [of "ADiscord _ _"] split: option.splits)
  moreover have "fst (GetShard env b l t) = Inr d"
    using w1 assms(3) True law(1) by (auto simp: GetShard_read ds_getSession_eq t ds_isConfigured_def split: if_splits)
  ultimately show ?thesis by (simp add: stored_def)
qed

lemma telegram_put_stored:
  assumes "lawful env" and "fresh_inv env w" and "instances w b = Some (TelegramService s)"
    and "telegram_PutObject env b s d w = (Inr l, t)"
  shows "stored env w b d l t"
proof (cases "tg_isConfigured s")
  case False
  with assms show ?thesis
    by (intro memory_put_stored) (auto simp: telegram_PutObject_def tg_putObjectInMemory_eq
      tg_getObjectInMemory_def fresh_inv_def tg_isConfigured_def split: if_splits)
next
  case True
  let ?c = "tg_chatID s"
  from True assms(4) obtain w1 r' m where w1: "tg_getRemote env b s w = (Inr (), w1)"
    and r': "td_send env (remote w1) ?c d = (Some m, r')"
    and l: "l = FormatInt m" and t: "t = w1\<lparr>tick := tick w1 + 3, remote := r'\<rparr>"
    by (auto simp: telegram_PutObject_def td_PutObject_def ext_call_eq bindE_eq_Inr_iff send_eq_Inr
        eval_nat_numeral split: if_splits)
  have rem: "remote w1 = remote w" using w1 by (auto simp: tg_getRemote_eq split: if_splits)
  have law: "int_range 64 m" "m \<noteq> 0" "td_GetObject env r' ?c l = Inr d" "remote_grows env (remote w) r'"
      "\<And>l' d'. parseTelegramMessageID l' = Inr m \<Longrightarrow> td_GetObject env (remote w) ?c l' \<noteq> Inr d'"
    using assms(1) r' unfolding l rem lawful_def telegram_law_def by blast+
  have p: "parseTelegramMessageID l = Inr m"
    using law(1,2) by (simp add: l parse_FormatInt_id)
  have "shard_addr w b l \<noteq> shard_addr w b' l'" if "fst (GetShard env b' l' w) = Inr d'" for b' l' d'
    using that assms(3) True p law(5) svc_read_ATelegram [of b' _ l' ?c "Inr m" env "remote w" "files w" d']
    by (auto simp: GetShard_read shard_addr_def eq_commute [of "ATelegram _ _"] split: option.splits)
  moreover have "newTelegramRemote env r' s" if "newTelegramRemote env (remote w) s"
    using that law(4) by (simp add: newTelegramRemote_def remote_grows_def Let_def)
  then have "fst (GetShard env b l t) = Inr d"
    using w1 assms(3) True law(3)
    by (auto simp: GetShard_read tg_getRemote_eq t tg_isConfigured_def split: if_splits)
  ultimately show ?thesis by (simp add: stored_def)
qed

lemma PutShard_stored:
  assumes "lawful env" and "fresh_inv env w" and "PutShard env b d w = (Inr l, t)"
  shows "stored env w b d l t"
proof -
  obtain svc where i: "instances w b = Some svc" and p: "svc_PutObject env b svc d w = (Inr l, t)"
    using assms(3) by (auto simp: PutShard_eq split: option.splits)
  then show ?thesis
    using assms(1,2) file_put_stored discord_put_stored telegram_put_stored by (cases svc) auto
qed

section \<open>Deletes\<close>

text \<open>What a delete leaves alone: the addresses, unused locations, and every blob at another
  address; when it succeeds the blob is gone.\<close>

definition deleted :: "'r env \<Rightarrow> ('r, 'x) iface_scheme \<Rightarrow> BackendType \<Rightarrow> string \<Rightarrow> unit res \<times> ('r, 'x) iface_scheme \<Rightarrow> bool" where
  "deleted env w b l p \<longleftrightarrow> shard_addr (snd p) = shard_addr w \<and>
     (fresh_inv env w \<longrightarrow> fresh_inv env (snd p)) \<and>
     (\<forall>b' l' d. shard_addr w b l \<noteq> shard_addr w b' l' \<longrightarrow> fst (GetShard env b' l' w) = Inr d
        \<longrightarrow> fst (GetShard env b' l' (snd p)) = Inr d) \<and>
     (\<forall>b' l' d. fst (GetShard env b' l' (snd p)) = Inr d \<longrightarrow> fst (GetShard env b' l' w) = Inr d) \<and>
     (fst p = Inr () \<longrightarrow> (\<exists>e. fst (GetShard env b l (snd p)) = Inl e))"

lemma deletedI:
  assumes "shard_addr (snd p) = shard_addr w" and "fresh_inv env w \<Longrightarrow> fresh_inv env (snd p)"
    and "\<And>b' l' d. shard_addr w b l \<noteq> shard_addr w b' l' \<Longrightarrow> fst (GetShard env b' l' w) = Inr d
        \<Longrightarrow> fst (GetShard env b' l' (snd p)) = Inr d"
    and "\<And>b' l' d. fst (GetShard env b' l' (snd p)) = Inr d \<Longrightarrow> fst (GetShard env b' l' w) = Inr d"
    and "fst p = Inr () \<Longrightarrow> \<exists>e. fst (GetShard env b l (snd p)) = Inl e"
  shows "deleted env w b l p"
  unfolding deleted_def using assms by blast

lemma not_Inr_Inl: "(\<And>d. x \<noteq> Inr d) \<Longrightarrow> \<exists>e. x = Inl e"
  by (cases x) auto

lemma deleted_step:
  assumes "iface_step env w (snd p)" and "\<And>b l. fst (GetShard env b l (snd p)) = fst (GetShard env b l w)"
    and "fst p \<noteq> Inr ()"
  shows "deleted env w b l p"
  using assms(3)
  by (intro deletedI) (simp_all add: assms(2) assms(1) [unfolded iface_step_def, THEN conjunct1]
      assms(1) [unfolded iface_step_def, THEN conjunct2, THEN conjunct1])

lemma GetShard_tick [simp]: "fst (GetShard env b l (w\<lparr>tick := n\<rparr>)) = fst (GetShard env b l w)"
  by (simp add: GetShard_read split: option.split)

text \<open>A delete after the client was made, or after a failed call.\<close>

lemma deleted_after:
  assumes "touched env w w1" and "deleted env w1 b l p"
  shows "deleted env w b l p"
proof -
  have "iface_step env w w1" using assms(1) by (rule touched_step)
  then have "shard_addr w1 = shard_addr w" "fresh_inv env w \<longrightarrow> fresh_inv env w1"
    unfolding iface_step_def by blast+
  note a = this
  show ?thesis
    using assms(2) a unfolding deleted_def touched_read [OF assms(1)] a(1) by blast
qed

lemma file_deleted:
  assumes "instances w b = Some (FileService s)"
  shows "deleted env w b l (file_DeleteObject env s l w)"
proof -
  let ?p = "filepath_Join (storageDirectory s) l"
  let ?t = "w\<lparr>tick := Suc (tick w), files := (files w)(?p := None)\<rparr>"
  have frame: "svc_read env ((files w)(?p := None)) (remote w) svc l' = Inr d"
    if "svc_read env (files w) (remote w) svc l' = Inr d" "AFile ?p \<noteq> svc_addr b' svc l'" for svc b' l' d
    using that by (cases svc) (auto split: if_splits option.splits)
  have mono: "svc_read env (files w) (remote w) svc l' = Inr d"
    if "svc_read env ((files w)(?p := None)) (remote w) svc l' = Inr d" for svc l' d
    using that by (cases svc) (auto split: if_splits option.splits)
  have "deleted env w b l (Inr (), ?t)"
  proof (rule deletedI)
    show "fst (GetShard env b' l' (snd (Inr (), ?t))) = Inr d"
      if "shard_addr w b l \<noteq> shard_addr w b' l'" "fst (GetShard env b' l' w) = Inr d" for b' l' d
      using that assms frame by (simp add: GetShard_read shard_addr_def split: option.splits)
    show "fst (GetShard env b' l' w) = Inr d" if "fst (GetShard env b' l' (snd (Inr (), ?t))) = Inr d" for b' l' d
      using that mono by (simp add: GetShard_read split: option.splits)
  qed (use assms in \<open>simp_all add: GetShard_read shard_addr_def fun_eq_iff fresh_inv_def\<close>)
  then show ?thesis
    by (auto simp: file_DeleteObject_def os_Remove_eq raiseE_def deleted_step istep.reflR tick_step)
qed

lemma memory_deleted:
  assumes "instances w b = Some svc" and "svc_addr b svc = AMemory b" and "svc_addr b svc' = AMemory b"
    and "\<And>l'. svc_read env (files w) (remote w) svc' l'
           = (if l' = l then Inl (ErrBlobNotFound l) else svc_read env (files w) (remote w) svc l')"
    and "fresh_inv env w \<Longrightarrow> fresh_inv env (w\<lparr>instances := (instances w)(b \<mapsto> svc')\<rparr>)"
  shows "deleted env w b l (Inr (), w\<lparr>instances := (instances w)(b \<mapsto> svc')\<rparr>)"
  using assms by (auto simp: deleted_def GetShard_read shard_addr_def fun_eq_iff split: option.splits)

lemma ds_memory_deleted:
  assumes i: "instances w b = Some (DiscordService s)" and c: "\<not> ds_isConfigured s"
  shows "deleted env w b l (ds_deleteObjectInMemory b s l w)"
proof (cases "ds_objects s l")
  case None
  then show ?thesis by (simp add: ds_deleteObjectInMemory_def raiseE_def deleted_step istep.reflR)
next
  case (Some x)
  let ?s = "s\<lparr>ds_objects := (ds_objects s)(l := None)\<rparr>"
  have "\<not> ds_isConfigured ?s" using c by (simp add: ds_isConfigured_def)
  moreover have "fresh_inv env (w\<lparr>instances := (instances w)(b \<mapsto> DiscordService ?s)\<rparr>)" if "fresh_inv env w"
    using that i by (simp add: fresh_inv_def)
  ultimately have "deleted env w b l (Inr (), w\<lparr>instances := (instances w)(b \<mapsto> DiscordService ?s)\<rparr>)"
    using i c by (intro memory_deleted [OF i]) (auto simp: fun_eq_iff ds_getObjectInMemory_def)
  with Some show ?thesis by (simp add: ds_deleteObjectInMemory_def RegisterInstance_def)
qed

lemma tg_memory_deleted:
  assumes i: "instances w b = Some (TelegramService s)" and c: "\<not> tg_isConfigured s"
  shows "deleted env w b l (tg_deleteObjectInMemory b s l w)"
proof (cases "tg_objects s l")
  case None
  then show ?thesis by (simp add: tg_deleteObjectInMemory_def raiseE_def deleted_step istep.reflR)
next
  case (Some x)
  let ?s = "s\<lparr>tg_objects := (tg_objects s)(l := None)\<rparr>"
  have "\<not> tg_isConfigured ?s" using c by (simp add: tg_isConfigured_def)
  moreover have "fresh_inv env (w\<lparr>instances := (instances w)(b \<mapsto> TelegramService ?s)\<rparr>)" if "fresh_inv env w"
    using that i by (simp add: fresh_inv_def)
  ultimately have "deleted env w b l (Inr (), w\<lparr>instances := (instances w)(b \<mapsto> TelegramService ?s)\<rparr>)"
    using i c by (intro memory_deleted [OF i]) (auto simp: fun_eq_iff tg_getObjectInMemory_def)
  with Some show ?thesis by (simp add: tg_deleteObjectInMemory_def RegisterInstance_def)
qed

lemma remote_deleted:
  assumes "instances w b = Some svc"
    and "\<And>fs b' svc' l' d. svc_addr b svc l \<noteq> svc_addr b' svc' l' \<Longrightarrow> svc_read env fs (remote w) svc' l' = Inr d
           \<Longrightarrow> svc_read env fs r' svc' l' = Inr d"
    and "\<And>fs svc' l' d. svc_read env fs r' svc' l' = Inr d \<Longrightarrow> svc_read env fs (remote w) svc' l' = Inr d"
    and "ok \<Longrightarrow> \<exists>e. svc_read env (files w) r' svc l = Inl e"
  shows "deleted env w b l (if ok then Inr () else Inl e', w\<lparr>remote := r'\<rparr>)"
proof (rule deletedI)
  show "shard_addr (snd (if ok then Inr () else Inl e', w\<lparr>remote := r'\<rparr>)) = shard_addr w"
    by (simp add: shard_addr_def fun_eq_iff)
next
  fix b' l' d
  assume "shard_addr w b l \<noteq> shard_addr w b' l'" "fst (GetShard env b' l' w) = Inr d"
  then show "fst (GetShard env b' l' (snd (if ok then Inr () else Inl e', w\<lparr>remote := r'\<rparr>))) = Inr d"
    using assms(1,2) by (simp add: shard_addr_def GetShard_read split: option.splits)
next
  fix b' l' d
  assume "fst (GetShard env b' l' (snd (if ok then Inr () else Inl e', w\<lparr>remote := r'\<rparr>))) = Inr d"
  then show "fst (GetShard env b' l' w) = Inr d"
    using assms(3) by (simp add: GetShard_read split: option.splits)
next
  assume "fst (if ok then Inr () else Inl e', w\<lparr>remote := r'\<rparr>) = Inr ()"
  then show "\<exists>e. fst (GetShard env b l (snd (if ok then Inr () else Inl e', w\<lparr>remote := r'\<rparr>))) = Inl e"
    using assms(1,4) by (simp add: GetShard_read split: if_splits)
qed (simp add: fresh_inv_def)

lemma dg_deleted:
  assumes "discord_law env" and i: "instances w b = Some (DiscordService s)" and c: "ds_isConfigured s"
    and d: "dg_delete env (remote w) (ds_channelID s) l = (ok, r')"
  shows "deleted env w b l (if ok then Inr () else Inl e, w\<lparr>remote := r'\<rparr>)"
proof (rule remote_deleted [OF i])
  note law = conjunct2 [OF assms(1) [unfolded discord_law_def], rule_format, OF d]
  note key = law [THEN conjunct1, rule_format]
  note other = law [THEN conjunct2, THEN conjunct1, rule_format]
  note tg = law [THEN conjunct2, THEN conjunct2, THEN conjunct1, rule_format]
  note con = law [THEN conjunct2, THEN conjunct2, THEN conjunct2, rule_format]
  have new: "newTelegramRemote env r' x = newTelegramRemote env (remote w) x" for x
    by (simp add: newTelegramRemote_def Let_def con)
  show "svc_read env fs r' svc' l' = Inr d"
    if "svc_addr b (DiscordService s) l \<noteq> svc_addr b' svc' l'" "svc_read env fs (remote w) svc' l' = Inr d"
    for fs b' svc' l' d
    using that c other [of "case svc' of DiscordService x \<Rightarrow> ds_channelID x | _ \<Rightarrow> []" l' d]
    by (cases svc') (auto simp: new tg split: if_splits)
  have "ds_download env (remote w) c' m' = Inr d" if "ds_download env r' c' m' = Inr d" for c' m' d
    using key [of d] other [of c' m' d] that by (cases "(c', m') = (ds_channelID s, l)") auto
  then have "remote_grows env r' (remote w)" using tg con by (simp add: remote_grows_def)
  then show "svc_read env fs (remote w) svc' l' = Inr d" if "svc_read env fs r' svc' l' = Inr d" for fs svc' l' d
    using that by (rule svc_read_grows)
  show "\<exists>e. svc_read env (files w) r' (DiscordService s) l = Inl e" if ok
    using key that c by (auto intro: not_Inr_Inl)
qed

lemma td_deleted:
  assumes "telegram_law env" and i: "instances w b = Some (TelegramService s)" and c: "tg_isConfigured s"
    and p: "parseTelegramMessageID l = Inr m"
    and d: "td_delete env (remote w) (tg_chatID s) m = (ok, r')"
  shows "deleted env w b l (if ok then Inr () else Inl e, w\<lparr>remote := r'\<rparr>)"
proof (rule remote_deleted [OF i])
  note law = conjunct2 [OF assms(1) [unfolded telegram_law_def], rule_format, OF d]
  note key = law [THEN conjunct1, rule_format]
  note other = law [THEN conjunct2, THEN conjunct1, rule_format]
  note dg = law [THEN conjunct2, THEN conjunct2, THEN conjunct1, rule_format]
  note con = law [THEN conjunct2, THEN conjunct2, THEN conjunct2, rule_format]
  have new: "newTelegramRemote env r' x = newTelegramRemote env (remote w) x" for x
    by (simp add: newTelegramRemote_def Let_def con)
  show "svc_read env fs r' svc' l' = Inr d"
    if "svc_addr b (TelegramService s) l \<noteq> svc_addr b' svc' l'" "svc_read env fs (remote w) svc' l' = Inr d"
    for fs b' svc' l' d
    using that c p other [of "case svc' of TelegramService x \<Rightarrow> tg_chatID x | _ \<Rightarrow> 0" l' d]
    by (cases svc') (auto simp: new dg split: if_splits)
  have "td_GetObject env (remote w) c' l' = Inr d" if "td_GetObject env r' c' l' = Inr d" for c' l' d
    using key [of l' d] other [of c' l' d] that
    by (cases "(c', parseTelegramMessageID l') = (tg_chatID s, Inr m)") auto
  then have "remote_grows env r' (remote w)" using dg con by (simp add: remote_grows_def)
  then show "svc_read env fs (remote w) svc' l' = Inr d" if "svc_read env fs r' svc' l' = Inr d" for fs svc' l' d
    using that by (rule svc_read_grows)
  show "\<exists>e. svc_read env (files w) r' (TelegramService s) l = Inl e" if ok
    using key [OF p] that c by (auto intro: not_Inr_Inl)
qed

lemma discord_deleted:
  assumes "lawful env" and i: "instances w b = Some (DiscordService s)"
  shows "deleted env w b l (discord_DeleteObject env b s l w)"
proof (cases "ds_isConfigured s")
  case False
  then show ?thesis using i by (simp add: discord_DeleteObject_def ds_memory_deleted)
next
  case True
  obtain r w1 where g: "ds_getSession env b s w = (r, w1)" by (cases "ds_getSession env b s w")
  have st: "touched env w w1"
    using ds_getSession_touched [OF i True, of env] g by simp
  show ?thesis
  proof (cases r)
    case (Inl e)
    with g st True show ?thesis
      by (simp add: discord_DeleteObject_def deleted_step touched_step touched_read)
  next
    case (Inr u)
    obtain ok r' where d: "dg_delete env (remote w1) (ds_channelID s) l = (ok, r')"
      by (cases "dg_delete env (remote w1) (ds_channelID s) l")
    obtain s' where s': "instances w1 b = Some (DiscordService s')" "ds_isConfigured s'" "ds_channelID s' = ds_channelID s"
      using g i True by (auto simp: ds_getSession_eq ds_isConfigured_def split: if_splits)
    have "deleted env w1 b l (if ok then Inr () else Inl (ErrRemote ''delete message''), w1\<lparr>remote := r'\<rparr>)"
      using assms(1) s' d by (intro dg_deleted [where s = s']) (simp_all add: lawful_def)
    with g Inr d True show ?thesis
      by (simp add: discord_DeleteObject_def deleted_after [OF st])
  qed
qed

lemma telegram_deleted:
  assumes "lawful env" and i: "instances w b = Some (TelegramService s)"
  shows "deleted env w b l (telegram_DeleteObject env b s l w)"
proof (cases "tg_isConfigured s")
  case False
  then show ?thesis using i by (simp add: telegram_DeleteObject_def tg_memory_deleted)
next
  case True
  obtain r w1 where g: "tg_getRemote env b s w = (r, w1)" by (cases "tg_getRemote env b s w")
  have st: "touched env w w1"
    using tg_getRemote_touched [OF i True, of env] g by simp
  show ?thesis
  proof (cases r)
    case (Inl e)
    with g st True show ?thesis
      by (simp add: telegram_DeleteObject_def deleted_step touched_step touched_read)
  next
    case (Inr u)
    obtain s' where s': "instances w1 b = Some (TelegramService s')" "tg_isConfigured s'" "tg_chatID s' = tg_chatID s"
      using g i True by (auto simp: tg_getRemote_eq tg_isConfigured_def split: if_splits)
    have "deleted env w1 b l (td_DeleteObject env (tg_chatID s) l w1)"
    proof (cases "parseTelegramMessageID l")
      case (Inl e)
      then show ?thesis by (simp add: td_DeleteObject_def bindE_def liftE_def deleted_step istep.reflR)
    next
      case (Inr m)
      obtain ok r' where d: "td_delete env (remote w1) (tg_chatID s) m = (ok, r')"
        by (cases "td_delete env (remote w1) (tg_chatID s) m")
      have "deleted env w1 b l (if ok then Inr () else Inl (ErrRemote ''delete message''), w1\<lparr>remote := r'\<rparr>)"
        using assms(1) s' d Inr by (intro td_deleted [where s = s']) (simp_all add: lawful_def)
      with d Inr show ?thesis by (simp add: td_DeleteObject_def bindE_def liftE_def)
    qed
    with g Inr True show ?thesis
      by (simp add: telegram_DeleteObject_def deleted_after [OF st])
  qed
qed

lemma DeleteShard_deleted:
  assumes "lawful env"
  shows "deleted env w b l (DeleteShard env b l w)"
proof (cases "instances w b")
  case None
  then show ?thesis by (simp add: DeleteShard_def bindE_def getService_eq deleted_step istep.reflR)
next
  case (Some svc)
  then have "deleted env w b l (svc_DeleteObject env b svc l w)"
    using assms file_deleted discord_deleted telegram_deleted by (cases svc) auto
  with Some show ?thesis by (simp add: DeleteShard_def bindE_def getService_eq)
qed

section \<open>The contract\<close>

definition iface_ok :: "'r env \<Rightarrow> ('r, 'x) iface_scheme \<Rightarrow> bool" where
  "iface_ok env w \<longleftrightarrow> lawful env \<and> fresh_inv env w"

lemma GetShard_step: "iface_step env w (snd (GetShard env b l w))"
  by (rule touched_step [OF GetShard_touched])

interpretation iface: blob_store "GetShard env" "PutShard env" "DeleteShard env" shard_addr "iface_ok env" for env
proof
  fix b b' l l' s
  show "fst (GetShard env b' l' (snd (GetShard env b l s))) = fst (GetShard env b' l' s)"
    by (rule touched_read [OF GetShard_touched])
  show "shard_addr (snd (GetShard env b l s)) = shard_addr s"
    using GetShard_step [of env s b l] by (simp add: iface_step_def)
  show "iface_ok env s \<Longrightarrow> iface_ok env (snd (GetShard env b l s))"
    using GetShard_step [of env s b l] by (simp add: iface_step_def iface_ok_def)
next
  fix b d s
  show "iface_ok env s \<Longrightarrow> iface_ok env (snd (PutShard env b d s))"
    using PutShard_step [of env s b d] by (simp add: iface_step_def iface_ok_def)
  show "iface_ok env s \<Longrightarrow> shard_addr (snd (PutShard env b d s)) = shard_addr s"
    using PutShard_step [of env s b d] by (simp add: iface_step_def iface_ok_def)
next
  fix b d s l t b' l' d'
  assume "iface_ok env s"
  then show "PutShard env b d s = (Inr l, t) \<Longrightarrow> fst (GetShard env b l t) = Inr d"
    "PutShard env b d s = (Inr l, t) \<Longrightarrow> fst (GetShard env b' l' s) = Inr d' \<Longrightarrow> shard_addr s b l \<noteq> shard_addr s b' l'"
    "fst (GetShard env b' l' s) = Inr d' \<Longrightarrow> fst (GetShard env b' l' (snd (PutShard env b d s))) = Inr d'"
    using PutShard_stored [of env s b d l t] PutShard_step [of env s b d]
    by (auto simp: iface_ok_def stored_def iface_step_def)
next
  fix b l s
  assume "iface_ok env s"
  then have d: "deleted env s b l (DeleteShard env b l s)" and f: "fresh_inv env s" "lawful env"
    by (simp_all add: iface_ok_def DeleteShard_deleted)
  show "iface_ok env (snd (DeleteShard env b l s))" "shard_addr (snd (DeleteShard env b l s)) = shard_addr s"
    using d f unfolding deleted_def iface_ok_def by blast+
  fix b' l' d' t
  show "fst (GetShard env b' l' (snd (DeleteShard env b l s))) = Inr d' \<Longrightarrow> fst (GetShard env b' l' s) = Inr d'"
    using d unfolding deleted_def by (metis fst_conv snd_conv)
  show "shard_addr s b l \<noteq> shard_addr s b' l' \<Longrightarrow> fst (GetShard env b' l' s) = Inr d'
      \<Longrightarrow> fst (GetShard env b' l' (snd (DeleteShard env b l s))) = Inr d'"
    using d unfolding deleted_def by (metis fst_conv snd_conv)
  show "DeleteShard env b l s = (Inr (), t) \<Longrightarrow> \<exists>e. fst (GetShard env b l t) = Inl e"
    using d unfolding deleted_def by (metis fst_conv snd_conv)
qed

end
