(* ===== verification/Shard.thy ===== *)
theory Shard
  imports Backend_Laws
begin

text \<open>
  The sharding layer (\<open>storage/shard/service.go\<close>): data is cut into rows of one size,
  extended by Reed-Solomon parity rows, spread over the backends in contiguous blocks, merged
  up to the size a backend accepts and uploaded, one goroutine per backend. \<open>CollectShards\<close>
  reads the blobs back and reconstructs the data rows from whatever is readable.

  The uploads run concurrently: the goroutines are interleaved at every \<open>PutShard\<close>, in the
  order the scheduler of the environment picks (\<open>sched\<close>), and every theorem holds for all
  schedulers. Lengths and counts are unbounded here; the source computes the row count by a
  division of \<open>float64\<close>s, which is exact below \<open>2 ^ 53\<close> bytes.
\<close>

section \<open>Data\<close>

record shard =
  First :: int
  Last :: int
  Backend :: BackendType
  Location :: string
  lastVerified :: gotime
  Checksum :: int

record rawShard =
  raw_First :: int
  raw_Last :: int
  raw_data :: bytes

definition GenerateChecksum :: "'r env \<Rightarrow> bytes \<Rightarrow> int" where
  "GenerateChecksum env data = sint (xxhash64 env data)"

text \<open>The receiver is a value: the time of the verification does not reach the caller.\<close>

definition VerifyChecksum :: "'r env \<Rightarrow> shard \<Rightarrow> (('r, 'x) iface_scheme, bool) comp" where
  "VerifyChecksum env s = (\<lambda>w.
     case GetShard env (Backend s) (Location s) w of
       (Inl _, w') \<Rightarrow> (Inr False, w')
     | (Inr data, w') \<Rightarrow>
         (if Checksum s \<noteq> GenerateChecksum env data then (Inr False, w')
          else bindE (time_Now env) (\<lambda>_. returnE True) w'))"

section \<open>How many parity rows\<close>

text \<open>The rows lost when the \<open>tol\<close> fullest of \<open>n\<close> backends fail.\<close>

definition lostRows :: "int \<Rightarrow> nat \<Rightarrow> nat \<Rightarrow> int" where
  "lostRows tol n totalShards =
     (let perBackend = int (totalShards div n); extra = int (totalShards mod n)
      in tol * perBackend + (if tol < extra then tol else extra))"

partial_function (option) parityLoop :: "int \<Rightarrow> nat \<Rightarrow> nat \<Rightarrow> nat \<Rightarrow> nat option" where
  "parityLoop tol n d parity =
     (if lostRows tol n (d + parity) \<le> int parity then Some parity
      else parityLoop tol n d (Suc parity))"

text \<open>Integer division by zero panics; the loop has no bound.\<close>

definition getShardParityCount :: "'r env \<Rightarrow> nat \<Rightarrow> nat \<Rightarrow> nat res" where
  "getShardParityCount env backendCount dataShardsCount =
     (if backendCount = 0 then Inl ErrPanic
      else case parityLoop (FailureTolerance (Cfg env)) backendCount dataShardsCount 0 of
             None \<Rightarrow> Inl ErrDiverge
           | Some p \<Rightarrow> Inr p)"

section \<open>Encoding\<close>

definition padTo :: "nat \<Rightarrow> bytes \<Rightarrow> bytes" where
  "padTo n d = d @ replicate (n - length d) 0"

definition dataRow :: "bytes \<Rightarrow> nat \<Rightarrow> nat \<Rightarrow> bytes" where
  "dataRow data n i = padTo n (take n (drop (i * n) data))"

definition encodeParityShards :: "'r env \<Rightarrow> bytes \<Rightarrow> nat \<Rightarrow> nat \<Rightarrow> (bytes list \<times> nat) res" where
  "encodeParityShards env data backendCount minShardSize =
     (let dataCount = (length data + minShardSize - 1) div minShardSize
      in case getShardParityCount env backendCount dataCount of
           Inl e \<Rightarrow> Inl e
         | Inr parityCount \<Rightarrow>
             (if \<not> rs_new env dataCount parityCount then Inl ErrReedSolomon
              else case rs_encode env dataCount parityCount
                     (map (\<lambda>i. if i < dataCount then dataRow data minShardSize i
                               else replicate minShardSize 0) [0 ..< dataCount + parityCount]) of
                     None \<Rightarrow> Inl ErrReedSolomon
                   | Some parityData \<Rightarrow> Inr (parityData, dataCount)))"

text \<open>The row size: the largest size every backend accepts, or one of its halvings (not below
  50 KiB) that leaves the smallest remainder.\<close>

fun candidateLoop :: "nat \<Rightarrow> nat \<Rightarrow> nat list \<Rightarrow> nat \<Rightarrow> nat \<Rightarrow> nat" where
  "candidateLoop len minShardSize [] best least = best"
| "candidateLoop len minShardSize (i # is) best least =
     (let candidate = minShardSize div 2 ^ i
      in if candidate < 1024 * 50 then best
         else let leftover = len mod candidate;
                  best' = (if leftover < least then candidate else best);
                  least' = (if leftover < least then leftover else least)
              in if leftover = 0 then best' else candidateLoop len minShardSize is best' least')"

definition chooseShardSize :: "nat \<Rightarrow> nat \<Rightarrow> nat" where
  "chooseShardSize len minShardSize =
     (if minShardSize < len
      then candidateLoop len minShardSize [1 ..< 11] minShardSize (len mod minShardSize)
      else minShardSize)"

section \<open>Distribution and merging\<close>

text \<open>The block of backend number \<open>i\<close> has \<open>base\<close> rows, one more for the first \<open>extra\<close> of
  them; \<open>rawShards[b]\<close> collects the blocks of \<open>b\<close>.\<close>

fun distribute :: "bytes list \<Rightarrow> nat \<Rightarrow> nat \<Rightarrow> nat \<Rightarrow> nat \<Rightarrow> BackendType list
    \<Rightarrow> (BackendType \<Rightarrow> rawShard list) \<Rightarrow> (BackendType \<Rightarrow> rawShard list)" where
  "distribute ys base extra i next [] m = m"
| "distribute ys base extra i next (b # bs) m =
     (let count = (if i < extra then Suc base else base)
      in distribute ys base extra (Suc i) (next + count) bs
           (m(b := m b @ map (\<lambda>k. \<lparr>raw_First = int k, raw_Last = int k, raw_data = ys ! k\<rparr>)
                           [next ..< next + count])))"

text \<open>The longest run of raw shards whose data fits into \<open>shardSize\<close> after what is merged.\<close>

fun mergeRun :: "nat \<Rightarrow> bytes \<Rightarrow> rawShard list \<Rightarrow> bytes \<times> nat" where
  "mergeRun shardSize merged [] = (merged, 0)"
| "mergeRun shardSize merged (r # rs) =
     (if shardSize < length merged + length (raw_data r) then (merged, 0)
      else case mergeRun shardSize (merged @ raw_data r) rs of (m, k) \<Rightarrow> (m, Suc k))"

lemma mergeRun_bound: "mergeRun c m rs = (m', k) \<Longrightarrow> k \<le> length rs"
  by (induction c m rs arbitrary: m' k rule: mergeRun.induct) (auto split: if_splits prod.splits)

text \<open>A shard that does not fit on its own makes an empty run: at the front the index \<open>j-1\<close>
  panics, later the loop makes no progress.\<close>

function mergeShards :: "nat \<Rightarrow> bool \<Rightarrow> rawShard list \<Rightarrow> rawShard list res" where
  "mergeShards shardSize first [] = Inr []"
| "mergeShards shardSize first (r # rs) =
     (case mergeRun shardSize [] (r # rs) of
        (merged, 0) \<Rightarrow> Inl (if first then ErrPanic else ErrDiverge)
      | (merged, Suc k) \<Rightarrow>
          (case mergeShards shardSize False (drop k rs) of
             Inl e \<Rightarrow> Inl e
           | Inr out \<Rightarrow> Inr (\<lparr>raw_First = raw_First r, raw_Last = raw_Last ((r # rs) ! k),
                              raw_data = merged\<rparr> # out)))"
  by pat_completeness auto
termination
  by (relation "measure (\<lambda>(_, _, rs). length rs)") auto

fun mergeAll :: "BackendType list \<Rightarrow> (BackendType \<Rightarrow> rawShard list) \<Rightarrow> (BackendType \<Rightarrow> rawShard list)
    \<Rightarrow> (('r, 'x) iface_scheme, BackendType \<Rightarrow> rawShard list) comp" where
  "mergeAll [] rawShards m = returnE m"
| "mergeAll (b # bs) rawShards m = bindE (GetMaxShardSize b) (\<lambda>shardSize.
     bindE (liftE (mergeShards shardSize True (rawShards b))) (\<lambda>out.
     mergeAll bs rawShards (m(b := m b @ out))))"

section \<open>Upload\<close>

definition storedShard :: "'r env \<Rightarrow> BackendType \<Rightarrow> rawShard \<Rightarrow> string \<Rightarrow> shard" where
  "storedShard env b r location =
     \<lparr>First = raw_First r, Last = raw_Last r, Backend = b, Location = location,
      lastVerified = 0, Checksum = GenerateChecksum env (raw_data r)\<rparr>"

definition putShards :: "'r env \<Rightarrow> rawShard list \<Rightarrow> BackendType \<Rightarrow> (('r, 'x) iface_scheme, shard list) comp" where
  "putShards env shards b = mapE (\<lambda>r. bindE (PutShard env b (raw_data r))
      (\<lambda>location. returnE (storedShard env b r location))) shards"

text \<open>A goroutine running \<open>putShards\<close>, stopped between two puts, and one step of it.\<close>

record putter =
  pt_backend :: BackendType
  pt_todo :: "rawShard list"
  pt_done :: "shard list"

definition putter_step :: "'r env \<Rightarrow> putter \<Rightarrow> (('r, 'x) iface_scheme, putter) comp" where
  "putter_step env p =
     (case pt_todo p of
        [] \<Rightarrow> returnE p
      | r # rs \<Rightarrow> bindE (PutShard env (pt_backend p) (raw_data r)) (\<lambda>location.
          returnE (p\<lparr>pt_todo := rs,
                     pt_done := pt_done p @ [storedShard env (pt_backend p) r location]\<rparr>)))"

text \<open>The \<open>errgroup\<close>: one entry per goroutine, \<open>None\<close> once it returned an error, and the
  first error that was returned. A failing goroutine does not stop the others.\<close>

type_synonym putGroup = "putter option list \<times> error option"

definition group_step :: "'r env \<Rightarrow> nat \<Rightarrow> putGroup \<times> ('r, 'x) iface_scheme \<Rightarrow> putGroup \<times> ('r, 'x) iface_scheme" where
  "group_step env i = (\<lambda>((ps, err), w).
     if i < length ps then
       (case ps ! i of
          None \<Rightarrow> ((ps, err), w)
        | Some p \<Rightarrow>
            (case putter_step env p w of
               (Inr p', w') \<Rightarrow> ((ps[i := Some p'], err), w')
             | (Inl e, w') \<Rightarrow> ((ps[i := None], if err = None then Some e else err), w')))
     else ((ps, err), w))"

definition putters :: "BackendType list \<Rightarrow> (BackendType \<Rightarrow> rawShard list) \<Rightarrow> putter option list" where
  "putters bs finals =
     map (\<lambda>b. Some \<lparr>pt_backend = b, pt_todo = finals b, pt_done = []\<rparr>) bs"

text \<open>The scheduler's picks, followed by enough rounds for every goroutine to finish.\<close>

definition schedule :: "'r env \<Rightarrow> nat \<Rightarrow> BackendType list \<Rightarrow> (BackendType \<Rightarrow> rawShard list) \<Rightarrow> nat list" where
  "schedule env n bs finals = sched env n @
     concat (map (\<lambda>i. replicate (length (finals (bs ! i))) i) [0 ..< length bs])"

definition uploadShards :: "'r env \<Rightarrow> BackendType list \<Rightarrow> (BackendType \<Rightarrow> rawShard list)
    \<Rightarrow> (('r, 'x) iface_scheme, shard list) comp" where
  "uploadShards env bs finals = bindE next_tick (\<lambda>n w.
     case fold (group_step env) (schedule env n bs finals) ((putters bs finals, None), w) of
       ((ps, Some e), w') \<Rightarrow> (Inl e, w')
     | ((ps, None), w') \<Rightarrow>
         (Inr (concat (map (\<lambda>p. case p of None \<Rightarrow> [] | Some q \<Rightarrow> pt_done q) ps)), w'))"

section \<open>The operations of the package\<close>

definition ShardData :: "'r env \<Rightarrow> bytes \<Rightarrow> BackendType list
    \<Rightarrow> (('r, 'x) iface_scheme, shard list \<times> nat \<times> nat) comp" where
  "ShardData env data bs =
     (if bs = [] then raiseE ErrNoBackend
      else if data = [] then raiseE ErrEmptyData
      else bindE (mapE GetMaxShardSize bs) (\<lambda>sizes.
        let minShardSize = chooseShardSize (length data) (foldl min (2 ^ 63 - 1) sizes)
        in bindE (liftE (encodeParityShards env data (length bs) minShardSize))
          (\<lambda>(parityData, dataShardsCount).
            let totalEncodedShards = length parityData;
                rawShards = distribute parityData (totalEncodedShards div length bs) (totalEncodedShards mod length bs) 0 0 bs (\<lambda>_. [])
            in bindE (mergeAll bs rawShards (\<lambda>_. [])) (\<lambda>finalRawShards.
               bindE (uploadShards env bs finalRawShards) (\<lambda>finalShards.
               returnE (finalShards, dataShardsCount, minShardSize))))))"

text \<open>One blob: its segments go to the rows \<open>First .. Last\<close> that are still missing. A negative
  index or size panics where Go does.\<close>

fun collectSegments :: "int \<Rightarrow> bytes \<Rightarrow> shard \<Rightarrow> int list \<Rightarrow> bytes option list \<times> int \<Rightarrow> (bytes option list \<times> int) res" where
  "collectSegments n data s [] st = Inr st"
| "collectSegments n data s (k # ks) (rows, count) =
     (let start = (k - First s) * n; end = start + n
      in if int (length data) < end \<or> int (length rows) \<le> k
         then Inl (ErrInvalidPayload (nat (First s)) (nat (Last s)))
         else if k < 0 then Inl ErrPanic
         else if rows ! nat k = None then
           (if n < 0 then Inl ErrPanic
            else collectSegments n data s ks
              (rows[nat k := Some (take (nat n) (drop (nat start) data))], count + 1))
         else collectSegments n data s ks (rows, count))"

text \<open>An unreadable blob is skipped.\<close>

fun collectLoop :: "'r env \<Rightarrow> int \<Rightarrow> shard list \<Rightarrow> bytes option list \<times> int
    \<Rightarrow> (('r, 'x) iface_scheme, bytes option list \<times> int) comp" where
  "collectLoop env n [] st = returnE st"
| "collectLoop env n (s # ss) st = (\<lambda>w.
     case GetShard env (Backend s) (Location s) w of
       (Inl _, w') \<Rightarrow> collectLoop env n ss st w'
     | (Inr data, w') \<Rightarrow>
         bindE (liftE (collectSegments n data s [First s .. Last s] st)) (collectLoop env n ss) w')"

fun restoreRows :: "nat \<Rightarrow> bytes option list \<Rightarrow> bytes res" where
  "restoreRows i [] = Inr []"
| "restoreRows i (None # rows) = Inl (ErrMissingShard i)"
| "restoreRows i (Some d # rows) =
     (case restoreRows (Suc i) rows of Inl e \<Rightarrow> Inl e | Inr ds \<Rightarrow> Inr (d @ ds))"

definition CollectShards :: "'r env \<Rightarrow> shard list \<Rightarrow> int \<Rightarrow> int \<Rightarrow> int \<Rightarrow> (('r, 'x) iface_scheme, bytes) comp" where
  "CollectShards env shards encodedShardSize dataCount parityCount =
     (if dataCount + parityCount < 0 then raiseE ErrPanic
      else bindE (collectLoop env encodedShardSize shards
             (replicate (nat (dataCount + parityCount)) None, 0)) (\<lambda>(rows, collected).
        if collected < dataCount then raiseE ErrNotEnoughShards
        else if dataCount \<le> 0 \<or> parityCount < 0 \<or> \<not> rs_new env (nat dataCount) (nat parityCount)
        then raiseE ErrReedSolomon
        else case rs_reconstruct env (nat dataCount) (nat parityCount) rows of
               None \<Rightarrow> raiseE ErrReedSolomon
             | Some rows' \<Rightarrow> liftE (restoreRows 0 (take (nat dataCount) rows'))))"

definition DestroyShards :: "'r env \<Rightarrow> shard list \<Rightarrow> (('r, 'x) iface_scheme, unit) comp" where
  "DestroyShards env shards = forE (\<lambda>s. DeleteShard env (Backend s) (Location s)) shards"

end
