(* ===== verification/Chunker.thy ===== *)
theory Chunker
  imports Ciphers Shard
begin

text \<open>
  The chunking pipeline (\<open>storage/chunker/service.go\<close>): a stream is cut into chunks of
  \<open>ChunkSize\<close> bytes, each compressed, encrypted and sharded on its own, up to
  \<open>concurrency\<close> of them at a time.

  A reader is the bytes it will deliver and whether it then fails instead of reporting the end
  of the stream. The main loop of \<open>ChunkStream\<close> and its workers are interleaved by the scheduler
  of the environment: pick \<open>0\<close> lets the main loop read the next chunk or hand the last one read
  to a worker, pick \<open>k + 1\<close> lets the \<open>k\<close>-th running worker process its chunk. A worker's chunk is
  processed in one step; inside it the uploads to the backends are interleaved (see \<open>Shard\<close>).
\<close>

section \<open>Data\<close>

record Chunk =
  Chunk_Id :: string
  Chunk_Size :: int
  EncodedShardSize :: int
  EncodedDataShards :: int
  EncodedParityShards :: int
  Chunk_Encryption :: Encryption
  Chunk_Shards :: "shard list"

record reader =
  rd_data :: bytes
  rd_fails :: bool

definition bytes_NewReader :: "bytes \<Rightarrow> reader" where
  "bytes_NewReader data = \<lparr>rd_data = data, rd_fails = False\<rparr>"

text \<open>\<open>io.ReadFull\<close> on a buffer of \<open>n > 0\<close> bytes: what was read, whether the loop goes on, and
  whether the read failed.\<close>

definition ReadFull :: "nat \<Rightarrow> reader \<Rightarrow> bytes \<times> bool \<times> bool" where
  "ReadFull n r = (take n (rd_data r), n \<le> length (rd_data r), length (rd_data r) < n \<and> rd_fails r)"

section \<open>One chunk\<close>

definition maxShardIndex :: "shard list \<Rightarrow> int" where
  "maxShardIndex shards = foldl (\<lambda>m s. if m < Last s then Last s else m) 0 shards"

definition processChunk :: "'r env \<Rightarrow> bytes \<Rightarrow> int \<Rightarrow> Compression \<Rightarrow> BackendType list
    \<Rightarrow> (('r, 'x) world_scheme, Chunk) comp" where
  "processChunk env data encryptionMethod cmp backends =
     bindE (liftE (Compress env data cmp)) (\<lambda>compressedData.
     bindE (Encrypt env compressedData encryptionMethod) (\<lambda>(encryptedData, keyId).
     bindE (ShardData env encryptedData backends) (\<lambda>(shards, shardCount, encodedShardSize).
     bindE (uuid_New env) (\<lambda>u.
     returnE \<lparr>Chunk_Id = u, Chunk_Size = int (length encryptedData),
              EncodedShardSize = int encodedShardSize, EncodedDataShards = int shardCount,
              EncodedParityShards = maxShardIndex shards + 1 - int shardCount,
              Chunk_Encryption = \<lparr>Encryption_Type = encryptionMethod, Encryption_KeyId = keyId\<rparr>,
              Chunk_Shards = shards\<rparr>))))"

definition DeleteChunk :: "'r env \<Rightarrow> Chunk \<Rightarrow> (('r, 'x) world_scheme, unit) comp" where
  "DeleteChunk env c = DestroyShards env (Chunk_Shards c)"

definition DeleteChunks :: "'r env \<Rightarrow> Chunk list \<Rightarrow> (('r, 'x) world_scheme, unit) comp" where
  "DeleteChunks env cs = forE (DeleteChunk env) cs"

section \<open>The stream\<close>

record chunkJob =
  cj_rest :: bytes
  cj_active :: bool
  cj_pending :: "(nat \<times> bytes) option"
  cj_running :: "(nat \<times> bytes) list"
  cj_completed :: "nat \<rightharpoonup> Chunk"
  cj_err :: "error option"
  cj_readErr :: bool
  cj_totalRead :: nat
  cj_ordinal :: nat
  cj_hashed :: bytes

definition newJob :: "bytes \<Rightarrow> chunkJob" where
  "newJob data = \<lparr>cj_rest = data, cj_active = True, cj_pending = None, cj_running = [],
     cj_completed = Map.empty, cj_err = None, cj_readErr = False, cj_totalRead = 0, cj_ordinal = 0,
     cj_hashed = []\<rparr>"

text \<open>The main loop: stop when a worker has failed (\<open>ctx.Err()\<close>), otherwise read a chunk.\<close>

definition readStep :: "nat \<Rightarrow> bool \<Rightarrow> chunkJob \<Rightarrow> chunkJob" where
  "readStep csize fails j =
     (if cj_err j \<noteq> None then j\<lparr>cj_active := False\<rparr>
      else case ReadFull csize \<lparr>rd_data = cj_rest j, rd_fails = fails\<rparr> of
        (buf, again, failed) \<Rightarrow>
          (let j' = j\<lparr>cj_rest := drop csize (cj_rest j), cj_active := again, cj_readErr := failed\<rparr>
           in if buf = [] then j'
              else j'\<lparr>cj_pending := Some (cj_ordinal j, buf), cj_totalRead := cj_totalRead j + length buf,
                      cj_ordinal := Suc (cj_ordinal j), cj_hashed := cj_hashed j @ buf\<rparr>))"

text \<open>A chunk that was read waits for a free worker (\<open>g.SetLimit\<close>).\<close>

definition mainStep :: "nat \<Rightarrow> nat \<Rightarrow> bool \<Rightarrow> chunkJob \<Rightarrow> chunkJob" where
  "mainStep limit csize fails j =
     (case cj_pending j of
        Some p \<Rightarrow> (if length (cj_running j) < limit
                  then j\<lparr>cj_pending := None, cj_running := cj_running j @ [p]\<rparr> else j)
      | None \<Rightarrow> (if cj_active j then readStep csize fails j else j))"

definition workStep :: "'r env \<Rightarrow> int \<Rightarrow> Compression \<Rightarrow> BackendType list \<Rightarrow> nat
    \<Rightarrow> chunkJob \<times> ('r, 'x) world_scheme \<Rightarrow> chunkJob \<times> ('r, 'x) world_scheme" where
  "workStep env enc cmp backends k = (\<lambda>(j, w).
     if k < length (cj_running j) then
       (case cj_running j ! k of (i, buf) \<Rightarrow>
          (let rest = take k (cj_running j) @ drop (Suc k) (cj_running j)
           in case processChunk env buf enc cmp backends w of
                (Inr c, w') \<Rightarrow> (j\<lparr>cj_running := rest, cj_completed := (cj_completed j)(i \<mapsto> c)\<rparr>, w')
              | (Inl e, w') \<Rightarrow> (j\<lparr>cj_running := rest,
                                   cj_err := (if cj_err j = None then Some e else cj_err j)\<rparr>, w')))
     else (j, w))"

definition jobStep :: "'r env \<Rightarrow> nat \<Rightarrow> nat \<Rightarrow> bool \<Rightarrow> int \<Rightarrow> Compression \<Rightarrow> BackendType list \<Rightarrow> nat
    \<Rightarrow> chunkJob \<times> ('r, 'x) world_scheme \<Rightarrow> chunkJob \<times> ('r, 'x) world_scheme" where
  "jobStep env limit csize fails enc cmp backends pick st =
     (if pick = 0 then (mainStep limit csize fails (fst st), snd st)
      else workStep env enc cmp backends (pick - 1) st)"

definition jobDone :: "chunkJob \<Rightarrow> bool" where
  "jobDone j \<longleftrightarrow> \<not> cj_active j \<and> cj_pending j = None \<and> cj_running j = []"

definition jobMeasure :: "chunkJob \<Rightarrow> nat" where
  "jobMeasure j = 3 * length (cj_rest j) + (if cj_pending j = None then 0 else 2) +
     length (cj_running j) + (if cj_active j then 1 else 0)"

text \<open>After the scheduler's picks, whatever is left runs to its end: \<open>g.Wait()\<close>.\<close>

lemma readStep_measure:
  "0 < csize \<Longrightarrow> cj_active j \<Longrightarrow> cj_pending j = None \<Longrightarrow> jobMeasure (readStep csize fails j) < jobMeasure j"
  by (cases "cj_rest j") (auto simp: readStep_def ReadFull_def jobMeasure_def Let_def not_le split: if_splits)

lemma workStep_measure:
  "cj_running j \<noteq> [] \<Longrightarrow> jobMeasure (fst (workStep env enc cmp backends 0 (j, w))) < jobMeasure j"
  by (cases "cj_running j") (auto simp: workStep_def jobMeasure_def Let_def split: prod.split sum.split)

function drainJob :: "'r env \<Rightarrow> nat \<Rightarrow> nat \<Rightarrow> bool \<Rightarrow> int \<Rightarrow> Compression \<Rightarrow> BackendType list
    \<Rightarrow> chunkJob \<times> ('r, 'x) world_scheme \<Rightarrow> chunkJob \<times> ('r, 'x) world_scheme" where
  "drainJob env limit csize fails enc cmp backends (j, w) =
     (if limit = 0 \<or> csize = 0 \<or> jobDone j then (j, w)
      else if cj_running j \<noteq> [] then
        drainJob env limit csize fails enc cmp backends (workStep env enc cmp backends 0 (j, w))
      else drainJob env limit csize fails enc cmp backends (mainStep limit csize fails j, w))"
  by pat_completeness auto
termination
proof (relation "measure (\<lambda>(env, limit, csize, fails, enc, cmp, backends, st). jobMeasure (fst st))", goal_cases)
  case 1
  then show ?case by simp
next
  case (2 env limit csize fails enc cmp backends j w)
  then show ?case using workStep_measure [of j env enc cmp backends w] by simp
next
  case (3 env limit csize fails enc cmp backends j w)
  then show ?case using readStep_measure [of csize j fails]
    by (auto simp: mainStep_def jobMeasure_def jobDone_def split: option.split)
qed

text \<open>The order in which \<open>cleanupChunks\<close> visits the map of completed chunks is arbitrary.\<close>

definition cleanupChunks :: "'r env \<Rightarrow> (nat \<rightharpoonup> Chunk) \<Rightarrow> nat \<Rightarrow> (('r, 'x) world_scheme, unit) comp" where
  "cleanupChunks env completed ordinal = bindE next_tick (\<lambda>n.
     forE (\<lambda>i. case completed i of None \<Rightarrow> returnE () | Some c \<Rightarrow> ignoreE (DeleteChunk env c))
       (remdups (sched env n @ [0 ..< ordinal])))"

definition ChunkStream :: "'r env \<Rightarrow> reader \<Rightarrow> int \<Rightarrow> Compression \<Rightarrow> BackendType list \<Rightarrow> int
    \<Rightarrow> (('r, 'x) world_scheme, Chunk list \<times> int \<times> uint64) comp" where
  "ChunkStream env r encryptionMethod cmp backends concurrency =
     (let limit = nat (if concurrency < 1 then 1 else concurrency); csize = nat (ChunkSize (Cfg env))
      in if ChunkSize (Cfg env) < 0 then raiseE ErrPanic
         else if ChunkSize (Cfg env) = 0 then raiseE ErrDiverge
         else bindE next_tick (\<lambda>n w.
           let step = jobStep env limit csize (rd_fails r) encryptionMethod cmp backends;
               drain = drainJob env limit csize (rd_fails r) encryptionMethod cmp backends
           in case drain (fold step (sched env n) (newJob (rd_data r), w)) of (j, w1) \<Rightarrow>
             (case cj_err j of
                Some e \<Rightarrow> bindE (cleanupChunks env (cj_completed j) (cj_ordinal j)) (\<lambda>_. raiseE e) w1
              | None \<Rightarrow>
                  (if cj_readErr j
                   then bindE (cleanupChunks env (cj_completed j) (cj_ordinal j)) (\<lambda>_. raiseE ErrReader) w1
                   else (Inr (map (\<lambda>i. the (cj_completed j i)) [0 ..< cj_ordinal j],
                              int (cj_totalRead j), xxhash64 env (cj_hashed j)), w1)))))"

definition ChunkData :: "'r env \<Rightarrow> bytes \<Rightarrow> int \<Rightarrow> Compression \<Rightarrow> BackendType list
    \<Rightarrow> (('r, 'x) world_scheme, Chunk list) comp" where
  "ChunkData env data encryptionMethod cmp backends =
     bindE (ChunkStream env (bytes_NewReader data) encryptionMethod cmp backends 1)
       (\<lambda>(chunks, _, _). returnE chunks)"

section \<open>Reading back\<close>

text \<open>The rows are padded; the data is cut back to the size of the chunk (a negative one panics).\<close>

definition collectChunk :: "'r env \<Rightarrow> Compression \<Rightarrow> Chunk \<Rightarrow> (('r, 'x) world_scheme, bytes) comp" where
  "collectChunk env cmp c =
     bindE (CollectShards env (Chunk_Shards c) (EncodedShardSize c) (EncodedDataShards c) (EncodedParityShards c))
       (\<lambda>encryptedData.
     if Chunk_Size c < 0 then raiseE ErrPanic
     else let trimmed = (if Chunk_Size c < int (length encryptedData)
                         then take (nat (Chunk_Size c)) encryptedData else encryptedData)
          in bindE (Decrypt env trimmed (Chunk_Encryption c)) (\<lambda>decryptedData.
             liftE (Decompress env decryptedData cmp)))"

definition CollectChunks :: "'r env \<Rightarrow> Chunk list \<Rightarrow> Compression \<Rightarrow> (('r, 'x) world_scheme, bytes) comp" where
  "CollectChunks env cs cmp = bindE (mapE (collectChunk env cmp) cs) (\<lambda>ds. returnE (concat ds))"

text \<open>The pipe of \<open>CollectChunksStream\<close> up to the first \<open>need\<close> bytes: the bytes the reader
  receives, and the error it receives after them (\<open>None\<close> is the end of the stream). A chunk is
  collected when the reader wants bytes from it.\<close>

fun CollectChunksStream :: "'r env \<Rightarrow> Chunk list \<Rightarrow> Compression \<Rightarrow> nat \<Rightarrow> (('r, 'x) world_scheme, bytes \<times> error option) comp" where
  "CollectChunksStream env [] cmp need = returnE ([], None)"
| "CollectChunksStream env (c # cs) cmp need = (\<lambda>w.
     if need = 0 then (Inr ([], None), w)
     else case collectChunk env cmp c w of
       (Inl e, w') \<Rightarrow> (Inr ([], Some e), w')
     | (Inr d, w') \<Rightarrow>
         (if need \<le> length d then (Inr (take need d, None), w')
          else bindE (CollectChunksStream env cs cmp (need - length d))
                 (\<lambda>(ds, err). returnE (d @ ds, err)) w'))"

end
