(* ===== verification/Objects.thy ===== *)
theory Objects
  imports Chunker
begin

text \<open>
  Objects, buckets and multipart uploads as values, and reading the data of an object
  (\<open>storage/object/service.go\<close>). A stream that is read to its end is the bytes it delivered and the error
  it then reported (\<open>None\<close> at the end of the stream). The two pipes of \<open>streamRangeFromChunks\<close> deliver
  bytes only as far as the range wants them.
\<close>

section \<open>Data\<close>

record Bucket =
  Bucket_Name :: string
  CreatedAt :: gotime

record ObjectLocation =
  Location_Bucket :: Bucket
  Location_Key :: string

record BucketStats =
  bs_Bucket :: Bucket
  bs_TotalObjects :: int
  bs_TotalSize :: int

record BackendStats =
  be_Backend :: string
  be_TotalShards :: int
  be_TotalBytes :: int
  be_TotalChunks :: int
  be_TotalObjects :: int
  be_TotalBuckets :: int
  be_LastVerified :: gotime

record Object =
  Obj_Location :: ObjectLocation
  Obj_Size :: int
  Obj_Compression :: Compression
  LastModified :: gotime
  ETag :: uint64
  Obj_Chunks :: "Chunk list"

record MultipartUpload =
  UploadID :: string
  Upload_Location :: ObjectLocation
  Upload_Compression :: Compression
  Initiated :: gotime

record MultipartPart =
  Part_UploadID :: string
  PartNumber :: int
  Part_ETag :: uint64
  Part_Size :: int
  Part_CreatedAt :: gotime
  Part_Chunks :: "Chunk list"

section \<open>Ranges\<close>

definition normalizeRange :: "int \<Rightarrow> int \<Rightarrow> int \<Rightarrow> (int \<times> int) res" where
  "normalizeRange total_size begin_at end_at =
     (if begin_at < 0 then Inl ErrRangeBegin
      else if total_size < begin_at then Inl ErrRangeBeyond
      else let stop = (if end_at = 0 then total_size else end_at)
           in if stop < begin_at \<or> total_size < stop then Inl ErrRangeEnd
              else Inr (begin_at, stop))"

text \<open>The first \<open>begin\<close> bytes are discarded; when the chunks end early the stream just ends.\<close>

definition streamRangeFromChunks :: "'r env \<Rightarrow> Chunk list \<Rightarrow> Compression \<Rightarrow> int \<Rightarrow> int \<Rightarrow> int
    \<Rightarrow> (('r, 'x) world_scheme, bytes \<times> error option) comp" where
  "streamRangeFromChunks env chunks cmp total_size begin_at end_at =
     bindE (liftE (normalizeRange total_size begin_at end_at)) (\<lambda>(b, e).
     bindE (CollectChunksStream env chunks cmp (nat e)) (\<lambda>(ds, err).
     returnE (drop (nat b) ds, err)))"

definition ReadAll :: "bytes \<times> error option \<Rightarrow> bytes res" where
  "ReadAll s = (case snd s of None \<Rightarrow> Inr (fst s) | Some e \<Rightarrow> Inl e)"

definition Object_GetDataStream :: "'r env \<Rightarrow> Object \<Rightarrow> int \<Rightarrow> int \<Rightarrow> (('r, 'x) world_scheme, bytes \<times> error option) comp" where
  "Object_GetDataStream env ob b e = streamRangeFromChunks env (Obj_Chunks ob) (Obj_Compression ob) (Obj_Size ob) b e"

definition Object_GetData :: "'r env \<Rightarrow> Object \<Rightarrow> int \<Rightarrow> int \<Rightarrow> (('r, 'x) world_scheme, bytes) comp" where
  "Object_GetData env ob b e = bindE (Object_GetDataStream env ob b e) (\<lambda>s. liftE (ReadAll s))"

definition Part_GetDataStream :: "'r env \<Rightarrow> MultipartUpload \<Rightarrow> MultipartPart \<Rightarrow> int \<Rightarrow> int
    \<Rightarrow> (('r, 'x) world_scheme, bytes \<times> error option) comp" where
  "Part_GetDataStream env u part b e = streamRangeFromChunks env (Part_Chunks part) (Upload_Compression u) (Part_Size part) b e"

definition Part_GetData :: "'r env \<Rightarrow> MultipartUpload \<Rightarrow> MultipartPart \<Rightarrow> int \<Rightarrow> int \<Rightarrow> (('r, 'x) world_scheme, bytes) comp" where
  "Part_GetData env u part b e = bindE (Part_GetDataStream env u part b e) (\<lambda>s. liftE (ReadAll s))"

section \<open>Correctness of ranges\<close>

lemma normalizeRange_Inr:
  "normalizeRange total_size b e = Inr (b', e') \<longleftrightarrow>
     b' = b \<and> 0 \<le> b \<and> b \<le> e' \<and> e' \<le> total_size \<and> e' = (if e = 0 then total_size else e)"
  by (auto simp: normalizeRange_def Let_def)

end
