(* ===== verification/Metadata.thy ===== *)
theory Metadata
  imports Objects "HOL-Library.Product_Lexorder"
begin

text \<open>
  The metadata store (\<open>storage/metadata/*.go\<close>): buckets, objects, their chunks and shards, and multipart
  uploads, as queries and statements on the database. \<open>ORDER BY\<close> is a stable sort of the matching rows.
  The Go \<open>int\<close>s of limits, offsets and sizes are unbounded integers here.
\<close>

section \<open>Access to the database (\<open>service.go\<close>)\<close>

definition Configure :: "bool \<Rightarrow> (('r, 'x) world_scheme, unit) comp" where
  "Configure present = modifyE (\<lambda>w. w\<lparr>metaDB := present\<rparr>)"

definition getDB :: "(('r, 'x) world_scheme, unit) comp" where
  "getDB = bindE (getsE metaDB) (\<lambda>present. guardE present ErrNoDatabase)"

definition GetCurrentTime :: "'r env \<Rightarrow> (('r, 'x) world_scheme, gotime) comp" where
  "GetCurrentTime env = time_Now env"

text \<open>\<open>QueryRow(...).Scan(...)\<close>.\<close>

definition query_row :: "'r env \<Rightarrow> string \<Rightarrow> (database \<Rightarrow> 'a option) \<Rightarrow> (('r, 'x) world_scheme, 'a) comp" where
  "query_row env what f = bindE (query env f) (\<lambda>r. case r of None \<Rightarrow> raiseE (ErrNoRows what) | Some x \<Rightarrow> returnE x)"

text \<open>One row more than asked for tells whether there is another page.\<close>

definition cut_page :: "int \<Rightarrow> 'a list \<Rightarrow> 'a list \<times> bool" where
  "cut_page max_rows xs =
     (let hasMore = (int (length xs) = max_rows + 1)
      in (if xs \<noteq> [] \<and> hasMore then butlast xs else xs, hasMore))"

section \<open>Buckets (\<open>bucket.go\<close>)\<close>

definition row_bucket :: "bucket_row \<Rightarrow> Bucket" where
  "row_bucket r = \<lparr>Bucket_Name = bk_name r, CreatedAt = bk_created r\<rparr>"

definition GetBucket :: "'r env \<Rightarrow> Bucket \<Rightarrow> (('r, 'x) world_scheme, Bucket) comp" where
  "GetBucket env b = bindE getDB (\<lambda>_.
     query_row env (Bucket_Name b) (\<lambda>d. map_option row_bucket (find (\<lambda>r. bk_name r = Bucket_Name b) (t_buckets d))))"

definition CreateBucket :: "'r env \<Rightarrow> Bucket \<Rightarrow> (('r, 'x) world_scheme, unit) comp" where
  "CreateBucket env b = bindE getDB (\<lambda>_. bindE (time_Now env) (\<lambda>now.
     exec env (insert_bucket (Bucket_Name b) now)))"

definition ListBucketsWithStats :: "'r env \<Rightarrow> (('r, 'x) world_scheme, BucketStats list) comp" where
  "ListBucketsWithStats env = bindE getDB (\<lambda>_. query env (\<lambda>d.
     map (\<lambda>b. let os = filter (\<lambda>r. ob_bucket r = bk_name b) (t_objects d)
              in \<lparr>bs_Bucket = row_bucket b, bs_TotalObjects = int (length os),
                  bs_TotalSize = sum_list (map ob_size os)\<rparr>)
         (sort_key bk_name (t_buckets d))))"

definition DeleteBucket :: "'r env \<Rightarrow> Bucket \<Rightarrow> (('r, 'x) world_scheme, unit) comp" where
  "DeleteBucket env b = bindE getDB (\<lambda>_. bindE (exec env (delete_bucket (Bucket_Name b))) (\<lambda>affected.
     guardE (affected \<noteq> 0) (ErrNoRows (Bucket_Name b))))"

definition BucketCount :: "'r env \<Rightarrow> (('r, 'x) world_scheme, int) comp" where
  "BucketCount env = bindE getDB (\<lambda>_. query env (\<lambda>d. int (length (t_buckets d))))"

definition ListBuckets :: "'r env \<Rightarrow> string \<Rightarrow> int \<Rightarrow> int \<Rightarrow> (('r, 'x) world_scheme, Bucket list \<times> bool) comp" where
  "ListBuckets env prefix page max_rows = bindE getDB (\<lambda>_.
     bindE (query env (\<lambda>d. map row_bucket (limit_offset (max_rows + 1) ((page - 1) * max_rows)
         (sort_key bk_name (filter (\<lambda>r. like (prefix @ ''%'') (bk_name r)) (t_buckets d)))))) (\<lambda>bs.
     returnE (cut_page max_rows bs)))"

section \<open>Shards (\<open>shards.go\<close>)\<close>

definition row_shard :: "shard_row \<Rightarrow> shard" where
  "row_shard r = \<lparr>First = sh_first r, Last = sh_last r, Backend = sh_backend r, Location = sh_location r,
     lastVerified = 0, Checksum = sh_checksum r\<rparr>"

definition getShards :: "'r env \<Rightarrow> string \<Rightarrow> (('r, 'x) world_scheme, shard list) comp" where
  "getShards env chunkID = query env (\<lambda>d.
     map row_shard (sort_key sh_first (filter (\<lambda>s. sh_chunk s = chunkID) (t_shards d))))"

definition shard_to_row :: "string \<Rightarrow> gotime \<Rightarrow> shard \<Rightarrow> shard_row" where
  "shard_to_row chunkID now s = \<lparr>sh_chunk = chunkID, sh_first = First s, sh_last = Last s, sh_backend = Backend s,
     sh_location = Location s, sh_verified = now, sh_checksum = Checksum s\<rparr>"

definition insertShards :: "'r env \<Rightarrow> string \<Rightarrow> shard list \<Rightarrow> (('r, 'x) world_scheme, unit) comp" where
  "insertShards env chunkID ss = bindE (time_Now env) (\<lambda>now.
     forE (\<lambda>s. exec env (insert_shard_row (shard_to_row chunkID now s))) ss)"

definition GetShards :: "'r env \<Rightarrow> string \<Rightarrow> (('r, 'x) world_scheme, shard list) comp" where
  "GetShards env chunkID = bindE getDB (\<lambda>_. getShards env chunkID)"

section \<open>Chunks (\<open>chunks.go\<close>)\<close>

definition row_chunk :: "chunk_row \<Rightarrow> shard list \<Rightarrow> Chunk" where
  "row_chunk r ss = \<lparr>Chunk_Id = ch_id r, Chunk_Size = ch_size r, EncodedShardSize = ch_shardSize r,
     EncodedDataShards = ch_dataShards r, EncodedParityShards = ch_parityShards r,
     Chunk_Encryption = \<lparr>Encryption_Type = ch_encryption r,
                         Encryption_KeyId = (case ch_kms r of None \<Rightarrow> 0 | Some k \<Rightarrow> k)\<rparr>,
     Chunk_Shards = ss\<rparr>"

definition chunkRowsToChunks :: "'r env \<Rightarrow> chunk_row list \<Rightarrow> (('r, 'x) world_scheme, Chunk list) comp" where
  "chunkRowsToChunks env rows = mapE (\<lambda>r.
     if uuid_valid env (ch_id r) then bindE (getShards env (ch_id r)) (\<lambda>ss. returnE (row_chunk r ss))
     else raiseE (ErrParse (ch_id r))) rows"

definition object_chunk_rows :: "string \<Rightarrow> string \<Rightarrow> database \<Rightarrow> chunk_row list" where
  "object_chunk_rows b k d = sort_key ch_ordinal (filter (\<lambda>c. ch_bucket c = b \<and> ch_key c = Some k) (t_chunks d))"

definition part_chunk_rows :: "string \<Rightarrow> int \<Rightarrow> database \<Rightarrow> chunk_row list" where
  "part_chunk_rows u n d = sort_key ch_ordinal (filter (\<lambda>c. ch_upload c = Some u \<and> ch_part c = Some n) (t_chunks d))"

definition getChunks :: "'r env \<Rightarrow> ObjectLocation \<Rightarrow> (('r, 'x) world_scheme, Chunk list) comp" where
  "getChunks env loc = bindE (query env (object_chunk_rows (Bucket_Name (Location_Bucket loc)) (Location_Key loc)))
     (chunkRowsToChunks env)"

definition getPartChunks :: "'r env \<Rightarrow> string \<Rightarrow> int \<Rightarrow> (('r, 'x) world_scheme, Chunk list) comp" where
  "getPartChunks env u n = bindE (query env (part_chunk_rows u n)) (chunkRowsToChunks env)"

definition chunk_to_row :: "string \<Rightarrow> string option \<Rightarrow> string option \<Rightarrow> int option \<Rightarrow> int \<Rightarrow> Chunk \<Rightarrow> chunk_row" where
  "chunk_to_row b k u n ordinal c = \<lparr>ch_id = Chunk_Id c, ch_bucket = b, ch_key = k, ch_upload = u, ch_part = n,
     ch_ordinal = ordinal, ch_shardSize = EncodedShardSize c, ch_dataShards = EncodedDataShards c,
     ch_parityShards = EncodedParityShards c, ch_encryption = Encryption_Type (Chunk_Encryption c),
     ch_kms = (if Encryption_Type (Chunk_Encryption c) \<noteq> Encryption_None
               then Some (Encryption_KeyId (Chunk_Encryption c)) else None),
     ch_size = Chunk_Size c\<rparr>"

definition insertChunk :: "'r env \<Rightarrow> string \<Rightarrow> string option \<Rightarrow> string option \<Rightarrow> int option \<Rightarrow> int \<Rightarrow> Chunk
    \<Rightarrow> (('r, 'x) world_scheme, unit) comp" where
  "insertChunk env b k u n ordinal c =
     bindE (exec env (insert_chunk_row (chunk_to_row b k u n ordinal c))) (\<lambda>_.
     insertShards env (Chunk_Id c) (Chunk_Shards c))"

definition insertChunks :: "'r env \<Rightarrow> ObjectLocation \<Rightarrow> Chunk list \<Rightarrow> (('r, 'x) world_scheme, unit) comp" where
  "insertChunks env loc cs =
     forE (\<lambda>(i, c). insertChunk env (Bucket_Name (Location_Bucket loc)) (Some (Location_Key loc)) None None (int i) c)
       (enumerate 0 cs)"

definition insertPartChunks :: "'r env \<Rightarrow> string \<Rightarrow> string \<Rightarrow> int \<Rightarrow> Chunk list \<Rightarrow> (('r, 'x) world_scheme, unit) comp" where
  "insertPartChunks env b u n cs =
     forE (\<lambda>(i, c). insertChunk env b None (Some u) (Some n) (int i) c) (enumerate 0 cs)"

definition GetChunks :: "'r env \<Rightarrow> ObjectLocation \<Rightarrow> (('r, 'x) world_scheme, Chunk list) comp" where
  "GetChunks env loc = bindE getDB (\<lambda>_. getChunks env loc)"

section \<open>Objects (\<open>objects.go\<close>)\<close>

definition loc_bucket :: "ObjectLocation \<Rightarrow> string" where
  "loc_bucket loc = Bucket_Name (Location_Bucket loc)"

definition upsertObject :: "'r env \<Rightarrow> Object \<Rightarrow> (('r, 'x) world_scheme, unit) comp" where
  "upsertObject env ob = (let b = loc_bucket (Obj_Location ob); k = Location_Key (Obj_Location ob) in
     bindE getDB (\<lambda>_. transaction env (
       bindE (time_Now env) (\<lambda>now.
       bindE (exec env (insert_or_ignore_bucket b now)) (\<lambda>_.
       bindE (exec env (upsert_object \<lparr>ob_bucket = b, ob_key = k, ob_etag = FormatUint (ETag ob), ob_size = Obj_Size ob,
                ob_ctype = Compression_Type (Obj_Compression ob), ob_clevel = Compression_Level (Obj_Compression ob),
                ob_created = now, ob_updated = now\<rparr>)) (\<lambda>_.
       bindE (exec env (\<lambda>d. Inr ((), delete_chunks (\<lambda>c. ch_bucket c = b \<and> ch_key c = Some k) d))) (\<lambda>_.
       insertChunks env (Obj_Location ob) (Obj_Chunks ob))))))))"

definition meta_PutObject :: "'r env \<Rightarrow> Object \<Rightarrow> (('r, 'x) world_scheme, unit) comp" where
  "meta_PutObject env ob = upsertObject env ob"

definition meta_UpdateObject :: "'r env \<Rightarrow> Object \<Rightarrow> (('r, 'x) world_scheme, unit) comp" where
  "meta_UpdateObject env ob = upsertObject env ob"

definition meta_DeleteObject :: "'r env \<Rightarrow> ObjectLocation \<Rightarrow> (('r, 'x) world_scheme, unit) comp" where
  "meta_DeleteObject env loc = bindE getDB (\<lambda>_.
     bindE (exec env (delete_objects (\<lambda>r. ob_bucket r = loc_bucket loc \<and> ob_key r = Location_Key loc))) (\<lambda>affected.
     guardE (affected \<noteq> 0) (ErrNoRows (Location_Key loc))))"

definition row_object :: "ObjectLocation \<Rightarrow> object_row \<Rightarrow> Chunk list \<Rightarrow> uint64 \<Rightarrow> Object" where
  "row_object loc r cs etag = \<lparr>Obj_Location = loc, Obj_Size = ob_size r,
     Obj_Compression = \<lparr>Compression_Type = ob_ctype r, Compression_Level = ob_clevel r\<rparr>,
     LastModified = ob_created r, ETag = etag, Obj_Chunks = cs\<rparr>"

definition ListObjects :: "'r env \<Rightarrow> Bucket \<Rightarrow> string \<Rightarrow> string \<Rightarrow> string \<Rightarrow> int \<Rightarrow> int
    \<Rightarrow> (('r, 'x) world_scheme, Object list \<times> bool) comp" where
  "ListObjects env b prefix delim startAfter page max_rows = bindE getDB (\<lambda>_.
     bindE (query env (\<lambda>d. limit_offset (max_rows + 1) ((page - 1) * max_rows) (sort_key ob_key
       (filter (\<lambda>r. ob_bucket r = Bucket_Name b \<and> like (prefix @ ''%'') (ob_key r) \<and> startAfter < ob_key r)
         (t_objects d))))) (\<lambda>rows.
     bindE (mapE (\<lambda>r. bindE (liftE (ParseUint (ob_etag r))) (\<lambda>etag.
        returnE (row_object \<lparr>Location_Bucket = b, Location_Key = ob_key r\<rparr> r [] etag))) rows) (\<lambda>os.
     returnE (cut_page max_rows os))))"

definition meta_GetObject :: "'r env \<Rightarrow> ObjectLocation \<Rightarrow> (('r, 'x) world_scheme, Object) comp" where
  "meta_GetObject env loc = bindE getDB (\<lambda>_.
     bindE (query_row env (Location_Key loc)
       (\<lambda>d. find (\<lambda>r. ob_bucket r = loc_bucket loc \<and> ob_key r = Location_Key loc) (t_objects d))) (\<lambda>r.
     bindE (getChunks env loc) (\<lambda>cs.
     bindE (liftE (ParseUint (ob_etag r))) (\<lambda>etag.
     returnE (row_object loc r cs etag)))))"

definition ObjectExists :: "'r env \<Rightarrow> ObjectLocation \<Rightarrow> (('r, 'x) world_scheme, bool) comp" where
  "ObjectExists env loc = bindE getDB (\<lambda>_.
     query env (\<lambda>d. (loc_bucket loc, Location_Key loc) \<in> obj_keys d))"

section \<open>Multipart uploads (\<open>multipart.go\<close>)\<close>

definition generateUploadID :: "'r env \<Rightarrow> Bucket \<Rightarrow> (('r, 'x) world_scheme, string) comp" where
  "generateUploadID env b = bindE (uuid_New env) (\<lambda>u. returnE (Bucket_Name b @ ''-'' @ u))"

definition meta_CreateMultipartUpload :: "'r env \<Rightarrow> ObjectLocation \<Rightarrow> Compression \<Rightarrow> (('r, 'x) world_scheme, string) comp" where
  "meta_CreateMultipartUpload env loc cmp = bindE getDB (\<lambda>_.
     bindE (generateUploadID env (Location_Bucket loc)) (\<lambda>uploadID.
     bindE (time_Now env) (\<lambda>now. transaction env (
       bindE (exec env (insert_or_ignore_bucket (loc_bucket loc) now)) (\<lambda>_.
       bindE (exec env (insert_upload \<lparr>ul_id = uploadID, ul_bucket = loc_bucket loc, ul_key = Location_Key loc,
                ul_ctype = Compression_Type cmp, ul_clevel = Compression_Level cmp, ul_initiated = now\<rparr>)) (\<lambda>_.
       returnE uploadID))))))"

definition row_upload :: "string \<Rightarrow> Bucket \<Rightarrow> upload_row \<Rightarrow> MultipartUpload" where
  "row_upload i b r = \<lparr>UploadID = i, Upload_Location = \<lparr>Location_Bucket = b, Location_Key = ul_key r\<rparr>,
     Upload_Compression = \<lparr>Compression_Type = ul_ctype r, Compression_Level = ul_clevel r\<rparr>,
     Initiated = ul_initiated r\<rparr>"

text \<open>The upload found by its location is given a new identifier, as the source does.\<close>

definition GetMultipartUploadByLocation :: "'r env \<Rightarrow> ObjectLocation \<Rightarrow> (('r, 'x) world_scheme, MultipartUpload) comp" where
  "GetMultipartUploadByLocation env loc = bindE getDB (\<lambda>_.
     bindE (query_row env (Location_Key loc)
       (\<lambda>d. find (\<lambda>r. ul_bucket r = loc_bucket loc \<and> ul_key r = Location_Key loc) (t_uploads d))) (\<lambda>r.
     bindE (generateUploadID env (Location_Bucket loc)) (\<lambda>i.
     returnE (row_upload i \<lparr>Bucket_Name = ul_bucket r, CreatedAt = 0\<rparr> r))))"

definition GetMultipartUpload :: "'r env \<Rightarrow> string \<Rightarrow> (('r, 'x) world_scheme, MultipartUpload) comp" where
  "GetMultipartUpload env uploadID = bindE getDB (\<lambda>_.
     bindE (query_row env uploadID (\<lambda>d. find (\<lambda>r. ul_id r = uploadID) (t_uploads d))) (\<lambda>r.
     returnE (row_upload uploadID \<lparr>Bucket_Name = ul_bucket r, CreatedAt = 0\<rparr> r)))"

definition ListMultipartUploads :: "'r env \<Rightarrow> Bucket \<Rightarrow> string \<Rightarrow> string \<Rightarrow> string \<Rightarrow> string \<Rightarrow> int
    \<Rightarrow> (('r, 'x) world_scheme, MultipartUpload list \<times> bool) comp" where
  "ListMultipartUploads env b prefix delim keyMarker uploadIDMarker max_rows = bindE getDB (\<lambda>_.
     bindE (query env (\<lambda>d. limit_offset (max_rows + 1) 0 (sort_key (\<lambda>r. (ul_bucket r, ul_key r, ul_id r))
       (filter (\<lambda>r. ul_bucket r = Bucket_Name b \<and> like (prefix @ ''%'') (ul_key r) \<and> keyMarker < ul_key r \<and>
                     uploadIDMarker < ul_id r) (t_uploads d))))) (\<lambda>rows.
     returnE (cut_page max_rows (map (\<lambda>r. row_upload (ul_id r) b r) rows))))"

definition meta_AbortMultipartUpload :: "'r env \<Rightarrow> string \<Rightarrow> (('r, 'x) world_scheme, unit) comp" where
  "meta_AbortMultipartUpload env uploadID = bindE getDB (\<lambda>_.
     bindE (exec env (delete_uploads (\<lambda>r. ul_id r = uploadID))) (\<lambda>affected.
     guardE (affected \<noteq> 0) (ErrNoRows uploadID)))"

definition PutPart :: "'r env \<Rightarrow> MultipartPart \<Rightarrow> (('r, 'x) world_scheme, unit) comp" where
  "PutPart env part = (let i = Part_UploadID part; n = PartNumber part in
     bindE getDB (\<lambda>_. bindE (GetMultipartUpload env i) (\<lambda>upload. transaction env (
       bindE (exec env (\<lambda>d. Inr ((), delete_chunks (\<lambda>c. ch_upload c = Some i \<and> ch_part c = Some n) d))) (\<lambda>_.
       bindE (time_Now env) (\<lambda>now.
       bindE (exec env (upsert_part \<lparr>pa_upload = i, pa_number = n, pa_etag = FormatUint (Part_ETag part),
                pa_size = Part_Size part, pa_created = now\<rparr>)) (\<lambda>_.
       insertPartChunks env (loc_bucket (Upload_Location upload)) i n (Part_Chunks part))))))))"

definition row_part :: "part_row \<Rightarrow> Chunk list \<Rightarrow> uint64 \<Rightarrow> MultipartPart" where
  "row_part r cs etag = \<lparr>Part_UploadID = pa_upload r, PartNumber = pa_number r, Part_ETag = etag,
     Part_Size = pa_size r, Part_CreatedAt = pa_created r, Part_Chunks = cs\<rparr>"

definition GetPart :: "'r env \<Rightarrow> string \<Rightarrow> int \<Rightarrow> (('r, 'x) world_scheme, MultipartPart) comp" where
  "GetPart env uploadID n = bindE getDB (\<lambda>_.
     bindE (query_row env uploadID (\<lambda>d. find (\<lambda>r. pa_upload r = uploadID \<and> pa_number r = n) (t_parts d))) (\<lambda>r.
     bindE (liftE (ParseUint (pa_etag r))) (\<lambda>etag.
     bindE (getPartChunks env uploadID n) (\<lambda>cs.
     returnE (row_part r cs etag)))))"

definition part_rows :: "string \<Rightarrow> int \<Rightarrow> database \<Rightarrow> part_row list" where
  "part_rows uploadID firstPart d =
     sort_key pa_number (filter (\<lambda>r. pa_upload r = uploadID \<and> firstPart \<le> pa_number r) (t_parts d))"

definition ListParts :: "'r env \<Rightarrow> string \<Rightarrow> int \<Rightarrow> int \<Rightarrow> (('r, 'x) world_scheme, MultipartPart list \<times> bool) comp" where
  "ListParts env uploadID max_rows firstPart = bindE getDB (\<lambda>_.
     bindE (query env (\<lambda>d. limit_offset (max_rows + 1) 0 (part_rows uploadID firstPart d))) (\<lambda>rows.
     bindE (mapE (\<lambda>r. bindE (liftE (ParseUint (pa_etag r))) (\<lambda>etag. returnE (row_part r [] etag))) rows) (\<lambda>ps.
     returnE (cut_page max_rows ps))))"

text \<open>\<open>binary.BigEndian.PutUint64\<close>.\<close>

definition bigEndian :: "uint64 \<Rightarrow> bytes" where
  "bigEndian x = map (\<lambda>i. ucast (drop_bit (8 * i) x)) [7, 6, 5, 4, 3, 2, 1, 0]"

definition meta_CompleteMultipartUpload :: "'r env \<Rightarrow> string \<Rightarrow> (('r, 'x) world_scheme, Object) comp" where
  "meta_CompleteMultipartUpload env uploadID = bindE getDB (\<lambda>_.
     bindE (GetMultipartUpload env uploadID) (\<lambda>upload.
     bindE (ListParts env uploadID 10000 1) (\<lambda>(parts, _).
     if parts = [] then raiseE (ErrNoRows uploadID)
     else let loc = Upload_Location upload; b = loc_bucket loc; k = Location_Key loc;
              totalSize = sum_list (map Part_Size parts);
              combinedETag = xxhash64 env (concat (map (\<lambda>part. bigEndian (Part_ETag part)) parts)) in
       bindE (mapE (\<lambda>part. getPartChunks env uploadID (PartNumber part)) parts) (\<lambda>partChunks.
       bindE (transaction env (
         bindE (time_Now env) (\<lambda>now.
         bindE (exec env (insert_or_ignore_bucket b now)) (\<lambda>_.
         bindE (exec env (upsert_object \<lparr>ob_bucket = b, ob_key = k, ob_etag = FormatUint combinedETag, ob_size = totalSize,
                  ob_ctype = Compression_Type (Upload_Compression upload), ob_clevel = Compression_Level (Upload_Compression upload),
                  ob_created = now, ob_updated = now\<rparr>)) (\<lambda>_.
         bindE (exec env (\<lambda>d. Inr ((), delete_chunks (\<lambda>c. ch_bucket c = b \<and> ch_key c = Some k) d))) (\<lambda>_.
         bindE (forE (\<lambda>(i, c). exec env (reassign_chunk k (int i) (Chunk_Id c))) (enumerate 0 (concat partChunks))) (\<lambda>_.
         bindE (exec env (delete_uploads (\<lambda>r. ul_id r = uploadID))) (\<lambda>_. returnE ()))))))))
       (\<lambda>_. meta_GetObject env loc)))))"

section \<open>Backend statistics (\<open>backend_stats.go\<close>)\<close>

definition time_layouts :: "string list" where
  "time_layouts = [''2006-01-02T15:04:05.999999999Z07:00'', ''2006-01-02 15:04:05.999999999Z07:00'',
     ''2006-01-02 15:04:05.999999999'', ''2006-01-02 15:04:05.999999999 -0700 MST'',
     ''2006-01-02 15:04:05 -0700 MST'', ''2006-01-02 15:04:05'']"

definition parseSQLiteTime :: "'r env \<Rightarrow> string \<Rightarrow> gotime res" where
  "parseSQLiteTime env v = (case List.map_filter (\<lambda>layout. time_parse env layout v) time_layouts of
     [] \<Rightarrow> Inl (ErrParse v) | t # _ \<Rightarrow> Inr t)"

definition backend_stat :: "'r env \<Rightarrow> database \<Rightarrow> string \<Rightarrow> BackendStats \<times> string" where
  "backend_stat env d b =
     (let ss = filter (\<lambda>s. sh_backend s = b) (t_shards d);
          owners = filter (\<lambda>c. ch_id c \<in> sh_chunk ` set ss \<and> ch_key c \<noteq> None) (t_chunks d)
      in (\<lparr>be_Backend = b, be_TotalShards = int (length ss),
           be_TotalBytes = sum_list (map (\<lambda>s. sh_last s - sh_first s + 1) ss),
           be_TotalChunks = int (length (remdups (map sh_chunk ss))),
           be_TotalObjects = int (length (remdups (map (\<lambda>c. ch_bucket c @ ''/'' @ the (ch_key c)) owners))),
           be_TotalBuckets = int (length (remdups (map ch_bucket owners))), be_LastVerified = 0\<rparr>,
          last (sort (map (\<lambda>s. sql_time env (sh_verified s)) ss))))"

definition ListBackendStats :: "'r env \<Rightarrow> (('r, 'x) world_scheme, BackendStats list) comp" where
  "ListBackendStats env = bindE getDB (\<lambda>_.
     bindE (query env (\<lambda>d. map (backend_stat env d) (sort (remdups (map sh_backend (t_shards d)))))) (\<lambda>rows.
     mapE (\<lambda>(stat, v). if v = [] then returnE stat
       else bindE (liftE (parseSQLiteTime env v)) (\<lambda>t. returnE (stat\<lparr>be_LastVerified := t\<rparr>))) rows))"

end
