(* ===== verification/Object_Manager.thy ===== *)
theory Object_Manager
  imports Metadata
begin

text \<open>
  The object manager (\<open>storage/objectManager/*.go\<close>): storing, reading, replacing and deleting objects, and
  multipart uploads, composed from the chunker and the metadata store.
\<close>

definition configured_compression :: "'r env \<Rightarrow> Compression" where
  "configured_compression env = \<lparr>Compression_Type = Compression_Zstd, Compression_Level = CompressionLevel (Cfg env)\<rparr>"

section \<open>Objects (\<open>object.go\<close>)\<close>

definition PutObjectStream :: "'r env \<Rightarrow> ObjectLocation \<Rightarrow> reader \<Rightarrow> (('r, 'x) world_scheme, Object) comp" where
  "PutObjectStream env loc r =
     bindE (liftE (EncryptionTypeFromString (EncryptionMethod (Cfg env)))) (\<lambda>encType.
     bindE GetAvailableBackends (\<lambda>backends.
     bindE (ChunkStream env r encType (configured_compression env) backends (ChunkConcurrency (Cfg env))) (\<lambda>(chunks, sz, hash).
     bindE (GetCurrentTime env) (\<lambda>now.
     let ob = \<lparr>Obj_Location = loc, Obj_Size = sz, Obj_Compression = configured_compression env,
               LastModified = now, ETag = hash, Obj_Chunks = chunks\<rparr>
     in bindE (meta_PutObject env ob) (\<lambda>_. returnE ob)))))"

definition PutObject :: "'r env \<Rightarrow> ObjectLocation \<Rightarrow> bytes \<Rightarrow> (('r, 'x) world_scheme, Object) comp" where
  "PutObject env loc data = PutObjectStream env loc (bytes_NewReader data)"

definition GetObject :: "'r env \<Rightarrow> ObjectLocation \<Rightarrow> (('r, 'x) world_scheme, Object) comp" where
  "GetObject env loc = meta_GetObject env loc"

definition UpdateObjectStream :: "'r env \<Rightarrow> ObjectLocation \<Rightarrow> reader \<Rightarrow> (('r, 'x) world_scheme, Object) comp" where
  "UpdateObjectStream env loc r =
     bindE (liftE (EncryptionTypeFromString (EncryptionMethod (Cfg env)))) (\<lambda>encType.
     bindE GetAvailableBackends (\<lambda>backends.
     bindE (ChunkStream env r encType (configured_compression env) backends (ChunkConcurrency (Cfg env))) (\<lambda>(chunks, sz, hash).
     let ob = \<lparr>Obj_Location = loc, Obj_Size = sz, Obj_Compression = configured_compression env,
               LastModified = 0, ETag = hash, Obj_Chunks = chunks\<rparr>
     in bindE (meta_UpdateObject env ob) (\<lambda>_. returnE ob))))"

definition UpdateObject :: "'r env \<Rightarrow> ObjectLocation \<Rightarrow> bytes \<Rightarrow> (('r, 'x) world_scheme, Object) comp" where
  "UpdateObject env loc data = UpdateObjectStream env loc (bytes_NewReader data)"

definition DeleteObject :: "'r env \<Rightarrow> ObjectLocation \<Rightarrow> (('r, 'x) world_scheme, unit) comp" where
  "DeleteObject env loc =
     bindE (meta_GetObject env loc) (\<lambda>ob.
     bindE (DeleteChunks env (Obj_Chunks ob)) (\<lambda>_.
     meta_DeleteObject env loc))"

section \<open>Multipart uploads (\<open>multipart.go\<close>)\<close>

definition CreateMultipartUpload :: "'r env \<Rightarrow> ObjectLocation \<Rightarrow> (('r, 'x) world_scheme, MultipartUpload) comp" where
  "CreateMultipartUpload env loc =
     bindE (meta_CreateMultipartUpload env loc (configured_compression env)) (\<lambda>i.
     bindE (GetCurrentTime env) (\<lambda>now.
     returnE \<lparr>UploadID = i, Upload_Location = loc, Upload_Compression = configured_compression env, Initiated = now\<rparr>))"

definition UploadPartStream :: "'r env \<Rightarrow> ObjectLocation \<Rightarrow> int \<Rightarrow> string \<Rightarrow> reader \<Rightarrow> (('r, 'x) world_scheme, MultipartPart) comp" where
  "UploadPartStream env loc partNumber uploadId r =
     bindE (liftE (EncryptionTypeFromString (EncryptionMethod (Cfg env)))) (\<lambda>encType.
     bindE (GetMultipartUpload env uploadId) (\<lambda>upload.
     bindE GetAvailableBackends (\<lambda>backends.
     bindE (ChunkStream env r encType (configured_compression env) backends (ChunkConcurrency (Cfg env))) (\<lambda>(chunks, sz, hash).
     bindE (GetCurrentTime env) (\<lambda>now.
     let part = \<lparr>Part_UploadID = UploadID upload, PartNumber = partNumber, Part_ETag = hash, Part_Size = sz,
                 Part_CreatedAt = now, Part_Chunks = chunks\<rparr>
     in bindE (PutPart env part) (\<lambda>_. returnE part))))))"

definition CompleteMultipartUpload :: "'r env \<Rightarrow> string \<Rightarrow> (('r, 'x) world_scheme, Object) comp" where
  "CompleteMultipartUpload env uploadId =
     bindE (GetMultipartUpload env uploadId) (\<lambda>_. meta_CompleteMultipartUpload env uploadId)"

definition AbortMultipartUpload :: "'r env \<Rightarrow> string \<Rightarrow> (('r, 'x) world_scheme, unit) comp" where
  "AbortMultipartUpload env uploadId = meta_AbortMultipartUpload env uploadId"

end
