(* ===== verification/Backend_Health.thy ===== *)
theory Backend_Health
  imports Backend_Laws
begin

text \<open>
  When a put succeeds. The configuration of a service is what its operations never change; a
  backend is healthy when its configuration lets every call through (a file service that does
  not simulate failures, an in-memory service, or a remote one whose client connects and whose
  sends work). On a healthy backend, and without faults of the operating system, every put of
  a blob of admissible size succeeds.
\<close>

fun svc_conf :: "service \<Rightarrow> service" where
  "svc_conf (FileService s) = FileService s"
| "svc_conf (DiscordService s) = DiscordService (s\<lparr>ds_session := False, ds_objects := Map.empty\<rparr>)"
| "svc_conf (TelegramService s) = TelegramService (s\<lparr>tg_remote := False, tg_objects := Map.empty\<rparr>)"

definition confs :: "('r, 'x) iface_scheme \<Rightarrow> BackendType \<Rightarrow> service option" where
  "confs w b = map_option svc_conf (instances w b)"

fun healthy_svc :: "'r env \<Rightarrow> service \<Rightarrow> bool" where
  "healthy_svc env (FileService s) \<longleftrightarrow> \<not> fs_fail s"
| "healthy_svc env (DiscordService s) \<longleftrightarrow> (ds_isConfigured s \<longrightarrow>
     dg_new env (let t = trimSpace (ds_botToken s) in if hasPrefix t ''Bot '' then t else ''Bot '' @ t) \<and>
     (\<forall>r d. fst (dg_send env r (ds_channelID s) d) \<noteq> None))"
| "healthy_svc env (TelegramService s) \<longleftrightarrow> (tg_isConfigured s \<longrightarrow>
     (\<forall>r. newTelegramRemote env r s) \<and> (\<forall>r d. fst (td_send env r (tg_chatID s) d) \<noteq> None))"

definition healthy :: "'r env \<Rightarrow> ('r, 'x) iface_scheme \<Rightarrow> BackendType \<Rightarrow> bool" where
  "healthy env w b \<longleftrightarrow> (\<exists>svc. instances w b = Some svc \<and> healthy_svc env svc)"

definition same_conf :: "('r, 'x) iface_scheme \<Rightarrow> ('r, 'x) iface_scheme \<Rightarrow> bool" where
  "same_conf w w' \<longleftrightarrow> confs w' = confs w \<and> availableBackends w' = availableBackends w"

interpretation sconf: frame_rel same_conf
  by unfold_locales (simp_all add: same_conf_def)

lemma healthy_svc_conf [simp]: "healthy_svc env (svc_conf svc) = healthy_svc env svc"
  by (cases svc) (simp_all add: ds_isConfigured_def tg_isConfigured_def newTelegramRemote_def)

lemma size_svc_conf [simp]: "svc_GetMaxObjectSize (svc_conf svc) = svc_GetMaxObjectSize svc"
  by (cases svc) simp_all

lemma healthy_confs: "healthy env w b \<longleftrightarrow> (\<exists>svc. confs w b = Some svc \<and> healthy_svc env svc)"
  by (auto simp: healthy_def confs_def)

lemma healthy_same: "same_conf w w' \<Longrightarrow> healthy env w' b = healthy env w b"
  by (simp add: same_conf_def healthy_confs)

text \<open>The largest blob a backend accepts.\<close>

definition capacity :: "('r, 'x) iface_scheme \<Rightarrow> BackendType \<Rightarrow> nat" where
  "capacity w b = svc_GetMaxObjectSize (the (instances w b))"

lemma capacity_same: "same_conf w w' \<Longrightarrow> instances w b \<noteq> None \<Longrightarrow> capacity w' b = capacity w b"
proof -
  assume a: "same_conf w w'" "instances w b \<noteq> None"
  then have "map_option svc_conf (instances w' b) = map_option svc_conf (instances w b)"
    by (metis confs_def same_conf_def)
  with a(2) obtain svc svc' where "instances w b = Some svc" "instances w' b = Some svc'" "svc_conf svc' = svc_conf svc"
    by auto
  then show ?thesis by (metis capacity_def option.sel size_svc_conf)
qed

lemma same_conf_set:
  "instances w b = Some svc \<Longrightarrow> svc_conf svc' = svc_conf svc \<Longrightarrow>
     same_conf w (w\<lparr>instances := (instances w)(b \<mapsto> svc')\<rparr>)"
  "instances w b = Some svc \<Longrightarrow> svc_conf svc' = svc_conf svc \<Longrightarrow>
     same_conf w (w\<lparr>tick := n, instances := (instances w)(b \<mapsto> svc')\<rparr>)"
  by (auto simp: same_conf_def confs_def fun_eq_iff)

lemma same_conf_host [simp]:
  "same_conf w (w\<lparr>tick := n\<rparr>)" "same_conf w (w\<lparr>files := f\<rparr>)" "same_conf w (w\<lparr>remote := r\<rparr>)"
  "same_conf w (w\<lparr>tick := n, files := f\<rparr>)"
  by (simp_all add: same_conf_def confs_def fun_eq_iff)

lemma svc_conf_touch: "svc_conf (svc_touch env r svc) = svc_conf svc"
  by (cases svc) auto

lemma touched_same_conf: "touched env w w' \<Longrightarrow> same_conf w w'"
  by (erule touchedE) (auto simp: sconf.reflR same_conf_set svc_conf_touch)

lemma GetShard_same_conf: "keeps same_conf (GetShard env b l)"
  by (rule keepsI) (rule touched_same_conf [OF GetShard_touched])

lemma ext_call_same_conf: "keeps same_conf (ext_call env)"
  by (rule keepsI) (simp add: ext_call_eq)

lemma td_PutObject_same_conf: "keeps same_conf (td_PutObject env c d)"
  unfolding td_PutObject_def
  by (intro sconf.keeps_bindE ext_call_same_conf keepsI) (auto split: prod.split option.split)

lemma svc_PutObject_same_conf:
  assumes i: "instances w b = Some svc"
  shows "same_conf w (snd (svc_PutObject env b svc d w))"
proof (cases svc)
  case (FileService s)
  then show ?thesis by (auto simp: file_PutObject_eq sconf.reflR)
next
  case (DiscordService s)
  show ?thesis
  proof (cases "ds_isConfigured s")
    case False
    with DiscordService i show ?thesis
      by (auto simp: discord_PutObject_def ds_putObjectInMemory_eq sconf.reflR intro!: same_conf_set(2))
  next
    case True
    have t: "same_conf w (snd (ds_getSession env b s w))"
      using ds_getSession_touched [of w b s env] True i DiscordService by (simp add: touched_same_conf)
    have "keeps same_conf (\<lambda>w. case dg_send env (remote w) (ds_channelID s) d of
        (None, r') \<Rightarrow> (Inl (ErrRemote ''upload shard''), w\<lparr>remote := r'\<rparr>)
      | (Some msg, r') \<Rightarrow> (Inr msg, w\<lparr>remote := r'\<rparr>))"
      by (rule keepsI) (simp split: prod.split option.split)
    from sconf.bindE_from [where s = w and m = "ds_getSession env b s", OF t this] True DiscordService show ?thesis
      by (simp add: discord_PutObject_def sconf.reflR)
  qed
next
  case (TelegramService s)
  show ?thesis
  proof (cases "tg_isConfigured s")
    case False
    with TelegramService i show ?thesis
      by (auto simp: telegram_PutObject_def tg_putObjectInMemory_eq sconf.reflR intro!: same_conf_set(2))
  next
    case True
    have t: "same_conf w (snd (tg_getRemote env b s w))"
      using tg_getRemote_touched [of w b s env] True i TelegramService by (simp add: touched_same_conf)
    from sconf.bindE_from [where s = w and m = "tg_getRemote env b s", OF t td_PutObject_same_conf [of env "tg_chatID s" d]] True TelegramService
    show ?thesis by (simp add: telegram_PutObject_def sconf.reflR)
  qed
qed

lemma PutShard_same_conf: "keeps same_conf (PutShard env b d)"
  by (rule keepsI) (simp add: PutShard_eq svc_PutObject_same_conf sconf.reflR split: option.split)

text \<open>A put on a healthy backend succeeds.\<close>

lemma PutShard_succeeds:
  assumes nf: "no_faults env" and h: "healthy env w b" and d: "length d \<le> capacity w b"
  shows "\<exists>l t. PutShard env b d w = (Inr l, t)"
proof -
  have nf': "\<not> fault env k" for k using nf by (simp add: no_faults_def)
  from h obtain svc where i: "instances w b = Some svc" and hs: "healthy_svc env svc"
    by (auto simp: healthy_def)
  have "\<exists>l t. svc_PutObject env b svc d w = (Inr l, t)"
  proof (cases svc)
    case (FileService s)
    with hs show ?thesis by (simp add: file_PutObject_eq nf')
  next
    case (DiscordService s)
    have fit: "\<not> discordMaxObjectSize < length d" using d i DiscordService by (simp add: capacity_def)
    show ?thesis
    proof (cases "ds_isConfigured s")
      case False
      with fit DiscordService show ?thesis by (simp add: discord_PutObject_def ds_putObjectInMemory_eq)
    next
      case True
      with hs DiscordService have "\<exists>w1. ds_getSession env b s w = (Inr (), w1)"
        by (simp add: ds_getSession_eq)
      then obtain w1 where w1: "ds_getSession env b s w = (Inr (), w1)" by blast
      from True hs DiscordService obtain m r' where "dg_send env (remote w1) (ds_channelID s) d = (Some m, r')"
        by (metis healthy_svc.simps(2) option.exhaust prod.exhaust fst_conv)
      with True fit w1 DiscordService show ?thesis by (simp add: discord_PutObject_def)
    qed
  next
    case (TelegramService s)
    have fit: "\<not> telegramMaxObjectSize < length d" using d i TelegramService by (simp add: capacity_def)
    show ?thesis
    proof (cases "tg_isConfigured s")
      case False
      with fit TelegramService show ?thesis by (simp add: telegram_PutObject_def tg_putObjectInMemory_eq)
    next
      case True
      with hs TelegramService have "\<exists>w1. tg_getRemote env b s w = (Inr (), w1)"
        by (simp add: tg_getRemote_eq)
      then obtain w1 where w1: "tg_getRemote env b s w = (Inr (), w1)" by blast
      from True hs TelegramService obtain m r' where "td_send env (remote w1) (tg_chatID s) d = (Some m, r')"
        by (metis healthy_svc.simps(3) option.exhaust prod.exhaust fst_conv)
      with True fit w1 TelegramService nf' show ?thesis
        by (simp add: telegram_PutObject_def td_PutObject_def ext_call_eq bindE_def)
    qed
  qed
  with i show ?thesis by (simp add: PutShard_eq)
qed

section \<open>What backend calls leave alone\<close>

text \<open>The parts of the state that extend \<open>iface\<close> (the database, the key manager) and the list of the available
  backends are out of reach of every backend call, and a put overwrites no file.\<close>

definition same_more :: "('r, 'x) iface_scheme \<Rightarrow> ('r, 'x) iface_scheme \<Rightarrow> bool" where
  "same_more w w' \<longleftrightarrow> iface.more w' = iface.more w \<and> availableBackends w' = availableBackends w"

interpretation smore: frame_rel same_more
  by unfold_locales (simp_all add: same_more_def)

lemma same_more_upd [simp]:
  "same_more w (w\<lparr>tick := n\<rparr>)" "same_more w (w\<lparr>files := f\<rparr>)" "same_more w (w\<lparr>remote := r\<rparr>)"
  "same_more w (w\<lparr>instances := i\<rparr>)" "same_more w (w\<lparr>tick := n, files := f\<rparr>)"
  by (simp_all add: same_more_def)

lemma prim_same_more:
  "keeps same_more (ext_call env)" "keeps same_more (uuid_New env)" "keeps same_more next_tick"
  "keeps same_more (os_ReadFile p)" "keeps same_more (os_WriteFile env p d)" "keeps same_more (os_Remove env p)"
  "keeps same_more (RegisterInstance b svc)" "keeps same_more (getService b)"
  by (auto simp: keeps_def ext_call_eq uuid_New_eq next_tick_def os_ReadFile_eq os_WriteFile_eq os_Remove_eq
      RegisterInstance_def getService_eq smore.reflR)

lemma remote_same_more:
  "keeps same_more (\<lambda>w. case f w of (None, r') \<Rightarrow> (Inl e, w\<lparr>remote := r'\<rparr>) | (Some m, r') \<Rightarrow> (Inr (g m), w\<lparr>remote := r'\<rparr>))"
  "keeps same_more (\<lambda>w. case h w of (ok, r') \<Rightarrow> (if ok then Inr () else Inl e, w\<lparr>remote := r'\<rparr>))"
  by (auto simp: keeps_def split: prod.split option.split)

lemma client_same_more: "keeps same_more (ds_getSession env b ds)" "keeps same_more (tg_getRemote env b ts)"
  unfolding ds_getSession_def tg_getRemote_def Let_def by (intro smore.keeps_rules prim_same_more)+

lemma svc_same_more:
  "keeps same_more (svc_GetObject env b svc l)" "keeps same_more (svc_PutObject env b svc d)"
  "keeps same_more (svc_DeleteObject env b svc l)"
  by (cases svc; simp add: file_GetObject_def discord_GetObject_def telegram_GetObject_def
      file_PutObject_def generateLocation_def discord_PutObject_def ds_putObjectInMemory_def
      telegram_PutObject_def tg_putObjectInMemory_def td_PutObject_def
      file_DeleteObject_def discord_DeleteObject_def ds_deleteObjectInMemory_def
      telegram_DeleteObject_def tg_deleteObjectInMemory_def td_DeleteObject_def;
      intro smore.keeps_rules prim_same_more client_same_more remote_same_more impI conjI)+

lemma shard_same_more: "keeps same_more (GetShard env b l)" "keeps same_more (PutShard env b d)"
  "keeps same_more (DeleteShard env b l)"
  unfolding GetShard_def PutShard_def DeleteShard_def by (intro smore.keeps_rules prim_same_more svc_same_more)+

text \<open>Time passes.\<close>

definition later :: "('r, 'x) host_scheme \<Rightarrow> ('r, 'x) host_scheme \<Rightarrow> bool" where
  "later w w' \<longleftrightarrow> tick w \<le> tick w'"

interpretation lstep: frame_rel later
  by unfold_locales (simp_all add: later_def)

lemma prim_later:
  "keeps later (ext_call env)" "keeps later (uuid_New env)" "keeps later next_tick"
  "keeps later (os_ReadFile p)" "keeps later (os_WriteFile env p d)" "keeps later (os_Remove env p)"
  by (auto simp: keeps_def later_def ext_call_eq uuid_New_eq next_tick_def os_ReadFile_eq os_WriteFile_eq os_Remove_eq)

lemma iface_later:
  "keeps later (RegisterInstance b svc :: (('r, 'x) iface_scheme, _) comp)"
  "keeps later (getService b :: (('r, 'x) iface_scheme, _) comp)"
  by (auto simp: keeps_def later_def RegisterInstance_def getService_eq)

lemma remote_later:
  "keeps later (\<lambda>w. case f w of (None, r') \<Rightarrow> (Inl e, w\<lparr>remote := r'\<rparr>) | (Some m, r') \<Rightarrow> (Inr (g m), w\<lparr>remote := r'\<rparr>))"
  by (auto simp: keeps_def later_def split: prod.split option.split)

lemma client_later:
  "keeps later (ds_getSession env b ds :: (('r, 'x) iface_scheme, _) comp)"
  "keeps later (tg_getRemote env b ts :: (('r, 'x) iface_scheme, _) comp)"
  unfolding ds_getSession_def tg_getRemote_def Let_def by (intro lstep.keeps_rules iface_later)+

lemma svc_PutObject_later: "keeps later (svc_PutObject env b svc d :: (('r, 'x) iface_scheme, _) comp)"
  by (cases svc; simp add: file_PutObject_def generateLocation_def discord_PutObject_def ds_putObjectInMemory_def
      telegram_PutObject_def tg_putObjectInMemory_def td_PutObject_def;
      intro lstep.keeps_rules prim_later iface_later client_later remote_later impI conjI)

lemma PutShard_later: "keeps later (PutShard env b d :: (('r, 'x) iface_scheme, _) comp)"
  unfolding PutShard_def by (intro lstep.keeps_rules iface_later svc_PutObject_later)

text \<open>Existing files survive a put: it writes under a name that is not in use.\<close>

definition files_kept :: "'r env \<Rightarrow> ('r, 'x) iface_scheme \<Rightarrow> ('r, 'x) iface_scheme \<Rightarrow> bool" where
  "files_kept env w w' \<longleftrightarrow> (iface_ok env w \<longrightarrow> iface_ok env w' \<and>
     (\<forall>p d. files w p = Some d \<longrightarrow> files w' p = Some d))"

interpretation fkept: frame_rel "files_kept env" for env
  by unfold_locales (auto simp: files_kept_def)

lemma svc_PutObject_files:
  assumes "fresh_inv env w" and "files w p = Some x"
  shows "files (snd (svc_PutObject env b svc d w)) p = Some x"
proof (cases svc)
  case (FileService s)
  have "files w (filepath_Join (storageDirectory s) (''shard_'' @ uuid_new env (tick w + 1))) = None"
    using assms(1) by (simp add: fresh_inv_def)
  then have "p \<noteq> filepath_Join (storageDirectory s) (''shard_'' @ uuid_new env (tick w + 1))"
    using assms(2) by auto
  with FileService assms(2) show ?thesis by (simp add: file_PutObject_eq)
next
  case (DiscordService s)
  with assms(2) show ?thesis
    by (auto simp: discord_PutObject_def ds_putObjectInMemory_eq ds_getSession_eq bindE_def raiseE_def
        split: prod.split option.split)
next
  case (TelegramService s)
  with assms(2) show ?thesis
    by (auto simp: telegram_PutObject_def tg_putObjectInMemory_eq tg_getRemote_eq td_PutObject_def ext_call_eq
        bindE_def raiseE_def split: prod.split option.split)
qed

lemma PutShard_files_kept: "keeps (files_kept env) (PutShard env b d)"
proof (rule keepsI)
  fix w
  show "files_kept env w (snd (PutShard env b d w))"
    using iface.put_ok [of env w b d] svc_PutObject_files [of env w _ _ b _ d]
    by (auto simp: files_kept_def iface_ok_def PutShard_eq split: option.splits)
qed

lemma tick_files_kept: "files_kept env w (w\<lparr>tick := Suc (tick w)\<rparr>)"
  using tick_step [of w "Suc (tick w)" env] unfolding files_kept_def iface_step_def iface_ok_def by simp

end
