(* ===== verification/Shard_Laws.thy ===== *)
theory Shard_Laws
  imports Shard Backend_Health "HOL-Library.Multiset"
begin

text \<open>
  What the sharding layer promises: the parity loop ends exactly when fewer backends may fail
  than there are, and yields the least sufficient count; every encoded row is uploaded once, in
  contiguous runs; the uploaded blobs are readable and distinct whatever the scheduler does;
  and the data is reconstructed when at most \<open>FailureTolerance\<close> backends are lost.
\<close>

section \<open>Parity\<close>

lemma parityLoop_sound:
  "parityLoop tol n d k = Some p \<Longrightarrow> lostRows tol n (d + p) \<le> int p \<and> k \<le> p \<and>
     (\<forall>q. k \<le> q \<longrightarrow> q < p \<longrightarrow> int q < lostRows tol n (d + q))"
proof (rule parityLoop.raw_induct [of "\<lambda>tol n d k p. lostRows tol n (d + p) \<le> int p \<and> k \<le> p \<and>
     (\<forall>q. k \<le> q \<longrightarrow> q < p \<longrightarrow> int q < lostRows tol n (d + q))"], goal_cases)
  case (1 loop tol n d k p)
  show ?case
  proof (cases "lostRows tol n (d + k) \<le> int k")
    case True
    with 1(3) show ?thesis by simp
  next
    case False
    with 1(3) have "loop tol n d (Suc k) = Some p" by simp
    from 1(2) [OF this] False show ?thesis
      by (metis Suc_leD Suc_leI le_neq_implies_less not_le)
  qed
qed

lemma parityLoop_ends:
  assumes "k \<le> P" and "lostRows tol n (d + P) \<le> int P"
  shows "\<exists>p. parityLoop tol n d k = Some p"
  using assms(1)
proof (induction "P - k" arbitrary: k)
  case 0
  with assms(2) show ?case by (simp add: parityLoop.simps)
next
  case (Suc x)
  then have "\<exists>p. parityLoop tol n d (Suc k) = Some p" by (intro Suc.hyps) simp_all
  then show ?case by (subst parityLoop.simps) simp
qed

lemma lostRows_multiple: "0 < n \<Longrightarrow> lostRows tol n (n * m) = tol * int m + min tol 0"
  by (simp add: lostRows_def)

lemma parityLoop_defined:
  assumes "0 < n" and "tol < int n"
  shows "\<exists>p. parityLoop tol n d 0 = Some p"
proof (rule parityLoop_ends [of 0 "(n - 1) * d"])
  have e: "d + (n - 1) * d = n * d" using assms(1) by (cases n) simp_all
  have "tol * int d \<le> int (n - 1) * int d" using assms by (intro mult_right_mono) linarith+
  then show "lostRows tol n (d + (n - 1) * d) \<le> int ((n - 1) * d)"
    unfolding e lostRows_multiple [OF assms(1)] by simp
qed simp

lemma lostRows_all:
  assumes "0 < n" and "int n \<le> tol"
  shows "int totalShards \<le> lostRows tol n totalShards"
proof -
  let ?q = "int (totalShards div n)" and ?r = "int (totalShards mod n)"
  have "int totalShards = int n * ?q + ?r" by (metis mult_div_mod_eq of_nat_add of_nat_mult)
  moreover have "int n * ?q \<le> tol * ?q" using assms(2) by (intro mult_right_mono) simp_all
  moreover have "?r < tol" using assms by (metis less_le_trans mod_less_divisor of_nat_less_iff)
  ultimately show ?thesis by (simp add: lostRows_def)
qed

lemma parityLoop_diverges:
  assumes "0 < n" and "int n \<le> tol" and "0 < d"
  shows "parityLoop tol n d 0 = None"
proof (rule ccontr)
  assume "parityLoop tol n d 0 \<noteq> None"
  then obtain p where "parityLoop tol n d 0 = Some p" by blast
  then have "lostRows tol n (d + p) \<le> int p" by (simp add: parityLoop_sound)
  moreover have "int (d + p) \<le> lostRows tol n (d + p)" by (rule lostRows_all [OF assms(1,2)])
  ultimately show False using assms(3) by simp
qed

lemma getShardParityCount_sound:
  assumes "getShardParityCount env n d = Inr p"
  shows "0 < n" "lostRows (FailureTolerance (Cfg env)) n (d + p) \<le> int p"
    "q < p \<Longrightarrow> int q < lostRows (FailureTolerance (Cfg env)) n (d + q)"
  using assms parityLoop_sound [of "FailureTolerance (Cfg env)" n d 0 p]
  by (auto simp: getShardParityCount_def split: if_splits option.splits)

text \<open>The number of rows in block \<open>i\<close>, the index of its first row, and the worst case over any
  set of failed blocks: no more than \<open>lostRows\<close>.\<close>

definition blockLen :: "nat \<Rightarrow> nat \<Rightarrow> nat \<Rightarrow> nat" where
  "blockLen n T i = T div n + (if i < T mod n then 1 else 0)"

definition blockStart :: "nat \<Rightarrow> nat \<Rightarrow> nat \<Rightarrow> nat" where
  "blockStart n T i = i * (T div n) + min i (T mod n)"

lemma blockStart_Suc: "blockStart n T (Suc i) = blockStart n T i + blockLen n T i"
  by (auto simp: blockStart_def blockLen_def)

lemma blockStart_end: "0 < n \<Longrightarrow> blockStart n T n = T"
  by (simp add: blockStart_def min_absorb2 less_imp_le)

lemma blockLen_sum_fin:
  assumes "finite F"
  shows "(\<Sum>i\<in>F. blockLen n T i) \<le> card F * (T div n) + min (card F) (T mod n)"
proof -
  have "(\<Sum>i\<in>F. blockLen n T i) = card F * (T div n) + card {i \<in> F. i < T mod n}"
    using assms by (simp add: blockLen_def sum.distrib sum.If_cases Int_def)
  moreover have "card {i \<in> F. i < T mod n} \<le> card F" using assms by (intro card_mono) auto
  moreover have "card {i \<in> F. i < T mod n} \<le> card {..< T mod n}" by (intro card_mono) auto
  ultimately show ?thesis by simp
qed

lemma blockLen_lost:
  assumes "finite F" and "int (card F) \<le> tol"
  shows "int (\<Sum>i\<in>F. blockLen n T i) \<le> lostRows tol n T"
proof -
  have "int (card F) * int (T div n) \<le> tol * int (T div n)"
    using assms(2) by (intro mult_right_mono) simp_all
  moreover have "int (\<Sum>i\<in>F. blockLen n T i) \<le> int (card F * (T div n) + min (card F) (T mod n))"
    using blockLen_sum_fin [OF assms(1), of n T] by (rule of_nat_mono)
  ultimately show ?thesis using assms(2) by (simp add: lostRows_def Let_def min_def split: if_splits)
qed

text \<open>The first \<open>tol\<close> blocks attain the bound.\<close>

lemma blockStart_sum: "blockStart n T k = (\<Sum>i < k. blockLen n T i)"
  by (induction k) (simp_all add: blockStart_Suc, simp add: blockStart_def)

lemma lostRows_worst: "0 \<le> tol \<Longrightarrow> lostRows tol n T = int (\<Sum>i < nat tol. blockLen n T i)"
  by (auto simp: blockStart_sum [symmetric] blockStart_def lostRows_def Let_def min_def)

section \<open>Distribution and merging\<close>

definition rawRow :: "bytes list \<Rightarrow> nat \<Rightarrow> rawShard" where
  "rawRow ys k = \<lparr>raw_First = int k, raw_Last = int k, raw_data = ys ! k\<rparr>"

lemma distribute_other: "b \<notin> set bs \<Longrightarrow> distribute ys base extra i next bs m b = m b"
  by (induction ys base extra i "next" bs m rule: distribute.induct) (simp_all add: Let_def)

lemma distribute_block:
  assumes "distinct bs" and "\<forall>b \<in> set bs. m b = []" and "j < length bs" and "start = blockStart n T i"
  shows "distribute ys (T div n) (T mod n) i start bs m (bs ! j)
    = map (rawRow ys) [blockStart n T (i + j) ..< blockStart n T (Suc (i + j))]"
  using assms
proof (induction bs arbitrary: i start j m)
  case Nil
  then show ?case by simp
next
  case (Cons b bs)
  have len: "(if i < T mod n then Suc (T div n) else T div n) = blockLen n T i"
    by (simp add: blockLen_def)
  show ?case
  proof (cases j)
    case 0
    with Cons.prems show ?thesis
      by (simp add: len Let_def distribute_other blockStart_Suc rawRow_def [abs_def])
  next
    case (Suc j')
    with Cons.prems show ?thesis
      by (simp add: len Let_def Cons.IH blockStart_Suc)
  qed
qed

text \<open>A list of raw shards that covers the rows \<open>a ..< b\<close> in order, in contiguous runs.\<close>

fun runs :: "bytes list \<Rightarrow> nat \<Rightarrow> nat \<Rightarrow> rawShard list \<Rightarrow> bool" where
  "runs ys a b [] \<longleftrightarrow> a = b"
| "runs ys a b (r # rs) \<longleftrightarrow> raw_First r = int a \<and> raw_First r \<le> raw_Last r \<and> raw_Last r < int b \<and>
     raw_data r = concat (map ((!) ys) [a ..< Suc (nat (raw_Last r))]) \<and>
     runs ys (Suc (nat (raw_Last r))) b rs"

lemma mergeRun_rows:
  assumes "mergeRun c m (map (rawRow ys) [a ..< b]) = (m', k)"
  shows "m' = m @ concat (map ((!) ys) [a ..< a + k]) \<and> (length m \<le> c \<longrightarrow> length m' \<le> c)"
  using assms
proof (induction "b - a" arbitrary: a m k)
  case 0
  then show ?case by simp
next
  case (Suc x)
  then have "[a ..< b] = a # [Suc a ..< b]" by (simp add: upt_conv_Cons)
  with Suc.prems have *: "mergeRun c m (rawRow ys a # map (rawRow ys) [Suc a ..< b]) = (m', k)" by simp
  show ?case
  proof (cases "c < length m + length (ys ! a)")
    case True
    with * show ?thesis by (simp add: rawRow_def)
  next
    case False
    with * obtain k' where k': "k = Suc k'" "mergeRun c (m @ ys ! a) (map (rawRow ys) [Suc a ..< b]) = (m', k')"
      by (auto simp: rawRow_def split: prod.splits)
    have "x = b - Suc a" using Suc.hyps(2) by simp
    note IH' = Suc.hyps(1) [OF this k'(2)]
    have "length (m @ ys ! a) \<le> c" using False by simp
    with IH' have IH: "m' = (m @ ys ! a) @ concat (map ((!) ys) [Suc a ..< Suc a + k'])" "length m' \<le> c"
      by blast+
    then have "m' = m @ concat (map ((!) ys) [a ..< a + k])"
      by (simp add: k'(1) upt_conv_Cons del: upt_Suc)
    with IH(2) show ?thesis by blast
  qed
qed

lemma mergeShards_rows:
  assumes "\<forall>y \<in> set ys. length y = n" and "n \<le> c" and "a \<le> b" and "b \<le> length ys"
  shows "\<exists>out. mergeShards c first (map (rawRow ys) [a ..< b]) = Inr out \<and> runs ys a b out \<and>
    (\<forall>r \<in> set out. length (raw_data r) \<le> c)"
  using assms(3)
proof (induction "b - a" arbitrary: a first rule: less_induct)
  case less
  show ?case
  proof (cases "a = b")
    case True
    then show ?thesis by simp
  next
    case False
    with less.prems have upt: "[a ..< b] = a # [Suc a ..< b]" by (simp add: upt_conv_Cons)
    have la: "length (ys ! a) = n" using assms(1,4) less.prems False by (simp add: nth_mem)
    obtain m k where mk: "mergeRun c (ys ! a) (map (rawRow ys) [Suc a ..< b]) = (m, k)"
      by (cases "mergeRun c (ys ! a) (map (rawRow ys) [Suc a ..< b])")
    have k: "k \<le> b - Suc a" using mergeRun_bound [OF mk] by simp
    have m: "m = concat (map ((!) ys) [a ..< Suc (a + k)])"
      using mergeRun_rows [OF mk, THEN conjunct1] by (simp add: upt_conv_Cons del: upt_Suc)
    have mc: "length m \<le> c" using mergeRun_rows [OF mk, THEN conjunct2] la assms(2) by blast
    have run: "mergeRun c [] (rawRow ys a # map (rawRow ys) [Suc a ..< b]) = (m, Suc k)"
      using mk la assms(2) by (simp add: rawRow_def)
    have drop: "drop k (map (rawRow ys) [Suc a ..< b]) = map (rawRow ys) [Suc (a + k) ..< b]"
      by (simp add: drop_map)
    have last: "(rawRow ys a # map (rawRow ys) [Suc a ..< b]) ! k = rawRow ys (a + k)"
      using k False less.prems by (cases k) auto
    have "b - Suc (a + k) < b - a" "Suc (a + k) \<le> b" using k False less.prems by linarith+
    note IH = less.hyps [OF this, of False]
    obtain out where "mergeShards c False (map (rawRow ys) [Suc (a + k) ..< b]) = Inr out"
        "runs ys (Suc (a + k)) b out" "\<forall>r \<in> set out. length (raw_data r) \<le> c"
      using IH by blast
    then have "mergeShards c first (map (rawRow ys) [a ..< b])
        = Inr (\<lparr>raw_First = int a, raw_Last = int (a + k), raw_data = m\<rparr> # out)"
      "runs ys a b (\<lparr>raw_First = int a, raw_Last = int (a + k), raw_data = m\<rparr> # out)"
      "\<forall>r \<in> set (\<lparr>raw_First = int a, raw_Last = int (a + k), raw_data = m\<rparr> # out). length (raw_data r) \<le> c"
      using run drop last mc k False less.prems
      by (simp_all add: upt nat_add_distrib m [symmetric] rawRow_def del: upt_Suc mergeRun.simps)
    then show ?thesis by blast
  qed
qed

lemma GetMaxShardSize_eq:
  "GetMaxShardSize b w = (case instances w b of None \<Rightarrow> Inl (ErrUnconfiguredBackend b)
     | Some svc \<Rightarrow> Inr (svc_GetMaxObjectSize svc), w)"
  by (simp add: GetMaxShardSize_def bindE_def getService_eq returnE_def split: option.split)

lemma mergeAll_eq:
  assumes "distinct bs"
    and "\<forall>b \<in> set bs. \<exists>svc. instances w b = Some svc \<and>
           mergeShards (svc_GetMaxObjectSize svc) True (raws b) = Inr (out b)"
  shows "mergeAll bs raws m w = (Inr (\<lambda>b. if b \<in> set bs then m b @ out b else m b), w)"
  using assms
proof (induction bs arbitrary: m)
  case Nil
  then show ?case by simp
next
  case (Cons b bs)
  then have "mergeAll (b # bs) raws m w = mergeAll bs raws (m(b := m b @ out b)) w"
    by (auto simp: GetMaxShardSize_eq bindE_def liftE_def)
  also have "\<dots> = (Inr (\<lambda>x. if x \<in> set bs then (m(b := m b @ out b)) x @ out x
      else (m(b := m b @ out b)) x), w)"
    using Cons.prems by (intro Cons.IH) simp_all
  also have "(\<lambda>x. if x \<in> set bs then (m(b := m b @ out b)) x @ out x else (m(b := m b @ out b)) x)
      = (\<lambda>x. if x \<in> set (b # bs) then m x @ out x else m x)"
    using Cons.prems(1) by (auto simp: fun_eq_iff)
  finally show ?case .
qed

section \<open>Upload\<close>

text \<open>A stored shard describes a raw shard and its blob is readable.\<close>

definition held :: "'r env \<Rightarrow> ('r, 'x) iface_scheme \<Rightarrow> BackendType \<Rightarrow> rawShard \<Rightarrow> shard \<Rightarrow> bool" where
  "held env w b r s \<longleftrightarrow> First s = raw_First r \<and> Last s = raw_Last r \<and> Backend s = b \<and>
     Checksum s = GenerateChecksum env (raw_data r) \<and> lastVerified s = 0 \<and>
     fst (GetShard env b (Location s) w) = Inr (raw_data r)"

definition saddr :: "('r, 'x) iface_scheme \<Rightarrow> shard \<Rightarrow> blob_addr" where
  "saddr w s = shard_addr w (Backend s) (Location s)"

definition donesOf :: "putter option list \<Rightarrow> shard list" where
  "donesOf ps = concat (map (\<lambda>p. case p of None \<Rightarrow> [] | Some q \<Rightarrow> pt_done q) ps)"

lemma held_grows:
  "iface.grows env w w' \<Longrightarrow> iface_ok env w \<Longrightarrow> held env w b r s \<Longrightarrow> held env w' b r s"
  by (auto simp: held_def iface.growsD)

text \<open>Updating one entry of the group only drops or appends finished shards.\<close>

lemma donesOf_update_Some:
  assumes "i < length ps" and "ps ! i = Some q" and "pt_done q' = pt_done q @ [s]"
  shows "mset (donesOf (ps[i := Some q'])) = add_mset s (mset (donesOf ps))"
  using assms
proof (induction ps arbitrary: i)
  case Nil
  then show ?case by simp
next
  case (Cons p ps)
  then show ?case by (cases i) (simp_all add: donesOf_def)
qed

lemma donesOf_update_None:
  "i < length ps \<Longrightarrow> mset (donesOf (ps[i := None])) \<subseteq># mset (donesOf ps)"
proof (induction ps arbitrary: i)
  case Nil
  then show ?case by simp
next
  case (Cons p ps)
  then show ?case by (cases i) (simp_all add: donesOf_def)
qed

lemma distinct_map_mset: "mset xs \<subseteq># mset ys \<Longrightarrow> distinct (map f ys) \<Longrightarrow> distinct (map f xs)"
proof -
  assume a: "mset xs \<subseteq># mset ys" and d: "distinct (map f ys)"
  obtain zs where "mset ys = mset xs + mset zs"
    using a by (metis ex_mset mset_subset_eq_exists_conv)
  then have "mset (map f ys) = mset (map f (xs @ zs))" by simp
  with d have "distinct (map f (xs @ zs))" by (metis mset_eq_imp_distinct_iff)
  then show ?thesis by simp
qed

text \<open>The invariant of the group, relative to the state \<open>w0\<close> in which the upload began.\<close>

definition entry_ok :: "'r env \<Rightarrow> ('r, 'x) iface_scheme \<Rightarrow> BackendType \<Rightarrow> rawShard list \<Rightarrow> error option
    \<Rightarrow> putter option \<Rightarrow> bool" where
  "entry_ok env w b raws err e \<longleftrightarrow> (case e of None \<Rightarrow> err \<noteq> None
     | Some p \<Rightarrow> pt_backend p = b \<and> (\<exists>k. pt_todo p = drop k raws \<and>
         list_all2 (held env w b) (take k raws) (pt_done p)))"

lemma entry_ok_grows:
  assumes "iface.grows env w w'" and "iface_ok env w" and "entry_ok env w b raws err e"
    and "err \<noteq> None \<Longrightarrow> err' \<noteq> None"
  shows "entry_ok env w' b raws err' e"
proof (cases e)
  case None
  with assms(3,4) show ?thesis by (simp add: entry_ok_def)
next
  case (Some p)
  with assms(3) obtain k where "pt_backend p = b" "pt_todo p = drop k raws"
      "list_all2 (held env w b) (take k raws) (pt_done p)"
    by (auto simp: entry_ok_def)
  moreover from this(3) have "list_all2 (held env w' b) (take k raws) (pt_done p)"
    by (rule list_all2_mono) (rule held_grows [OF assms(1,2)])
  ultimately show ?thesis using Some by (auto simp: entry_ok_def)
qed

definition group_inv :: "'r env \<Rightarrow> BackendType list \<Rightarrow> (BackendType \<Rightarrow> rawShard list)
    \<Rightarrow> ('r, 'x) iface_scheme \<Rightarrow> putGroup \<times> ('r, 'x) iface_scheme \<Rightarrow> bool" where
  "group_inv env bs finals w0 = (\<lambda>((ps, err), w).
     iface.grows env w0 w \<and> length ps = length bs \<and>
     (\<forall>i < length bs. entry_ok env w (bs ! i) (finals (bs ! i)) err (ps ! i)) \<and>
     distinct (map (saddr w0) (donesOf ps)) \<and>
     (\<forall>s \<in> set (donesOf ps). (\<exists>d. fst (GetShard env (Backend s) (Location s) w) = Inr d) \<and>
        (\<forall>b l d. fst (GetShard env b l w0) = Inr d \<longrightarrow> saddr w0 s \<noteq> shard_addr w0 b l)))"

lemma group_step_cases:
  obtains (idle) "group_step env i ((ps, err), w) = ((ps, err), w)"
  | (fail) p r rs e w' where "i < length ps" "ps ! i = Some p" "pt_todo p = r # rs"
      "PutShard env (pt_backend p) (raw_data r) w = (Inl e, w')"
      "group_step env i ((ps, err), w) = ((ps[i := None], if err = None then Some e else err), w')"
  | (put) p r rs l w' where "i < length ps" "ps ! i = Some p" "pt_todo p = r # rs"
      "PutShard env (pt_backend p) (raw_data r) w = (Inr l, w')"
      "group_step env i ((ps, err), w) = ((ps[i := Some (p\<lparr>pt_todo := rs,
         pt_done := pt_done p @ [storedShard env (pt_backend p) r l]\<rparr>)], err), w')"
proof (cases "i < length ps")
  case False
  then show ?thesis by (intro idle) (simp add: group_step_def)
next
  case i: True
  show ?thesis
  proof (cases "ps ! i")
    case None
    then show ?thesis by (intro idle) (simp add: group_step_def)
  next
    case (Some p)
    show ?thesis
    proof (cases "pt_todo p")
      case Nil
      with Some i have "ps[i := Some p] = ps" by (simp add: list_update_same_conv)
      with Nil Some show ?thesis by (intro idle) (simp add: group_step_def putter_step_def returnE_def)
    next
      case (Cons r rs)
      obtain q w' where q: "PutShard env (pt_backend p) (raw_data r) w = (q, w')"
        by (cases "PutShard env (pt_backend p) (raw_data r) w")
      show ?thesis
        by (cases q) (use i Some Cons q fail put in
            \<open>simp_all add: group_step_def putter_step_def bindE_def returnE_def\<close>)
    qed
  qed
qed

lemma group_put_inv:
  assumes ok: "iface_ok env w0" and inv: "group_inv env bs finals w0 ((ps, err), w)"
    and i: "i < length ps" "ps ! i = Some p" "pt_todo p = r # rs"
    and put: "PutShard env (pt_backend p) (raw_data r) w = (Inr l, w')"
  shows "group_inv env bs finals w0 ((ps[i := Some (p\<lparr>pt_todo := rs,
     pt_done := pt_done p @ [storedShard env (pt_backend p) r l]\<rparr>)], err), w')"
proof -
  let ?s = "storedShard env (pt_backend p) r l"
  let ?p = "p\<lparr>pt_todo := rs, pt_done := pt_done p @ [?s]\<rparr>"
  have g0: "iface.grows env w0 w" and len: "length ps = length bs"
    using inv by (simp_all add: group_inv_def)
  have okw: "iface_ok env w" using iface.grows_ok [OF g0 ok] .
  have g1: "iface.grows env w w'" using iface.grows_put [of env w "pt_backend p" "raw_data r"] put by simp
  have a0: "shard_addr w = shard_addr w0" using g0 ok by (simp add: iface.grows_def)
  have entry: "entry_ok env w (bs ! j) (finals (bs ! j)) err (ps ! j)" if "j < length bs" for j
    using inv that by (simp add: group_inv_def)
  from this [of i] i len obtain k where k: "pt_backend p = bs ! i" "r # rs = drop k (finals (bs ! i))"
      "list_all2 (held env w (bs ! i)) (take k (finals (bs ! i))) (pt_done p)"
    by (auto simp: entry_ok_def)
  have kl: "k < length (finals (bs ! i))" using k(2) by (metis drop_eq_Nil linorder_not_le list.distinct(1))
  have nth: "finals (bs ! i) ! k = r" using k(2) kl by (metis nth_via_drop)
  have rs: "rs = drop (Suc k) (finals (bs ! i))" using k(2) by (metis drop_Suc list.sel(3) tl_drop)
  have new: "held env w' (bs ! i) r ?s"
    using iface.put_get [OF okw put] k(1) by (simp add: held_def storedShard_def)
  have fin: "list_all2 (held env w' (bs ! i)) (take (Suc k) (finals (bs ! i))) (pt_done ?p)"
    using k(3) new held_grows [OF g1 okw] kl
    by (auto simp: take_Suc_conv_app_nth nth intro!: list_all2_appendI elim: list_all2_mono)
  have m: "mset (donesOf (ps[i := Some ?p])) = add_mset ?s (mset (donesOf ps))"
    using i by (intro donesOf_update_Some) simp_all
  have set: "set (donesOf (ps[i := Some ?p])) = insert ?s (set (donesOf ps))"
    using m by (metis set_mset_add_mset_insert set_mset_mset)
  have fresh: "saddr w0 ?s \<noteq> shard_addr w0 b l'" if "fst (GetShard env b l' w) = Inr d" for b l' d
    using iface.put_fresh [OF okw put that] by (simp add: saddr_def storedShard_def a0)
  have "saddr w0 ?s \<notin> saddr w0 ` set (donesOf ps)"
  proof
    assume "saddr w0 ?s \<in> saddr w0 ` set (donesOf ps)"
    then obtain s where s: "s \<in> set (donesOf ps)" "saddr w0 ?s = saddr w0 s" by auto
    then obtain d where "fst (GetShard env (Backend s) (Location s) w) = Inr d"
      using inv by (auto simp: group_inv_def)
    with fresh s(2) show False by (simp add: saddr_def)
  qed
  moreover have "distinct (map (saddr w0) (donesOf ps))" using inv by (simp add: group_inv_def)
  ultimately have dist: "distinct (map (saddr w0) (donesOf (ps[i := Some ?p])))"
    using distinct_map_mset [of "donesOf (ps[i := Some ?p])" "?s # donesOf ps" "saddr w0"] m by simp
  have entries: "entry_ok env w' (bs ! j) (finals (bs ! j)) err ((ps[i := Some ?p]) ! j)"
    if "j < length bs" for j
  proof (cases "j = i")
    case True
    with i k(1) rs fin show ?thesis by (auto simp: entry_ok_def intro!: exI [of _ "Suc k"])
  next
    case False
    with entry_ok_grows [OF g1 okw entry [OF that]] show ?thesis by simp
  qed
  have readable: "\<exists>d. fst (GetShard env (Backend s) (Location s) w') = Inr d"
    if "s \<in> set (donesOf (ps[i := Some ?p]))" for s
  proof (cases "s = ?s")
    case True
    have "fst (GetShard env (Backend ?s) (Location ?s) w') = Inr (raw_data r)"
      using new by (simp add: held_def)
    with True show ?thesis by blast
  next
    case False
    with that have "s \<in> set (donesOf ps)" by (simp add: set)
    with inv show ?thesis using iface.growsD [OF g1 okw] by (fastforce simp: group_inv_def)
  qed
  have apart: "saddr w0 s \<noteq> shard_addr w0 b l'"
    if "s \<in> set (donesOf (ps[i := Some ?p]))" "fst (GetShard env b l' w0) = Inr d" for s b l' d
    using that inv fresh [OF iface.growsD [OF g0 ok that(2)]] by (auto simp: set group_inv_def)
  have "iface.grows env w0 w'" using g0 g1 by (rule iface.growing.transR)
  then show ?thesis
    using len entries dist readable apart unfolding group_inv_def by auto
qed

lemma group_fail_inv:
  assumes ok: "iface_ok env w0" and inv: "group_inv env bs finals w0 ((ps, err), w)"
    and i: "i < length ps" and put: "PutShard env b d w = (Inl e, w')"
  shows "group_inv env bs finals w0 ((ps[i := None], if err = None then Some e else err), w')"
proof -
  let ?err = "if err = None then Some e else err"
  have g0: "iface.grows env w0 w" and len: "length ps = length bs"
    using inv by (simp_all add: group_inv_def)
  have okw: "iface_ok env w" using iface.grows_ok [OF g0 ok] .
  have g1: "iface.grows env w w'" using iface.grows_put [of env w b d] put by simp
  have sub: "mset (donesOf (ps[i := None])) \<subseteq># mset (donesOf ps)"
    using i by (rule donesOf_update_None)
  have entry: "entry_ok env w (bs ! j) (finals (bs ! j)) err (ps ! j)" if "j < length bs" for j
    using inv that by (simp add: group_inv_def)
  have entries: "entry_ok env w' (bs ! j) (finals (bs ! j)) ?err ((ps[i := None]) ! j)"
    if "j < length bs" for j
    using entry_ok_grows [OF g1 okw entry [OF that], of ?err] i
    by (cases "j = i") (simp_all add: entry_ok_def)
  have set: "s \<in> set (donesOf ps)" if "s \<in> set (donesOf (ps[i := None]))" for s
    using that set_mset_mono [OF sub] by auto
  have dist: "distinct (map (saddr w0) (donesOf (ps[i := None])))"
    using inv distinct_map_mset [OF sub, of "saddr w0"] by (simp add: group_inv_def)
  have readable: "\<exists>d. fst (GetShard env (Backend s) (Location s) w') = Inr d"
    if "s \<in> set (donesOf (ps[i := None]))" for s
    using set [OF that] inv iface.growsD [OF g1 okw] by (auto simp: group_inv_def)
  have apart: "saddr w0 s \<noteq> shard_addr w0 b l'"
    if "s \<in> set (donesOf (ps[i := None]))" "fst (GetShard env b l' w0) = Inr d" for s b l' d
    using set [OF that(1)] that(2) inv by (auto simp: group_inv_def)
  have "iface.grows env w0 w'" using g0 g1 by (rule iface.growing.transR)
  then show ?thesis
    using len entries dist readable apart unfolding group_inv_def by auto
qed

lemma group_step_inv:
  assumes "iface_ok env w0" and "group_inv env bs finals w0 st"
  shows "group_inv env bs finals w0 (group_step env i st)"
proof -
  obtain ps err w where st: "st = ((ps, err), w)" by (metis prod.exhaust)
  note inv = assms(2) [unfolded st]
  show ?thesis
  proof (cases rule: group_step_cases [of env i ps err w])
    case idle
    with inv show ?thesis by (simp add: st)
  next
    case (fail p r rs e w')
    from group_fail_inv [OF assms(1) inv fail(1,4)] show ?thesis by (simp only: st fail(5))
  next
    case (put p r rs l w')
    from group_put_inv [OF assms(1) inv put(1-4)] show ?thesis by (simp only: st put(5))
  qed
qed

lemma group_fold_inv:
  "iface_ok env w0 \<Longrightarrow> group_inv env bs finals w0 st \<Longrightarrow> group_inv env bs finals w0 (fold (group_step env) is st)"
  by (induction "is" arbitrary: st) (simp_all add: group_step_inv)

text \<open>Every pick of a goroutine takes one shard off its list, so the schedule finishes them all.\<close>

definition todoLen :: "putGroup \<times> 's \<Rightarrow> nat \<Rightarrow> nat" where
  "todoLen st i = (case fst (fst st) ! i of None \<Rightarrow> 0 | Some p \<Rightarrow> length (pt_todo p))"

lemma group_step_todo:
  "i < length (fst (fst st)) \<Longrightarrow> todoLen (group_step env j st) i = todoLen st i - (if i = j then 1 else 0)
     \<and> length (fst (fst (group_step env j st))) = length (fst (fst st))
     \<or> todoLen (group_step env j st) i = 0 \<and> length (fst (fst (group_step env j st))) = length (fst (fst st))"
proof -
  assume i: "i < length (fst (fst st))"
  obtain ps err w where st: "st = ((ps, err), w)" by (metis prod.exhaust)
  show ?thesis
  proof (cases "j < length ps \<and> ps ! j \<noteq> None")
    case False
    with i show ?thesis by (auto simp: st group_step_def todoLen_def)
  next
    case True
    then obtain p where p: "j < length ps" "ps ! j = Some p" by auto
    with i show ?thesis
      by (cases "pt_todo p"; cases "i = j") (auto simp: st group_step_def putter_step_def bindE_def
          returnE_def todoLen_def split: sum.split prod.split)
  qed
qed

lemma group_fold_todo:
  "i < length (fst (fst st)) \<Longrightarrow> todoLen (fold (group_step env) is st) i \<le> todoLen st i - count_list is i"
proof (induction "is" arbitrary: st)
  case Nil
  then show ?case by simp
next
  case (Cons j "is")
  let ?st = "group_step env j st"
  have l: "i < length (fst (fst ?st))" using group_step_todo [OF Cons.prems, of env j] Cons.prems by auto
  have "todoLen ?st i \<le> todoLen st i - (if i = j then 1 else 0)"
    using group_step_todo [OF Cons.prems, of env j] by auto
  with Cons.IH [OF l] show ?case by auto
qed

lemma schedule_count:
  assumes "i < length bs"
  shows "length (finals (bs ! i)) \<le> count_list (schedule env n bs finals) i"
proof -
  have "count_list (concat (map (\<lambda>j. replicate (f j) j) [0 ..< m])) i = (if i < m then f i else 0)" for f m
  proof (induction m)
    case (Suc m)
    have "count_list (replicate k m) i = (if i = m then k else 0)" for k by (induction k) auto
    with Suc show ?case by auto
  qed simp
  with assms show ?thesis by (simp add: schedule_def)
qed

lemma length_putters [simp]: "length (putters bs finals) = length bs"
  by (simp add: putters_def)

lemma putters_inv:
  "iface_ok env w \<Longrightarrow> group_inv env bs finals w ((putters bs finals, None), w)"
proof -
  have "donesOf (putters bs finals) = []" by (simp add: donesOf_def putters_def)
  moreover have "entry_ok env w (bs ! i) (finals (bs ! i)) None (putters bs finals ! i)" if "i < length bs" for i
    using that by (auto simp: entry_ok_def putters_def intro: exI [of _ 0])
  ultimately show ?thesis by (simp add: group_inv_def iface.growing.reflR putters_def)
qed

text \<open>What a successful upload returns: per backend the stored form of its raw shards, in order,
  at pairwise different addresses none of which was in use.\<close>

definition uploaded :: "'r env \<Rightarrow> BackendType list \<Rightarrow> (BackendType \<Rightarrow> rawShard list)
    \<Rightarrow> ('r, 'x) iface_scheme \<Rightarrow> shard list list \<Rightarrow> ('r, 'x) iface_scheme \<Rightarrow> bool" where
  "uploaded env bs finals w groups t \<longleftrightarrow> iface.grows env w t \<and> length groups = length bs \<and>
     (\<forall>i < length bs. list_all2 (held env t (bs ! i)) (finals (bs ! i)) (groups ! i)) \<and>
     distinct (map (saddr w) (concat groups)) \<and>
     (\<forall>s \<in> set (concat groups). \<forall>b l d. fst (GetShard env b l w) = Inr d \<longrightarrow> saddr w s \<noteq> shard_addr w b l)"

lemma next_tick_grows: "iface.grows env w (w\<lparr>tick := Suc (tick w)\<rparr>)"
  using tick_step [of w "Suc (tick w)" env]
  unfolding iface.grows_def iface_step_def iface_ok_def by simp

lemma uploadShards_eq:
  "uploadShards env bs finals w = (case fold (group_step env) (schedule env (tick w) bs finals)
       ((putters bs finals, None), w\<lparr>tick := Suc (tick w)\<rparr>) of
       ((ps, Some e), w') \<Rightarrow> (Inl e, w') | ((ps, None), w') \<Rightarrow> (Inr (donesOf ps), w'))"
  unfolding donesOf_def by (simp add: uploadShards_def bindE_def next_tick_def)

lemma uploaded_start:
  assumes "iface_ok env w" and "iface.grows env w w1" and "uploaded env bs finals w1 groups t"
  shows "uploaded env bs finals w groups t"
proof -
  have "shard_addr w1 = shard_addr w" using assms(1,2) by (simp add: iface.grows_def)
  then have "saddr w1 = saddr w" by (simp add: fun_eq_iff saddr_def)
  then have "saddr w s \<noteq> shard_addr w b l"
    if "s \<in> set (concat groups)" "fst (GetShard env b l w) = Inr d" for s b l d
    using that assms(3) iface.growsD [OF assms(2,1) that(2)] \<open>shard_addr w1 = shard_addr w\<close>
    unfolding uploaded_def by (metis (no_types))
  moreover have "iface.grows env w t" using assms(2,3) unfolding uploaded_def by (metis iface.growing.transR)
  ultimately show ?thesis using assms(3) \<open>saddr w1 = saddr w\<close> unfolding uploaded_def by auto
qed

lemma uploadShards_uploaded:
  assumes ok: "iface_ok env w" and up: "uploadShards env bs finals w = (Inr shards, t)"
  shows "\<exists>groups. shards = concat groups \<and> uploaded env bs finals w groups t"
proof -
  let ?w = "w\<lparr>tick := Suc (tick w)\<rparr>"
  let ?st = "((putters bs finals, None), ?w)"
  obtain ps err t' where f: "fold (group_step env) (schedule env (tick w) bs finals) ?st = ((ps, err), t')"
    by (metis prod.exhaust)
  with up have t: "err = None" "t' = t" "shards = donesOf ps"
    by (auto simp: uploadShards_eq split: option.splits)
  have okw: "iface_ok env ?w" using iface.grows_ok [OF next_tick_grows ok] .
  have inv: "group_inv env bs finals ?w ((ps, None), t)"
    using group_fold_inv [OF okw putters_inv [OF okw], of bs finals "schedule env (tick w) bs finals"] f t by simp
  let ?g = "map (\<lambda>p. case p of None \<Rightarrow> [] | Some q \<Rightarrow> pt_done q) ps"
  have "list_all2 (held env t (bs ! i)) (finals (bs ! i)) (?g ! i)" if i: "i < length bs" for i
  proof -
    have len: "length ps = length bs" using inv by (simp add: group_inv_def)
    from inv i have "entry_ok env t (bs ! i) (finals (bs ! i)) None (ps ! i)" by (simp add: group_inv_def)
    then obtain p k where p: "ps ! i = Some p" "pt_todo p = drop k (finals (bs ! i))"
        "list_all2 (held env t (bs ! i)) (take k (finals (bs ! i))) (pt_done p)"
      by (auto simp: entry_ok_def split: option.splits)
    have "todoLen ?st i = length (finals (bs ! i))" using i by (simp add: todoLen_def putters_def)
    then have "todoLen ((ps, err), t') i = 0"
      using group_fold_todo [of i ?st env "schedule env (tick w) bs finals"] i
        schedule_count [OF i, of finals env "tick w"] by (simp add: f length_putters)
    then have "drop k (finals (bs ! i)) = []" using p(1,2) by (simp add: todoLen_def)
    with p(3) show ?thesis using i len p(1) by simp
  qed
  moreover have "concat ?g = donesOf ps" by (simp add: donesOf_def)
  ultimately have "uploaded env bs finals ?w ?g t"
    using inv unfolding uploaded_def group_inv_def by auto
  then have "uploaded env bs finals w ?g t" by (rule uploaded_start [OF ok next_tick_grows])
  with t(3) show ?thesis by (auto simp: donesOf_def)
qed

section \<open>Collecting\<close>

text \<open>Documented behaviour of the Reed-Solomon package: an encoding keeps the data rows and the
  row size, and any \<open>d\<close> intact rows give back the data rows.\<close>

definition rs_law :: "'r env \<Rightarrow> bool" where
  "rs_law env \<longleftrightarrow> (\<forall>d p n xs ys. rs_new env d p \<and> length xs = d + p \<and> (\<forall>x \<in> set xs. length x = n) \<and>
     rs_encode env d p xs = Some ys \<longrightarrow>
       length ys = d + p \<and> (\<forall>y \<in> set ys. length y = n) \<and> take d ys = take d xs \<and>
       (\<forall>zs. length zs = d + p \<and> (\<forall>i < d + p. zs ! i = None \<or> zs ! i = Some (ys ! i)) \<and>
          d \<le> card {i. i < d + p \<and> zs ! i \<noteq> None} \<longrightarrow>
          (\<exists>out. rs_reconstruct env d p zs = Some out \<and> length out = d + p \<and> (\<forall>i < d. out ! i = Some (ys ! i)))))"

text \<open>The rows in \<open>A\<close> are collected.\<close>

definition good :: "bytes list \<Rightarrow> nat set \<Rightarrow> bytes option list \<times> int \<Rightarrow> bool" where
  "good ys A st \<longleftrightarrow> length (fst st) = length ys \<and> A \<subseteq> {..< length ys} \<and> snd st = int (card A) \<and>
     (\<forall>i < length ys. fst st ! i = (if i \<in> A then Some (ys ! i) else None))"

definition segment :: "bytes list \<Rightarrow> shard \<Rightarrow> bytes \<Rightarrow> bool" where
  "segment ys s d \<longleftrightarrow> 0 \<le> First s \<and> First s \<le> Last s \<and> Last s < int (length ys) \<and>
     d = concat (map ((!) ys) [nat (First s) ..< Suc (nat (Last s))])"

definition rowsOf :: "shard \<Rightarrow> nat set" where
  "rowsOf s = {nat (First s) .. nat (Last s)}"

lemma good_insert:
  assumes "good ys A (rows, c)" and "k < length ys" and "k \<notin> A"
  shows "good ys (insert k A) (rows[k := Some (ys ! k)], c + 1)"
proof -
  have "finite A" using assms(1) by (auto simp: good_def intro: finite_subset)
  with assms show ?thesis by (auto simp: good_def nth_list_update)
qed

lemma good_rows: "good ys A (rows, c) \<Longrightarrow> {i. i < length ys \<and> rows ! i \<noteq> None} = A"
  by (auto simp: good_def split: if_splits)

lemma good_cell: "good ys A (rows, c) \<Longrightarrow>
    length rows = length ys \<and> (\<forall>i < length ys. rows ! i = None \<or> rows ! i = Some (ys ! i))"
  by (auto simp: good_def)

lemma collectSegments_good:
  assumes seg: "segment ys s d" and len: "\<forall>y \<in> set ys. length y = n"
    and "good ys A st" and "First s \<le> k"
  shows "\<exists>st'. collectSegments (int n) d s [k .. Last s] st = Inr st' \<and> good ys (A \<union> {nat k .. nat (Last s)}) st'"
  using assms(3,4)
proof (induction "nat (Last s + 1 - k)" arbitrary: k A st)
  case 0
  then have "[k .. Last s] = []" by simp
  moreover have "{nat k .. nat (Last s)} = {}" using 0 seg by (auto simp: segment_def)
  ultimately show ?case using 0 by simp
next
  case (Suc x)
  obtain rows c where st: "st = (rows, c)" by (cases st)
  have k: "0 \<le> k" "k \<le> Last s" "nat k < length ys" using Suc seg by (auto simp: segment_def)
  let ?i = "nat (k - First s)"
  let ?m = "Suc (nat (Last s)) - nat (First s)"
  have im: "?i < ?m" using k Suc.prems(2) seg by (auto simp: segment_def)
  have rows: "rows ! nat k = (if nat k \<in> A then Some (ys ! nat k) else None)" "length rows = length ys"
    using Suc.prems(1) k(3) by (auto simp: good_def st)
  let ?xs = "map ((!) ys) [nat (First s) ..< Suc (nat (Last s))]"
  have xs: "\<forall>x \<in> set ?xs. length x = n" using len seg by (auto simp: segment_def)
  have dl: "length d = ?m * n"
    using seg concat_const_length [OF xs] by (simp add: segment_def del: upt_Suc)
  have start: "nat ((k - First s) * int n) = ?i * n" using Suc.prems(2) by (simp add: nat_mult_distrib)
  have "?xs ! ?i = ys ! nat k" using im k Suc.prems(2) seg by (simp add: segment_def nat_diff_distrib del: upt_Suc)
  then have piece: "take n (drop (?i * n) d) = ys ! nat k"
    using nth_concat_const [OF xs, of ?i] im seg by (simp add: segment_def del: upt_Suc)
  have "(k - First s) * int n + int n = int (Suc ?i * n)" using Suc.prems(2) by (simp add: algebra_simps)
  moreover have "Suc ?i * n \<le> ?m * n" using im by (intro mult_le_mono1) simp
  ultimately have fits: "\<not> int (length d) < (k - First s) * int n + int n"
    unfolding dl by (metis not_less of_nat_le_iff)
  let ?A = "insert (nat k) A" and ?st = "if nat k \<in> A then st else (rows[nat k := Some (ys ! nat k)], c + 1)"
  have good: "good ys ?A ?st"
    using Suc.prems(1) good_insert [of ys A rows c "nat k"] k(3) by (simp add: st insert_absorb)
  have "x = nat (Last s + 1 - (k + 1))" "First s \<le> k + 1" using Suc.hyps(2) Suc.prems(2) by simp_all
  from Suc.hyps(1) [OF this(1) good this(2)] obtain st' where
    st': "collectSegments (int n) d s [k + 1 .. Last s] ?st = Inr st'"
      "good ys (?A \<union> {nat (k + 1) .. nat (Last s)}) st'" by blast
  have "collectSegments (int n) d s [k .. Last s] st = collectSegments (int n) d s [k + 1 .. Last s] ?st"
    using k fits rows start piece by (simp add: st upto.simps [of k] Let_def)
  moreover have "?A \<union> {nat (k + 1) .. nat (Last s)} = A \<union> {nat k .. nat (Last s)}"
    using k by (auto simp: nat_add_distrib)
  ultimately show ?case using st' by metis
qed

lemma collectLoop_good:
  assumes "\<forall>y \<in> set ys. length y = n" and "good ys A st"
    and "\<forall>s \<in> set ss. \<forall>d. fst (GetShard env (Backend s) (Location s) u) = Inr d \<longrightarrow> segment ys s d"
  shows "\<exists>st' u'. collectLoop env (int n) ss st u = (Inr st', u') \<and>
    good ys (A \<union> (\<Union>s \<in> {s \<in> set ss. \<exists>d. fst (GetShard env (Backend s) (Location s) u) = Inr d}. rowsOf s)) st' \<and>
    (\<forall>b l. fst (GetShard env b l u') = fst (GetShard env b l u))"
  using assms(2,3)
proof (induction ss arbitrary: A st u)
  case Nil
  then show ?case by simp
next
  case (Cons s ss)
  obtain r u1 where g: "GetShard env (Backend s) (Location s) u = (r, u1)"
    by (cases "GetShard env (Backend s) (Location s) u")
  have pure: "fst (GetShard env b l u1) = fst (GetShard env b l u)" for b l
    using iface.get_pure [of env b l "Backend s" "Location s" u] g by simp
  have ss: "\<forall>s \<in> set ss. \<forall>d. fst (GetShard env (Backend s) (Location s) u1) = Inr d \<longrightarrow> segment ys s d"
    using Cons.prems(2) by (simp add: pure)
  show ?case
  proof (cases r)
    case (Inl e)
    have set: "{x \<in> set (s # ss). \<exists>d. fst (GetShard env (Backend x) (Location x) u) = Inr d}
        = {x \<in> set ss. \<exists>d. fst (GetShard env (Backend x) (Location x) u) = Inr d}"
      using g Inl by auto
    show ?thesis
      using Cons.IH [OF Cons.prems(1) ss] g Inl unfolding set by (simp add: pure)
  next
    case (Inr d)
    with Cons.prems(2) g have seg: "segment ys s d" by simp
    then obtain st1 where st1: "collectSegments (int n) d s [First s .. Last s] st = Inr st1"
        "good ys (A \<union> rowsOf s) st1"
      using collectSegments_good [OF seg assms(1) Cons.prems(1) order_refl] by (auto simp: rowsOf_def)
    have set: "{x \<in> set (s # ss). \<exists>d. fst (GetShard env (Backend x) (Location x) u) = Inr d}
        = insert s {x \<in> set ss. \<exists>d. fst (GetShard env (Backend x) (Location x) u) = Inr d}"
      using g Inr by auto
    show ?thesis
      using Cons.IH [OF st1(2) ss] g Inr st1(1) unfolding set
      by (simp add: pure liftE_def bindE_def Un_assoc)
  qed
qed

lemma restoreRows_Some: "restoreRows i (map Some ds) = Inr (concat ds)"
  by (induction ds arbitrary: i) simp_all

text \<open>The data comes back when at least as many rows are readable as there are data rows.\<close>

lemma CollectShards_rows:
  assumes law: "rs_law env" and new: "rs_new env d p" and enc: "rs_encode env d p xs = Some ys"
    and xs: "length xs = d + p" "\<forall>x \<in> set xs. length x = n" and d: "0 < d"
    and seg: "\<forall>s \<in> set ss. \<forall>x. fst (GetShard env (Backend s) (Location s) u) = Inr x \<longrightarrow> segment ys s x"
    and enough: "d \<le> card (\<Union>s \<in> {s \<in> set ss. \<exists>x. fst (GetShard env (Backend s) (Location s) u) = Inr x}. rowsOf s)"
  shows "\<exists>u'. CollectShards env ss (int n) (int d) (int p) u = (Inr (concat (take d xs)), u') \<and>
    (\<forall>b l. fst (GetShard env b l u') = fst (GetShard env b l u))"
proof -
  let ?A = "\<Union>s \<in> {s \<in> set ss. \<exists>x. fst (GetShard env (Backend s) (Location s) u) = Inr x}. rowsOf s"
  have ys: "length ys = d + p" "\<forall>y \<in> set ys. length y = n" "take d ys = take d xs"
    and rec: "length zs = d + p \<Longrightarrow> \<forall>i < d + p. zs ! i = None \<or> zs ! i = Some (ys ! i) \<Longrightarrow>
       d \<le> card {i. i < d + p \<and> zs ! i \<noteq> None} \<Longrightarrow>
       \<exists>out. rs_reconstruct env d p zs = Some out \<and> length out = d + p \<and> (\<forall>i < d. out ! i = Some (ys ! i))" for zs
    using law new enc xs unfolding rs_law_def by blast+
  have "good ys {} (replicate (d + p) None, 0)" using ys(1) by (simp add: good_def)
  from collectLoop_good [OF ys(2) this seg] obtain rows c u' where
    l: "collectLoop env (int n) ss (replicate (d + p) None, 0) u = (Inr (rows, c), u')"
      "good ys ?A (rows, c)" and pure: "\<forall>b l. fst (GetShard env b l u') = fst (GetShard env b l u)"
    by auto
  have "{i. i < d + p \<and> rows ! i \<noteq> None} = ?A" using good_rows [OF l(2)] ys(1) by simp
  with enough have "d \<le> card {i. i < d + p \<and> rows ! i \<noteq> None}" by simp
  moreover have "length rows = d + p" "\<forall>i < d + p. rows ! i = None \<or> rows ! i = Some (ys ! i)"
    using good_cell [OF l(2)] ys(1) by simp_all
  ultimately obtain out where
    out: "rs_reconstruct env d p rows = Some out" "length out = d + p" "\<forall>i < d. out ! i = Some (ys ! i)"
    using rec [of rows] by blast
  have "take d out = map Some (take d ys)" using out(2,3) ys(1) by (intro nth_equalityI) simp_all
  then have "restoreRows 0 (take d out) = Inr (concat (take d xs))" by (simp add: restoreRows_Some ys(3))
  moreover have "\<not> c < int d" using enough l(2) by (simp add: good_def)
  ultimately have "CollectShards env ss (int n) (int d) (int p) u = (Inr (concat (take d xs)), u')"
    using l(1) d new out(1) by (simp add: CollectShards_def nat_int_add bindE_def liftE_def)
  with pure show ?thesis by blast
qed

text \<open>With fewer rows the call fails; it never returns other data.\<close>

lemma CollectShards_few:
  assumes len: "length ys = d + p" "\<forall>y \<in> set ys. length y = n"
    and seg: "\<forall>s \<in> set ss. \<forall>x. fst (GetShard env (Backend s) (Location s) u) = Inr x \<longrightarrow> segment ys s x"
    and few: "card (\<Union>s \<in> {s \<in> set ss. \<exists>x. fst (GetShard env (Backend s) (Location s) u) = Inr x}. rowsOf s) < d"
  shows "fst (CollectShards env ss (int n) (int d) (int p) u) = Inl ErrNotEnoughShards"
proof -
  have "good ys {} (replicate (d + p) None, 0)" using len(1) by (simp add: good_def)
  from collectLoop_good [OF len(2) this seg] obtain rows c u' where
    l: "collectLoop env (int n) ss (replicate (d + p) None, 0) u = (Inr (rows, c), u')"
      "good ys (\<Union>s \<in> {s \<in> set ss. \<exists>x. fst (GetShard env (Backend s) (Location s) u) = Inr x}. rowsOf s) (rows, c)"
    by auto
  have "c < int d" using few l(2) by (simp add: good_def)
  with l(1) show ?thesis by (simp add: CollectShards_def nat_int_add bindE_def raiseE_def)
qed

section \<open>ShardData\<close>

definition rowCount :: "nat \<Rightarrow> nat \<Rightarrow> nat" where
  "rowCount len n = (len + n - 1) div n"

definition inputRows :: "bytes \<Rightarrow> nat \<Rightarrow> nat \<Rightarrow> nat \<Rightarrow> bytes list" where
  "inputRows data n d p = map (\<lambda>i. if i < d then dataRow data n i else replicate n 0) [0 ..< d + p]"

lemma rowCount_pos: "0 < len \<Longrightarrow> 0 < n \<Longrightarrow> 0 < rowCount len n"
  by (simp add: rowCount_def div_greater_zero_iff)

lemma rowCount_covers: "0 < n \<Longrightarrow> len \<le> rowCount len n * n"
proof -
  assume n: "0 < n"
  have "len + n - 1 < ((len + n - 1) div n + 1) * n" using n
    by (metis add.commute dividend_less_times_div mult.commute mult_Suc plus_1_eq_Suc)
  then show ?thesis by (simp add: rowCount_def)
qed

lemma dataRow_length: "length (dataRow data n i) = n"
  by (simp add: dataRow_def padTo_def)

lemma inputRows_shape: "length (inputRows data n d p) = d + p" "\<forall>x \<in> set (inputRows data n d p). length x = n"
  by (auto simp: inputRows_def dataRow_length)

lemma concat_dataRows: "concat (map (dataRow data n) [0 ..< k]) = padTo (k * n) (take (k * n) data)"
proof (induction k)
  case 0
  then show ?case by (simp add: padTo_def)
next
  case (Suc k)
  have t: "take (Suc k * n) data = take (k * n) data @ take n (drop (k * n) data)"
    by (metis add.commute mult_Suc take_add)
  have "concat (map (dataRow data n) [0 ..< Suc k]) = padTo (k * n) (take (k * n) data) @ dataRow data n k"
    using Suc by simp
  also have "\<dots> = padTo (Suc k * n) (take (Suc k * n) data)"
  proof (cases "k * n < length data")
    case True
    then show ?thesis unfolding t by (simp add: padTo_def dataRow_def)
  next
    case False
    then show ?thesis unfolding t
      by (simp add: padTo_def dataRow_def replicate_add [symmetric])
  qed
  finally show ?case .
qed

lemma concat_inputRows:
  assumes "0 < n"
  shows "concat (take (rowCount (length data) n) (inputRows data n (rowCount (length data) n) p))
    = padTo (rowCount (length data) n * n) data"
proof -
  let ?d = "rowCount (length data) n"
  have "take ?d (inputRows data n ?d p) = map (dataRow data n) [0 ..< ?d]"
    by (auto simp: inputRows_def take_map intro!: map_cong)
  then show ?thesis using rowCount_covers [OF assms, of "length data"] by (simp add: concat_dataRows)
qed

lemma candidateLoop_bounds:
  "0 < best \<Longrightarrow> best \<le> m \<Longrightarrow> 0 < candidateLoop len m is best least \<and> candidateLoop len m is best least \<le> m"
  by (induction len m "is" best least rule: candidateLoop.induct)
    (auto simp: Let_def intro: order.trans [OF div_le_dividend])

lemma chooseShardSize_bounds: "0 < m \<Longrightarrow> 0 < chooseShardSize len m \<and> chooseShardSize len m \<le> m"
  by (simp add: chooseShardSize_def candidateLoop_bounds)

text \<open>Among the halvings of at least 50 KiB the chosen size leaves the smallest remainder.\<close>

lemma candidateLoop_best:
  assumes "sorted is" and "least = len mod best"
  shows "(candidateLoop len m is best least = best \<or>
      (\<exists>i \<in> set is. candidateLoop len m is best least = m div 2 ^ i \<and> 51200 \<le> m div 2 ^ i)) \<and>
    len mod candidateLoop len m is best least \<le> least \<and>
    (\<forall>i \<in> set is. 51200 \<le> m div 2 ^ i \<longrightarrow> len mod candidateLoop len m is best least \<le> len mod (m div 2 ^ i))"
  using assms
proof (induction len m "is" best least rule: candidateLoop.induct)
  case (2 len m i "is" best least)
  let ?c = "m div 2 ^ i"
  show ?case
  proof (cases "?c < 51200")
    case True
    have "m div 2 ^ j \<le> ?c" if "j \<in> set is" for j
      using that 2(2) by (intro div_le_mono2) (auto intro: power_increasing)
    with True 2(3) show ?thesis by fastforce
  next
    case False
    define best' where "best' = (if len mod ?c < least then ?c else best)"
    define least' where "least' = (if len mod ?c < least then len mod ?c else least)"
    have l: "least' = len mod best'" "least' \<le> least" "least' \<le> len mod ?c" using 2(3) by (auto simp: best'_def least'_def)
    show ?thesis
    proof (cases "len mod ?c = 0")
      case True
      with False have e: "candidateLoop len m (i # is) best least = best'" by (simp add: Let_def best'_def)
      have "best' = best \<or> best' = ?c" by (simp add: best'_def)
      moreover have "len mod best' = 0" using l True by simp
      ultimately show ?thesis unfolding e using False by auto
    next
      case nz: False
      with False have e: "candidateLoop len m (i # is) best least = candidateLoop len m is best' least'"
        by (simp add: Let_def best'_def least'_def)
      have IH: "(candidateLoop len m is best' least' = best' \<or>
          (\<exists>i \<in> set is. candidateLoop len m is best' least' = m div 2 ^ i \<and> 51200 \<le> m div 2 ^ i)) \<and>
        len mod candidateLoop len m is best' least' \<le> least' \<and>
        (\<forall>i \<in> set is. 51200 \<le> m div 2 ^ i \<longrightarrow> len mod candidateLoop len m is best' least' \<le> len mod (m div 2 ^ i))"
        using 2(1) [of ?c "len mod ?c" best' least'] 2(2) False nz l(1) by (simp add: best'_def least'_def)
      have "best' = best \<or> best' = ?c" by (simp add: best'_def)
      with IH l False show ?thesis unfolding e by fastforce
    qed
  qed
qed simp

lemma GetMaxShardSize_all:
  assumes "mapE GetMaxShardSize bs w = (Inr sizes, t)"
  shows "t = w \<and> (\<forall>b \<in> set bs. instances w b \<noteq> None) \<and>
    sizes = map (\<lambda>b. svc_GetMaxObjectSize (the (instances w b))) bs"
  using assms
  by (induction bs arbitrary: sizes)
    (auto simp: bindE_eq_Inr_iff GetMaxShardSize_eq split: option.splits)

lemma svc_size_pos: "0 < svc_GetMaxObjectSize svc"
  by (cases svc) (simp_all add: file_GetMaxObjectSize_def discordMaxObjectSize_def telegramMaxObjectSize_def)

lemma foldl_min_le: "foldl min (a :: nat) xs \<le> a"
proof (induction xs arbitrary: a)
  case (Cons x xs)
  from Cons.IH [of "min a x"] show ?case by simp
qed simp

lemma foldl_min_mem: "x \<in> set xs \<Longrightarrow> foldl min (a :: nat) xs \<le> x"
proof (induction xs arbitrary: a)
  case (Cons y ys)
  then show ?case using foldl_min_le [of "min a y" ys] by auto
qed simp

lemma foldl_min_pos: "0 < a \<Longrightarrow> \<forall>x \<in> set xs. 0 < x \<Longrightarrow> 0 < foldl min (a :: nat) xs"
  by (induction xs arbitrary: a) auto

definition sharded :: "'r env \<Rightarrow> bytes \<Rightarrow> BackendType list \<Rightarrow> ('r, 'x) iface_scheme \<Rightarrow> shard list \<Rightarrow> nat \<Rightarrow> nat
    \<Rightarrow> nat \<Rightarrow> bytes list \<Rightarrow> shard list list \<Rightarrow> (BackendType \<Rightarrow> rawShard list) \<Rightarrow> ('r, 'x) iface_scheme \<Rightarrow> bool" where
  "sharded env data bs w shards d p n ys groups finals t \<longleftrightarrow>
     data \<noteq> [] \<and> bs \<noteq> [] \<and> 0 < n \<and> d = rowCount (length data) n \<and> getShardParityCount env (length bs) d = Inr p \<and>
     rs_new env d p \<and> rs_encode env d p (inputRows data n d p) = Some ys \<and>
     shards = concat groups \<and> uploaded env bs finals w groups t \<and>
     (\<forall>i < length bs. runs ys (blockStart (length bs) (d + p) i) (blockStart (length bs) (d + p) (Suc i))
        (finals (bs ! i)) \<and> (\<forall>r \<in> set (finals (bs ! i)). length (raw_data r) \<le> capacity w (bs ! i)))"

lemma mergeAll_state: "mergeAll bs raws m w = (r, t) \<Longrightarrow> t = w"
proof (induction bs arbitrary: m)
  case (Cons b bs)
  then show ?case
    by (cases "instances w b"; cases "mergeShards (svc_GetMaxObjectSize (the (instances w b))) True (raws b)")
      (auto simp: GetMaxShardSize_eq bindE_def liftE_def)
qed simp

lemma encodeParityShards_Inr:
  "encodeParityShards env data nb n = Inr (ys, d) \<longleftrightarrow> d = rowCount (length data) n \<and>
     (\<exists>p. getShardParityCount env nb d = Inr p \<and> rs_new env d p \<and>
          rs_encode env d p (inputRows data n d p) = Some ys)"
  by (auto simp: encodeParityShards_def rowCount_def inputRows_def Let_def split: sum.splits option.splits if_splits)

lemma ShardData_Inr:
  assumes "ShardData env data bs w = (Inr (shards, d, n), t)"
  obtains sizes ys finals where "bs \<noteq> []" "data \<noteq> []"
    "n = chooseShardSize (length data) (foldl min (2 ^ 63 - 1) sizes)"
    "\<forall>b \<in> set bs. instances w b \<noteq> None" "sizes = map (\<lambda>b. svc_GetMaxObjectSize (the (instances w b))) bs"
    "encodeParityShards env data (length bs) n = Inr (ys, d)"
    "mergeAll bs (distribute ys (length ys div length bs) (length ys mod length bs) 0 0 bs (\<lambda>_. [])) (\<lambda>_. []) w
       = (Inr finals, w)"
    "uploadShards env bs finals w = (Inr shards, t)"
proof -
  have ne: "bs \<noteq> []" "data \<noteq> []" using assms by (auto simp: ShardData_def split: if_splits)
  from assms ne obtain sizes where m: "mapE GetMaxShardSize bs w = (Inr sizes, w)"
    by (auto simp: ShardData_def bindE_eq_Inr_iff dest: GetMaxShardSize_all)
  let ?n = "chooseShardSize (length data) (foldl min (2 ^ 63 - 1) sizes)"
  from assms ne m obtain ys finals s' where e: "Inr (ys, d) = encodeParityShards env data (length bs) ?n" "n = ?n"
    "mergeAll bs (distribute ys (length ys div length bs) (length ys mod length bs) 0 0 bs (\<lambda>_. [])) (\<lambda>_. []) w
       = (Inr finals, s')" "uploadShards env bs finals s' = (Inr shards, t)"
    by (auto simp: ShardData_def Let_def bindE_eq_Inr_iff)
  have "s' = w" using mergeAll_state [OF e(3)] .
  with e ne GetMaxShardSize_all [OF m] show thesis by (intro that [of sizes ys finals]) simp_all
qed

lemma runs_raws:
  assumes bs: "distinct bs" "bs \<noteq> []" and T: "T = length ys" and len: "\<forall>y \<in> set ys. length y = n"
    and c: "n \<le> c" and i: "i < length bs"
  shows "\<exists>out. mergeShards c True (distribute ys (T div length bs) (T mod length bs) 0 0 bs (\<lambda>_. []) (bs ! i)) = Inr out \<and>
    runs ys (blockStart (length bs) T i) (blockStart (length bs) T (Suc i)) out \<and>
    (\<forall>r \<in> set out. length (raw_data r) \<le> c)"
proof -
  let ?s = "blockStart (length bs) T"
  have mono: "?s j \<le> ?s k" if "j \<le> k" for j k
    using that by (auto simp: blockStart_def intro: add_mono)
  have "?s (length bs) = T" using bs(2) by (simp add: blockStart_end)
  with mono [of "Suc i" "length bs"] i have le: "?s (Suc i) \<le> length ys" using T by simp
  have "distribute ys (T div length bs) (T mod length bs) 0 0 bs (\<lambda>_. []) (bs ! i)
      = map (rawRow ys) [?s i ..< ?s (Suc i)]"
    using distribute_block [OF bs(1) _ i, of "\<lambda>_. []" 0 "length bs" T 0 ys] by (simp add: blockStart_def)
  with mergeShards_rows [OF len c mono [of i "Suc i"] le, of True] show ?thesis by simp
qed

lemma ShardData_sharded:
  assumes law: "rs_law env" and ok: "iface_ok env w" and bs: "distinct bs"
    and sd: "ShardData env data bs w = (Inr (shards, d, n), t)"
  shows "\<exists>p ys groups finals. sharded env data bs w shards d p n ys groups finals t"
proof -
  from sd obtain sizes ys finals where ne: "bs \<noteq> []" "data \<noteq> []"
    and n: "n = chooseShardSize (length data) (foldl min (2 ^ 63 - 1) sizes)"
    and inst: "\<forall>b \<in> set bs. instances w b \<noteq> None"
    and sizes: "sizes = map (\<lambda>b. svc_GetMaxObjectSize (the (instances w b))) bs"
    and enc: "encodeParityShards env data (length bs) n = Inr (ys, d)"
    and mer: "mergeAll bs (distribute ys (length ys div length bs) (length ys mod length bs) 0 0 bs (\<lambda>_. [])) (\<lambda>_. []) w
       = (Inr finals, w)"
    and up: "uploadShards env bs finals w = (Inr shards, t)" by (rule ShardData_Inr)
  have "0 < foldl min (2 ^ 63 - 1) sizes" by (rule foldl_min_pos) (auto simp: sizes svc_size_pos)
  note nb = chooseShardSize_bounds [OF this, of "length data", folded n]
  have cap: "n \<le> svc_GetMaxObjectSize (the (instances w b))" if "b \<in> set bs" for b
    using nb foldl_min_mem [of "svc_GetMaxObjectSize (the (instances w b))" sizes "2 ^ 63 - 1"] that
    by (auto simp: sizes intro: order.trans)
  from enc obtain p where p: "d = rowCount (length data) n" "getShardParityCount env (length bs) d = Inr p"
      "rs_new env d p" "rs_encode env d p (inputRows data n d p) = Some ys"
    by (auto simp: encodeParityShards_Inr)
  have ys: "length ys = d + p" "\<forall>y \<in> set ys. length y = n"
    using law p(3,4) inputRows_shape [where ?data = data and ?n = n and ?d = d and ?p = p] unfolding rs_law_def by blast+
  let ?raws = "distribute ys (length ys div length bs) (length ys mod length bs) 0 0 bs (\<lambda>_. [])"
  let ?out = "\<lambda>b. projr (mergeShards (svc_GetMaxObjectSize (the (instances w b))) True (?raws b))"
  have run: "mergeShards (svc_GetMaxObjectSize (the (instances w (bs ! i)))) True (?raws (bs ! i)) = Inr (?out (bs ! i)) \<and>
      runs ys (blockStart (length bs) (d + p) i) (blockStart (length bs) (d + p) (Suc i)) (?out (bs ! i)) \<and>
      (\<forall>r \<in> set (?out (bs ! i)). length (raw_data r) \<le> capacity w (bs ! i))"
    if "i < length bs" for i
    using runs_raws [OF bs ne(1) refl ys(2) cap [OF nth_mem [OF that]] that] ys(1) by (auto simp: capacity_def)
  have "mergeAll bs ?raws (\<lambda>_. []) w = (Inr (\<lambda>b. if b \<in> set bs then [] @ ?out b else []), w)"
    by (rule mergeAll_eq [OF bs]) (use run inst in \<open>fastforce simp: in_set_conv_nth\<close>)
  with mer have f: "finals = (\<lambda>b. if b \<in> set bs then [] @ ?out b else [])" by simp
  from uploadShards_uploaded [OF ok up] obtain groups where
    "shards = concat groups" "uploaded env bs finals w groups t" by blast
  then have "sharded env data bs w shards d p n ys groups finals t"
    using ne nb p run by (simp add: sharded_def f)
  then show ?thesis by blast
qed

section \<open>Losing backends\<close>

lemma runs_le: "runs ys a b rs \<Longrightarrow> a \<le> b"
  by (induction ys a b rs rule: runs.induct) auto

lemma runs_cover: "runs ys a b rs \<Longrightarrow> (\<Union>r \<in> set rs. {nat (raw_First r) .. nat (raw_Last r)}) = {a ..< b}"
proof (induction ys a b rs rule: runs.induct)
  case (2 ys a b r rs)
  let ?l = "nat (raw_Last r)"
  have "a \<le> ?l" "?l < b" "nat (raw_First r) = a" using 2(2) by auto
  then have "{a .. ?l} \<union> {Suc ?l ..< b} = {a ..< b}" by auto
  with 2 \<open>nat (raw_First r) = a\<close> show ?case by simp
qed simp

lemma runs_piece:
  "runs ys a b rs \<Longrightarrow> r \<in> set rs \<Longrightarrow> 0 \<le> raw_First r \<and> raw_First r \<le> raw_Last r \<and> raw_Last r < int b \<and>
     raw_data r = concat (map ((!) ys) [nat (raw_First r) ..< Suc (nat (raw_Last r))])"
  by (induction ys a b rs rule: runs.induct) (auto simp del: upt_Suc)

lemma blockStart_mono: "i \<le> j \<Longrightarrow> blockStart n T i \<le> blockStart n T j"
  by (auto simp: blockStart_def intro: add_mono)

lemma card_blocks:
  assumes "finite J"
  shows "card (\<Union>i \<in> J. {blockStart n T i ..< blockStart n T (Suc i)}) = (\<Sum>i \<in> J. blockLen n T i)"
proof -
  have "{blockStart n T i ..< blockStart n T (Suc i)} \<inter> {blockStart n T j ..< blockStart n T (Suc j)} = {}"
    if "i < j" for i j
    using blockStart_mono [of "Suc i" j n T] that by auto
  then have "\<forall>i \<in> J. \<forall>j \<in> J. i \<noteq> j \<longrightarrow>
      {blockStart n T i ..< blockStart n T (Suc i)} \<inter> {blockStart n T j ..< blockStart n T (Suc j)} = {}"
    by (metis Int_commute linorder_neqE_nat)
  with assms show ?thesis by (subst card_UN_disjoint) (simp_all add: blockStart_Suc)
qed

text \<open>The rows outside any \<open>tol\<close> failed backends are at least as many as the data rows.\<close>

lemma surviving_rows:
  assumes "getShardParityCount env (length bs) d = Inr p" and "distinct bs" and "finite F"
    and "int (card F) \<le> FailureTolerance (Cfg env)"
  shows "d \<le> card (\<Union>i \<in> {i. i < length bs \<and> bs ! i \<notin> F}.
    {blockStart (length bs) (d + p) i ..< blockStart (length bs) (d + p) (Suc i)})"
proof -
  let ?n = "length bs" and ?T = "d + p"
  let ?I = "{i. i < length bs \<and> bs ! i \<in> F}" and ?J = "{i. i < length bs \<and> bs ! i \<notin> F}"
  have "card ?I = card ((!) bs ` ?I)"
    using assms(2) by (intro card_image [symmetric]) (auto simp: inj_on_def nth_eq_iff_index_eq)
  also have "\<dots> \<le> card F" using assms(3) by (intro card_mono) auto
  finally have "int (card ?I) \<le> FailureTolerance (Cfg env)" using assms(4) by linarith
  then have "int (\<Sum>i \<in> ?I. blockLen ?n ?T i) \<le> lostRows (FailureTolerance (Cfg env)) ?n ?T"
    by (intro blockLen_lost) simp_all
  also have "\<dots> \<le> int p" using getShardParityCount_sound(2) [OF assms(1)] .
  finally have lost: "(\<Sum>i \<in> ?I. blockLen ?n ?T i) \<le> p" by (simp only: of_nat_le_iff)
  have "{..< ?n} = ?I \<union> ?J" "?I \<inter> ?J = {}" by auto
  then have "(\<Sum>i < ?n. blockLen ?n ?T i) = (\<Sum>i \<in> ?I. blockLen ?n ?T i) + (\<Sum>i \<in> ?J. blockLen ?n ?T i)"
    by (simp add: sum.union_disjoint)
  moreover have "(\<Sum>i < ?n. blockLen ?n ?T i) = ?T"
    using getShardParityCount_sound(1) [OF assms(1)] by (simp add: blockStart_sum [symmetric] blockStart_end)
  ultimately show ?thesis using lost by (simp add: card_blocks)
qed

text \<open>Every stored shard is a segment of the encoded rows, and the shards of a backend cover its
  block.\<close>

lemma shardedD:
  assumes "sharded env data bs w shards d p n ys groups finals t"
  shows "shards = concat groups" "length groups = length bs"
    "i < length bs \<Longrightarrow> list_all2 (held env t (bs ! i)) (finals (bs ! i)) (groups ! i)"
    "i < length bs \<Longrightarrow> runs ys (blockStart (length bs) (d + p) i) (blockStart (length bs) (d + p) (Suc i)) (finals (bs ! i))"
    "i < length bs \<Longrightarrow> r \<in> set (finals (bs ! i)) \<Longrightarrow> length (raw_data r) \<le> capacity w (bs ! i)"
  using assms unfolding sharded_def uploaded_def by blast+

lemma sharded_segment:
  assumes "sharded env data bs w shards d p n ys groups finals t" and "length ys = d + p"
    and "s \<in> set shards" and "fst (GetShard env (Backend s) (Location s) t) = Inr x"
  shows "segment ys s x"
proof -
  from assms(3) obtain i where i: "i < length bs" "s \<in> set (groups ! i)"
    unfolding shardedD(1) [OF assms(1)] set_concat by (metis UN_E in_set_conv_nth shardedD(2) [OF assms(1)])
  note h = shardedD(3) [OF assms(1) i(1)] and r = shardedD(4) [OF assms(1) i(1)]
  from h i(2) obtain q where q: "q \<in> set (finals (bs ! i))" "held env t (bs ! i) q s"
    by (metis in_set_conv_nth list_all2_conv_all_nth)
  have "blockStart (length bs) (d + p) (Suc i) \<le> d + p"
    using blockStart_mono [of "Suc i" "length bs" "length bs" "d + p"] i(1) blockStart_end [of "length bs" "d + p"]
    by (metis Suc_leI length_greater_0_conv less_nat_zero_code list.size(3))
  with runs_piece [OF r q(1)] q(2) assms(2,4) show ?thesis
    by (auto simp: segment_def held_def simp del: upt_Suc)
qed

lemma sharded_cover:
  assumes "sharded env data bs w shards d p n ys groups finals t" and i: "i < length bs"
  shows "{blockStart (length bs) (d + p) i ..< blockStart (length bs) (d + p) (Suc i)} =
    (\<Union>s \<in> set (groups ! i). rowsOf s)"
    and "s \<in> set (groups ! i) \<Longrightarrow> Backend s = bs ! i \<and> s \<in> set shards \<and>
      (\<exists>x. fst (GetShard env (Backend s) (Location s) t) = Inr x)"
proof -
  note h = shardedD(3) [OF assms] and r = shardedD(4) [OF assms] and g = shardedD(1,2) [OF assms(1)]
  have "(\<lambda>r. {nat (raw_First r) .. nat (raw_Last r)}) ` set (finals (bs ! i)) = rowsOf ` set (groups ! i)"
    using h by (induction rule: list_all2_induct) (auto simp: held_def rowsOf_def)
  with runs_cover [OF r] show "{blockStart (length bs) (d + p) i ..< blockStart (length bs) (d + p) (Suc i)} =
    (\<Union>s \<in> set (groups ! i). rowsOf s)" by metis
  show "s \<in> set (groups ! i) \<Longrightarrow> Backend s = bs ! i \<and> s \<in> set shards \<and>
      (\<exists>x. fst (GetShard env (Backend s) (Location s) t) = Inr x)"
  proof -
    assume s: "s \<in> set (groups ! i)"
    then obtain q where "held env t (bs ! i) q s" using h by (metis in_set_conv_nth list_all2_conv_all_nth)
    moreover have "s \<in> set shards" using s i g by auto
    ultimately show ?thesis by (auto simp: held_def)
  qed
qed

text \<open>The state \<open>u\<close> differs from \<open>t\<close>, as far as the shards are concerned, only in that blobs of
  the backends in \<open>F\<close> may have become unreadable.\<close>

definition backends_lost :: "'r env \<Rightarrow> BackendType set \<Rightarrow> shard list \<Rightarrow> ('r, 'x) iface_scheme \<Rightarrow> ('r, 'x) iface_scheme \<Rightarrow> bool" where
  "backends_lost env F shards t u \<longleftrightarrow> (\<forall>s \<in> set shards.
     fst (GetShard env (Backend s) (Location s) u) = fst (GetShard env (Backend s) (Location s) t) \<or>
     Backend s \<in> F \<and> (\<exists>e. fst (GetShard env (Backend s) (Location s) u) = Inl e))"

lemma sharded_recover:
  assumes law: "rs_law env" and sh: "sharded env data bs w shards d p n ys groups finals t" and bs: "distinct bs"
    and F: "finite F" "int (card F) \<le> FailureTolerance (Cfg env)" and lost: "backends_lost env F shards t u"
  shows "\<exists>u'. CollectShards env shards (int n) (int d) (int p) u = (Inr (padTo (d * n) data), u') \<and>
    (\<forall>b l. fst (GetShard env b l u') = fst (GetShard env b l u))"
proof -
  have s: "0 < n" "d = rowCount (length data) n" "data \<noteq> []" "getShardParityCount env (length bs) d = Inr p"
      "rs_new env d p" "rs_encode env d p (inputRows data n d p) = Some ys"
    using sh unfolding sharded_def by blast+
  note rows = inputRows_shape [where ?data = data and ?n = n and ?d = d and ?p = p]
  have ys: "length ys = d + p" using law s(5,6) rows unfolding rs_law_def by blast
  let ?R = "{s \<in> set shards. \<exists>x. fst (GetShard env (Backend s) (Location s) u) = Inr x}"
  have seg: "\<forall>s \<in> set shards. \<forall>x. fst (GetShard env (Backend s) (Location s) u) = Inr x \<longrightarrow> segment ys s x"
    using lost sharded_segment [OF sh ys] unfolding backends_lost_def by (metis sum.distinct(1))
  let ?blocks = "\<Union>i \<in> {i. i < length bs \<and> bs ! i \<notin> F}.
    {blockStart (length bs) (d + p) i ..< blockStart (length bs) (d + p) (Suc i)}"
  have "?blocks \<subseteq> (\<Union>s \<in> ?R. rowsOf s)"
  proof
    fix k assume "k \<in> ?blocks"
    then obtain i where i: "i < length bs" "bs ! i \<notin> F"
        "k \<in> {blockStart (length bs) (d + p) i ..< blockStart (length bs) (d + p) (Suc i)}" by blast
    then obtain x where x: "x \<in> set (groups ! i)" "k \<in> rowsOf x" using sharded_cover(1) [OF sh i(1)] by blast
    have "x \<in> ?R" using sharded_cover(2) [OF sh i(1) x(1)] i(2) lost unfolding backends_lost_def by auto
    with x(2) show "k \<in> (\<Union>s \<in> ?R. rowsOf s)" by blast
  qed
  moreover have "finite (\<Union>s \<in> ?R. rowsOf s)" by (auto simp: rowsOf_def)
  ultimately have "card ?blocks \<le> card (\<Union>s \<in> ?R. rowsOf s)" by (intro card_mono)
  with surviving_rows [OF s(4) bs F] have "d \<le> card (\<Union>s \<in> ?R. rowsOf s)" by simp
  from CollectShards_rows [OF law s(5,6) rows _ seg this] rowCount_pos [of "length data" n] s(1-3)
  show ?thesis by (simp add: concat_inputRows)
qed

section \<open>Success\<close>

text \<open>No goroutine has failed, and each still has a healthy backend for blobs that fit.\<close>

definition fine_entry :: "'r env \<Rightarrow> ('r, 'x) iface_scheme \<Rightarrow> putter option \<Rightarrow> bool" where
  "fine_entry env w e \<longleftrightarrow> (\<exists>p. e = Some p \<and> healthy env w (pt_backend p) \<and>
     (\<forall>r \<in> set (pt_todo p). length (raw_data r) \<le> capacity w (pt_backend p)))"

definition group_fine :: "'r env \<Rightarrow> putGroup \<times> ('r, 'x) iface_scheme \<Rightarrow> bool" where
  "group_fine env = (\<lambda>((ps, err), w). err = None \<and> (\<forall>e \<in> set ps. fine_entry env w e))"

lemma healthy_instance: "healthy env w b \<Longrightarrow> instances w b \<noteq> None"
  by (auto simp: healthy_def)

lemma fine_entry_same: "same_conf w w' \<Longrightarrow> fine_entry env w e \<Longrightarrow> fine_entry env w' e"
  unfolding fine_entry_def by (metis capacity_same healthy_instance healthy_same)

lemma group_step_fine:
  assumes nf: "no_faults env" and fine: "group_fine env st"
  shows "group_fine env (group_step env i st)"
proof -
  obtain ps err w where st: "st = ((ps, err), w)" by (metis prod.exhaust)
  have fine': "err = None" "e \<in> set ps \<Longrightarrow> fine_entry env w e" for e
    using fine by (simp_all add: st group_fine_def)
  show ?thesis
  proof (cases rule: group_step_cases [of env i ps err w])
    case idle
    with fine show ?thesis by (simp add: st)
  next
    case (fail p r rs e w')
    have "fine_entry env w (Some p)" using fail(1,2) by (metis nth_mem fine'(2))
    then have "healthy env w (pt_backend p)" "length (raw_data r) \<le> capacity w (pt_backend p)"
      using fail(3) by (simp_all add: fine_entry_def)
    from PutShard_succeeds [OF nf this] fail(4) show ?thesis by auto
  next
    case (put p r rs l w')
    have same: "same_conf w w'" using keepsD [OF PutShard_same_conf put(4)] .
    have "fine_entry env w (Some p)" using put(1,2) by (metis nth_mem fine'(2))
    then have "fine_entry env w' (Some (p\<lparr>pt_todo := rs,
        pt_done := pt_done p @ [storedShard env (pt_backend p) r l]\<rparr>))"
      using put(3) by (intro fine_entry_same [OF same]) (simp add: fine_entry_def)
    with fine' fine_entry_same [OF same] show ?thesis
      unfolding st put(5) group_fine_def by (auto dest!: set_update_subset_insert [THEN subsetD])
  qed
qed

lemma uploadShards_succeeds:
  assumes "no_faults env"
    and "\<forall>b \<in> set bs. healthy env w b \<and> (\<forall>r \<in> set (finals b). length (raw_data r) \<le> capacity w b)"
  shows "\<exists>shards t. uploadShards env bs finals w = (Inr shards, t)"
proof -
  let ?w = "w\<lparr>tick := Suc (tick w)\<rparr>"
  let ?is = "schedule env (tick w) bs finals"
  have same: "same_conf w ?w" by simp
  have "group_fine env ((putters bs finals, None), ?w)"
    using assms(2) unfolding group_fine_def
    by (auto simp: putters_def fine_entry_def healthy_def capacity_def)
  then have "group_fine env (fold (group_step env) is ((putters bs finals, None), ?w))" for "is"
    by (induction "is" rule: rev_induct) (simp_all add: group_step_fine assms(1))
  from this [of ?is] obtain ps t where "fold (group_step env) ?is ((putters bs finals, None), ?w) = ((ps, None), t)"
    by (auto simp: group_fine_def split: prod.splits)
  then show ?thesis by (simp add: uploadShards_eq)
qed

text \<open>The row size \<open>ShardData\<close> settles on, and the requirement that the Reed-Solomon package
  accepts the resulting code.\<close>

definition rowSize :: "('r, 'x) iface_scheme \<Rightarrow> BackendType list \<Rightarrow> bytes \<Rightarrow> nat" where
  "rowSize w bs data = chooseShardSize (length data) (foldl min (2 ^ 63 - 1) (map (capacity w) bs))"

definition rs_accepts :: "'r env \<Rightarrow> nat \<Rightarrow> nat \<Rightarrow> nat \<Rightarrow> bool" where
  "rs_accepts env nb d n \<longleftrightarrow> (\<forall>p. getShardParityCount env nb d = Inr p \<longrightarrow> rs_new env d p \<and>
     (\<forall>xs. length xs = d + p \<and> (\<forall>x \<in> set xs. length x = n) \<longrightarrow> rs_encode env d p xs \<noteq> None))"

lemma mapE_sizes:
  "\<forall>b \<in> set bs. instances w b \<noteq> None \<Longrightarrow> mapE GetMaxShardSize bs w = (Inr (map (capacity w) bs), w)"
  by (induction bs) (auto simp: GetMaxShardSize_eq bindE_def returnE_def capacity_def)

lemma encodeParityShards_succeeds:
  assumes "nb \<noteq> 0" and "FailureTolerance (Cfg env) < int nb" and "rs_accepts env nb (rowCount (length data) n) n"
  shows "\<exists>ys. encodeParityShards env data nb n = Inr (ys, rowCount (length data) n)"
proof -
  let ?d = "rowCount (length data) n"
  obtain p where p: "getShardParityCount env nb ?d = Inr p"
    using parityLoop_defined [of nb "FailureTolerance (Cfg env)" ?d] assms(1,2) by (auto simp: getShardParityCount_def)
  moreover have "rs_new env ?d p" "rs_encode env ?d p (inputRows data n ?d p) \<noteq> None"
    using assms(3) p inputRows_shape [of data n ?d p] by (auto simp: rs_accepts_def)
  ultimately show ?thesis by (auto simp: encodeParityShards_Inr)
qed

lemma rowSize_bounds:
  assumes "bs \<noteq> []"
  shows "0 < rowSize w bs data" and "b \<in> set bs \<Longrightarrow> rowSize w bs data \<le> capacity w b"
proof -
  have "0 < foldl min (2 ^ 63 - 1) (map (capacity w) bs)"
    by (rule foldl_min_pos) (auto simp: capacity_def svc_size_pos)
  note b = chooseShardSize_bounds [OF this, of "length data", folded rowSize_def]
  show "0 < rowSize w bs data" using b by simp
  show "rowSize w bs data \<le> capacity w b" if "b \<in> set bs"
    using b that foldl_min_mem [of "capacity w b" "map (capacity w) bs" "2 ^ 63 - 1"] by auto
qed

lemma ShardData_succeeds:
  assumes nf: "no_faults env" and law: "rs_law env" and bs: "distinct bs" "bs \<noteq> []" and data: "data \<noteq> []"
    and h: "\<forall>b \<in> set bs. healthy env w b" and tol: "FailureTolerance (Cfg env) < int (length bs)"
    and acc: "rs_accepts env (length bs) (rowCount (length data) (rowSize w bs data)) (rowSize w bs data)"
  shows "\<exists>shards t. ShardData env data bs w
    = (Inr (shards, rowCount (length data) (rowSize w bs data), rowSize w bs data), t)"
proof -
  let ?n = "rowSize w bs data" and ?d = "rowCount (length data) (rowSize w bs data)"
  have inst: "\<forall>b \<in> set bs. instances w b \<noteq> None" using h healthy_instance by blast
  obtain ys where enc: "encodeParityShards env data (length bs) ?n = Inr (ys, ?d)"
    using encodeParityShards_succeeds [OF _ tol acc] bs(2) by auto
  then obtain p where p: "rs_new env ?d p" "rs_encode env ?d p (inputRows data ?n ?d p) = Some ys"
    by (auto simp: encodeParityShards_Inr)
  have ys: "\<forall>y \<in> set ys. length y = ?n"
    using law p inputRows_shape [of data ?n ?d p] unfolding rs_law_def by blast
  let ?raws = "distribute ys (length ys div length bs) (length ys mod length bs) 0 0 bs (\<lambda>_. [])"
  have "\<exists>out. mergeShards (capacity w b) True (?raws b) = Inr out \<and> (\<forall>r \<in> set out. length (raw_data r) \<le> capacity w b)"
    if "b \<in> set bs" for b
    using that runs_raws [OF bs refl ys rowSize_bounds(2) [OF bs(2) that]] by (metis in_set_conv_nth)
  then obtain out where out: "mergeShards (capacity w b) True (?raws b) = Inr (out b)"
      "\<forall>r \<in> set (out b). length (raw_data r) \<le> capacity w b" if "b \<in> set bs" for b by metis
  let ?finals = "\<lambda>b. if b \<in> set bs then [] @ out b else []"
  have mer: "mergeAll bs ?raws (\<lambda>_. []) w = (Inr ?finals, w)"
  proof (rule mergeAll_eq [OF bs(1)], rule ballI)
    fix b assume b: "b \<in> set bs"
    with inst obtain svc where "instances w b = Some svc" by blast
    with out(1) [OF b] show "\<exists>svc. instances w b = Some svc \<and>
        mergeShards (svc_GetMaxObjectSize svc) True (?raws b) = Inr (out b)"
      by (simp add: capacity_def)
  qed
  obtain shards t where up: "uploadShards env bs ?finals w = (Inr shards, t)"
    using uploadShards_succeeds [OF nf, of bs w ?finals] h out(2) by auto
  have "ShardData env data bs w = (Inr (shards, ?d, ?n), t)"
    using bs(2) data enc mer up mapE_sizes [OF inst]
    by (simp add: ShardData_def Let_def bindE_def liftE_def returnE_def rowSize_def)
  then show ?thesis by blast
qed

section \<open>Frames\<close>

text \<open>\<open>ShardData\<close> changes the state through \<open>PutShard\<close> and the clock only, so that every relation
  they keep it keeps too.\<close>

lemma group_fold_keeps:
  assumes "frame_rel R" and "\<And>b d. keeps R (PutShard env b d)"
  shows "R w (snd (fold (group_step env) is (g, w)))"
proof (induction "is" arbitrary: g w)
  case Nil
  then show ?case using frame_rel.reflR [OF assms(1)] by simp
next
  case (Cons i "is")
  obtain ps err where g: "g = (ps, err)" by (cases g)
  obtain g' w' where s: "group_step env i (g, w) = (g', w')" by (cases "group_step env i (g, w)")
  have "R w w'"
    by (cases rule: group_step_cases [of env i ps err w])
      (use s g frame_rel.reflR [OF assms(1)] keepsD [OF assms(2)] in auto)
  with Cons.IH [of w' g'] s show ?case using frame_rel.transR [OF assms(1)] by simp
qed

lemma ShardData_keeps:
  fixes R :: "('r, 'x) iface_scheme \<Rightarrow> ('r, 'x) iface_scheme \<Rightarrow> bool"
  assumes R: "frame_rel R" and put: "\<And>b d. keeps R (PutShard env b d)" and clock: "\<And>w. R w (w\<lparr>tick := Suc (tick w)\<rparr>)"
  shows "keeps R (ShardData env data bs)"
proof -
  have up: "keeps R (uploadShards env bs finals)" for finals
  proof (rule keepsI)
    fix w :: "('r, 'x) iface_scheme"
    let ?st = "((putters bs finals, None), w\<lparr>tick := Suc (tick w)\<rparr>)"
    have "R w (snd (fold (group_step env) (schedule env (tick w) bs finals) ?st))"
      using frame_rel.transR [OF R clock group_fold_keeps [OF R put]] by blast
    then show "R w (snd (uploadShards env bs finals w))"
      by (auto simp: uploadShards_eq split: prod.split option.split)
  qed
  have size: "keeps R (GetMaxShardSize b)" for b
    using frame_rel.reflR [OF R] by (simp add: keeps_def GetMaxShardSize_eq)
  have mer: "keeps R (mergeAll bs raws m)" for raws m
    using frame_rel.reflR [OF R] mergeAll_state by (metis keepsI surjective_pairing)
  show ?thesis
    unfolding ShardData_def Let_def case_prod_beta
    by (intro frame_rel.keeps_rules [OF R] up size mer)
qed

end
