(* ===== verification/Chunker_Laws.thy ===== *)
theory Chunker_Laws
  imports Chunker Shard_Laws
begin

text \<open>
  The chunking pipeline is correct. A stored chunk (\<open>chunk_stored\<close>) is one whose shards hold the
  encrypted and compressed bytes and whose key is alive; processing a chunk establishes this, later
  puts and new keys keep it, and collecting it gives the bytes back although \<open>FailureTolerance\<close>
  backends are lost. The invariant of the interleaved main loop and workers of \<open>ChunkStream\<close> then gives the
  round trip of a whole stream, for every scheduler.
\<close>

section \<open>The parity count is recovered from the shards\<close>

lemma foldl_max_ge: "(m :: int) \<le> foldl (\<lambda>m s. if m < f s then f s else m) m xs"
proof (induction xs arbitrary: m)
  case (Cons x xs)
  have "m \<le> (if m < f x then f x else m)" by simp
  also have "\<dots> \<le> foldl (\<lambda>m s. if m < f s then f s else m) (if m < f x then f x else m) xs" by (rule Cons)
  finally show ?case by simp
qed simp

lemma foldl_max_upper:
  "x \<in> set xs \<Longrightarrow> f x \<le> foldl (\<lambda>m s. if m < f s then f s else m) (m :: int) xs"
proof (induction xs arbitrary: m)
  case (Cons y ys)
  show ?case
  proof (cases "x = y")
    case True
    have "f y \<le> (if m < f y then f y else m)" by simp
    also have "\<dots> \<le> foldl (\<lambda>m s. if m < f s then f s else m) (if m < f y then f y else m) ys" by (rule foldl_max_ge)
    finally show ?thesis using True by simp
  next
    case False
    with Cons.prems have "x \<in> set ys" by simp
    then show ?thesis using Cons.IH [of "if m < f y then f y else m"] by simp
  qed
qed simp

lemma foldl_max_in: "foldl (\<lambda>m s. if m < f s then f s else m) (m :: int) xs \<in> insert m (f ` set xs)"
proof (induction xs arbitrary: m)
  case (Cons y ys)
  from Cons.IH [of "if m < f y then f y else m"] show ?case by (auto split: if_splits)
qed simp

lemma maxShardIndex_eqI:
  assumes "\<forall>s \<in> set shards. Last s \<le> m" and "s \<in> set shards" and "Last s = m" and "0 \<le> m"
  shows "maxShardIndex shards = m"
proof (rule antisym)
  show "maxShardIndex shards \<le> m"
    using foldl_max_in [of Last 0 shards] assms(1,4) by (auto simp: maxShardIndex_def)
  show "m \<le> maxShardIndex shards"
    using foldl_max_upper [OF assms(2), of Last 0] assms(3) by (simp add: maxShardIndex_def)
qed

lemma sharded_rows:
  assumes sh: "sharded env data bs w shards d p n ys groups finals t"
  shows "(\<Union>s \<in> set shards. rowsOf s) = {..< d + p}"
proof -
  have bs: "bs \<noteq> []" using sh by (simp add: sharded_def)
  have "(\<Union>s \<in> set shards. rowsOf s) = (\<Union>i \<in> {..< length bs}. \<Union>s \<in> set (groups ! i). rowsOf s)"
  proof -
    have "set groups = (!) groups ` {..< length bs}" using shardedD(2) [OF sh] by (auto simp: set_conv_nth)
    then show ?thesis unfolding shardedD(1) [OF sh] set_concat by simp
  qed
  also have "\<dots> = (\<Union>i \<in> {..< length bs}. {blockStart (length bs) (d + p) i ..< blockStart (length bs) (d + p) (Suc i)})"
    using sharded_cover(1) [OF sh] by simp
  also have "\<dots> = {..< blockStart (length bs) (d + p) (length bs)}"
  proof -
    have "(\<Union>i \<in> {..< k}. {blockStart m T i ..< blockStart m T (Suc i)}) = {..< blockStart m T k}" for k m T
    proof (induction k)
      case 0
      then show ?case by (simp add: blockStart_def)
    next
      case (Suc k)
      with blockStart_mono [of k "Suc k" m T] show ?case by (auto simp: lessThan_Suc)
    qed
    then show ?thesis .
  qed
  finally show ?thesis using bs by (simp add: blockStart_end)
qed

lemma sharded_length:
  assumes "rs_law env" and "sharded env data bs w shards d p n ys groups finals t"
  shows "length ys = d + p"
  using assms inputRows_shape [where ?data = data and ?n = n and ?d = d and ?p = p]
  unfolding rs_law_def sharded_def by blast

lemma sharded_read:
  assumes sh: "sharded env data bs w shards d p n ys groups finals t" and "s \<in> set shards"
  shows "\<exists>x. fst (GetShard env (Backend s) (Location s) t) = Inr x"
proof -
  from assms(2) obtain i where "i < length bs" "s \<in> set (groups ! i)"
    unfolding shardedD(1) [OF sh] set_concat by (metis UN_E in_set_conv_nth shardedD(2) [OF sh])
  with sharded_cover(2) [OF sh] show ?thesis by blast
qed

lemma maxShardIndex_sharded:
  assumes law: "rs_law env" and sh: "sharded env data bs w shards d p n ys groups finals t"
  shows "maxShardIndex shards + 1 - int d = int p"
proof -
  have s: "0 < n" "d = rowCount (length data) n" "data \<noteq> []" using sh by (auto simp: sharded_def)
  have ys: "length ys = d + p" by (rule sharded_length [OF law sh])
  have "0 < d" using s by (simp add: rowCount_pos)
  have seg: "0 \<le> First s \<and> First s \<le> Last s \<and> Last s < int (d + p)" if "s \<in> set shards" for s
    using sharded_read [OF sh that] sharded_segment [OF sh ys that] ys by (auto simp: segment_def)
  have "d + p - 1 \<in> (\<Union>s \<in> set shards. rowsOf s)" using sharded_rows [OF sh] \<open>0 < d\<close> by simp
  then obtain s where s: "s \<in> set shards" "d + p - 1 \<in> rowsOf s" by blast
  have last: "Last s = int (d + p) - 1" using s(2) seg [OF s(1)] \<open>0 < d\<close> by (auto simp: rowsOf_def)
  have "maxShardIndex shards = int (d + p) - 1"
    by (rule maxShardIndex_eqI [OF _ s(1) last]) (use seg \<open>0 < d\<close> in force)+
  then show ?thesis by simp
qed

section \<open>Frames\<close>

lemma same_more_world:
  fixes w w' :: "('r, 'x) world_scheme"
  shows "same_more w w' \<Longrightarrow> db w' = db w \<and> metaDB w' = metaDB w \<and> defaultKMS w' = defaultKMS w"
  by (cases w; cases w') (simp add: same_more_def)

text \<open>Everything a stored chunk depends on survives: readable blobs, keys, the integrity of the
  database, and the configuration of the backends.\<close>

definition stable :: "'r env \<Rightarrow> ('r, 'x) world_scheme \<Rightarrow> ('r, 'x) world_scheme \<Rightarrow> bool" where
  "stable env w w' \<longleftrightarrow> iface.grows env w w' \<and> same_conf w w' \<and> later w w' \<and>
     (iface_ok env w \<and> db_inv (db w) \<longrightarrow> keys_kept w w' \<and> db_inv (db w'))"

interpretation stab: frame_rel "stable env" for env
proof
  fix s t u :: "('a, 'b) world_scheme"
  show "stable env s s"
    by (simp add: stable_def iface.growing.reflR kkept.reflR sconf.reflR lstep.reflR)
  assume a: "stable env s t" "stable env t u"
  then show "stable env s u"
    unfolding stable_def
    by (intro conjI impI; elim conjE)
      (auto intro: iface.growing.transR sconf.transR lstep.transR kkept.transR dest: iface.grows_ok)
qed

lemma keys_kept_more:
  assumes "same_more w w'" and "\<forall>p x. files w p = Some x \<longrightarrow> files w' p = Some x"
  shows "keys_kept w w'"
  using same_more_world [OF assms(1)] assms(2) by (simp add: keys_kept_def)

lemma PutShard_stable:
  fixes env :: "'r env"
  shows "keeps (stable env) (PutShard env b d)"
proof (rule keepsI)
  fix w :: "('r, 'x) world_scheme"
  let ?w = "snd (PutShard env b d w)"
  have "same_more w ?w" by (rule keeps_snd [OF shard_same_more(2)])
  moreover have "files_kept env w ?w" by (rule keeps_snd [OF PutShard_files_kept])
  moreover have "same_conf w ?w" by (rule keeps_snd [OF PutShard_same_conf])
  moreover have "later w ?w" by (rule keeps_snd [OF PutShard_later])
  ultimately show "stable env w ?w"
    using same_more_world [of w ?w] iface.grows_put keys_kept_more [of w ?w]
    by (auto simp: stable_def files_kept_def)
qed

lemma tick_stable: "stable env w (w\<lparr>tick := Suc (tick w)\<rparr>)"
  by (simp add: stable_def next_tick_grows later_def)

lemma uuid_New_stable: "keeps (stable env) (uuid_New env)"
  by (rule keepsI) (simp add: uuid_New_eq tick_stable)

lemma ShardData_stable: "keeps (stable env) (ShardData env data bs)"
  by (rule ShardData_keeps [OF stab.frame_rel_axioms PutShard_stable tick_stable])

lemma store_same_stable:
  assumes "store_same w w'" and "db_inv (db w) \<Longrightarrow> db_inv (db w') \<and> (\<forall>k r. live_key k (db w) = Some r \<longrightarrow> live_key k (db w') = Some r)"
  shows "stable env w w'"
proof -
  have "iface_step env w w'"
    using assms(1) by (auto simp: store_same_def iface_step_def shard_addr_def [abs_def] fresh_inv_def GetShard_read
      split: option.splits)
  with assms show ?thesis
    by (auto simp: stable_def iface.grows_def iface_step_def iface_ok_def same_conf_def confs_def store_same_def
        keys_kept_def fun_eq_iff later_def)
qed

lemma exec_insert_kms_stable: "keeps (stable env) (exec env (insert_kms c now))"
proof (rule keepsI)
  fix w :: "('a, 'b) world_scheme"
  obtain r w' where e: "exec env (insert_kms c now) w = (r, w')" by (cases "exec env (insert_kms c now) w")
  have "db_inv (db w') \<and> (\<forall>k r. live_key k (db w) = Some r \<longrightarrow> live_key k (db w') = Some r)" if "db_inv (db w)"
  proof (cases "db w' = db w")
    case False
    with e obtain i where i: "insert_kms c now (db w) = Inr (i, db w')"
      by (auto simp: exec_eq split: sum.splits prod.splits if_splits)
    moreover have "kms_ok (db w)" using that by (simp add: db_inv_def)
    ultimately show ?thesis using live_key_insert(2) insert_kms_ok that unfolding stmt_ok_def by blast
  qed (use that in simp)
  with store_same_stable [OF keepsD [OF exec_store_same e]] e show "stable env w (snd (exec env (insert_kms c now) w))" by simp
qed

lemma host_stable:
  "keeps (stable env) (query env f)" "keeps (stable env) (ext_call env)" "keeps (stable env) (time_Now env)"
  "keeps (stable env) (rand_Read env n)" "keeps (stable env) (readPassword env path)" "keeps (stable env) getDefaultKMS"
  "keeps (stable env) next_tick"
  by (auto simp: keeps_def query_eq ext_call_eq time_Now_eq rand_Read_eq readPassword_eq getDefaultKMS_def bindE_def
      next_tick_def returnE_def raiseE_def tick_stable stab.reflR split: option.split)

lemmas stable_rules = stab.keeps_rules host_stable exec_insert_kms_stable uuid_New_stable

lemma Encrypt_stable: "keeps (stable env) (Encrypt env d ty)"
  unfolding Encrypt_def encryptAES256GCM_def encryptChaCha20Poly1305_def CreateKey_def kms_CreateKey_def getKey_def
    kms_GetKey_def encryptJSON_def Let_def
  by (intro stable_rules)

lemma processChunk_stable: "keeps (stable env) (processChunk env data ty cmp bs)"
  unfolding processChunk_def split_def by (intro stable_rules Encrypt_stable ShardData_stable)

section \<open>Reading changes nothing\<close>

definition calm :: "'r env \<Rightarrow> ('r, 'x) world_scheme \<Rightarrow> ('r, 'x) world_scheme \<Rightarrow> bool" where
  "calm env w w' \<longleftrightarrow> (\<forall>b l. fst (GetShard env b l w') = fst (GetShard env b l w)) \<and> keys_kept w w' \<and>
     same_conf w w' \<and> db w' = db w"

interpretation calm: frame_rel "calm env" for env
  by unfold_locales (auto simp: calm_def kkept.reflR sconf.reflR intro: kkept.transR sconf.transR)

lemma GetShard_calm:
  fixes env :: "'r env"
  shows "keeps (calm env) (GetShard env b l)"
proof (rule keepsI)
  fix w :: "('r, 'x) world_scheme"
  let ?w = "snd (GetShard env b l w)"
  have "same_more w ?w" by (rule keeps_snd [OF shard_same_more(1)])
  moreover have "files ?w = files w" using GetShard_touched [of env w b l] by (auto elim: touchedE)
  moreover have "same_conf w ?w" by (rule keeps_snd [OF GetShard_same_conf])
  ultimately show "calm env w ?w"
    using same_more_world [of w ?w] iface.get_pure keys_kept_more [of w ?w] by (auto simp: calm_def)
qed

lemma CollectShards_keeps:
  fixes R :: "('r, 'x) iface_scheme \<Rightarrow> ('r, 'x) iface_scheme \<Rightarrow> bool"
  assumes R: "frame_rel R" and get: "\<And>b l. keeps R (GetShard env b l)"
  shows "keeps R (CollectShards env shards n d p)"
proof -
  have "keeps R (collectLoop env n ss st)" for ss st
  proof (induction ss arbitrary: st)
    case Nil
    then show ?case using frame_rel.keeps_returnE [OF R] by simp
  next
    case (Cons s ss)
    show ?case
    proof (rule keepsI)
      fix w :: "('r, 'x) iface_scheme"
      obtain r w' where g: "GetShard env (Backend s) (Location s) w = (r, w')" by (cases "GetShard env (Backend s) (Location s) w")
      have 1: "R w w'" by (rule keepsD [OF get g])
      have "R w' (snd (bindE (liftE x) (collectLoop env n ss) w'))" for x
        by (rule keeps_snd) (intro frame_rel.keeps_bindE [OF R] frame_rel.keeps_liftE [OF R] Cons)
      with 1 keeps_snd [OF Cons, where s = w'] show "R w (snd (collectLoop env n (s # ss) st w))"
        using frame_rel.transR [OF R 1] by (cases r) (simp_all add: g)
    qed
  qed
  then show ?thesis
    unfolding CollectShards_def case_prod_beta by (intro frame_rel.keeps_rules [OF R])
qed

lemma tick_calm: "calm env w (w\<lparr>tick := n\<rparr>)"
  by (simp add: calm_def)

lemma Decrypt_calm: "keeps (calm env) (Decrypt env d e)"
proof -
  have "keeps (calm env) (kms_GetKey env path k)" for path k by (rule keepsI) (simp add: kms_GetKey_eq tick_calm)
  moreover have "keeps (calm env) getDefaultKMS" unfolding getDefaultKMS_def by (intro calm.keeps_rules)
  ultimately show ?thesis
    unfolding Decrypt_def decryptAES256GCM_def decryptChaCha20Poly1305_def getKey_def
    by (intro calm.keeps_rules)
qed

lemma collectChunk_calm: "keeps (calm env) (collectChunk env cmp c)"
  unfolding collectChunk_def Let_def
  by (intro calm.keeps_rules CollectShards_keeps [OF calm.frame_rel_axioms GetShard_calm] Decrypt_calm)

section \<open>The shape of a new chunk\<close>

lemma runs_sorted:
  "runs ys a b rs \<Longrightarrow> sorted_wrt (<) (map raw_First rs) \<and> (\<forall>r \<in> set rs. int a \<le> raw_First r \<and> raw_First r < int b)"
proof (induction ys a b rs rule: runs.induct)
  case (2 ys a b r rs)
  then have IH: "sorted_wrt (<) (map raw_First rs)" "\<forall>x \<in> set rs. int (Suc (nat (raw_Last r))) \<le> raw_First x \<and> raw_First x < int b"
    and r: "raw_First r = int a" "raw_First r \<le> raw_Last r" "raw_Last r < int b" by auto
  then show ?case by fastforce
qed simp

lemma sharded_sorted:
  assumes sh: "sharded env data bs w shards d p n ys groups finals t"
  shows "sorted_wrt (<) (map First shards)"
proof -
  have g: "sorted_wrt (<) (map First (groups ! i)) \<and> (\<forall>s \<in> set (groups ! i).
      int (blockStart (length bs) (d + p) i) \<le> First s \<and> First s < int (blockStart (length bs) (d + p) (Suc i)))"
    if i: "i < length bs" for i
  proof -
    have "map First (groups ! i) = map raw_First (finals (bs ! i))"
      using shardedD(3) [OF sh i] by (induction rule: list_all2_induct) (auto simp: held_def)
    moreover from this have "First ` set (groups ! i) = raw_First ` set (finals (bs ! i))" by (metis list.set_map)
    ultimately show ?thesis using runs_sorted [OF shardedD(4) [OF sh i]] by (metis (no_types, lifting) image_iff)
  qed
  have "sorted_wrt (<) (map First (concat (take i groups))) \<and>
      (\<forall>s \<in> set (concat (take i groups)). First s < int (blockStart (length bs) (d + p) i))" if "i \<le> length bs" for i
    using that
  proof (induction i)
    case (Suc i)
    then have i: "i < length groups" "i < length bs" using shardedD(2) [OF sh] by simp_all
    have "blockStart (length bs) (d + p) i \<le> blockStart (length bs) (d + p) (Suc i)" by (rule blockStart_mono) simp
    then have lt: "First s < int (blockStart (length bs) (d + p) (Suc i))"
      if "First s < int (blockStart (length bs) (d + p) i)" for s using that by linarith
    have IH: "sorted_wrt (<) (map First (concat (take i groups)))"
        "\<forall>s \<in> set (concat (take i groups)). First s < int (blockStart (length bs) (d + p) i)" using Suc by simp_all
    have "First x < First y" if "x \<in> set (concat (take i groups))" "y \<in> set (groups ! i)" for x y
      using IH(2) g [OF i(2)] that by fastforce
    with IH g [OF i(2)] lt show ?case
      unfolding take_Suc_conv_app_nth [OF i(1)] concat_append map_append sorted_wrt_append by (auto intro: lt)
  qed simp
  from this [of "length bs"] shardedD(1,2) [OF sh] show ?thesis by simp
qed

text \<open>A chunk as the chunker makes it: valid identifier, shards in the order of their rows and not yet
  verified, no key without encryption.\<close>

definition normal_chunk :: "'r env \<Rightarrow> Chunk \<Rightarrow> bool" where
  "normal_chunk env c \<longleftrightarrow> uuid_valid env (Chunk_Id c) \<and> sorted_wrt (<) (map First (Chunk_Shards c)) \<and>
     (\<forall>s \<in> set (Chunk_Shards c). lastVerified s = 0) \<and>
     (Encryption_Type (Chunk_Encryption c) = 0 \<longrightarrow> Encryption_KeyId (Chunk_Encryption c) = 0)"

lemma processChunk_normal:
  assumes law: "rs_law env" and ok: "iface_ok env w" and bs: "distinct bs"
    and p: "processChunk env data ty cmp bs w = (Inr c, t)"
  shows "normal_chunk env c" and "\<exists>k. tick w \<le> k \<and> k < tick t \<and> Chunk_Id c = uuid_new env k"
proof -
  obtain cd ct key w1 d n w2 where e: "Encrypt env cd ty w = (Inr (ct, key), w1)"
    and s: "ShardData env ct bs w1 = (Inr (Chunk_Shards c, d, n), w2)"
    and c: "Chunk_Id c = uuid_new env (tick w2)" "t = w2\<lparr>tick := Suc (tick w2)\<rparr>"
      "Chunk_Encryption c = \<lparr>Encryption_Type = ty, Encryption_KeyId = key\<rparr>"
    using p that by (clarsimp simp: processChunk_def bindE_eq_Inr_iff uuid_New_eq)
  have g: "stable env w w1" by (rule keepsD [OF Encrypt_stable e])
  have g2: "stable env w1 w2" by (rule keepsD [OF ShardData_stable s])
  have ok1: "iface_ok env w1" using g ok iface.grows_ok by (auto simp: stable_def)
  from ShardData_sharded [OF law ok1 bs s] obtain p ys groups finals where
    sh: "sharded env ct bs w1 (Chunk_Shards c) d p n ys groups finals w2" by blast
  have v: "lastVerified x = 0" if x: "x \<in> set (Chunk_Shards c)" for x
  proof -
    from x obtain i where i: "i < length bs" "x \<in> set (groups ! i)"
      unfolding shardedD(1) [OF sh] set_concat by (metis UN_E in_set_conv_nth shardedD(2) [OF sh])
    from shardedD(3) [OF sh i(1)] i(2) show ?thesis by (metis held_def in_set_conv_nth list_all2_conv_all_nth)
  qed
  have "uuid_valid env (Chunk_Id c)" using ok c(1) by (simp add: iface_ok_def lawful_def uuid_law_def)
  moreover have "ty = 0 \<longrightarrow> key = 0" using e by (auto simp: Encrypt_def)
  ultimately show "normal_chunk env c" using sharded_sorted [OF sh] v c(3) by (simp add: normal_chunk_def)
  show "\<exists>k. tick w \<le> k \<and> k < tick t \<and> Chunk_Id c = uuid_new env k"
    using g g2 c(1,2) by (intro exI [of _ "tick w2"]) (auto simp: stable_def later_def)
qed

section \<open>A stored chunk\<close>

definition chunk_stored :: "'r env \<Rightarrow> BackendType list \<Rightarrow> Compression \<Rightarrow> ('r, 'x) world_scheme \<Rightarrow> bytes \<Rightarrow> Chunk \<Rightarrow> bool" where
  "chunk_stored env bs cmp w data c \<longleftrightarrow> (\<exists>cd ct w0 t d p n ys groups finals.
     Compress env data cmp = Inr cd \<and> sealed env w ct (Chunk_Encryption c) cd \<and>
     sharded env ct bs (w0 :: ('r, 'x) world_scheme) (Chunk_Shards c) d p n ys groups finals t \<and>
     Chunk_Size c = int (length ct) \<and> EncodedShardSize c = int n \<and> EncodedDataShards c = int d \<and>
     EncodedParityShards c = int p \<and>
     (\<forall>s \<in> set (Chunk_Shards c). fst (GetShard env (Backend s) (Location s) w) = fst (GetShard env (Backend s) (Location s) t)))"

lemma take_padTo: "length x \<le> n \<Longrightarrow> take (length x) (padTo n x) = x"
  by (simp add: padTo_def)

lemma rowCount_fits: "0 < n \<Longrightarrow> len \<le> rowCount len n * n"
proof -
  assume n: "0 < n"
  have "len + n - 1 = (len + n - 1) div n * n + (len + n - 1) mod n" by simp
  moreover have "(len + n - 1) mod n < n" using n by simp
  ultimately show ?thesis unfolding rowCount_def by linarith
qed

lemma sharded_fits: "sharded env data bs w shards d p n ys groups finals t \<Longrightarrow> length data \<le> d * n"
  by (auto simp: sharded_def rowCount_fits)

lemma collectChunk_stored:
  assumes law: "rs_law env" "crypto_law env" "zstd_law env" and nf: "no_faults env" and bs: "distinct bs"
    and st: "chunk_stored env bs cmp w data c" and F: "finite F" "int (card F) \<le> FailureTolerance (Cfg env)"
    and lost: "backends_lost env F (Chunk_Shards c) w u" and keys: "keys_kept w u"
  shows "\<exists>u'. collectChunk env cmp c u = (Inr data, u') \<and> calm env u u'"
proof -
  from st obtain cd ct w0 t d p n ys groups finals where
    cd: "Compress env data cmp = Inr cd" and ct: "sealed env w ct (Chunk_Encryption c) cd"
    and sh: "sharded env ct bs (w0 :: ('a, 'b) world_scheme) (Chunk_Shards c) d p n ys groups finals t"
    and c: "Chunk_Size c = int (length ct)" "EncodedShardSize c = int n" "EncodedDataShards c = int d"
      "EncodedParityShards c = int p"
    and same: "\<forall>s \<in> set (Chunk_Shards c). fst (GetShard env (Backend s) (Location s) w) = fst (GetShard env (Backend s) (Location s) t)"
    unfolding chunk_stored_def by blast
  have lost': "backends_lost env F (Chunk_Shards c) t u" using lost same by (simp add: backends_lost_def)
  obtain u1 where u1: "CollectShards env (Chunk_Shards c) (int n) (int d) (int p) u = (Inr (padTo (d * n) ct), u1)"
    using sharded_recover [OF law(1) sh bs F lost'] by blast
  have "calm env u u1" using CollectShards_keeps [OF calm.frame_rel_axioms GetShard_calm] u1 by (rule keepsD)
  then have "keys_kept w u1" using kkept.transR [OF keys] by (simp add: calm_def)
  from Decrypt_sealed [OF law(2) sealed_kept [OF this ct]] nf obtain k where
    k: "Decrypt env ct (Chunk_Encryption c) u1 = (Inr cd, u1\<lparr>tick := k\<rparr>)" by (auto simp: no_faults_def)
  have trim: "(if int (length ct) < int (length (padTo (d * n) ct)) then take (nat (int (length ct))) (padTo (d * n) ct)
      else padTo (d * n) ct) = ct"
    using sharded_fits [OF sh] by (cases "length ct < d * n") (auto simp: padTo_def simp flip: of_nat_mult)
  have "collectChunk env cmp c u = (Inr data, u1\<lparr>tick := k\<rparr>)"
    unfolding collectChunk_def c bindE_Inr [where m = "CollectShards env (Chunk_Shards c) (int n) (int d) (int p)", OF u1] Let_def trim
    using k Decompress_Compress [OF law(3) cd] by (simp add: liftE_def)
  then show ?thesis using keepsD [OF collectChunk_calm] by blast
qed

lemma chunk_stored_shards:
  assumes g: "\<And>s d. s \<in> set (Chunk_Shards c) \<Longrightarrow> fst (GetShard env (Backend s) (Location s) w) = Inr d
      \<Longrightarrow> fst (GetShard env (Backend s) (Location s) w') = Inr d" and k: "keys_kept w w'"
    and st: "chunk_stored env bs cmp w data c"
  shows "chunk_stored env bs cmp w' data c"
proof -
  from st obtain cd ct w0 t d p n ys groups finals where
    1: "Compress env data cmp = Inr cd" and ct: "sealed env w ct (Chunk_Encryption c) cd"
    and sh: "sharded env ct bs (w0 :: ('a, 'b) world_scheme) (Chunk_Shards c) d p n ys groups finals t"
    and 2: "Chunk_Size c = int (length ct)" "EncodedShardSize c = int n" "EncodedDataShards c = int d"
      "EncodedParityShards c = int p"
    and same: "\<forall>s \<in> set (Chunk_Shards c). fst (GetShard env (Backend s) (Location s) w) = fst (GetShard env (Backend s) (Location s) t)"
    unfolding chunk_stored_def by blast
  have "fst (GetShard env (Backend s) (Location s) w') = fst (GetShard env (Backend s) (Location s) t)"
    if "s \<in> set (Chunk_Shards c)" for s
    using sharded_read [OF sh that] same that g [OF that] by metis
  with 1 2 sealed_kept [OF k ct] sh show ?thesis unfolding chunk_stored_def by blast
qed

lemma chunk_stored_kept:
  assumes "\<And>b l d. fst (GetShard env b l w) = Inr d \<Longrightarrow> fst (GetShard env b l w') = Inr d" and "keys_kept w w'"
    and "chunk_stored env bs cmp w data c"
  shows "chunk_stored env bs cmp w' data c"
  by (rule chunk_stored_shards [OF assms(1) assms(2,3)])

lemma chunk_stored_read:
  assumes "chunk_stored env bs cmp w data c" and "s \<in> set (Chunk_Shards c)"
  shows "\<exists>d. fst (GetShard env (Backend s) (Location s) w) = Inr d"
  using assms sharded_read unfolding chunk_stored_def by metis

lemma chunk_stored_stable:
  assumes "stable env w w'" and "iface_ok env w" and "db_inv (db w)" and "chunk_stored env bs cmp w data c"
  shows "chunk_stored env bs cmp w' data c"
proof -
  have "iface.grows env w w'" "keys_kept w w'" using assms(1-3) by (simp_all add: stable_def)
  then show ?thesis by (intro chunk_stored_kept [OF iface.growsD [OF _ assms(2)] _ assms(4)])
qed

text \<open>Processing establishes it.\<close>

lemma processChunk_stored:
  assumes law: "rs_law env" "crypto_law env" and ok: "iface_ok env w" and inv: "db_inv (db w)" and bs: "distinct bs"
    and p: "processChunk env data ty cmp bs w = (Inr c, t)"
  shows "chunk_stored env bs cmp t data c"
proof -
  obtain cd ct k w1 shards d n w2 where cd: "Compress env data cmp = Inr cd"
    and e: "Encrypt env cd ty w = (Inr (ct, k), w1)" and s: "ShardData env ct bs w1 = (Inr (shards, d, n), w2)"
    and t: "t = w2\<lparr>tick := Suc (tick w2)\<rparr>"
    and c: "Chunk_Size c = int (length ct)" "EncodedShardSize c = int n" "EncodedDataShards c = int d"
      "EncodedParityShards c = maxShardIndex shards + 1 - int d" "Chunk_Shards c = shards"
      "Chunk_Encryption c = \<lparr>Encryption_Type = ty, Encryption_KeyId = k\<rparr>"
    using p that by (clarsimp simp: processChunk_def bindE_eq_Inr_iff uuid_New_eq) (metis (no_types))
  have w1: "stable env w w1" by (rule keepsD [OF Encrypt_stable e])
  then have ok1: "iface_ok env w1" using ok iface.grows_ok by (auto simp: stable_def)
  have e1: "db_inv (db w1)" "sealed env w1 ct (Chunk_Encryption c) cd" using Encrypt_sealed [OF law(2) inv e] c(6) by simp_all
  obtain p ys groups finals where sh: "sharded env ct bs w1 shards d p n ys groups finals w2"
    using ShardData_sharded [OF law(1) ok1 bs s] by blast
  have "stable env w1 w2" by (rule keepsD [OF ShardData_stable s])
  then have "keys_kept w1 t" using ok1 e1(1) stab.transR [OF _ tick_stable] unfolding t stable_def by blast
  then have "sealed env t ct (Chunk_Encryption c) cd" using e1(2) by (rule sealed_kept)
  moreover have "\<forall>s \<in> set shards. fst (GetShard env (Backend s) (Location s) t) = fst (GetShard env (Backend s) (Location s) w2)"
    by (simp add: t)
  moreover have "EncodedParityShards c = int p" using maxShardIndex_sharded [OF law(1) sh] c(4) by simp
  ultimately show ?thesis using cd sh c(1-3,5) unfolding chunk_stored_def by blast
qed

text \<open>When processing succeeds: the Reed-Solomon package takes the row counts of the ciphertexts.\<close>

definition fits :: "'r env \<Rightarrow> BackendType list \<Rightarrow> int \<Rightarrow> Compression \<Rightarrow> ('r, 'x) world_scheme \<Rightarrow> bytes \<Rightarrow> bool" where
  "fits env bs ty cmp w data \<longleftrightarrow> (\<forall>cd ct k t. \<forall>u :: ('r, 'x) world_scheme. Compress env data cmp = Inr cd \<and> Encrypt env cd ty u = (Inr (ct, k), t) \<longrightarrow>
     ct \<noteq> [] \<and> rs_accepts env (length bs) (rowCount (length ct) (rowSize w bs ct)) (rowSize w bs ct))"

definition ready :: "'r env \<Rightarrow> BackendType list \<Rightarrow> ('r, 'x) world_scheme \<Rightarrow> bool" where
  "ready env bs w \<longleftrightarrow> iface_ok env w \<and> db_inv (db w) \<and> kms_ready env w \<and> (\<forall>b \<in> set bs. healthy env w b)"

lemma ready_stable: "stable env w w' \<Longrightarrow> ready env bs w \<Longrightarrow> ready env bs w'"
  unfolding ready_def stable_def using iface.grows_ok kms_ready_kept healthy_same by blast

lemma rowSize_stable: "same_conf w w' \<Longrightarrow> \<forall>b \<in> set bs. healthy env w b \<Longrightarrow> rowSize w' bs x = rowSize w bs x"
  unfolding rowSize_def using capacity_same healthy_instance by (metis (no_types, lifting) map_eq_conv)

lemma fits_stable:
  "same_conf w w' \<Longrightarrow> \<forall>b \<in> set bs. healthy env w b \<Longrightarrow> fits env bs ty cmp w data \<Longrightarrow> fits env bs ty cmp w' data"
  unfolding fits_def by (simp add: rowSize_stable)

lemma processChunk_succeeds:
  assumes law: "rs_law env" "crypto_law env" "zstd_law env" and nf: "no_faults env"
    and bs: "distinct bs" "bs \<noteq> []" and tol: "FailureTolerance (Cfg env) < int (length bs)"
    and ty: "ty \<in> {0, 1, 2}" "Compression_Type cmp \<in> {0, 1}"
    and r: "ready env bs w" and f: "fits env bs ty cmp w data"
  shows "\<exists>c t. processChunk env data ty cmp bs w = (Inr c, t)"
proof -
  have r': "iface_ok env w" "db_inv (db w)" "kms_ready env w" "\<forall>b \<in> set bs. healthy env w b"
    using r by (simp_all add: ready_def)
  obtain cd where cd: "Compress env data cmp = Inr cd"
    using ty(2) law(3) by (auto simp: Compress_def zstd_law_def)
  obtain ct k w1 where e: "Encrypt env cd ty w = (Inr (ct, k), w1)"
    using Encrypt_succeeds [OF nf law(2) r'(2,3) ty(1)] by blast
  have w1: "stable env w w1" by (rule keepsD [OF Encrypt_stable e])
  have r1: "\<forall>b \<in> set bs. healthy env w1 b" using ready_stable [OF w1 r] by (simp add: ready_def)
  have f1: "ct \<noteq> []" "rs_accepts env (length bs) (rowCount (length ct) (rowSize w1 bs ct)) (rowSize w1 bs ct)"
    using f cd e rowSize_stable [OF _ r'(4), of w1 ct] w1 unfolding fits_def stable_def by auto
  obtain shards d n w2 where s: "ShardData env ct bs w1 = (Inr (shards, d, n), w2)"
    using ShardData_succeeds [OF nf law(1) bs f1(1) r1 tol f1(2)] by blast
  show ?thesis by (simp add: processChunk_def bindE_def cd e s uuid_New_eq returnE_def liftE_def)
qed

end
