(* ===== verification/Stream_Laws.thy ===== *)
theory Stream_Laws
  imports Chunker_Laws
begin

text \<open>
  The stream loop of the chunker. The invariant \<open>job_inv\<close> of the interleaved main loop and workers
  relates a job to the pieces of the stream: what was read is a prefix of them, every chunk that is pending,
  running or completed is the piece of its ordinal, and completed chunks are stored. It holds after every
  step of every schedule, and at the end it gives the round trip, the order of the chunks, the length and
  the hash of the stream.
\<close>

section \<open>The invariant\<close>

definition job_entries :: "chunkJob \<Rightarrow> (nat \<times> bytes) set" where
  "job_entries j = set_option (cj_pending j) \<union> set (cj_running j)"

text \<open>The stream part: it does not mention the chunks.\<close>

definition read_inv :: "nat \<Rightarrow> bool \<Rightarrow> bytes \<Rightarrow> chunkJob \<Rightarrow> bool" where
  "read_inv n fails data j \<longleftrightarrow>
     (\<exists>ds. pieces n data = ds @ pieces n (cj_rest j) \<and> length ds = cj_ordinal j \<and> concat ds = cj_hashed j) \<and>
     cj_totalRead j = length (cj_hashed j) \<and>
     (\<forall>(i, buf) \<in> job_entries j. i < cj_ordinal j \<and> buf = pieces n data ! i) \<and>
     (if cj_active j then \<not> cj_readErr j else cj_err j \<noteq> None \<or> cj_rest j = [] \<and> cj_readErr j = fails) \<and>
     dom (cj_completed j) \<subseteq> {..< cj_ordinal j} \<and>
     (cj_err j = None \<longrightarrow> fst ` job_entries j \<union> dom (cj_completed j) = {..< cj_ordinal j})"

lemma newJob_inv: "read_inv n fails data (newJob data)"
  by (simp add: read_inv_def newJob_def job_entries_def)

lemma pieces_step: "0 < n \<Longrightarrow> xs \<noteq> [] \<Longrightarrow> pieces n xs = take n xs # pieces n (drop n xs)"
  by (simp add: pieces.simps [of n xs])

lemma readStep_inv:
  assumes n: "0 < n" and inv: "read_inv n fails data j" and j: "cj_active j" "cj_pending j = None"
  shows "read_inv n fails data (readStep n fails j)"
proof (cases "cj_err j = None")
  case False
  with inv j show ?thesis by (auto simp: readStep_def read_inv_def job_entries_def)
next
  case True
  from inv obtain ds where ds: "pieces n data = ds @ pieces n (cj_rest j)" "length ds = cj_ordinal j" "concat ds = cj_hashed j"
    by (auto simp: read_inv_def)
  have old: "cj_totalRead j = length (cj_hashed j)" "\<not> cj_readErr j"
      "\<And>i buf. (i, buf) \<in> set (cj_running j) \<Longrightarrow> i < cj_ordinal j \<and> buf = pieces n data ! i"
      "dom (cj_completed j) \<subseteq> {..< cj_ordinal j}" "fst ` set (cj_running j) \<union> dom (cj_completed j) = {..< cj_ordinal j}"
    using inv j True by (auto simp: read_inv_def job_entries_def)
  show ?thesis
  proof (cases "cj_rest j = []")
    case rest: True
    with True n j ds old inv show ?thesis
      by (auto simp: readStep_def ReadFull_def Let_def read_inv_def job_entries_def)
  next
    case rest: False
    let ?ds = "ds @ [take n (cj_rest j)]"
    have p: "pieces n data = ?ds @ pieces n (drop n (cj_rest j))" using ds(1) pieces_step [OF n rest] by simp
    have new: "take n (cj_rest j) = pieces n data ! cj_ordinal j" using p ds(2) by (simp add: nth_append)
    have r: "readStep n fails j = j\<lparr>cj_rest := drop n (cj_rest j), cj_active := n \<le> length (cj_rest j),
        cj_readErr := length (cj_rest j) < n \<and> fails, cj_pending := Some (cj_ordinal j, take n (cj_rest j)),
        cj_totalRead := cj_totalRead j + length (take n (cj_rest j)), cj_ordinal := Suc (cj_ordinal j),
        cj_hashed := cj_hashed j @ take n (cj_rest j)\<rparr>"
      using True rest n by (simp add: readStep_def ReadFull_def Let_def)
    have "\<exists>es. pieces n data = es @ pieces n (drop n (cj_rest j)) \<and> length es = Suc (cj_ordinal j) \<and>
        concat es = cj_hashed j @ take n (cj_rest j)"
      using p ds(2,3) by (intro exI [of _ ?ds]) simp
    moreover have "fst ` job_entries (readStep n fails j) \<union> dom (cj_completed j) = {..< Suc (cj_ordinal j)}"
      using old(5) by (auto simp: r job_entries_def)
    moreover have "i < Suc (cj_ordinal j) \<and> buf = pieces n data ! i"
      if "(i, buf) \<in> job_entries (readStep n fails j)" for i buf
      using that old(3) [of i buf] new by (auto simp: r job_entries_def)
    ultimately show ?thesis
      using old(1,2,4) unfolding read_inv_def by (auto simp: r)
  qed
qed

lemma mainStep_inv:
  assumes "0 < n" and "read_inv n fails data j"
  shows "read_inv n fails data (mainStep limit n fails j)"
proof (cases "cj_pending j")
  case None
  with assms readStep_inv [OF assms] show ?thesis by (simp add: mainStep_def)
next
  case (Some p)
  then have "job_entries (j\<lparr>cj_pending := None, cj_running := cj_running j @ [p]\<rparr>) = job_entries j"
    by (auto simp: job_entries_def)
  with assms(2) Some show ?thesis by (auto simp: mainStep_def read_inv_def)
qed

text \<open>The shards of a chunk are at addresses where nothing was readable before.\<close>

definition fresh_shards :: "'r env \<Rightarrow> ('r, 'x) world_scheme \<Rightarrow> Chunk \<Rightarrow> bool" where
  "fresh_shards env w0 c \<longleftrightarrow> (\<forall>s \<in> set (Chunk_Shards c). \<forall>b l d. fst (GetShard env b l w0) = Inr d \<longrightarrow>
     saddr w0 s \<noteq> shard_addr w0 b l)"

lemma processChunk_fresh:
  assumes law: "rs_law env" and ok: "iface_ok env w0" and st: "stable env w0 w" and bs: "distinct bs"
    and p: "processChunk env data ty cmp bs w = (Inr c, t)"
  shows "fresh_shards env w0 c"
proof -
  obtain cd ct k w1 d n w2 where e: "Encrypt env cd ty w = (Inr (ct, k), w1)"
    and s: "ShardData env ct bs w1 = (Inr (Chunk_Shards c, d, n), w2)"
    using p that by (auto simp: processChunk_def bindE_eq_Inr_iff uuid_New_eq)
  have g: "iface.grows env w0 w1"
    using stab.transR [OF st keepsD [OF Encrypt_stable e]] by (simp add: stable_def)
  have ok1: "iface_ok env w1" by (rule iface.grows_ok [OF g ok])
  have a: "shard_addr w1 = shard_addr w0" using g ok by (simp add: iface.grows_def)
  from ShardData_sharded [OF law ok1 bs s] obtain groups finals where
    "Chunk_Shards c = concat groups" "uploaded env bs finals w1 groups w2" by (auto simp: sharded_def)
  then have "\<forall>s \<in> set (Chunk_Shards c). \<forall>b l d. fst (GetShard env b l w1) = Inr d \<longrightarrow> saddr w1 s \<noteq> shard_addr w1 b l"
    unfolding uploaded_def by simp
  then show ?thesis
    using iface.growsD [OF g ok] unfolding fresh_shards_def saddr_def a by blast
qed

text \<open>What is known of a chunk made between two states: its identifier was drawn between them.\<close>

definition made :: "'r env \<Rightarrow> ('r, 'x) world_scheme \<Rightarrow> ('r, 'x) world_scheme \<Rightarrow> Chunk \<Rightarrow> bool" where
  "made env w0 w c \<longleftrightarrow> fresh_shards env w0 c \<and> normal_chunk env c \<and>
     (\<exists>k. tick w0 \<le> k \<and> k < tick w \<and> Chunk_Id c = uuid_new env k)"

lemma made_later: "made env w0 w c \<Longrightarrow> stable env w w' \<Longrightarrow> made env w0 w' c"
  by (auto simp: made_def stable_def later_def)

lemma processChunk_made:
  assumes law: "rs_law env" and ok: "iface_ok env w0" and st: "stable env w0 w" and bs: "distinct bs"
    and p: "processChunk env data ty cmp bs w = (Inr c, t)"
  shows "made env w0 t c" and "made env w0 w c' \<Longrightarrow> Chunk_Id c' \<noteq> Chunk_Id c"
proof -
  have w: "iface_ok env w" "tick w0 \<le> tick w" using st ok iface.grows_ok by (auto simp: stable_def later_def)
  from processChunk_normal(2) [OF law w(1) bs p] obtain k where
    k: "tick w \<le> k" "k < tick t" "Chunk_Id c = uuid_new env k" by blast
  show "made env w0 t c"
    using processChunk_fresh [OF law ok st bs p] processChunk_normal(1) [OF law w(1) bs p] k order_trans [OF w(2) k(1)]
    unfolding made_def by blast
  show "Chunk_Id c' \<noteq> Chunk_Id c" if "made env w0 w c'"
    using that k ok by (auto simp: made_def iface_ok_def lawful_def uuid_new_inject)
qed

definition job_inv :: "'r env \<Rightarrow> nat \<Rightarrow> bool \<Rightarrow> BackendType list \<Rightarrow> Compression \<Rightarrow> ('r, 'x) world_scheme \<Rightarrow> bytes
    \<Rightarrow> chunkJob \<times> ('r, 'x) world_scheme \<Rightarrow> bool" where
  "job_inv env n fails bs cmp w0 data st \<longleftrightarrow> read_inv n fails data (fst st) \<and> stable env w0 (snd st) \<and>
     (\<forall>i c. cj_completed (fst st) i = Some c \<longrightarrow>
        chunk_stored env bs cmp (snd st) (pieces n data ! i) c \<and> made env w0 (snd st) c) \<and>
     (\<forall>i i' c c'. cj_completed (fst st) i = Some c \<longrightarrow> cj_completed (fst st) i' = Some c' \<longrightarrow> Chunk_Id c = Chunk_Id c' \<longrightarrow> i = i')"

lemma mainStep_completed [simp]: "cj_completed (mainStep limit n fails j) = cj_completed j"
  by (auto simp: mainStep_def readStep_def Let_def split: option.split prod.split)

lemma drop_nth_set: "k < length xs \<Longrightarrow> set xs = insert (xs ! k) (set (take k xs @ drop (Suc k) xs))"
  by (metis Cons_nth_drop_Suc append_take_drop_id list.set(2) set_append Un_insert_right)

lemma workStep_read_inv:
  assumes inv: "read_inv n fails data j" and k: "k < length (cj_running j)" and r: "cj_running j ! k = (i, buf)"
  shows "read_inv n fails data (j\<lparr>cj_running := take k (cj_running j) @ drop (Suc k) (cj_running j),
           cj_completed := (cj_completed j)(i \<mapsto> c)\<rparr>)"
    and "read_inv n fails data (j\<lparr>cj_running := take k (cj_running j) @ drop (Suc k) (cj_running j), cj_err := Some e\<rparr>)"
    and "buf = pieces n data ! i" and "i < cj_ordinal j"
proof -
  let ?rest = "take k (cj_running j) @ drop (Suc k) (cj_running j)"
  have set: "set (cj_running j) = insert (i, buf) (set ?rest)" using drop_nth_set [OF k] r by simp
  have e: "job_entries j = insert (i, buf) (job_entries (j\<lparr>cj_running := ?rest, cj_completed := m\<rparr>))"
      "job_entries (j\<lparr>cj_running := ?rest, cj_completed := m\<rparr>) = job_entries (j\<lparr>cj_running := ?rest, cj_err := x\<rparr>)" for m x
    using set by (auto simp: job_entries_def)
  show i: "buf = pieces n data ! i" "i < cj_ordinal j"
    using inv set by (auto simp: read_inv_def job_entries_def)
  show "read_inv n fails data (j\<lparr>cj_running := ?rest, cj_completed := (cj_completed j)(i \<mapsto> c)\<rparr>)"
    using inv i(2) e(1) [of "(cj_completed j)(i \<mapsto> c)"] unfolding read_inv_def by auto
  show "read_inv n fails data (j\<lparr>cj_running := ?rest, cj_err := Some e\<rparr>)"
    using inv e(1) [of "cj_completed j"] e(2) [of "cj_completed j" "Some e"] unfolding read_inv_def by auto
qed

lemma chunk_stored_from:
  assumes "stable env w0 w" and "iface_ok env w0" and "db_inv (db w0)" and "stable env w w'"
    and "chunk_stored env bs cmp w data c"
  shows "chunk_stored env bs cmp w' data c"
  using assms chunk_stored_stable iface.grows_ok unfolding stable_def by blast

lemma workStep_inv:
  assumes law: "rs_law env" "crypto_law env" and ok: "iface_ok env w0" "db_inv (db w0)" and bs: "distinct bs"
    and inv: "job_inv env n fails bs cmp w0 data (j, w)"
  shows "job_inv env n fails bs cmp w0 data (workStep env ty cmp bs k (j, w))"
proof (cases "k < length (cj_running j)")
  case False
  then show ?thesis using inv by (simp add: workStep_def)
next
  case True
  obtain i buf where r: "cj_running j ! k = (i, buf)" by (cases "cj_running j ! k")
  obtain q w' where p: "processChunk env buf ty cmp bs w = (q, w')" by (cases "processChunk env buf ty cmp bs w")
  have inv': "read_inv n fails data j" "stable env w0 w"
    "\<And>i c. cj_completed j i = Some c \<Longrightarrow> chunk_stored env bs cmp w (pieces n data ! i) c \<and> made env w0 w c"
    "\<And>i i' c c'. cj_completed j i = Some c \<Longrightarrow> cj_completed j i' = Some c' \<Longrightarrow> Chunk_Id c = Chunk_Id c' \<Longrightarrow> i = i'"
    using inv by (auto simp: job_inv_def)
  have s: "stable env w w'" by (rule keepsD [OF processChunk_stable p])
  have s0: "stable env w0 w'" by (rule stab.transR [OF inv'(2) s])
  have okw: "iface_ok env w" "db_inv (db w)" using inv'(2) ok iface.grows_ok by (auto simp: stable_def)
  have old: "chunk_stored env bs cmp w' (pieces n data ! i) c \<and> made env w0 w' c" if "cj_completed j i = Some c" for i c
    using inv'(3) [OF that] chunk_stored_from [OF inv'(2) ok s] made_later [OF _ s] by blast
  note ri = workStep_read_inv [OF inv'(1) True r]
  show ?thesis
  proof (cases q)
    case (Inl e)
    let ?j = "j\<lparr>cj_running := take k (cj_running j) @ drop (Suc k) (cj_running j), cj_err := (if cj_err j = None then Some e else cj_err j)\<rparr>"
    have "workStep env ty cmp bs k (j, w) = (?j, w')" using True r p Inl by (simp add: workStep_def Let_def)
    moreover have "read_inv n fails data ?j" using ri(2) by (cases "cj_err j") auto
    ultimately show ?thesis using s0 old inv'(4) by (simp add: job_inv_def)
  next
    case (Inr c)
    have "workStep env ty cmp bs k (j, w) = (j\<lparr>cj_running := take k (cj_running j) @ drop (Suc k) (cj_running j),
        cj_completed := (cj_completed j)(i \<mapsto> c)\<rparr>, w')" using True r p Inr by (simp add: workStep_def Let_def)
    moreover have "chunk_stored env bs cmp w' (pieces n data ! i) c"
      using processChunk_stored [OF law okw bs] p Inr ri(3) by simp
    moreover have m: "made env w0 w' c" "Chunk_Id c' \<noteq> Chunk_Id c" if "cj_completed j i' = Some c'" for i' c'
      using processChunk_made [OF law(1) ok(1) inv'(2) bs] p Inr inv'(3) [OF that] by blast+
    moreover have "made env w0 w' c" using processChunk_made(1) [OF law(1) ok(1) inv'(2) bs] p Inr by blast
    ultimately show ?thesis using s0 old ri(1) inv'(4) by (auto simp: job_inv_def dest: m(2) m(2) [symmetric])
  qed
qed

lemma jobStep_inv:
  assumes "rs_law env" "crypto_law env" "iface_ok env w0" "db_inv (db w0)" "distinct bs" "0 < n"
    and "job_inv env n fails bs cmp w0 data st"
  shows "job_inv env n fails bs cmp w0 data (jobStep env limit n fails ty cmp bs pick st)"
proof (cases "pick = 0")
  case True
  then show ?thesis using assms mainStep_inv [of n fails data "fst st"] by (simp add: jobStep_def job_inv_def)
next
  case False
  then show ?thesis using workStep_inv [OF assms(1-5), where j = "fst st" and w = "snd st"] assms(7) by (simp add: jobStep_def)
qed

text \<open>An invariant of the steps holds after every schedule and after the drain, which ends the job.\<close>

lemma drainJob_inv:
  assumes "\<And>pick st. I st \<Longrightarrow> I (jobStep env limit n fails ty cmp bs pick st)" and "I st"
  shows "I (drainJob env limit n fails ty cmp bs st)"
  using assms
proof (induction env limit n fails ty cmp bs st rule: drainJob.induct)
  case (1 env limit n fails ty cmp bs j w)
  have m: "I (mainStep limit n fails j, w)" using 1(3) [of "(j, w)" 0] 1(4) by (simp add: jobStep_def)
  have k: "I (workStep env ty cmp bs 0 (j, w))" using 1(3) [of "(j, w)" 1] 1(4) by (simp add: jobStep_def)
  show ?case
  proof (cases "limit = 0 \<or> n = 0 \<or> jobDone j")
    case True
    then show ?thesis using 1(4) by (subst drainJob.simps) simp
  next
    case False
    show ?thesis
    proof (cases "cj_running j = []")
      case True
      with False 1(2) [OF False _ 1(3) m] show ?thesis by (subst drainJob.simps) simp
    next
      case run: False
      with False 1(1) [OF False run 1(3) k] show ?thesis by (subst drainJob.simps) simp
    qed
  qed
qed

lemma drainJob_done:
  "0 < limit \<Longrightarrow> 0 < n \<Longrightarrow> jobDone (fst (drainJob env limit n fails ty cmp bs st))"
proof (induction env limit n fails ty cmp bs st rule: drainJob.induct)
  case (1 env limit n fails ty cmp bs j w)
  then show ?case by (subst drainJob.simps) simp
qed

lemma fold_inv: "(\<And>x st. I st \<Longrightarrow> I (f x st)) \<Longrightarrow> I st \<Longrightarrow> I (fold f xs st)"
  by (induction xs arbitrary: st) auto

text \<open>What the job is when the loop is over and the group has been waited for.\<close>

definition finalJob :: "'r env \<Rightarrow> reader \<Rightarrow> int \<Rightarrow> Compression \<Rightarrow> BackendType list \<Rightarrow> int \<Rightarrow> ('r, 'x) world_scheme
    \<Rightarrow> chunkJob \<times> ('r, 'x) world_scheme" where
  "finalJob env r ty cmp bs conc w =
     (let limit = nat (if conc < 1 then 1 else conc); n = nat (ChunkSize (Cfg env))
      in drainJob env limit n (rd_fails r) ty cmp bs
           (fold (jobStep env limit n (rd_fails r) ty cmp bs) (sched env (tick w))
              (newJob (rd_data r), w\<lparr>tick := Suc (tick w)\<rparr>)))"

lemma finalJob_inv:
  assumes "rs_law env" "crypto_law env" "iface_ok env w" "db_inv (db w)" "distinct bs" "0 < ChunkSize (Cfg env)"
  shows "job_inv env (nat (ChunkSize (Cfg env))) (rd_fails r) bs cmp w (rd_data r) (finalJob env r ty cmp bs conc w)"
    and "jobDone (fst (finalJob env r ty cmp bs conc w))"
proof -
  let ?I = "job_inv env (nat (ChunkSize (Cfg env))) (rd_fails r) bs cmp w (rd_data r)"
  have "?I (newJob (rd_data r), w\<lparr>tick := Suc (tick w)\<rparr>)"
    using newJob_inv by (simp add: job_inv_def tick_stable) (simp add: newJob_def)
  then show "?I (finalJob env r ty cmp bs conc w)"
    unfolding finalJob_def Let_def using assms
    by (intro drainJob_inv [of ?I] fold_inv [of ?I] jobStep_inv) auto
  show "jobDone (fst (finalJob env r ty cmp bs conc w))"
    unfolding finalJob_def Let_def using assms(6) by (intro drainJob_done) auto
qed

lemma ChunkStream_eq:
  assumes "0 < ChunkSize (Cfg env)" and "finalJob env r ty cmp bs conc w = (j, w1)"
  shows "ChunkStream env r ty cmp bs conc w =
    (case cj_err j of
       Some e \<Rightarrow> bindE (cleanupChunks env (cj_completed j) (cj_ordinal j)) (\<lambda>_. raiseE e) w1
     | None \<Rightarrow> (if cj_readErr j then bindE (cleanupChunks env (cj_completed j) (cj_ordinal j)) (\<lambda>_. raiseE ErrReader) w1
         else (Inr (map (\<lambda>i. the (cj_completed j i)) [0 ..< cj_ordinal j], int (cj_totalRead j), xxhash64 env (cj_hashed j)), w1)))"
  using assms by (simp add: ChunkStream_def Let_def bindE_def next_tick_def finalJob_def)

section \<open>The stream is stored\<close>

lemma ChunkStream_Inr:
  assumes hyp: "rs_law env" "crypto_law env" "iface_ok env w" "db_inv (db w)" "distinct bs" "0 < ChunkSize (Cfg env)"
    and cs: "ChunkStream env r ty cmp bs conc w = (Inr (cs, len, h), t)"
  shows "\<not> rd_fails r" and "len = int (length (rd_data r))" and "h = xxhash64 env (rd_data r)" and "stable env w t"
    and "list_all2 (chunk_stored env bs cmp t) (pieces (nat (ChunkSize (Cfg env))) (rd_data r)) cs"
    and "\<forall>c \<in> set cs. made env w t c" and "distinct (map Chunk_Id cs)"
proof -
  let ?n = "nat (ChunkSize (Cfg env))"
  let ?ps = "pieces ?n (rd_data r)"
  obtain j w1 where f: "finalJob env r ty cmp bs conc w = (j, w1)" by (cases "finalJob env r ty cmp bs conc w")
  have err: "cj_err j = None" "\<not> cj_readErr j"
    using cs unfolding ChunkStream_eq [OF hyp(6) f]
    by (auto simp: bindE_eq_Inr_iff split: option.splits if_splits)
  from cs err have out: "t = w1" "cs = map (\<lambda>i. the (cj_completed j i)) [0 ..< cj_ordinal j]"
      "len = int (cj_totalRead j)" "h = xxhash64 env (cj_hashed j)"
    unfolding ChunkStream_eq [OF hyp(6) f] by auto
  have inv: "read_inv ?n (rd_fails r) (rd_data r) j" "stable env w w1"
      "\<And>i c. cj_completed j i = Some c \<Longrightarrow> chunk_stored env bs cmp w1 (?ps ! i) c \<and> made env w w1 c"
      "\<And>i i' c c'. cj_completed j i = Some c \<Longrightarrow> cj_completed j i' = Some c' \<Longrightarrow> Chunk_Id c = Chunk_Id c' \<Longrightarrow> i = i'"
    using finalJob_inv(1) [OF hyp, of r cmp ty conc] by (auto simp: f job_inv_def)
  have d: "\<not> cj_active j" "job_entries j = {}"
    using finalJob_inv(2) [OF hyp, of r ty cmp conc] by (simp_all add: f jobDone_def job_entries_def)
  have rest: "cj_rest j = []" and nf: "\<not> rd_fails r" using inv(1) d err by (simp_all add: read_inv_def)
  obtain ds where ds: "?ps = ds" "length ds = cj_ordinal j" "concat ds = cj_hashed j"
    using inv(1) rest by (auto simp: read_inv_def)
  have n: "0 < ?n" using hyp(6) by simp
  have data: "cj_hashed j = rd_data r" using ds concat_pieces [OF n] by metis
  have dom: "dom (cj_completed j) = {..< cj_ordinal j}" using inv(1) d err by (simp add: read_inv_def)
  then have completed: "\<exists>c. cj_completed j i = Some c" if "i < cj_ordinal j" for i using that by blast
  show "\<not> rd_fails r" by (rule nf)
  show "len = int (length (rd_data r))" using out data inv(1) by (simp add: read_inv_def)
  show "h = xxhash64 env (rd_data r)" using out data by simp
  show "stable env w t" using inv(2) out by simp
  show "list_all2 (chunk_stored env bs cmp t) ?ps cs"
    unfolding list_all2_conv_all_nth using ds out(1,2) completed inv(3) by fastforce
  show "\<forall>c \<in> set cs. made env w t c"
    using out(1,2) completed inv(3) by fastforce
  have "Chunk_Id (the (cj_completed j i)) \<noteq> Chunk_Id (the (cj_completed j i'))"
    if "i < cj_ordinal j" "i' < cj_ordinal j" "i \<noteq> i'" for i i'
    using completed [OF that(1)] completed [OF that(2)] inv(4) that(3) by fastforce
  then show "distinct (map Chunk_Id cs)" by (auto simp: out(2) distinct_conv_nth)
qed

text \<open>It is stored whenever every piece can be processed.\<close>

lemma workStep_fine:
  assumes hyp: "rs_law env" "crypto_law env" "zstd_law env" "no_faults env" "distinct bs" "bs \<noteq> []"
      "FailureTolerance (Cfg env) < int (length bs)" "ty \<in> {0, 1, 2}" "Compression_Type cmp \<in> {0, 1}"
    and r: "ready env bs w0" and f: "\<forall>p \<in> set (pieces n data). fits env bs ty cmp w0 p"
    and inv: "job_inv env n fails bs cmp w0 data (j, w)" and e: "cj_err j = None"
  shows "cj_err (fst (workStep env ty cmp bs k (j, w))) = None"
proof (cases "k < length (cj_running j)")
  case False
  then show ?thesis using e by (simp add: workStep_def)
next
  case True
  obtain i buf where ib: "cj_running j ! k = (i, buf)" by (cases "cj_running j ! k")
  have ri: "read_inv n fails data j" "stable env w0 w" using inv by (simp_all add: job_inv_def)
  have "buf = pieces n data ! i" "i < cj_ordinal j" using workStep_read_inv(3,4) [OF ri(1) True ib] .
  moreover have "cj_ordinal j \<le> length (pieces n data)" using ri(1) by (auto simp: read_inv_def)
  ultimately have "buf \<in> set (pieces n data)" by simp
  then have "fits env bs ty cmp w buf" using f fits_stable [of w0 w bs env] ri(2) r by (auto simp: stable_def ready_def)
  then obtain c t where "processChunk env buf ty cmp bs w = (Inr c, t)"
    using processChunk_succeeds [OF hyp ready_stable [OF ri(2) r]] by blast
  with True ib e show ?thesis by (simp add: workStep_def Let_def)
qed

lemma mainStep_err [simp]: "cj_err (mainStep limit n fails j) = cj_err j"
  by (auto simp: mainStep_def readStep_def Let_def split: option.split prod.split)

lemma ChunkStream_succeeds:
  assumes hyp: "rs_law env" "crypto_law env" "zstd_law env" "no_faults env" "distinct bs" "bs \<noteq> []"
      "FailureTolerance (Cfg env) < int (length bs)" "ty \<in> {0, 1, 2}" "Compression_Type cmp \<in> {0, 1}"
    and r: "ready env bs w" and f: "\<forall>p \<in> set (pieces (nat (ChunkSize (Cfg env))) (rd_data r)). fits env bs ty cmp w p"
    and n: "0 < ChunkSize (Cfg env)" and nf: "\<not> rd_fails r"
  shows "\<exists>cs t. ChunkStream env r ty cmp bs conc w = (Inr (cs, int (length (rd_data r)), xxhash64 env (rd_data r)), t)"
proof -
  let ?n = "nat (ChunkSize (Cfg env))"
  have ok: "iface_ok env w" "db_inv (db w)" using r by (simp_all add: ready_def)
  let ?I = "\<lambda>st. job_inv env ?n (rd_fails r) bs cmp w (rd_data r) st \<and> cj_err (fst st) = None"
  have step: "?I (jobStep env limit ?n (rd_fails r) ty cmp bs pick st)" if "?I st" for limit pick st
    using that jobStep_inv [OF hyp(1,2) ok hyp(5), of ?n] n workStep_fine [OF hyp r f, where j = "fst st" and w = "snd st"]
    by (auto simp: jobStep_def)
  have "?I (newJob (rd_data r), w\<lparr>tick := Suc (tick w)\<rparr>)"
    using newJob_inv by (simp add: job_inv_def tick_stable) (simp add: newJob_def)
  then have I: "?I (finalJob env r ty cmp bs conc w)"
    unfolding finalJob_def Let_def by (intro drainJob_inv [of ?I] fold_inv [of ?I] step)
  obtain j w1 where fj: "finalJob env r ty cmp bs conc w = (j, w1)" by (cases "finalJob env r ty cmp bs conc w")
  have "cj_err j = None" using I by (simp add: fj)
  moreover have "\<not> cj_readErr j"
    using I finalJob_inv(2) [OF hyp(1,2) ok hyp(5) n, of r ty cmp conc] nf
    by (auto simp: fj job_inv_def read_inv_def jobDone_def)
  ultimately obtain cs len h where c: "ChunkStream env r ty cmp bs conc w = (Inr (cs, len, h), w1)"
    unfolding ChunkStream_eq [OF n fj] by simp
  with ChunkStream_Inr(2,3) [OF hyp(1,2) ok hyp(5) n c] show ?thesis by blast
qed

section \<open>Reading the stream back\<close>

text \<open>Some backends in \<open>F\<close> are lost; everything else, and the keys, are as they were.\<close>

definition degraded :: "'r env \<Rightarrow> BackendType set \<Rightarrow> Chunk list \<Rightarrow> ('r, 'x) world_scheme \<Rightarrow> ('r, 'x) world_scheme \<Rightarrow> bool" where
  "degraded env F cs w u \<longleftrightarrow> (\<forall>c \<in> set cs. backends_lost env F (Chunk_Shards c) w u) \<and> keys_kept w u"

lemma degraded_calm: "degraded env F cs w u \<Longrightarrow> calm env u u' \<Longrightarrow> degraded env F cs w u'"
  unfolding degraded_def backends_lost_def calm_def using kkept.transR by auto

lemma degraded_refl: "degraded env F cs w w"
  by (simp add: degraded_def backends_lost_def kkept.reflR)

lemma mapE_collect:
  assumes hyp: "rs_law env" "crypto_law env" "zstd_law env" "no_faults env" "distinct bs"
      "finite F" "int (card F) \<le> FailureTolerance (Cfg env)"
    and st: "list_all2 (chunk_stored env bs cmp w) ps cs" and d: "degraded env F cs w u"
  shows "\<exists>u'. mapE (collectChunk env cmp) cs u = (Inr ps, u') \<and> calm env u u'"
  using st d
proof (induction ps cs arbitrary: u rule: list_all2_induct)
  case Nil
  then show ?case using calm.reflR by simp
next
  case (Cons p ps c cs)
  have l: "backends_lost env F (Chunk_Shards c) w u" "keys_kept w u" "degraded env F cs w u"
    using Cons.prems by (simp_all add: degraded_def)
  obtain u1 where u1: "collectChunk env cmp c u = (Inr p, u1)" "calm env u u1"
    using collectChunk_stored [OF hyp(1-5) Cons.hyps(1) hyp(6,7) l(1,2)] by blast
  obtain u2 where "mapE (collectChunk env cmp) cs u1 = (Inr ps, u2)" "calm env u1 u2"
    using Cons.IH [OF degraded_calm [OF l(3) u1(2)]] by blast
  with u1 show ?case using calm.transR by (auto simp: bindE_def returnE_def)
qed

lemma CollectChunks_stored:
  assumes "rs_law env" "crypto_law env" "zstd_law env" "no_faults env" "distinct bs"
      "finite F" "int (card F) \<le> FailureTolerance (Cfg env)"
    and "list_all2 (chunk_stored env bs cmp w) ps cs" and "degraded env F cs w u"
  shows "\<exists>u'. CollectChunks env cs cmp u = (Inr (concat ps), u') \<and> calm env u u'"
  using mapE_collect [OF assms] by (auto simp: CollectChunks_def bindE_def returnE_def)

text \<open>The pipe delivers the first \<open>need\<close> bytes.\<close>

lemma CollectChunksStream_stored:
  assumes hyp: "rs_law env" "crypto_law env" "zstd_law env" "no_faults env" "distinct bs"
      "finite F" "int (card F) \<le> FailureTolerance (Cfg env)"
    and st: "list_all2 (chunk_stored env bs cmp w) ps cs" and d: "degraded env F cs w u"
  shows "\<exists>u'. CollectChunksStream env cs cmp need u = (Inr (take need (concat ps), None), u') \<and> calm env u u'"
  using st d
proof (induction ps cs arbitrary: u need rule: list_all2_induct)
  case Nil
  then show ?case using calm.reflR by (simp add: returnE_def)
next
  case (Cons p ps c cs)
  have l: "backends_lost env F (Chunk_Shards c) w u" "keys_kept w u" "degraded env F cs w u"
    using Cons.prems by (simp_all add: degraded_def)
  obtain u1 where u1: "collectChunk env cmp c u = (Inr p, u1)" "calm env u u1"
    using collectChunk_stored [OF hyp(1-5) Cons.hyps(1) hyp(6,7) l(1,2)] by blast
  obtain u2 where "CollectChunksStream env cs cmp (need - length p) u1 = (Inr (take (need - length p) (concat ps), None), u2)"
      "calm env u1 u2"
    using Cons.IH [OF degraded_calm [OF l(3) u1(2)]] by blast
  with u1 show ?case using calm.transR [OF u1(2)] calm.reflR by (auto simp: bindE_def returnE_def)
qed

section \<open>Deleting\<close>

text \<open>Blobs at the addresses in \<open>P\<close> are spared, and no blob appears.\<close>

definition spares :: "'r env \<Rightarrow> (BackendType \<Rightarrow> string \<Rightarrow> blob_addr) \<Rightarrow> blob_addr set
    \<Rightarrow> ('r, 'x) iface_scheme \<Rightarrow> ('r, 'x) iface_scheme \<Rightarrow> bool" where
  "spares env A P w w' \<longleftrightarrow> (iface_ok env w \<and> shard_addr w = A \<longrightarrow> iface_ok env w' \<and> shard_addr w' = A \<and>
     (\<forall>b l d. A b l \<in> P \<longrightarrow> fst (GetShard env b l w) = Inr d \<longrightarrow> fst (GetShard env b l w') = Inr d) \<and>
     (\<forall>b l d. fst (GetShard env b l w') = Inr d \<longrightarrow> fst (GetShard env b l w) = Inr d))"

interpretation spare: frame_rel "spares env A P" for env A P
proof
  fix s t u
  show "spares env A P s s" by (simp add: spares_def)
  show "spares env A P s t \<Longrightarrow> spares env A P t u \<Longrightarrow> spares env A P s u" unfolding spares_def by meson
qed

lemma DeleteShard_spares:
  assumes "A b l \<notin> P"
  shows "keeps (spares env A P) (DeleteShard env b l)"
proof (rule keepsI)
  fix w :: "('a, 'b) iface_scheme"
  show "spares env A P w (snd (DeleteShard env b l w))"
    unfolding spares_def
  proof (intro impI conjI allI)
    assume a: "iface_ok env w \<and> shard_addr w = A"
    show "iface_ok env (snd (DeleteShard env b l w))" using a by (simp add: iface.del_ok)
    show "shard_addr (snd (DeleteShard env b l w)) = A" using a iface.del_addr by metis
    show "fst (GetShard env b' l' w) = Inr d" if "fst (GetShard env b' l' (snd (DeleteShard env b l w))) = Inr d" for b' l' d
      using a that by (blast intro: iface.del_mono)
    show "fst (GetShard env b' l' (snd (DeleteShard env b l w))) = Inr d"
      if "A b' l' \<in> P" and "fst (GetShard env b' l' w) = Inr d" for b' l' d
      using a that assms by (intro iface.del_frame) auto
  qed
qed

lemma DestroyShards_spares:
  fixes env :: "'r env"
  assumes "\<forall>s \<in> set ss. A (Backend s) (Location s) \<notin> P"
  shows "keeps (spares env A P :: ('r, 'x) iface_scheme \<Rightarrow> _) (DestroyShards env ss)"
  using assms
proof (induction ss)
  case Nil
  then show ?case by (simp add: DestroyShards_def spare.keeps_returnE)
next
  case (Cons s ss)
  then show ?case by (simp add: DestroyShards_def spare.keeps_bindE DeleteShard_spares)
qed

lemma DestroyShards_gone:
  assumes "iface_ok env w" and "DestroyShards env ss w = (Inr (), t)" and "s \<in> set ss"
  shows "\<exists>e. fst (GetShard env (Backend s) (Location s) t) = Inl e"
proof -
  have f: "forE (\<lambda>s. DeleteShard env (Backend s) (Location s)) ss = forE (\<lambda>(b, l). DeleteShard env b l) (map (\<lambda>s. (Backend s, Location s)) ss)"
    by (induction ss) simp_all
  from iface.forE_del [OF assms(1) assms(2) [unfolded DestroyShards_def f]]
  have "\<forall>(b, l) \<in> set (map (\<lambda>s. (Backend s, Location s)) ss). \<exists>e. fst (GetShard env b l t) = Inl e" by blast
  with assms(3) show ?thesis by simp
qed

lemma next_tick_spares: "keeps (spares env A P) next_tick"
proof (rule keepsI)
  fix w :: "('a, 'b) iface_scheme"
  have "iface.grows env w (w\<lparr>tick := Suc (tick w)\<rparr>)" by (rule next_tick_grows)
  then show "spares env A P w (snd (next_tick w))"
    by (simp add: spares_def iface.grows_def next_tick_def)
qed

text \<open>The blobs that are readable in a state.\<close>

definition readable :: "'r env \<Rightarrow> ('r, 'x) iface_scheme \<Rightarrow> blob_addr set" where
  "readable env w = {shard_addr w b l | b l. \<exists>d. fst (GetShard env b l w) = Inr d}"

lemma cleanupChunks_spares:
  fixes env :: "'r env" and w0 :: "('r, 'x) world_scheme"
  assumes fresh: "\<And>i c. completed i = Some c \<Longrightarrow> fresh_shards env w0 c"
  shows "keeps (spares env (shard_addr w0) (readable env w0) :: ('r, 'x) world_scheme \<Rightarrow> _) (cleanupChunks env completed k)"
proof -
  have "keeps (spares env (shard_addr w0) (readable env w0) :: ('r, 'x) world_scheme \<Rightarrow> _) (ignoreE (DeleteChunk env c))"
    if "completed i = Some c" for i c
    unfolding DeleteChunk_def using fresh [OF that]
    by (intro spare.keeps_ignoreE DestroyShards_spares) (auto simp: fresh_shards_def readable_def saddr_def)
  then show ?thesis
    unfolding cleanupChunks_def
    by (intro spare.keeps_bindE next_tick_spares spare.keeps_forE) (simp split: option.split add: spare.keeps_returnE)
qed

text \<open>Whether it fails or not, no blob that could be read before is lost.\<close>

lemma ChunkStream_preserves:
  fixes env :: "'r env" and w :: "('r, 'x) world_scheme"
  assumes hyp: "rs_law env" "crypto_law env" "iface_ok env w" "db_inv (db w)" "distinct bs" "0 < ChunkSize (Cfg env)"
    and cs: "ChunkStream env r ty cmp bs conc w = (res, t)" and d: "fst (GetShard env b l w) = Inr d"
  shows "fst (GetShard env b l t) = Inr d" and "iface_ok env t"
proof -
  obtain j w1 where f: "finalJob env r ty cmp bs conc w = (j, w1)" by (cases "finalJob env r ty cmp bs conc w")
  have inv: "stable env w w1" "\<And>i c. cj_completed j i = Some c \<Longrightarrow> fresh_shards env w c"
    using finalJob_inv(1) [OF hyp, of r cmp ty conc] by (auto simp: f job_inv_def made_def)
  have g: "iface.grows env w w1" using inv(1) by (simp add: stable_def)
  have w1: "iface_ok env w1" "shard_addr w1 = shard_addr w" "fst (GetShard env b l w1) = Inr d"
    using g hyp(3) d by (simp_all add: iface.grows_def)
  have k: "keeps (spares env (shard_addr w) (readable env w) :: ('r, 'x) world_scheme \<Rightarrow> _)
      (bindE (cleanupChunks env (cj_completed j) (cj_ordinal j)) (\<lambda>_. raiseE e))" for e
    using inv(2) by (intro spare.keeps_bindE cleanupChunks_spares spare.keeps_raiseE)
  have "spares env (shard_addr w) (readable env w) w1 t"
    using cs keepsD [OF k] unfolding ChunkStream_eq [OF hyp(6) f]
    by (auto split: option.splits if_splits simp: spare.reflR)
  moreover have "shard_addr w b l \<in> readable env w" using d by (auto simp: readable_def)
  ultimately show "fst (GetShard env b l t) = Inr d" "iface_ok env t" using w1 unfolding spares_def by blast+
qed

text \<open>A relation that the pieces of the pipeline keep is kept by the whole stream, for every scheduler and on every path.\<close>

lemma jobStep_keeps:
  fixes R :: "('r, 'x) world_scheme \<Rightarrow> ('r, 'x) world_scheme \<Rightarrow> bool"
  assumes R: "frame_rel R" and p: "\<And>d. keeps R (processChunk env d ty cmp bs)"
  shows "R (snd st) (snd (jobStep env limit n fails ty cmp bs pick st))"
proof (cases "pick = 0")
  case False
  obtain j w where st: "st = (j, w)" by (cases st)
  have "R w w'" if "processChunk env buf ty cmp bs w = (q, w')" for buf q w' by (rule keepsD [OF p that])
  then show ?thesis
    using False by (auto simp: st jobStep_def workStep_def Let_def frame_rel.reflR [OF R] split: prod.split sum.split)
qed (simp add: jobStep_def frame_rel.reflR [OF R])

lemma ChunkStream_keeps:
  fixes R :: "('r, 'x) world_scheme \<Rightarrow> ('r, 'x) world_scheme \<Rightarrow> bool"
  assumes R: "frame_rel R" and p: "\<And>d. keeps R (processChunk env d ty cmp bs)" and c: "\<And>ch. keeps R (DeleteChunk env ch)"
    and t: "\<And>w. R w (w\<lparr>tick := Suc (tick w)\<rparr>)"
  shows "keeps R (ChunkStream env r ty cmp bs conc)"
proof (rule keepsI)
  fix w :: "('r, 'x) world_scheme"
  show "R w (snd (ChunkStream env r ty cmp bs conc w))"
  proof (cases "0 < ChunkSize (Cfg env)")
    case False
    then show ?thesis by (simp add: ChunkStream_def Let_def frame_rel.reflR [OF R])
  next
    case True
    let ?I = "\<lambda>st. R w (snd st)"
    obtain j w1 where f: "finalJob env r ty cmp bs conc w = (j, w1)" by (cases "finalJob env r ty cmp bs conc w")
    have step: "?I (jobStep env limit n fails ty cmp bs pick st)" if "?I st" for limit n fails pick st
      using frame_rel.transR [OF R that jobStep_keeps [OF R p]] .
    have "?I (finalJob env r ty cmp bs conc w)" unfolding finalJob_def Let_def
      by (intro drainJob_inv [of ?I] fold_inv [of ?I] step) (simp_all add: t)
    then have 1: "R w w1" by (simp add: f)
    have nx: "keeps R next_tick" by (rule keepsI) (simp add: next_tick_def t)
    have o: "keeps R (case x of None \<Rightarrow> returnE () | Some ch \<Rightarrow> ignoreE (DeleteChunk env ch))" for x
      by (simp add: frame_rel.keeps_returnE [OF R] frame_rel.keeps_ignoreE [OF R c] split: option.split)
    have "keeps R (bindE (cleanupChunks env completed k) (\<lambda>_. raiseE e :: (_, Chunk list \<times> int \<times> uint64) comp))" for completed k e
      unfolding cleanupChunks_def
      by (intro frame_rel.keeps_bindE [OF R] frame_rel.keeps_raiseE [OF R] nx frame_rel.keeps_forE [OF R] o)
    from keeps_snd [OF this] frame_rel.transR [OF R 1] 1 show ?thesis
      unfolding ChunkStream_eq [OF True f] by (simp split: option.split)
  qed
qed

end
