(* ===== verification/Metadata_Laws.thy ===== *)
theory Metadata_Laws
  imports Object_Manager Stream_Laws
begin

text \<open>
  The metadata store is correct: every operation keeps the integrity of the database and touches nothing but
  the database, what an operation stores is what the matching read returns, and a failed operation leaves the
  database as it was.
\<close>

section \<open>Frames\<close>

lemma getDB_eq: "getDB w = (if metaDB w then Inr () else Inl ErrNoDatabase, w)"
  by (simp add: getDB_def bindE_def guardE_def returnE_def raiseE_def)

lemma delete_owned_ok: "stmt_ok (\<lambda>d. Inr ((), delete_chunks P d))"
  by (auto simp: stmt_ok_def delete_chunks_ok)

lemmas stmts_ok = insert_kms_ok delete_kms_ok insert_bucket_ok insert_or_ignore_bucket_ok insert_upload_ok upsert_object_ok
  upsert_part_ok insert_chunk_row_ok insert_shard_row_ok delete_objects_ok delete_uploads_ok delete_bucket_ok
  reassign_chunk_ok delete_owned_ok

lemma getDB_db_step: "keeps db_step getDB" "keeps store_same getDB"
  unfolding getDB_def by (intro dstep.keeps_rules sstep.keeps_rules)+

lemma time_Now_db_step: "keeps db_step (time_Now env)" "keeps db_step (uuid_New env)"
  by (auto simp: keeps_def time_Now_eq uuid_New_eq db_step_def)

lemma query_row_frames: "keeps db_step (query_row env what f)" "keeps store_same (query_row env what f)"
  unfolding query_row_def by (intro dstep.keeps_rules sstep.keeps_rules query_db_step query_store_same)+

lemmas exec_frames = stmts_ok [THEN exec_db_step] exec_store_same
lemmas meta_frames = dstep.keeps_rules sstep.keeps_rules exec_frames query_db_step query_store_same getDB_db_step
  time_Now_db_step time_Now_store_same uuid_New_store_same query_row_frames transaction_db_step transaction_store_same

lemma shards_frames:
  "keeps db_step (getShards env i)" "keeps store_same (getShards env i)"
  "keeps db_step (insertShards env i ss)" "keeps store_same (insertShards env i ss)"
  unfolding getShards_def insertShards_def by (intro meta_frames)+

lemma chunks_frames:
  "keeps db_step (chunkRowsToChunks env rows)" "keeps store_same (chunkRowsToChunks env rows)"
  "keeps db_step (getChunks env loc)" "keeps store_same (getChunks env loc)"
  "keeps db_step (getPartChunks env u n)" "keeps store_same (getPartChunks env u n)"
  "keeps db_step (insertChunk env b k u' n' i c)" "keeps store_same (insertChunk env b k u' n' i c)"
  unfolding getChunks_def getPartChunks_def chunkRowsToChunks_def insertChunk_def by (intro meta_frames shards_frames)+

lemma insertChunks_frames:
  "keeps db_step (insertChunks env loc cs)" "keeps store_same (insertChunks env loc cs)"
  "keeps db_step (insertPartChunks env b u n cs)" "keeps store_same (insertPartChunks env b u n cs)"
  unfolding insertChunks_def insertPartChunks_def case_prod_beta by (intro meta_frames chunks_frames)+

lemma upsertObject_frames: "keeps db_step (upsertObject env ob)" "keeps store_same (upsertObject env ob)"
  unfolding upsertObject_def Let_def by (intro meta_frames insertChunks_frames)+

lemma meta_GetObject_frames: "keeps db_step (meta_GetObject env loc)" "keeps store_same (meta_GetObject env loc)"
  unfolding meta_GetObject_def by (intro meta_frames chunks_frames)+

lemma object_frames:
  "keeps db_step (meta_PutObject env ob)" "keeps store_same (meta_PutObject env ob)"
  "keeps db_step (meta_UpdateObject env ob)" "keeps store_same (meta_UpdateObject env ob)"
  "keeps db_step (meta_DeleteObject env loc)" "keeps store_same (meta_DeleteObject env loc)"
  "keeps db_step (ObjectExists env loc)" "keeps store_same (ObjectExists env loc)"
  "keeps db_step (ListObjects env b pre dl sa pg mx)" "keeps store_same (ListObjects env b pre dl sa pg mx)"
  "keeps db_step (GetChunks env loc)" "keeps store_same (GetChunks env loc)"
  "keeps db_step (GetShards env i)" "keeps store_same (GetShards env i)"
  unfolding meta_PutObject_def meta_UpdateObject_def meta_DeleteObject_def ObjectExists_def ListObjects_def GetChunks_def GetShards_def
  by (intro meta_frames upsertObject_frames chunks_frames shards_frames)+

lemma bucket_frames:
  "keeps db_step (GetBucket env b)" "keeps store_same (GetBucket env b)"
  "keeps db_step (CreateBucket env b)" "keeps store_same (CreateBucket env b)"
  "keeps db_step (DeleteBucket env b)" "keeps store_same (DeleteBucket env b)"
  "keeps db_step (BucketCount env)" "keeps store_same (BucketCount env)"
  "keeps db_step (ListBuckets env pre pg mx)" "keeps store_same (ListBuckets env pre pg mx)"
  "keeps db_step (ListBucketsWithStats env)" "keeps store_same (ListBucketsWithStats env)"
  unfolding GetBucket_def CreateBucket_def DeleteBucket_def BucketCount_def ListBuckets_def ListBucketsWithStats_def
  by (intro meta_frames)+

lemma upload_frames:
  "keeps db_step (GetMultipartUpload env i)" "keeps store_same (GetMultipartUpload env i)"
  "keeps db_step (meta_CreateMultipartUpload env loc cmp)" "keeps store_same (meta_CreateMultipartUpload env loc cmp)"
  "keeps db_step (GetMultipartUploadByLocation env loc)" "keeps store_same (GetMultipartUploadByLocation env loc)"
  "keeps db_step (ListMultipartUploads env b pre dl km um mx)" "keeps store_same (ListMultipartUploads env b pre dl km um mx)"
  "keeps db_step (meta_AbortMultipartUpload env i)" "keeps store_same (meta_AbortMultipartUpload env i)"
  "keeps db_step (GetPart env i n)" "keeps store_same (GetPart env i n)"
  "keeps db_step (ListParts env i mx f)" "keeps store_same (ListParts env i mx f)"
  unfolding GetMultipartUpload_def meta_CreateMultipartUpload_def GetMultipartUploadByLocation_def ListMultipartUploads_def
    meta_AbortMultipartUpload_def generateUploadID_def GetPart_def ListParts_def
  by (intro meta_frames chunks_frames)+

lemma PutPart_frames: "keeps db_step (PutPart env part)" "keeps store_same (PutPart env part)"
  unfolding PutPart_def Let_def by (intro meta_frames upload_frames insertChunks_frames)+

lemma Complete_frames: "keeps db_step (meta_CompleteMultipartUpload env i)" "keeps store_same (meta_CompleteMultipartUpload env i)"
  unfolding meta_CompleteMultipartUpload_def Let_def case_prod_beta
  by (intro meta_frames upload_frames chunks_frames meta_GetObject_frames)+

section \<open>What inserting chunks does to the tables\<close>

lemma exec_Inr: "exec env st w = (Inr x, t) \<longleftrightarrow> (\<not> fault env (tick w) \<and>
    (\<exists>d'. st (db w) = Inr (x, d') \<and> t = w\<lparr>tick := Suc (tick w), db := d'\<rparr>))"
  by (auto simp: exec_eq split: sum.splits prod.splits if_splits)

lemma insert_shards_Inr:
  "forE (\<lambda>s. exec env (insert_shard_row (f s))) ss w = (Inr (), t) \<Longrightarrow>
     db t = (db w)\<lparr>t_shards := t_shards (db w) @ map f ss\<rparr>"
proof (induction ss arbitrary: w)
  case (Cons s ss)
  then obtain w1 where w1: "exec env (insert_shard_row (f s)) w = (Inr (), w1)"
      "forE (\<lambda>s. exec env (insert_shard_row (f s))) ss w1 = (Inr (), t)" by (auto simp: bindE_eq_Inr_iff)
  have "db w1 = (db w)\<lparr>t_shards := t_shards (db w) @ [f s]\<rparr>"
    using w1(1) by (auto simp: exec_Inr insert_shard_row_def split: if_splits)
  with Cons.IH [OF w1(2)] show ?case by simp
qed simp

lemma insertChunk_Inr:
  assumes "insertChunk env b k u n i c w = (Inr (), t)"
  shows "Chunk_Id c \<notin> ch_id ` set (t_chunks (db w)) \<and> (\<exists>now. db t = (db w)\<lparr>t_chunks := t_chunks (db w) @ [chunk_to_row b k u n i c],
    t_shards := t_shards (db w) @ map (shard_to_row (Chunk_Id c) now) (Chunk_Shards c)\<rparr>)"
proof -
  from assms obtain w1 where e: "exec env (insert_chunk_row (chunk_to_row b k u n i c)) w = (Inr (), w1)"
      "insertShards env (Chunk_Id c) (Chunk_Shards c) w1 = (Inr (), t)" by (auto simp: insertChunk_def bindE_eq_Inr_iff)
  then obtain now where "db t = (db w1)\<lparr>t_shards := t_shards (db w1) @ map (shard_to_row (Chunk_Id c) now) (Chunk_Shards c)\<rparr>"
    by (auto simp: insertShards_def bindE_eq_Inr_iff time_Now_eq dest!: insert_shards_Inr)
  moreover have "db w1 = (db w)\<lparr>t_chunks := t_chunks (db w) @ [chunk_to_row b k u n i c]\<rparr>"
      "ch_id (chunk_to_row b k u n i c) \<notin> ch_id ` set (t_chunks (db w))"
    using e(1) by (auto simp: exec_Inr insert_chunk_row_def split: if_splits)
  ultimately show ?thesis by (auto simp: chunk_to_row_def)
qed

text \<open>The rows that a list of chunks becomes; \<open>nows\<close> are the times of the inserts.\<close>

definition chunk_rows :: "string \<Rightarrow> string option \<Rightarrow> string option \<Rightarrow> int option \<Rightarrow> nat \<Rightarrow> Chunk list \<Rightarrow> chunk_row list" where
  "chunk_rows b k u n i cs = map (\<lambda>(i, c). chunk_to_row b k u n (int i) c) (enumerate i cs)"

lemma chunk_rows_ids: "ch_id ` set (chunk_rows b k u n i cs) = Chunk_Id ` set cs"
proof -
  have "map ch_id (chunk_rows b k u n i cs) = map Chunk_Id cs"
    by (induction cs arbitrary: i) (simp_all add: chunk_rows_def chunk_to_row_def)
  then show ?thesis by (metis list.set_map)
qed

definition shard_rows :: "Chunk list \<Rightarrow> gotime list \<Rightarrow> shard_row list" where
  "shard_rows cs nows = concat (map2 (\<lambda>c now. map (shard_to_row (Chunk_Id c) now) (Chunk_Shards c)) cs nows)"

lemma insert_chunks_Inr:
  "forE (\<lambda>(i, c). insertChunk env b k u n (int i) c) (enumerate i cs) w = (Inr (), t) \<Longrightarrow>
     distinct (map Chunk_Id cs) \<and> Chunk_Id ` set cs \<inter> ch_id ` set (t_chunks (db w)) = {} \<and>
     (\<exists>nows. length nows = length cs \<and>
       db t = (db w)\<lparr>t_chunks := t_chunks (db w) @ chunk_rows b k u n i cs, t_shards := t_shards (db w) @ shard_rows cs nows\<rparr>)"
proof (induction cs arbitrary: i w)
  case Nil
  then show ?case by (simp add: chunk_rows_def shard_rows_def)
next
  case (Cons c cs)
  then obtain w1 where w1: "insertChunk env b k u n (int i) c w = (Inr (), w1)"
      "forE (\<lambda>(i, c). insertChunk env b k u n (int i) c) (enumerate (Suc i) cs) w1 = (Inr (), t)"
    by (auto simp: bindE_eq_Inr_iff)
  from insertChunk_Inr [OF w1(1)] obtain now where c: "Chunk_Id c \<notin> ch_id ` set (t_chunks (db w))"
    and d1: "db w1 = (db w)\<lparr>t_chunks := t_chunks (db w) @ [chunk_to_row b k u n (int i) c],
       t_shards := t_shards (db w) @ map (shard_to_row (Chunk_Id c) now) (Chunk_Shards c)\<rparr>" by blast
  from Cons.IH [OF w1(2)] obtain nows where IH: "distinct (map Chunk_Id cs)" "Chunk_Id ` set cs \<inter> ch_id ` set (t_chunks (db w1)) = {}"
      "length nows = length cs"
      "db t = (db w1)\<lparr>t_chunks := t_chunks (db w1) @ chunk_rows b k u n (Suc i) cs, t_shards := t_shards (db w1) @ shard_rows cs nows\<rparr>"
    by blast
  have "ch_id (chunk_to_row b k u n (int i) c) = Chunk_Id c" by (simp add: chunk_to_row_def)
  then have 1: "Chunk_Id c \<notin> Chunk_Id ` set cs" "Chunk_Id ` set cs \<inter> ch_id ` set (t_chunks (db w)) = {}"
    using IH(2) d1 by auto
  have "db t = (db w)\<lparr>t_chunks := t_chunks (db w) @ chunk_rows b k u n i (c # cs),
      t_shards := t_shards (db w) @ shard_rows (c # cs) (now # nows)\<rparr>"
    using IH(4) d1 by (simp add: chunk_rows_def shard_rows_def)
  with 1 c IH(1,3) show ?case by (intro conjI exI [of _ "now # nows"]) auto
qed

section \<open>Reading chunks back\<close>

lemma row_shard_to_row: "lastVerified s = 0 \<Longrightarrow> row_shard (shard_to_row i now s) = s"
  by (simp add: row_shard_def shard_to_row_def)

lemma row_chunk_to_row:
  assumes "normal_chunk env c"
  shows "row_chunk (chunk_to_row b k u n i c)
    (map row_shard (sort_key sh_first (map (shard_to_row (Chunk_Id c) now) (Chunk_Shards c)))) = c"
proof -
  have "map sh_first (map (shard_to_row (Chunk_Id c) now) (Chunk_Shards c)) = map First (Chunk_Shards c)"
    by (simp add: shard_to_row_def)
  then have "sort_key sh_first (map (shard_to_row (Chunk_Id c) now) (Chunk_Shards c)) = map (shard_to_row (Chunk_Id c) now) (Chunk_Shards c)"
    using assms by (intro sort_key_id_if_sorted) (simp only: normal_chunk_def strict_sorted_imp_sorted)
  moreover have "map row_shard (map (shard_to_row (Chunk_Id c) now) (Chunk_Shards c)) = Chunk_Shards c"
    using assms by (simp add: normal_chunk_def row_shard_to_row map_idI)
  ultimately show ?thesis
    using assms by (simp add: row_chunk_def chunk_to_row_def normal_chunk_def)
qed

lemma filter_shard_rows:
  assumes "distinct (map Chunk_Id cs)" and "length nows = length cs" and "j < length cs"
  shows "filter (\<lambda>s. sh_chunk s = Chunk_Id (cs ! j)) (shard_rows cs nows)
    = map (shard_to_row (Chunk_Id (cs ! j)) (nows ! j)) (Chunk_Shards (cs ! j))"
  using assms
proof (induction cs arbitrary: nows j)
  case (Cons c cs)
  then obtain now ns where nows: "nows = now # ns" "length ns = length cs" by (cases nows) auto
  have one: "filter (\<lambda>s. sh_chunk s = i) (map (shard_to_row i' now) ss) = (if i' = i then map (shard_to_row i' now) ss else [])"
    for i i' now ss by (auto simp: shard_to_row_def filter_empty_conv)
  have none: "filter (\<lambda>s. sh_chunk s = i) (shard_rows cs ns) = []" if "i \<notin> Chunk_Id ` set cs" for i
    using that by (auto simp: shard_rows_def filter_empty_conv shard_to_row_def dest!: set_zip_leftD)
  show ?case
  proof (cases j)
    case 0
    have "Chunk_Id c \<notin> Chunk_Id ` set cs" using Cons.prems(1) by auto
    with 0 nows one none [of "Chunk_Id c"] show ?thesis by (simp add: shard_rows_def)
  next
    case (Suc m)
    with Cons.prems have m: "m < length cs" by simp
    then have "Chunk_Id (cs ! m) \<in> Chunk_Id ` set cs" by simp
    then have "Chunk_Id (cs ! m) \<noteq> Chunk_Id c" using Cons.prems(1) by auto
    with m Suc nows one Cons.IH [of ns m] Cons.prems(1) show ?thesis by (simp add: shard_rows_def)
  qed
qed simp

lemma getShards_eq:
  "no_faults env \<Longrightarrow> getShards env i w = (Inr (map row_shard (sort_key sh_first (filter (\<lambda>s. sh_chunk s = i) (t_shards (db w))))),
     w\<lparr>tick := Suc (tick w)\<rparr>)"
  by (simp add: getShards_def query_eq no_faults_def)

text \<open>The rows of a database that are the given chunks.\<close>

definition holds_chunks :: "'r env \<Rightarrow> database \<Rightarrow> chunk_row list \<Rightarrow> Chunk list \<Rightarrow> bool" where
  "holds_chunks env d rows cs \<longleftrightarrow> list_all2 (\<lambda>r c. uuid_valid env (ch_id r) \<and>
     row_chunk r (map row_shard (sort_key sh_first (filter (\<lambda>s. sh_chunk s = ch_id r) (t_shards d)))) = c) rows cs"

lemma chunkRowsToChunks_holds:
  assumes "no_faults env" and "holds_chunks env (db w) rows cs"
  shows "\<exists>n. chunkRowsToChunks env rows w = (Inr cs, w\<lparr>tick := n\<rparr>)"
  using assms(2)
proof (induction rows arbitrary: cs w)
  case Nil
  then have "chunkRowsToChunks env [] w = (Inr cs, w\<lparr>tick := tick w\<rparr>)" by (simp add: holds_chunks_def chunkRowsToChunks_def)
  then show ?case by blast
next
  case (Cons r rows)
  let ?c = "row_chunk r (map row_shard (sort_key sh_first (filter (\<lambda>s. sh_chunk s = ch_id r) (t_shards (db w)))))"
  from Cons.prems obtain cs' where cs: "cs = ?c # cs'" "uuid_valid env (ch_id r)" "holds_chunks env (db w) rows cs'"
    by (auto simp: holds_chunks_def list_all2_Cons1)
  let ?w = "w\<lparr>tick := Suc (tick w)\<rparr>"
  obtain n where "chunkRowsToChunks env rows ?w = (Inr cs', ?w\<lparr>tick := n\<rparr>)" using Cons.IH [of ?w cs'] cs(3) by auto
  then have "chunkRowsToChunks env (r # rows) w = (Inr cs, w\<lparr>tick := n\<rparr>)"
    using cs by (simp add: chunkRowsToChunks_def getShards_eq [OF assms(1)] bindE_def returnE_def)
  then show ?case by blast
qed

lemma inserted_holds:
  assumes d: "refs_ok d" and ids: "distinct (map Chunk_Id cs)" "Chunk_Id ` set cs \<inter> ch_id ` set (t_chunks d) = {}"
    and nows: "length nows = length cs" and norm: "\<forall>c \<in> set cs. normal_chunk env c"
    and s: "t_shards d' = t_shards d @ shard_rows cs nows"
  shows "holds_chunks env d' (chunk_rows b k u n 0 cs) cs"
  unfolding holds_chunks_def
proof (rule list_all2_all_nthI)
  show "length (chunk_rows b k u n 0 cs) = length cs" by (simp add: chunk_rows_def)
  fix j assume j: "j < length (chunk_rows b k u n 0 cs)"
  then have jl: "j < length cs" by (simp add: chunk_rows_def)
  have r: "chunk_rows b k u n 0 cs ! j = chunk_to_row b k u n (int j) (cs ! j)"
    using jl by (simp add: chunk_rows_def nth_enumerate_eq)
  have "Chunk_Id (cs ! j) \<notin> ch_id ` set (t_chunks d)" using ids(2) nth_mem [OF jl] by blast
  then have "filter (\<lambda>s. sh_chunk s = Chunk_Id (cs ! j)) (t_shards d) = []"
    using d unfolding refs_ok_def filter_empty_conv by metis
  then have f: "filter (\<lambda>s. sh_chunk s = Chunk_Id (cs ! j)) (t_shards d')
      = map (shard_to_row (Chunk_Id (cs ! j)) (nows ! j)) (Chunk_Shards (cs ! j))"
    using filter_shard_rows [OF ids(1) nows jl] s by simp
  have n: "normal_chunk env (cs ! j)" using norm jl by simp
  have i: "ch_id (chunk_to_row b k u n (int j) (cs ! j)) = Chunk_Id (cs ! j)" by (simp add: chunk_to_row_def)
  show "uuid_valid env (ch_id (chunk_rows b k u n 0 cs ! j)) \<and> row_chunk (chunk_rows b k u n 0 cs ! j)
      (map row_shard (sort_key sh_first (filter (\<lambda>s. sh_chunk s = ch_id (chunk_rows b k u n 0 cs ! j)) (t_shards d')))) = cs ! j"
    unfolding r i f using row_chunk_to_row [OF n] n by (simp add: normal_chunk_def)
qed

section \<open>Storing an object and reading it back\<close>

lemma upsert_object_Inr:
  assumes "upsert_object r d = Inr ((), d')"
  shows "\<exists>r'. find (\<lambda>x. ob_bucket x = ob_bucket r \<and> ob_key x = ob_key r) (t_objects d') = Some r' \<and>
    ob_etag r' = ob_etag r \<and> ob_size r' = ob_size r \<and> ob_ctype r' = ob_ctype r \<and> ob_clevel r' = ob_clevel r \<and>
    ob_bucket r' = ob_bucket r \<and> ob_key r' = ob_key r"
    and "t_chunks d' = t_chunks d" and "t_shards d' = t_shards d" and "kms_keys d' = kms_keys d"
    and "t_parts d' = t_parts d" and "t_uploads d' = t_uploads d"
proof -
  let ?P = "\<lambda>x. ob_bucket x = ob_bucket r \<and> ob_key x = ob_key r"
  let ?f = "\<lambda>x. if (ob_bucket x, ob_key x) = (ob_bucket r, ob_key r)
      then x\<lparr>ob_etag := ob_etag r, ob_size := ob_size r, ob_ctype := ob_ctype r, ob_clevel := ob_clevel r, ob_updated := ob_updated r\<rparr> else x"
  have f: "\<exists>r'. find ?P (map ?f xs) = Some r' \<and> ob_etag r' = ob_etag r \<and> ob_size r' = ob_size r \<and> ob_ctype r' = ob_ctype r \<and>
      ob_clevel r' = ob_clevel r \<and> ob_bucket r' = ob_bucket r \<and> ob_key r' = ob_key r"
    if "(ob_bucket r, ob_key r) \<in> (\<lambda>x. (ob_bucket x, ob_key x)) ` set xs" for xs
    using that by (induction xs) auto
  have g: "find ?P (xs @ [r]) = Some r" if "(ob_bucket r, ob_key r) \<notin> (\<lambda>x. (ob_bucket x, ob_key x)) ` set xs" for xs
    using that by (induction xs) auto
  from assms f [of "t_objects d"] g [of "t_objects d"]
  show "\<exists>r'. find ?P (t_objects d') = Some r' \<and> ob_etag r' = ob_etag r \<and> ob_size r' = ob_size r \<and> ob_ctype r' = ob_ctype r \<and>
      ob_clevel r' = ob_clevel r \<and> ob_bucket r' = ob_bucket r \<and> ob_key r' = ob_key r"
    unfolding upsert_object_def by (auto split: if_splits)
  show "t_chunks d' = t_chunks d" "t_shards d' = t_shards d" "kms_keys d' = kms_keys d" "t_parts d' = t_parts d" "t_uploads d' = t_uploads d"
    using assms by (auto simp: upsert_object_def split: if_splits)
qed

lemma insert_or_ignore_Inr:
  assumes "insert_or_ignore_bucket b now d = Inr ((), d')"
  shows "t_chunks d' = t_chunks d" "t_shards d' = t_shards d" "kms_keys d' = kms_keys d" "t_objects d' = t_objects d"
    "t_parts d' = t_parts d" "t_uploads d' = t_uploads d"
  using assms by (auto simp: insert_or_ignore_bucket_def insert_bucket_def split: if_splits sum.splits)

text \<open>The row an object becomes, and the steps of a successful upsert: \<open>d1\<close> is the database with the new object row.\<close>

definition object_to_row :: "gotime \<Rightarrow> Object \<Rightarrow> object_row" where
  "object_to_row now ob = \<lparr>ob_bucket = loc_bucket (Obj_Location ob), ob_key = Location_Key (Obj_Location ob), ob_etag = FormatUint (ETag ob),
     ob_size = Obj_Size ob, ob_ctype = Compression_Type (Obj_Compression ob), ob_clevel = Compression_Level (Obj_Compression ob),
     ob_created = now, ob_updated = now\<rparr>"

abbreviation owned :: "string \<Rightarrow> string \<Rightarrow> chunk_row \<Rightarrow> bool" where
  "owned b k c \<equiv> ch_bucket c = b \<and> ch_key c = Some k"

definition with_chunks :: "string \<Rightarrow> string \<Rightarrow> Chunk list \<Rightarrow> gotime list \<Rightarrow> database \<Rightarrow> database" where
  "with_chunks b k cs nows d = d\<lparr>t_chunks := t_chunks d @ chunk_rows b (Some k) None None 0 cs, t_shards := t_shards d @ shard_rows cs nows\<rparr>"

lemma upsertObject_steps:
  assumes up: "upsertObject env ob w = (Inr (), t)"
  obtains now d0 d1 nows where "metaDB w" "insert_or_ignore_bucket (loc_bucket (Obj_Location ob)) now (db w) = Inr ((), d0)"
    "upsert_object (object_to_row now ob) d0 = Inr ((), d1)" "length nows = length (Obj_Chunks ob)"
    "distinct (map Chunk_Id (Obj_Chunks ob))"
    "Chunk_Id ` set (Obj_Chunks ob) \<inter> ch_id ` set (t_chunks (delete_chunks (owned (loc_bucket (Obj_Location ob)) (Location_Key (Obj_Location ob))) d1)) = {}"
    "db t = with_chunks (loc_bucket (Obj_Location ob)) (Location_Key (Obj_Location ob)) (Obj_Chunks ob) nows
       (delete_chunks (owned (loc_bucket (Obj_Location ob)) (Location_Key (Obj_Location ob))) d1)"
proof -
  let ?b = "loc_bucket (Obj_Location ob)" and ?k = "Location_Key (Obj_Location ob)"
  from up obtain now w1 w2 w3 w4 w5 where m: "metaDB w"
    and 1: "exec env (insert_or_ignore_bucket ?b now) w1 = (Inr (), w2)" "db w1 = db w"
    and 2: "exec env (upsert_object (object_to_row now ob)) w2 = (Inr (), w3)"
    and 3: "exec env (\<lambda>d. Inr ((), delete_chunks (owned ?b ?k) d)) w3 = (Inr (), w4)"
    and 4: "insertChunks env (Obj_Location ob) (Obj_Chunks ob) w4 = (Inr (), w5)" and t: "t = w5\<lparr>tick := Suc (tick w5)\<rparr>"
    by (auto simp: upsertObject_def object_to_row_def Let_def bindE_eq_Inr_iff getDB_eq transaction_Inr time_Now_eq split: if_splits)
  from 1 2 have "insert_or_ignore_bucket ?b now (db w) = Inr ((), db w2)" "upsert_object (object_to_row now ob) (db w2) = Inr ((), db w3)"
    by (auto simp: exec_Inr)
  moreover have d4: "db w4 = delete_chunks (owned ?b ?k) (db w3)" using 3 by (auto simp: exec_Inr)
  moreover from insert_chunks_Inr [OF 4 [unfolded insertChunks_def]] obtain nows where
    "distinct (map Chunk_Id (Obj_Chunks ob))" "Chunk_Id ` set (Obj_Chunks ob) \<inter> ch_id ` set (t_chunks (db w4)) = {}"
    "length nows = length (Obj_Chunks ob)" "db w5 = with_chunks ?b ?k (Obj_Chunks ob) nows (db w4)"
    unfolding loc_bucket_def with_chunks_def by blast
  ultimately show thesis using m t by (intro that [of now "db w2" "db w3" nows]) simp_all
qed

lemma upsertObject_Inr:
  assumes inv: "db_inv (db w)" and up: "upsertObject env ob w = (Inr (), t)"
  obtains d1 nows r where "db_inv d1" "t_chunks d1 = t_chunks (db w)" "t_shards d1 = t_shards (db w)" "kms_keys d1 = kms_keys (db w)"
    "find (\<lambda>x. ob_bucket x = loc_bucket (Obj_Location ob) \<and> ob_key x = Location_Key (Obj_Location ob)) (t_objects d1) = Some r"
    "ob_etag r = FormatUint (ETag ob)" "ob_size r = Obj_Size ob" "ob_ctype r = Compression_Type (Obj_Compression ob)"
    "ob_clevel r = Compression_Level (Obj_Compression ob)" "metaDB w" "length nows = length (Obj_Chunks ob)"
    "distinct (map Chunk_Id (Obj_Chunks ob))"
    "Chunk_Id ` set (Obj_Chunks ob) \<inter> ch_id ` set (t_chunks (delete_chunks (owned (loc_bucket (Obj_Location ob)) (Location_Key (Obj_Location ob))) d1)) = {}"
    "db t = with_chunks (loc_bucket (Obj_Location ob)) (Location_Key (Obj_Location ob)) (Obj_Chunks ob) nows
       (delete_chunks (owned (loc_bucket (Obj_Location ob)) (Location_Key (Obj_Location ob))) d1)"
proof -
  let ?b = "loc_bucket (Obj_Location ob)" and ?k = "Location_Key (Obj_Location ob)"
  obtain now d0 d1 nows where u: "metaDB w" "insert_or_ignore_bucket ?b now (db w) = Inr ((), d0)"
    "upsert_object (object_to_row now ob) d0 = Inr ((), d1)" "length nows = length (Obj_Chunks ob)"
    "distinct (map Chunk_Id (Obj_Chunks ob))"
    "Chunk_Id ` set (Obj_Chunks ob) \<inter> ch_id ` set (t_chunks (delete_chunks (owned ?b ?k) d1)) = {}"
    "db t = with_chunks ?b ?k (Obj_Chunks ob) nows (delete_chunks (owned ?b ?k) d1)" by (rule upsertObject_steps [OF up])
  have "db_inv d0" using insert_or_ignore_bucket_ok inv u(2) unfolding stmt_ok_def by blast
  then have inv1: "db_inv d1" using upsert_object_ok u(3) unfolding stmt_ok_def by blast
  have row: "ob_bucket (object_to_row now ob) = ?b" "ob_key (object_to_row now ob) = ?k" "ob_etag (object_to_row now ob) = FormatUint (ETag ob)"
      "ob_size (object_to_row now ob) = Obj_Size ob" "ob_ctype (object_to_row now ob) = Compression_Type (Obj_Compression ob)"
      "ob_clevel (object_to_row now ob) = Compression_Level (Obj_Compression ob)" by (simp_all add: object_to_row_def)
  from upsert_object_Inr(1) [OF u(3), unfolded row] obtain r where
    "find (\<lambda>x. ob_bucket x = ?b \<and> ob_key x = ?k) (t_objects d1) = Some r" "ob_etag r = FormatUint (ETag ob)" "ob_size r = Obj_Size ob"
    "ob_ctype r = Compression_Type (Obj_Compression ob)" "ob_clevel r = Compression_Level (Obj_Compression ob)" by blast
  with inv1 u upsert_object_Inr(2-4) [OF u(3)] insert_or_ignore_Inr [OF u(2)] show thesis by (intro that [of d1 r nows]) simp_all
qed

text \<open>Objects at other locations are not touched.\<close>

lemma upsert_object_other:
  assumes "upsert_object r d = Inr ((), d')" and "(b, k) \<noteq> (ob_bucket r, ob_key r)"
  shows "find (\<lambda>x. ob_bucket x = b \<and> ob_key x = k) (t_objects d') = find (\<lambda>x. ob_bucket x = b \<and> ob_key x = k) (t_objects d)"
proof -
  let ?P = "\<lambda>x. ob_bucket x = b \<and> ob_key x = k"
  let ?f = "\<lambda>x. if (ob_bucket x, ob_key x) = (ob_bucket r, ob_key r)
      then x\<lparr>ob_etag := ob_etag r, ob_size := ob_size r, ob_ctype := ob_ctype r, ob_clevel := ob_clevel r, ob_updated := ob_updated r\<rparr> else x"
  have "find ?P (map ?f xs) = find ?P xs" "find ?P (xs @ [r]) = find ?P xs" for xs
    using assms(2) by (induction xs) auto
  with assms(1) show ?thesis by (auto simp: upsert_object_def split: if_splits)
qed

lemma with_chunks_other:
  assumes inv: "db_inv d" and ids: "distinct (map Chunk_Id cs)" "Chunk_Id ` set cs \<inter> ch_id ` set (t_chunks (delete_chunks (owned b k) d)) = {}"
    and len: "length nows = length cs" and ne: "(b', k') \<noteq> (b, k)"
  shows "object_chunk_rows b' k' (with_chunks b k cs nows (delete_chunks (owned b k) d)) = object_chunk_rows b' k' d"
    and "c \<in> set (object_chunk_rows b' k' d) \<Longrightarrow>
      filter (\<lambda>s. sh_chunk s = ch_id c) (t_shards (with_chunks b k cs nows (delete_chunks (owned b k) d))) = filter (\<lambda>s. sh_chunk s = ch_id c) (t_shards d)"
proof -
  have "filter (owned b' k') (chunk_rows b (Some k) None None 0 cs) = []"
    using ne by (auto simp: filter_empty_conv chunk_rows_def chunk_to_row_def)
  moreover have "filter (owned b' k') (filter (\<lambda>c. \<not> owned b k c) xs) = filter (owned b' k') xs" for xs
    using ne by (induction xs) auto
  ultimately show "object_chunk_rows b' k' (with_chunks b k cs nows (delete_chunks (owned b k) d)) = object_chunk_rows b' k' d"
    by (simp add: object_chunk_rows_def with_chunks_def delete_chunks_def)
  assume "c \<in> set (object_chunk_rows b' k' d)"
  then have c: "c \<in> set (t_chunks d)" "owned b' k' c" by (auto simp: object_chunk_rows_def)
  have dist: "distinct (map ch_id (t_chunks d))" using inv by (simp add: db_inv_def keys_unique_def)
  have keep: "ch_id c \<notin> ch_id ` set (filter (owned b k) (t_chunks d))"
    using c ne dist by (auto simp: distinct_map inj_on_def)
  have "c \<in> set (t_chunks (delete_chunks (owned b k) d))" using c ne by (auto simp: delete_chunks_def)
  then have "ch_id c \<notin> Chunk_Id ` set cs" using ids(2) by blast
  then have "filter (\<lambda>s. sh_chunk s = ch_id c) (shard_rows cs nows) = []"
    by (force simp: shard_rows_def filter_empty_conv shard_to_row_def dest!: set_zip_leftD)
  moreover have "filter (\<lambda>s. sh_chunk s = ch_id c) (filter (\<lambda>s. sh_chunk s \<notin> ch_id ` set (filter (owned b k) (t_chunks d))) xs)
      = filter (\<lambda>s. sh_chunk s = ch_id c) xs" for xs using keep by (induction xs) auto
  ultimately show "filter (\<lambda>s. sh_chunk s = ch_id c) (t_shards (with_chunks b k cs nows (delete_chunks (owned b k) d)))
      = filter (\<lambda>s. sh_chunk s = ch_id c) (t_shards d)"
    by (simp add: with_chunks_def delete_chunks_def)
qed

lemma chunk_rows_owner:
  "filter (\<lambda>c. ch_bucket c = b \<and> ch_key c = Some k) (chunk_rows b (Some k) None None i cs) = chunk_rows b (Some k) None None i cs"
  by (auto simp: chunk_rows_def chunk_to_row_def filter_id_conv)

lemma chunk_rows_sorted: "sorted (map ch_ordinal (chunk_rows b k u n i cs))"
  by (auto simp: chunk_rows_def chunk_to_row_def sorted_iff_nth_mono nth_enumerate_eq)

lemma upsertObject_read:
  assumes inv: "db_inv (db w)" and up: "upsertObject env ob w = (Inr (), t)"
    and norm: "\<forall>c \<in> set (Obj_Chunks ob). normal_chunk env c"
  shows "\<exists>r. find (\<lambda>x. ob_bucket x = loc_bucket (Obj_Location ob) \<and> ob_key x = Location_Key (Obj_Location ob)) (t_objects (db t)) = Some r \<and>
      ob_etag r = FormatUint (ETag ob) \<and> ob_size r = Obj_Size ob \<and> ob_ctype r = Compression_Type (Obj_Compression ob) \<and>
      ob_clevel r = Compression_Level (Obj_Compression ob)"
    and "holds_chunks env (db t) (object_chunk_rows (loc_bucket (Obj_Location ob)) (Location_Key (Obj_Location ob)) (db t)) (Obj_Chunks ob)"
    and "metaDB t" and "kms_keys (db t) = kms_keys (db w)"
proof -
  let ?b = "loc_bucket (Obj_Location ob)" and ?k = "Location_Key (Obj_Location ob)"
  let ?P = "\<lambda>c. ch_bucket c = ?b \<and> ch_key c = Some ?k"
  obtain d1 nows r where d1: "db_inv d1" "t_chunks d1 = t_chunks (db w)" "t_shards d1 = t_shards (db w)" "kms_keys d1 = kms_keys (db w)"
    and r: "find (\<lambda>x. ob_bucket x = ?b \<and> ob_key x = ?k) (t_objects d1) = Some r"
      "ob_etag r = FormatUint (ETag ob)" "ob_size r = Obj_Size ob" "ob_ctype r = Compression_Type (Obj_Compression ob)"
      "ob_clevel r = Compression_Level (Obj_Compression ob)" and m: "metaDB w"
    and ids: "length nows = length (Obj_Chunks ob)" "distinct (map Chunk_Id (Obj_Chunks ob))"
      "Chunk_Id ` set (Obj_Chunks ob) \<inter> ch_id ` set (t_chunks (delete_chunks ?P d1)) = {}"
    and t: "db t = with_chunks ?b ?k (Obj_Chunks ob) nows (delete_chunks ?P d1)" by (rule upsertObject_Inr [OF inv up])
  have o: "t_objects (db t) = t_objects d1" "kms_keys (db t) = kms_keys d1" unfolding t by (simp_all add: with_chunks_def delete_chunks_def)
  then show "\<exists>r. find (\<lambda>x. ob_bucket x = ?b \<and> ob_key x = ?k) (t_objects (db t)) = Some r \<and>
      ob_etag r = FormatUint (ETag ob) \<and> ob_size r = Obj_Size ob \<and> ob_ctype r = Compression_Type (Obj_Compression ob) \<and>
      ob_clevel r = Compression_Level (Obj_Compression ob)" using r by simp
  show "kms_keys (db t) = kms_keys (db w)" using o d1 by simp
  show "metaDB t" using keepsD [OF upsertObject_frames(2) up] m by (simp add: store_same_def)
  have "refs_ok (delete_chunks ?P d1)" using delete_chunks_ok [OF d1(1)] by (simp add: db_inv_def)
  from inserted_holds [OF this ids(2,3,1) norm, of "db t"]
  have h: "holds_chunks env (db t) (chunk_rows ?b (Some ?k) None None 0 (Obj_Chunks ob)) (Obj_Chunks ob)"
    unfolding t by (simp add: with_chunks_def)
  have "filter ?P (t_chunks (delete_chunks ?P d1)) = []" by (auto simp: delete_chunks_def filter_empty_conv)
  then have "filter ?P (t_chunks (db t)) = chunk_rows ?b (Some ?k) None None 0 (Obj_Chunks ob)"
    unfolding t using chunk_rows_owner by (simp add: with_chunks_def)
  then have "object_chunk_rows ?b ?k (db t) = chunk_rows ?b (Some ?k) None None 0 (Obj_Chunks ob)"
    unfolding object_chunk_rows_def by (simp add: sort_key_id_if_sorted chunk_rows_sorted)
  with h show "holds_chunks env (db t) (object_chunk_rows ?b ?k (db t)) (Obj_Chunks ob)" by simp
qed

lemma meta_GetObject_holds:
  assumes nf: "no_faults env" and m: "metaDB w"
    and r: "find (\<lambda>x. ob_bucket x = loc_bucket loc \<and> ob_key x = Location_Key loc) (t_objects (db w)) = Some r"
    and e: "ob_etag r = FormatUint etag"
    and h: "holds_chunks env (db w) (object_chunk_rows (loc_bucket loc) (Location_Key loc) (db w)) cs"
  shows "\<exists>n. meta_GetObject env loc w = (Inr (row_object loc r cs etag), w\<lparr>tick := n\<rparr>)"
proof -
  have nf': "\<not> fault env k" for k using nf by (simp add: no_faults_def)
  let ?w = "w\<lparr>tick := Suc (Suc (tick w))\<rparr>"
  obtain n where c: "chunkRowsToChunks env (object_chunk_rows (loc_bucket loc) (Location_Key loc) (db w)) ?w = (Inr cs, ?w\<lparr>tick := n\<rparr>)"
    using chunkRowsToChunks_holds [OF nf, of ?w] h by auto
  have "meta_GetObject env loc w = (Inr (row_object loc r cs etag), w\<lparr>tick := n\<rparr>)"
    using m r e c u64.parse_enc [of etag] nf'
    by (simp add: meta_GetObject_def getDB_eq query_row_def query_eq getChunks_def loc_bucket_def bindE_def returnE_def liftE_def)
  then show ?thesis by blast
qed

end
