(* ===== verification/Manager_Laws.thy ===== *)
theory Manager_Laws
  imports Metadata_Laws
begin

text \<open>
  The object manager is correct: what was put is read back, byte for byte and range by range, as long as no more
  than \<open>FailureTolerance\<close> backends are lost; a put succeeds when the backends are healthy.
\<close>

section \<open>What an object in the store is\<close>

definition object_stored :: "'r env \<Rightarrow> BackendType list \<Rightarrow> ('r, 'x) world_scheme \<Rightarrow> ObjectLocation \<Rightarrow> uint64 \<Rightarrow> bytes \<Rightarrow> Chunk list \<Rightarrow> bool" where
  "object_stored env bs w loc etag data cs \<longleftrightarrow>
     (\<exists>r ps. find (\<lambda>x. ob_bucket x = loc_bucket loc \<and> ob_key x = Location_Key loc) (t_objects (db w)) = Some r \<and>
        ob_etag r = FormatUint etag \<and> ob_size r = int (length data) \<and>
        holds_chunks env (db w) (object_chunk_rows (loc_bucket loc) (Location_Key loc) (db w)) cs \<and>
        concat ps = data \<and> list_all2 (chunk_stored env bs \<lparr>Compression_Type = ob_ctype r, Compression_Level = ob_clevel r\<rparr> w) ps cs)"

lemma upsertObject_stable: "keeps (stable env) (upsertObject env ob)"
proof (rule keepsI)
  fix w :: "('a, 'b) world_scheme"
  obtain r t where u: "upsertObject env ob w = (r, t)" by (cases "upsertObject env ob w")
  have inv: "db_inv (db t)" if "db_inv (db w)"
    using keepsD [OF upsertObject_frames(1) u] that by (simp add: db_step_def)
  have "kms_keys (db t) = kms_keys (db w)" if i: "db_inv (db w)"
  proof (cases r)
    case (Inl e)
    then have "db t = db w" using u
      by (auto simp: upsertObject_def Let_def bindE_eq_Inl_iff getDB_eq split: if_splits dest: transaction_Inl)
    then show ?thesis by simp
  next
    case (Inr x)
    have x: "upsertObject env ob w = (Inr (), t)" using u Inr by simp
    show ?thesis by (rule upsertObject_Inr [OF i x]) (simp add: with_chunks_def delete_chunks_def)
  qed
  with inv have "db_inv (db t) \<and> (\<forall>k r. live_key k (db w) = Some r \<longrightarrow> live_key k (db t) = Some r)" if "db_inv (db w)"
    using that by (simp add: live_key_def)
  then have "stable env w t" by (rule store_same_stable [OF keepsD [OF upsertObject_frames(2) u]])
  then show "stable env w (snd (upsertObject env ob w))" using u by simp
qed

lemma GetCurrentTime_eq: "GetCurrentTime env w = (Inr (now_at env (tick w)), w\<lparr>tick := Suc (tick w)\<rparr>)"
  by (simp add: GetCurrentTime_def time_Now_eq)

section \<open>Put, then get\<close>

lemma PutObjectStream_Inr:
  assumes hyp: "rs_law env" "crypto_law env" "iface_ok env w" "db_inv (db w)" "distinct (availableBackends w)" "0 < ChunkSize (Cfg env)"
    and p: "PutObjectStream env loc r w = (Inr ob, t)"
  shows "object_stored env (availableBackends w) t loc (xxhash64 env (rd_data r)) (rd_data r) (Obj_Chunks ob)"
    and "stable env w t" and "metaDB t" and "Obj_Size ob = int (length (rd_data r))" and "ETag ob = xxhash64 env (rd_data r)"
    and "Obj_Location ob = loc"
proof -
  let ?cmp = "configured_compression env" and ?bs = "availableBackends w"
  from p obtain ty cs len h w1 where
    c: "ChunkStream env r ty ?cmp ?bs (ChunkConcurrency (Cfg env)) w = (Inr (cs, len, h), w1)"
    and ob: "ob = \<lparr>Obj_Location = loc, Obj_Size = len, Obj_Compression = ?cmp, LastModified = now_at env (tick w1), ETag = h, Obj_Chunks = cs\<rparr>"
    and u: "upsertObject env ob (w1\<lparr>tick := Suc (tick w1)\<rparr>) = (Inr (), t)"
    by (auto simp: PutObjectStream_def bindE_eq_Inr_iff GetAvailableBackends_def GetCurrentTime_eq meta_PutObject_def Let_def)
  let ?w2 = "w1\<lparr>tick := Suc (tick w1)\<rparr>"
  note cs = ChunkStream_Inr [OF hyp c]
  have s2: "stable env w ?w2" by (rule stab.transR [OF cs(4) tick_stable])
  have s3: "stable env ?w2 t" by (rule keepsD [OF upsertObject_stable u])
  show st: "stable env w t" by (rule stab.transR [OF s2 s3])
  have ok1: "iface_ok env w1" "db_inv (db w1)" "iface_ok env ?w2" "db_inv (db ?w2)"
    using hyp(3,4) cs(4) s2 iface.grows_ok by (auto simp: stable_def)
  have norm: "\<forall>c \<in> set (Obj_Chunks ob). normal_chunk env c" using cs(6) ob by (simp add: made_def)
  have i2: "db_inv (db ?w2)" using ok1 by simp
  note rd = upsertObject_read [OF i2 u norm]
  have "list_all2 (chunk_stored env ?bs ?cmp t) (pieces (nat (ChunkSize (Cfg env))) (rd_data r)) cs"
    using cs(5) chunk_stored_from [OF cs(4) hyp(3,4) stab.transR [OF tick_stable s3]] by (auto elim!: list_all2_mono)
  moreover have "concat (pieces (nat (ChunkSize (Cfg env))) (rd_data r)) = rd_data r"
    using hyp(6) by (simp add: concat_pieces)
  ultimately show "object_stored env ?bs t loc (xxhash64 env (rd_data r)) (rd_data r) (Obj_Chunks ob)"
    using rd(1,2) cs(2,3) ob unfolding object_stored_def
    by (auto simp: configured_compression_def)
  show "metaDB t" by (rule rd(3))
  show "Obj_Size ob = int (length (rd_data r))" "ETag ob = xxhash64 env (rd_data r)" "Obj_Location ob = loc"
    using cs(2,3) ob by simp_all
qed

text \<open>Reading an object in a state where some backends are lost.\<close>

definition lossy :: "'r env \<Rightarrow> BackendType set \<Rightarrow> Chunk list \<Rightarrow> ('r, 'x) world_scheme \<Rightarrow> ('r, 'x) world_scheme \<Rightarrow> bool" where
  "lossy env F cs w u \<longleftrightarrow> finite F \<and> int (card F) \<le> FailureTolerance (Cfg env) \<and> degraded env F cs w u \<and>
     db u = db w \<and> metaDB u"

lemma streamRange_stored:
  assumes hyp: "rs_law env" "crypto_law env" "zstd_law env" "no_faults env" "distinct bs"
    and st: "list_all2 (chunk_stored env bs cmp w) ps cs" and data: "concat ps = data"
    and F: "finite F" "int (card F) \<le> FailureTolerance (Cfg env)" "degraded env F cs w u"
  shows "fst (streamRangeFromChunks env cs cmp (int (length data)) b e u) =
    (case normalizeRange (int (length data)) b e of Inl x \<Rightarrow> Inl x
     | Inr (b', e') \<Rightarrow> Inr (take (nat e' - nat b') (drop (nat b') data), None))"
proof (cases "normalizeRange (int (length data)) b e")
  case (Inl x)
  then show ?thesis by (simp add: streamRangeFromChunks_def bindE_def liftE_def)
next
  case (Inr q)
  obtain b' e' where q: "q = (b', e')" by (cases q)
  obtain u' where "CollectChunksStream env cs cmp (nat e') u = (Inr (take (nat e') data, None), u')"
    using CollectChunksStream_stored [OF hyp F(1,2) st F(3), of "nat e'"] data by blast
  with Inr q show ?thesis
    by (simp add: streamRangeFromChunks_def bindE_def returnE_def liftE_def drop_take)
qed

lemma meta_GetObject_stored:
  assumes hyp: "rs_law env" "crypto_law env" "zstd_law env" "no_faults env" "distinct bs"
    and st: "object_stored env bs w loc etag data cs" and l: "lossy env F cs w u"
  shows "\<exists>r n. ob_size r = int (length data) \<and> meta_GetObject env loc u = (Inr (row_object loc r cs etag), u\<lparr>tick := n\<rparr>) \<and>
    (\<forall>b e. fst (Object_GetDataStream env (row_object loc r cs etag) b e (u\<lparr>tick := n\<rparr>)) =
      (case normalizeRange (int (length data)) b e of Inl x \<Rightarrow> Inl x
       | Inr (b', e') \<Rightarrow> Inr (take (nat e' - nat b') (drop (nat b') data), None)))"
proof -
  from st obtain r ps where r: "find (\<lambda>x. ob_bucket x = loc_bucket loc \<and> ob_key x = Location_Key loc) (t_objects (db w)) = Some r"
      "ob_etag r = FormatUint etag" "ob_size r = int (length data)"
    and h: "holds_chunks env (db w) (object_chunk_rows (loc_bucket loc) (Location_Key loc) (db w)) cs"
    and ps: "concat ps = data" "list_all2 (chunk_stored env bs \<lparr>Compression_Type = ob_ctype r, Compression_Level = ob_clevel r\<rparr> w) ps cs"
    unfolding object_stored_def by blast
  have u: "db u = db w" "metaDB u" "finite F" "int (card F) \<le> FailureTolerance (Cfg env)" "degraded env F cs w u"
    using l by (simp_all add: lossy_def)
  obtain n where n: "meta_GetObject env loc u = (Inr (row_object loc r cs etag), u\<lparr>tick := n\<rparr>)"
    using meta_GetObject_holds [OF hyp(4) u(2), of loc r etag cs] r(1,2) h unfolding u(1) by blast
  have d: "degraded env F cs w (u\<lparr>tick := n\<rparr>)" by (rule degraded_calm [OF u(5) tick_calm])
  have "fst (Object_GetDataStream env (row_object loc r cs etag) b e (u\<lparr>tick := n\<rparr>)) =
      (case normalizeRange (int (length data)) b e of Inl x \<Rightarrow> Inl x
       | Inr (b', e') \<Rightarrow> Inr (take (nat e' - nat b') (drop (nat b') data), None))" for b e
    using streamRange_stored [OF hyp ps(2,1) u(3,4) d, of b e] r(3) by (simp add: Object_GetDataStream_def row_object_def)
  with n r(3) show ?thesis by blast
qed

lemma GetObject_stored:
  assumes hyp: "rs_law env" "crypto_law env" "zstd_law env" "no_faults env" "distinct bs"
    and st: "object_stored env bs w loc etag data cs" and l: "lossy env F cs w u"
  shows "\<exists>ob u'. GetObject env loc u = (Inr ob, u') \<and> Obj_Size ob = int (length data) \<and> ETag ob = etag \<and> Obj_Location ob = loc \<and>
    Obj_Chunks ob = cs \<and>
    fst (Object_GetData env ob b e u') = (case normalizeRange (int (length data)) b e of Inl x \<Rightarrow> Inl x
      | Inr (b', e') \<Rightarrow> Inr (take (nat e' - nat b') (drop (nat b') data)))"
proof -
  obtain r n where r: "ob_size r = int (length data)" "meta_GetObject env loc u = (Inr (row_object loc r cs etag), u\<lparr>tick := n\<rparr>)"
    and d: "\<And>b e. fst (Object_GetDataStream env (row_object loc r cs etag) b e (u\<lparr>tick := n\<rparr>)) =
      (case normalizeRange (int (length data)) b e of Inl x \<Rightarrow> Inl x
       | Inr (b', e') \<Rightarrow> Inr (take (nat e' - nat b') (drop (nat b') data), None))"
    using meta_GetObject_stored [OF hyp st l] by blast
  let ?ob = "row_object loc r cs etag"
  obtain z u' where z: "Object_GetDataStream env ?ob b e (u\<lparr>tick := n\<rparr>) = (z, u')"
    by (cases "Object_GetDataStream env ?ob b e (u\<lparr>tick := n\<rparr>)")
  with d [of b e] have "z = (case normalizeRange (int (length data)) b e of Inl x \<Rightarrow> Inl x
     | Inr (b', e') \<Rightarrow> Inr (take (nat e' - nat b') (drop (nat b') data), None))" by simp
  with z have "fst (Object_GetData env ?ob b e (u\<lparr>tick := n\<rparr>)) = (case normalizeRange (int (length data)) b e of Inl x \<Rightarrow> Inl x
      | Inr (b', e') \<Rightarrow> Inr (take (nat e' - nat b') (drop (nat b') data)))"
    by (auto simp: Object_GetData_def bindE_def ReadAll_def liftE_def split: sum.splits prod.splits)
  with r show ?thesis by (simp add: GetObject_def row_object_def)
qed

section \<open>When a put succeeds\<close>

lemma exec_succeeds: "no_faults env \<Longrightarrow> st (db w) = Inr (x, d') \<Longrightarrow> exec env st w = (Inr x, w\<lparr>tick := Suc (tick w), db := d'\<rparr>)"
  by (simp add: exec_eq no_faults_def)

lemma tick_after_db: "w\<lparr>db := d, tick := n\<rparr> = w\<lparr>tick := n, db := d\<rparr>"
  by (cases w) simp

lemma upsert_object_defined: "ob_bucket r \<in> bk_name ` set (t_buckets d) \<Longrightarrow> \<exists>d'. upsert_object r d = Inr ((), d')"
  by (simp add: upsert_object_def)

lemma find_object_key:
  "find (\<lambda>x. ob_bucket x = b \<and> ob_key x = k) os = Some r \<Longrightarrow> (b, k) \<in> (\<lambda>x. (ob_bucket x, ob_key x)) ` set os"
  by (induction os) (auto split: if_splits)

lemma insert_shards_succeeds:
  assumes nf: "no_faults env" and "i \<in> ch_id ` set (t_chunks (db w))" and "sorted_wrt (<) (map First ss)"
    and "\<forall>s \<in> set ss. \<forall>x \<in> set (t_shards (db w)). sh_chunk x = i \<longrightarrow> sh_first x \<noteq> First s"
  shows "\<exists>t. forE (\<lambda>s. exec env (insert_shard_row (shard_to_row i now s))) ss w = (Inr (), t)"
  using assms(2-)
proof (induction ss arbitrary: w)
  case (Cons s ss)
  let ?d = "(db w)\<lparr>t_shards := t_shards (db w) @ [shard_to_row i now s]\<rparr>"
  have "insert_shard_row (shard_to_row i now s) (db w) = Inr ((), ?d)"
    using Cons.prems(1,3) by (auto simp: insert_shard_row_def shard_to_row_def)
  from exec_succeeds [where st = "insert_shard_row (shard_to_row i now s)", OF nf this]
  have e: "exec env (insert_shard_row (shard_to_row i now s)) w = (Inr (), w\<lparr>tick := Suc (tick w), db := ?d\<rparr>)" .
  have "\<forall>x \<in> set ss. First s < First x" using Cons.prems(2) by simp
  then have "\<exists>t. forE (\<lambda>s. exec env (insert_shard_row (shard_to_row i now s))) ss (w\<lparr>tick := Suc (tick w), db := ?d\<rparr>) = (Inr (), t)"
    using Cons.prems by (intro Cons.IH) (auto simp: shard_to_row_def)
  then show ?case by (simp add: bindE_Inr [where m = "exec env (insert_shard_row (shard_to_row i now s))", OF e])
qed simp

text \<open>The owner of a chunk is an object (\<open>k\<close>) or a part (\<open>u\<close> and \<open>n\<close>); it has to exist, and its ordinals to be free.\<close>

definition owner_ok :: "database \<Rightarrow> string \<Rightarrow> string option \<Rightarrow> string option \<Rightarrow> int option \<Rightarrow> bool" where
  "owner_ok d b k u n \<longleftrightarrow> (k = None) \<noteq> (u = None) \<and> (case k of None \<Rightarrow> True | Some k' \<Rightarrow> (b, k') \<in> obj_keys d) \<and>
     (case (u, n) of (Some u', Some n') \<Rightarrow> (u', n') \<in> part_keys d | _ \<Rightarrow> True)"

definition same_owner :: "string \<Rightarrow> string option \<Rightarrow> string option \<Rightarrow> int option \<Rightarrow> chunk_row \<Rightarrow> bool" where
  "same_owner b k u n x \<longleftrightarrow> k \<noteq> None \<and> ch_bucket x = b \<and> ch_key x = k \<or> u \<noteq> None \<and> n \<noteq> None \<and> ch_upload x = u \<and> ch_part x = n"

lemma insertChunk_succeeds:
  assumes nf: "no_faults env" and inv: "db_inv (db w)" and k: "owner_ok (db w) b k u n"
    and o: "\<forall>x \<in> set (t_chunks (db w)). same_owner b k u n x \<longrightarrow> ch_ordinal x < i"
    and c: "Chunk_Id c \<notin> ch_id ` set (t_chunks (db w))" "normal_chunk env c"
      "Encryption_Type (Chunk_Encryption c) \<noteq> 0 \<longrightarrow> Encryption_KeyId (Chunk_Encryption c) \<in> kms_ids (db w)"
  shows "\<exists>t. insertChunk env b k u n i c w = (Inr (), t)"
proof -
  let ?r = "chunk_to_row b k u n i c"
  let ?d = "(db w)\<lparr>t_chunks := t_chunks (db w) @ [?r]\<rparr>"
  have r: "ch_id ?r = Chunk_Id c" "ch_bucket ?r = b" "ch_key ?r = k" "ch_upload ?r = u" "ch_part ?r = n" "ch_ordinal ?r = i"
    by (simp_all add: chunk_to_row_def)
  have "chunk_refs_ok (db w) ?r" using k c(3) by (auto simp: chunk_refs_def chunk_to_row_def owner_ok_def split: option.splits)
  moreover have "\<not> ordinal_clash ?r x" if "x \<in> set (t_chunks (db w))" for x
    using o that r by (auto simp: ordinal_clash_def same_owner_def)
  ultimately have "insert_chunk_row ?r (db w) = Inr ((), ?d)" using c(1) r(1) unfolding insert_chunk_row_def by auto
  from exec_succeeds [where st = "insert_chunk_row ?r", OF nf this]
  have e: "exec env (insert_chunk_row ?r) w = (Inr (), w\<lparr>tick := Suc (tick w), db := ?d\<rparr>)" .
  let ?w = "w\<lparr>tick := Suc (Suc (tick w)), db := ?d\<rparr>"
  have "\<forall>x \<in> set (t_shards (db w)). sh_chunk x \<noteq> Chunk_Id c"
    using inv c(1) unfolding db_inv_def refs_ok_def by metis
  then have "\<exists>t. forE (\<lambda>s. exec env (insert_shard_row (shard_to_row (Chunk_Id c) (now_at env (Suc (tick w))) s))) (Chunk_Shards c) ?w = (Inr (), t)"
    using c(2) r(1) by (intro insert_shards_succeeds [OF nf]) (auto simp: normal_chunk_def)
  then show ?thesis
    by (simp add: insertChunk_def bindE_def e insertShards_def time_Now_eq tick_after_db)
qed

lemma insert_chunks_succeeds:
  assumes nf: "no_faults env" and "db_inv (db w)" and "owner_ok (db w) b k u n"
    and "\<forall>x \<in> set (t_chunks (db w)). same_owner b k u n x \<longrightarrow> ch_ordinal x < int i"
    and "distinct (map Chunk_Id cs)" "Chunk_Id ` set cs \<inter> ch_id ` set (t_chunks (db w)) = {}"
    and "\<forall>c \<in> set cs. normal_chunk env c \<and>
      (Encryption_Type (Chunk_Encryption c) \<noteq> 0 \<longrightarrow> Encryption_KeyId (Chunk_Encryption c) \<in> kms_ids (db w))"
  shows "\<exists>t. forE (\<lambda>(i, c). insertChunk env b k u n (int i) c) (enumerate i cs) w = (Inr (), t)"
  using assms(2-)
proof (induction cs arbitrary: i w)
  case (Cons c cs)
  have c: "Chunk_Id c \<notin> ch_id ` set (t_chunks (db w))" "normal_chunk env c"
      "Encryption_Type (Chunk_Encryption c) \<noteq> 0 \<longrightarrow> Encryption_KeyId (Chunk_Encryption c) \<in> kms_ids (db w)"
    using Cons.prems(5,6) by auto
  obtain w1 where w1: "insertChunk env b k u n (int i) c w = (Inr (), w1)"
    using insertChunk_succeeds [OF nf Cons.prems(1-3) c] by blast
  from insertChunk_Inr [OF w1] obtain now where d1: "db w1 = (db w)\<lparr>t_chunks := t_chunks (db w) @ [chunk_to_row b k u n (int i) c],
       t_shards := t_shards (db w) @ map (shard_to_row (Chunk_Id c) now) (Chunk_Shards c)\<rparr>" by blast
  have r: "ch_id (chunk_to_row b k u n (int i) c) = Chunk_Id c" "ch_ordinal (chunk_to_row b k u n (int i) c) = int i"
    by (simp_all add: chunk_to_row_def)
  have "db_inv (db w1)" using keepsD [OF chunks_frames(7) w1] Cons.prems(1) by (simp add: db_step_def)
  moreover have "owner_ok (db w1) b k u n" using Cons.prems(2) by (simp add: d1 owner_ok_def split: option.splits)
  moreover have "\<forall>x \<in> set (t_chunks (db w1)). same_owner b k u n x \<longrightarrow> ch_ordinal x < int (Suc i)"
    using Cons.prems(3) r(2) by (auto simp: d1)
  moreover have "Chunk_Id ` set cs \<inter> ch_id ` set (t_chunks (db w1)) = {}"
    using Cons.prems(4,5) r(1) by (auto simp: d1)
  ultimately have "\<exists>t. forE (\<lambda>(i, c). insertChunk env b k u n (int i) c) (enumerate (Suc i) cs) w1 = (Inr (), t)"
    using Cons.prems(4,6) by (intro Cons.IH) (auto simp: d1)
  then show ?case using w1 by simp
qed simp

lemma upsertObject_succeeds:
  assumes nf: "no_faults env" and inv: "db_inv (db w)" and m: "metaDB w"
    and ids: "distinct (map Chunk_Id (Obj_Chunks ob))" "Chunk_Id ` set (Obj_Chunks ob) \<inter> ch_id ` set (t_chunks (db w)) = {}"
    and c: "\<forall>c \<in> set (Obj_Chunks ob). normal_chunk env c \<and>
      (Encryption_Type (Chunk_Encryption c) \<noteq> 0 \<longrightarrow> Encryption_KeyId (Chunk_Encryption c) \<in> kms_ids (db w))"
  shows "\<exists>t. upsertObject env ob w = (Inr (), t)"
proof -
  let ?b = "loc_bucket (Obj_Location ob)" and ?k = "Location_Key (Obj_Location ob)"
  let ?P = "\<lambda>c. ch_bucket c = ?b \<and> ch_key c = Some ?k"
  have nf': "\<not> fault env k" for k using nf by (simp add: no_faults_def)
  let ?now = "now_at env (Suc (tick w))"
  let ?r = "\<lparr>ob_bucket = ?b, ob_key = ?k, ob_etag = FormatUint (ETag ob), ob_size = Obj_Size ob,
     ob_ctype = Compression_Type (Obj_Compression ob), ob_clevel = Compression_Level (Obj_Compression ob), ob_created = ?now, ob_updated = ?now\<rparr>"
  obtain d1 where d1: "insert_or_ignore_bucket ?b ?now (db w) = Inr ((), d1)" "?b \<in> bk_name ` set (t_buckets d1)"
    by (cases "?b \<in> bk_name ` set (t_buckets (db w))") (auto simp: insert_or_ignore_bucket_def insert_bucket_def)
  obtain d2 where d2: "upsert_object ?r d1 = Inr ((), d2)" using upsert_object_defined [of ?r d1] d1(2) by auto
  have i2: "db_inv d2" using insert_or_ignore_bucket_ok upsert_object_ok inv d1(1) d2 unfolding stmt_ok_def by blast
  note t = upsert_object_Inr [OF d2] insert_or_ignore_Inr [OF d1(1)]
  let ?d3 = "delete_chunks ?P d2"
  let ?w = "w\<lparr>tick := Suc (Suc (Suc (Suc (Suc (tick w))))), db := ?d3\<rparr>"
  have "(?b, ?k) \<in> obj_keys d2" using t(1) find_object_key [of ?b ?k "t_objects d2"] by auto
  then have "owner_ok (db ?w) ?b (Some ?k) None None" by (simp add: delete_chunks_def owner_ok_def)
  moreover have "db_inv (db ?w)" using delete_chunks_ok [OF i2] by simp
  moreover have "\<forall>x \<in> set (t_chunks (db ?w)). same_owner ?b (Some ?k) None None x \<longrightarrow> ch_ordinal x < int 0"
    by (auto simp: delete_chunks_def same_owner_def)
  moreover have "t_chunks d2 = t_chunks (db w)" "kms_keys d2 = kms_keys (db w)" using t by simp_all
  then have "Chunk_Id ` set (Obj_Chunks ob) \<inter> ch_id ` set (t_chunks (db ?w)) = {}" "kms_ids (db ?w) = kms_ids (db w)"
    using ids(2) by (auto simp: delete_chunks_def)
  ultimately obtain w5 where "insertChunks env (Obj_Location ob) (Obj_Chunks ob) ?w = (Inr (), w5)"
    using insert_chunks_succeeds [OF nf, of ?w ?b "Some ?k" None None 0 "Obj_Chunks ob"] ids(1) c unfolding insertChunks_def loc_bucket_def by auto
  then have "upsertObject env ob w = (Inr (), w5\<lparr>tick := Suc (tick w5)\<rparr>)"
    using m d1 d2 nf' by (simp add: upsertObject_def Let_def bindE_def getDB_eq transaction_def ext_call_eq time_Now_eq exec_eq returnE_def tick_after_db)
  then show ?thesis by blast
qed

text \<open>Every chunk identifier in the database was drawn in the past.\<close>

definition ids_past :: "'r env \<Rightarrow> ('r, 'x) world_scheme \<Rightarrow> bool" where
  "ids_past env w \<longleftrightarrow> (\<forall>c \<in> set (t_chunks (db w)). \<exists>k < tick w. ch_id c = uuid_new env k)"

lemma made_new_id: "made env w0 w c \<Longrightarrow> ids_past env w0 \<Longrightarrow> uuid_law env \<Longrightarrow> Chunk_Id c \<notin> ch_id ` set (t_chunks (db w0))"
  by (auto simp: made_def ids_past_def uuid_new_inject)

text \<open>The chunker leaves the object tables alone.\<close>

definition same_tables :: "('r, 'x) world_scheme \<Rightarrow> ('r, 'x) world_scheme \<Rightarrow> bool" where
  "same_tables w w' \<longleftrightarrow> t_buckets (db w') = t_buckets (db w) \<and> t_objects (db w') = t_objects (db w) \<and> t_uploads (db w') = t_uploads (db w) \<and>
     t_parts (db w') = t_parts (db w) \<and> t_chunks (db w') = t_chunks (db w) \<and> t_shards (db w') = t_shards (db w) \<and> metaDB w' = metaDB w"

interpretation tabs: frame_rel same_tables
  by unfold_locales (auto simp: same_tables_def)

lemma same_more_tables: "same_more w w' \<Longrightarrow> same_tables w w'" for w w' :: "('r, 'x) world_scheme"
  using same_more_world [of w w'] by (simp add: same_tables_def)

lemma host_tables:
  "keeps same_tables (query env f)" "keeps same_tables (ext_call env)" "keeps same_tables (time_Now env)"
  "keeps same_tables (rand_Read env n)" "keeps same_tables (readPassword env path)" "keeps same_tables getDefaultKMS"
  "keeps same_tables next_tick" "keeps same_tables (uuid_New env)" "keeps same_tables (exec env (insert_kms c now))"
  by (auto simp: keeps_def query_eq ext_call_eq time_Now_eq rand_Read_eq readPassword_eq getDefaultKMS_def bindE_def uuid_New_eq
      next_tick_def returnE_def raiseE_def exec_eq insert_kms_def Let_def same_tables_def split: option.split)

lemma Encrypt_tables: "keeps same_tables (Encrypt env d ty)"
  unfolding Encrypt_def encryptAES256GCM_def encryptChaCha20Poly1305_def CreateKey_def kms_CreateKey_def getKey_def
    kms_GetKey_def encryptJSON_def Let_def
  by (intro tabs.keeps_rules host_tables)

lemma PutShard_tables: "keeps (same_tables :: ('r, 'x) world_scheme \<Rightarrow> _) (PutShard env b d)"
  by (rule keepsI) (rule same_more_tables [OF keeps_snd [OF shard_same_more(2)]])

lemma tick_tables: "same_tables w (w\<lparr>tick := n\<rparr>)"
  by (simp add: same_tables_def)

lemma processChunk_tables: "keeps (same_tables :: ('r, 'x) world_scheme \<Rightarrow> _) (processChunk env data ty cmp bs)"
  unfolding processChunk_def split_def
  by (intro tabs.keeps_rules host_tables Encrypt_tables ShardData_keeps [OF tabs.frame_rel_axioms PutShard_tables tick_tables])

lemma DeleteChunk_tables: "keeps (same_tables :: ('r, 'x) world_scheme \<Rightarrow> _) (DeleteChunk env c)"
proof -
  have "keeps (same_tables :: ('r, 'x) world_scheme \<Rightarrow> _) (DeleteShard env b l)" for b l
    by (rule keepsI) (rule same_more_tables [OF keeps_snd [OF shard_same_more(3)]])
  then show ?thesis unfolding DeleteChunk_def DestroyShards_def by (intro tabs.keeps_forE)
qed

lemma ChunkStream_tables: "keeps (same_tables :: ('r, 'x) world_scheme \<Rightarrow> _) (ChunkStream env r ty cmp bs conc)"
  by (rule ChunkStream_keeps [OF tabs.frame_rel_axioms processChunk_tables DeleteChunk_tables tick_tables])

lemma live_key_exists: "live_key k d = Some r \<Longrightarrow> k \<in> kms_ids d"
proof -
  assume "live_key k d = Some r"
  then have "r \<in> set (kms_keys d)" "kms_id r = k" by (auto simp: live_key_def find_Some_iff)
  then show ?thesis by blast
qed

lemma sealed_key_exists: "sealed env w ct e d \<Longrightarrow> Encryption_Type e \<noteq> 0 \<Longrightarrow> Encryption_KeyId e \<in> kms_ids (db w)"
  by (auto simp: sealed_def holds_key_def dest: live_key_exists)

lemma stored_key_exists:
  "chunk_stored env bs cmp w d c \<Longrightarrow> Encryption_Type (Chunk_Encryption c) \<noteq> 0 \<Longrightarrow> Encryption_KeyId (Chunk_Encryption c) \<in> kms_ids (db w)"
  unfolding chunk_stored_def using sealed_key_exists by blast

text \<open>The configuration and the state of a system that accepts uploads: healthy backends, a readable key file, a
  configured database, known chunk identifiers.\<close>

definition accepting :: "'r env \<Rightarrow> ('r, 'x) world_scheme \<Rightarrow> bool" where
  "accepting env w \<longleftrightarrow> ready env (availableBackends w) w \<and> ids_past env w \<and> metaDB w \<and>
     distinct (availableBackends w) \<and> availableBackends w \<noteq> [] \<and>
     FailureTolerance (Cfg env) < int (length (availableBackends w)) \<and> 0 < ChunkSize (Cfg env) \<and>
     (\<exists>ty. EncryptionTypeFromString (EncryptionMethod (Cfg env)) = Inr ty)"

definition packages :: "'r env \<Rightarrow> bool" where
  "packages env \<longleftrightarrow> rs_law env \<and> crypto_law env \<and> zstd_law env \<and> no_faults env"

definition data_fits :: "'r env \<Rightarrow> ('r, 'x) world_scheme \<Rightarrow> bytes \<Rightarrow> bool" where
  "data_fits env w data \<longleftrightarrow> (\<forall>ty. EncryptionTypeFromString (EncryptionMethod (Cfg env)) = Inr ty \<longrightarrow>
     (\<forall>p \<in> set (pieces (nat (ChunkSize (Cfg env))) data). fits env (availableBackends w) ty (configured_compression env) w p))"

lemma EncryptionType_known: "EncryptionTypeFromString s = Inr ty \<Longrightarrow> ty \<in> {0, 1, 2}"
  by (auto simp: EncryptionTypeFromString_def split: if_splits)

lemma PutObjectStream_succeeds:
  assumes pk: "packages env" and a: "accepting env w" and f: "data_fits env w (rd_data r)" and rd: "\<not> rd_fails r"
  shows "\<exists>ob t. PutObjectStream env loc r w = (Inr ob, t)"
proof -
  let ?cmp = "configured_compression env" and ?bs = "availableBackends w"
  have l: "rs_law env" "crypto_law env" "zstd_law env" "no_faults env" using pk by (simp_all add: packages_def)
  have a': "ready env ?bs w" "ids_past env w" "metaDB w" "distinct ?bs" "?bs \<noteq> []"
      "FailureTolerance (Cfg env) < int (length ?bs)" "0 < ChunkSize (Cfg env)" using a by (simp_all add: accepting_def)
  have ok: "iface_ok env w" "db_inv (db w)" using a'(1) by (simp_all add: ready_def)
  obtain ty where ty: "EncryptionTypeFromString (EncryptionMethod (Cfg env)) = Inr ty" using a by (auto simp: accepting_def)
  have c01: "Compression_Type ?cmp \<in> {0, 1}" by (simp add: configured_compression_def)
  obtain cs w1 where c: "ChunkStream env r ty ?cmp ?bs (ChunkConcurrency (Cfg env)) w
      = (Inr (cs, int (length (rd_data r)), xxhash64 env (rd_data r)), w1)"
    using ChunkStream_succeeds [OF l a'(4,5,6) EncryptionType_known [OF ty] c01 a'(1) _ a'(7) rd] f ty
    unfolding data_fits_def by blast
  note cs = ChunkStream_Inr [OF l(1,2) ok a'(4,7) c]
  have tb: "same_tables w w1" by (rule keepsD [OF ChunkStream_tables c])
  let ?w2 = "w1\<lparr>tick := Suc (tick w1)\<rparr>"
  let ?ob = "\<lparr>Obj_Location = loc, Obj_Size = int (length (rd_data r)), Obj_Compression = ?cmp,
      LastModified = now_at env (tick w1), ETag = xxhash64 env (rd_data r), Obj_Chunks = cs\<rparr>"
  have uu: "uuid_law env" using ok(1) by (simp add: iface_ok_def lawful_def)
  have new: "Chunk_Id c \<notin> ch_id ` set (t_chunks (db w1))" if "c \<in> set cs" for c
    using made_new_id [OF _ a'(2) uu] cs(6) that tb by (auto simp: same_tables_def)
  have keys: "normal_chunk env c \<and> (Encryption_Type (Chunk_Encryption c) \<noteq> 0 \<longrightarrow> Encryption_KeyId (Chunk_Encryption c) \<in> kms_ids (db w1))"
    if c: "c \<in> set cs" for c
  proof -
    from c obtain d where "chunk_stored env ?bs ?cmp w1 d c" using cs(5) by (auto simp: list_all2_conv_all_nth in_set_conv_nth)
    with stored_key_exists cs(6) c show ?thesis unfolding made_def by blast
  qed
  have "\<exists>t. upsertObject env ?ob ?w2 = (Inr (), t)"
  proof (rule upsertObject_succeeds [OF l(4)])
    show "db_inv (db ?w2)" using ok cs(4) by (simp add: stable_def)
    show "metaDB ?w2" using a'(3) tb by (simp add: same_tables_def)
  qed (use cs(7) new keys in auto)
  then show ?thesis
    using ty c by (auto simp: PutObjectStream_def bindE_def GetAvailableBackends_def GetCurrentTime_eq meta_PutObject_def Let_def returnE_def liftE_def)
qed

end
