(* ===== verification/System.thy ===== *)
theory System
  imports Manager_Laws
begin

text \<open>
  The storage system as a state machine: its steps are the operations that the servers call, with every outcome
  they may have, in any order. Whatever is run, the integrity of the database and the invariant of the backends are
  kept, and a step that fails to store an object leaves the objects as they were.
\<close>

section \<open>Steps\<close>

inductive sys_step :: "'r env \<Rightarrow> ('r, 'x) world_scheme \<Rightarrow> ('r, 'x) world_scheme \<Rightarrow> bool" for env where
  put_object: "PutObjectStream env loc r w = (x1, t) \<Longrightarrow> sys_step env w t"
| update_object: "UpdateObjectStream env loc r w = (x2, t) \<Longrightarrow> sys_step env w t"
| get_object: "GetObject env loc w = (x3, t) \<Longrightarrow> sys_step env w t"
| read_object: "Object_GetData env ob b e w = (x4, t) \<Longrightarrow> sys_step env w t"
| delete_object: "DeleteObject env loc w = (x5, t) \<Longrightarrow> sys_step env w t"
| create_upload: "CreateMultipartUpload env loc w = (x6, t) \<Longrightarrow> sys_step env w t"
| upload_part: "UploadPartStream env loc n i r w = (x7, t) \<Longrightarrow> sys_step env w t"
| complete_upload: "CompleteMultipartUpload env i w = (x8, t) \<Longrightarrow> sys_step env w t"
| abort_upload: "AbortMultipartUpload env i w = (x9, t) \<Longrightarrow> sys_step env w t"
| get_part: "GetPart env i n w = (x10, t) \<Longrightarrow> sys_step env w t"
| read_part: "Part_GetData env u part b e w = (x11, t) \<Longrightarrow> sys_step env w t"
| create_bucket: "CreateBucket env bk w = (x12, t) \<Longrightarrow> sys_step env w t"
| delete_bucket: "DeleteBucket env bk w = (x13, t) \<Longrightarrow> sys_step env w t"
| get_bucket: "GetBucket env bk w = (x14, t) \<Longrightarrow> sys_step env w t"
| list_buckets: "ListBuckets env pre pg mx w = (x15, t) \<Longrightarrow> sys_step env w t"
| list_objects: "ListObjects env bk pre dl sa pg mx w = (x16, t) \<Longrightarrow> sys_step env w t"
| list_parts: "ListParts env i mx f w = (x17, t) \<Longrightarrow> sys_step env w t"
| list_uploads: "ListMultipartUploads env bk pre dl km um mx w = (x18, t) \<Longrightarrow> sys_step env w t"
| find_upload: "GetMultipartUploadByLocation env loc w = (x19, t) \<Longrightarrow> sys_step env w t"
| object_exists: "ObjectExists env loc w = (x20, t) \<Longrightarrow> sys_step env w t"
| create_key: "CreateKey env w = (x21, t) \<Longrightarrow> sys_step env w t"
| delete_key: "DeleteKey env k w = (x22, t) \<Longrightarrow> sys_step env w t"
| list_keys: "ListKeys env w = (x23, t) \<Longrightarrow> sys_step env w t"
| backend_stats: "ListBackendStats env w = (x24, t) \<Longrightarrow> sys_step env w t"
| bucket_stats: "ListBucketsWithStats env w = (x25, t) \<Longrightarrow> sys_step env w t"
| count_buckets: "BucketCount env w = (x26, t) \<Longrightarrow> sys_step env w t"

abbreviation sys_steps :: "'r env \<Rightarrow> ('r, 'x) world_scheme \<Rightarrow> ('r, 'x) world_scheme \<Rightarrow> bool" where
  "sys_steps env \<equiv> (sys_step env)\<^sup>*\<^sup>*"

section \<open>The invariant\<close>

definition sys_inv :: "'r env \<Rightarrow> ('r, 'x) world_scheme \<Rightarrow> bool" where
  "sys_inv env w \<longleftrightarrow> iface_ok env w \<and> db_inv (db w)"

definition inv_step :: "'r env \<Rightarrow> ('r, 'x) world_scheme \<Rightarrow> ('r, 'x) world_scheme \<Rightarrow> bool" where
  "inv_step env w w' \<longleftrightarrow> (sys_inv env w \<longrightarrow> sys_inv env w')"

interpretation istep2: frame_rel "inv_step env" for env
  by unfold_locales (auto simp: inv_step_def)

lemma stable_inv_step: "stable env w w' \<Longrightarrow> inv_step env w w'"
  using iface.grows_ok by (auto simp: stable_def inv_step_def sys_inv_def)

lemma keeps_stable_inv: "keeps (stable env) m \<Longrightarrow> keeps (inv_step env) m"
  by (simp add: keeps_def stable_inv_step)

lemma frames_inv: "keeps db_step m \<Longrightarrow> keeps store_same m \<Longrightarrow> keeps (inv_step env) m"
proof (rule keepsI)
  fix w assume a: "keeps db_step m" "keeps store_same m"
  let ?t = "snd (m w)"
  have s: "store_same w ?t" and d: "db_step w ?t" using a by (simp_all add: keeps_def)
  have "iface_step env w ?t"
    using s by (auto simp: store_same_def iface_step_def shard_addr_def [abs_def] fresh_inv_def GetShard_read split: option.splits)
  with d show "inv_step env w ?t" by (auto simp: inv_step_def sys_inv_def db_step_def iface_ok_def iface_step_def)
qed

lemma GetShard_inv: "keeps (inv_step env) (GetShard env b l :: (('r, 'x) world_scheme, _) comp)"
proof (rule keepsI)
  fix w :: "('r, 'x) world_scheme"
  have "calm env w (snd (GetShard env b l w))" by (rule keeps_snd [OF GetShard_calm])
  with iface.get_ok show "inv_step env w (snd (GetShard env b l w))" by (auto simp: inv_step_def sys_inv_def calm_def)
qed

lemma DeleteShard_inv: "keeps (inv_step env) (DeleteShard env b l :: (('r, 'x) world_scheme, _) comp)"
proof (rule keepsI)
  fix w :: "('r, 'x) world_scheme"
  have "same_more w (snd (DeleteShard env b l w))" by (rule keeps_snd [OF shard_same_more(3)])
  with iface.del_ok show "inv_step env w (snd (DeleteShard env b l w))"
    by (auto simp: inv_step_def sys_inv_def dest: same_more_world)
qed

lemma DeleteChunk_inv: "keeps (inv_step env) (DeleteChunk env c :: (('r, 'x) world_scheme, _) comp)"
  unfolding DeleteChunk_def DestroyShards_def by (intro istep2.keeps_forE DeleteShard_inv)

lemma ChunkStream_inv: "keeps (inv_step env) (ChunkStream env r ty cmp bs conc)"
  by (rule ChunkStream_keeps [OF istep2.frame_rel_axioms keeps_stable_inv [OF processChunk_stable] DeleteChunk_inv stable_inv_step [OF tick_stable]])

lemma collectChunk_inv:
  fixes env :: "'r env"
  shows "keeps (inv_step env) (collectChunk env cmp c :: (('r, 'x) world_scheme, _) comp)"
proof -
  have "keeps (inv_step env) (Decrypt env d e :: (('r, 'x) world_scheme, _) comp)" for d e
  proof (rule frames_inv [OF keepsI Decrypt_store_same])
    fix w :: "('r, 'x) world_scheme"
    have "calm env w (snd (Decrypt env d e w))" by (rule keeps_snd [OF Decrypt_calm])
    then show "db_step w (snd (Decrypt env d e w))" by (simp add: calm_def db_step_def)
  qed
  then show ?thesis unfolding collectChunk_def Let_def
    by (intro istep2.keeps_rules CollectShards_keeps [OF istep2.frame_rel_axioms GetShard_inv])
qed

lemma CollectChunksStream_keeps:
  fixes R :: "('r, 'x) world_scheme \<Rightarrow> ('r, 'x) world_scheme \<Rightarrow> bool"
  assumes R: "frame_rel R" and c: "\<And>c. keeps R (collectChunk env cmp c)"
  shows "keeps R (CollectChunksStream env cs cmp need)"
proof (induction cs arbitrary: need)
  case Nil
  then show ?case using frame_rel.keeps_returnE [OF R] by simp
next
  case (Cons ch cs)
  show ?case
  proof (rule keepsI)
    fix w :: "('r, 'x) world_scheme"
    obtain q w' where q: "collectChunk env cmp ch w = (q, w')" by (cases "collectChunk env cmp ch w")
    have 1: "R w w'" by (rule keepsD [OF c q])
    have 2: "R w' (snd (bindE (CollectChunksStream env cs cmp n) (\<lambda>x. returnE (f x)) w'))" for n and f :: "_ \<Rightarrow> bytes \<times> error option"
      by (rule keeps_snd) (intro frame_rel.keeps_bindE [OF R] frame_rel.keeps_returnE [OF R] Cons)
    from 1 frame_rel.transR [OF R 1] 2 [unfolded split_def] frame_rel.reflR [OF R]
    show "R w (snd (CollectChunksStream env (ch # cs) cmp need w))"
      by (cases q) (simp_all add: q split_def)
  qed
qed

lemma streamRange_inv: "keeps (inv_step env) (streamRangeFromChunks env cs cmp n b e)"
  unfolding streamRangeFromChunks_def split_def
  by (intro istep2.keeps_rules CollectChunksStream_keeps [OF istep2.frame_rel_axioms collectChunk_inv])

lemmas meta_inv = frames_inv [OF object_frames(1,2)] frames_inv [OF object_frames(3,4)] frames_inv [OF object_frames(5,6)]
  frames_inv [OF object_frames(7,8)] frames_inv [OF object_frames(9,10)] frames_inv [OF meta_GetObject_frames]
  frames_inv [OF bucket_frames(1,2)] frames_inv [OF bucket_frames(3,4)] frames_inv [OF bucket_frames(5,6)]
  frames_inv [OF bucket_frames(7,8)] frames_inv [OF bucket_frames(9,10)] frames_inv [OF bucket_frames(11,12)]
  frames_inv [OF upload_frames(1,2)] frames_inv [OF upload_frames(3,4)] frames_inv [OF upload_frames(5,6)]
  frames_inv [OF upload_frames(7,8)] frames_inv [OF upload_frames(9,10)] frames_inv [OF upload_frames(11,12)]
  frames_inv [OF upload_frames(13,14)] frames_inv [OF PutPart_frames] frames_inv [OF Complete_frames]

lemma host_inv: "keeps (inv_step env) (GetCurrentTime env)" "keeps (inv_step env) GetAvailableBackends"
  unfolding GetCurrentTime_def GetAvailableBackends_def by (intro istep2.keeps_rules frames_inv time_Now_db_step(1) time_Now_store_same)+

lemma keys_inv: "keeps (inv_step env) (CreateKey env)" "keeps (inv_step env) (DeleteKey env k)" "keeps (inv_step env) (ListKeys env)"
proof -
  have "keeps (stable env) (CreateKey env)" unfolding CreateKey_def kms_CreateKey_def encryptJSON_def Let_def by (intro stable_rules)
  then show "keeps (inv_step env) (CreateKey env)" by (rule keeps_stable_inv)
  have "keeps db_step getDefaultKMS" unfolding getDefaultKMS_def by (intro dstep.keeps_rules)
  note k = this getDefaultKMS_store_same
  show "keeps (inv_step env) (DeleteKey env k)"
    by (rule frames_inv) (unfold DeleteKey_def kms_DeleteKey_def, (intro meta_frames k)+)
  have l: "keeps db_step (kms_ListKeys env)" "keeps store_same (kms_ListKeys env)"
    by (auto simp: keeps_def kms_ListKeys_def query_eq db_step_def store_same_def)
  show "keeps (inv_step env) (ListKeys env)"
    by (rule frames_inv) (unfold ListKeys_def, (intro meta_frames k l)+)
qed

lemma stats_inv: "keeps (inv_step env) (ListBackendStats env)"
  by (rule frames_inv) (unfold ListBackendStats_def split_def, (intro meta_frames)+)

lemmas inv_rules = istep2.keeps_rules meta_inv host_inv keys_inv stats_inv ChunkStream_inv streamRange_inv DeleteChunk_inv

lemma manager_inv:
  "keeps (inv_step env) (PutObjectStream env loc r)" "keeps (inv_step env) (UpdateObjectStream env loc r)"
  "keeps (inv_step env) (GetObject env loc)" "keeps (inv_step env) (DeleteObject env loc)"
  "keeps (inv_step env) (Object_GetData env ob b e)" "keeps (inv_step env) (Part_GetData env u part b e)"
  unfolding PutObjectStream_def UpdateObjectStream_def GetObject_def DeleteObject_def DeleteChunks_def Object_GetData_def
    Object_GetDataStream_def Part_GetData_def Part_GetDataStream_def split_def Let_def
  by (intro inv_rules)+

lemma multipart_inv:
  "keeps (inv_step env) (CreateMultipartUpload env loc)" "keeps (inv_step env) (UploadPartStream env loc n i r)"
  "keeps (inv_step env) (CompleteMultipartUpload env i)" "keeps (inv_step env) (AbortMultipartUpload env i)"
  unfolding CreateMultipartUpload_def UploadPartStream_def CompleteMultipartUpload_def AbortMultipartUpload_def split_def Let_def
  by (intro inv_rules)+

lemma sys_step_inv: "sys_step env w t \<Longrightarrow> inv_step env w t"
  by (induction rule: sys_step.induct) (auto elim!: keepsD [rotated] intro: manager_inv multipart_inv meta_inv keys_inv stats_inv)

lemma sys_steps_inv: "sys_steps env w t \<Longrightarrow> sys_inv env w \<Longrightarrow> sys_inv env t"
  by (induction rule: rtranclp_induct) (auto dest: sys_step_inv simp: inv_step_def)

end
