(* ===== verification/Steady.thy ===== *)
theory Steady
  imports System
begin

text \<open>
  What no operation of the storage system changes: time never goes back, the configuration of the backends, their
  list, the database connection and the key manager stay as they are. The relation \<open>steady\<close> is kept by every
  operation, on every path.
\<close>

section \<open>Reads and deletions\<close>

lemma remote_steady:
  "keeps same_conf (\<lambda>w. case h w of (ok, r') \<Rightarrow> (if ok then Inr () else Inl e, w\<lparr>remote := r'\<rparr>))"
  "keeps later (\<lambda>w. case h w of (ok, r') \<Rightarrow> (if ok then Inr () else Inl e, w\<lparr>remote := r'\<rparr>))"
  by (auto simp: keeps_def later_def split: prod.split)

lemma svc_DeleteObject_same_conf:
  assumes i: "instances w b = Some svc"
  shows "same_conf w (snd (svc_DeleteObject env b svc l w))"
proof (cases svc)
  case (FileService s)
  then show ?thesis by (auto simp: file_DeleteObject_def os_Remove_eq sconf.reflR)
next
  case (DiscordService s)
  show ?thesis
  proof (cases "ds_isConfigured s")
    case False
    with DiscordService i show ?thesis
      by (auto simp: discord_DeleteObject_def ds_deleteObjectInMemory_def RegisterInstance_def sconf.reflR intro!: same_conf_set(1))
  next
    case True
    have "same_conf w (snd (ds_getSession env b s w))"
      using ds_getSession_touched [of w b s env] True i DiscordService by (simp add: touched_same_conf)
    from sconf.bindE_from [where s = w and m = "ds_getSession env b s", OF this remote_steady(1)] True DiscordService
    show ?thesis by (simp add: discord_DeleteObject_def)
  qed
next
  case (TelegramService s)
  show ?thesis
  proof (cases "tg_isConfigured s")
    case False
    with TelegramService i show ?thesis
      by (auto simp: telegram_DeleteObject_def tg_deleteObjectInMemory_def RegisterInstance_def sconf.reflR intro!: same_conf_set(1))
  next
    case True
    have t: "same_conf w (snd (tg_getRemote env b s w))"
      using tg_getRemote_touched [of w b s env] True i TelegramService by (simp add: touched_same_conf)
    have "keeps same_conf (td_DeleteObject env c l)" for c
      unfolding td_DeleteObject_def by (intro sconf.keeps_rules remote_steady)
    from sconf.bindE_from [where s = w and m = "tg_getRemote env b s", OF t this] True TelegramService
    show ?thesis by (simp add: telegram_DeleteObject_def)
  qed
qed

lemma DeleteShard_same_conf: "keeps same_conf (DeleteShard env b l)"
  by (rule keepsI) (simp add: DeleteShard_def bindE_def getService_eq svc_DeleteObject_same_conf sconf.reflR split: option.split)

lemma svc_later:
  "keeps later (svc_GetObject env b svc l :: (('r, 'x) iface_scheme, _) comp)"
  "keeps later (svc_DeleteObject env b svc l :: (('r, 'x) iface_scheme, _) comp)"
  by (cases svc; simp add: file_GetObject_def discord_GetObject_def telegram_GetObject_def
      file_DeleteObject_def discord_DeleteObject_def ds_deleteObjectInMemory_def
      telegram_DeleteObject_def tg_deleteObjectInMemory_def td_DeleteObject_def;
      intro lstep.keeps_rules prim_later iface_later client_later remote_steady impI conjI)+

lemma shard_later:
  "keeps later (GetShard env b l :: (('r, 'x) iface_scheme, _) comp)"
  "keeps later (DeleteShard env b l :: (('r, 'x) iface_scheme, _) comp)"
  unfolding GetShard_def DeleteShard_def by (intro lstep.keeps_rules iface_later svc_later)+

section \<open>The relation\<close>

definition steady :: "('r, 'x) world_scheme \<Rightarrow> ('r, 'x) world_scheme \<Rightarrow> bool" where
  "steady w w' \<longleftrightarrow> later w w' \<and> same_conf w w' \<and> metaDB w' = metaDB w \<and> defaultKMS w' = defaultKMS w"

interpretation stdy: frame_rel steady
proof
  fix s t u :: "('r, 'x) world_scheme"
  show "steady s s" by (simp add: steady_def lstep.reflR sconf.reflR)
  show "steady s t \<Longrightarrow> steady t u \<Longrightarrow> steady s u" unfolding steady_def by (metis lstep.transR sconf.transR)
qed

lemma steady_backends: "steady w w' \<Longrightarrow> availableBackends w' = availableBackends w"
  by (simp add: steady_def same_conf_def)

lemma steady_addr: "steady w w' \<Longrightarrow> shard_addr w' = shard_addr w"
proof -
  assume "steady w w'"
  then have c: "map_option svc_conf (instances w' b) = map_option svc_conf (instances w b)" for b
    by (simp add: steady_def same_conf_def confs_def fun_eq_iff)
  have s: "svc_addr b svc = svc_addr b (svc_conf svc)" for b svc
    by (rule ext, cases svc) (auto simp: ds_isConfigured_def tg_isConfigured_def)
  show "shard_addr w' = shard_addr w"
  proof (intro ext)
    fix b l
    show "shard_addr w' b l = shard_addr w b l"
      using c [of b] s [of b] unfolding shard_addr_def by (cases "instances w b"; cases "instances w' b") (simp, simp, simp, metis map_option_eq_Some option.inject option.simps(5))
  qed
qed

lemma store_steady: "keeps store_same m \<Longrightarrow> keeps steady m"
  by (simp add: keeps_def store_same_def steady_def later_def same_conf_def confs_def fun_eq_iff)

lemma shard_steady:
  "keeps steady (GetShard env b l :: (('r, 'x) world_scheme, _) comp)"
  "keeps steady (PutShard env b d :: (('r, 'x) world_scheme, _) comp)"
  "keeps steady (DeleteShard env b l :: (('r, 'x) world_scheme, _) comp)"
proof -
  have "keeps steady m" if "keeps later m" "keeps same_conf m" "keeps same_more m" for m :: "(('r, 'x) world_scheme, 'a) comp"
  proof (rule keepsI)
    fix w :: "('r, 'x) world_scheme"
    show "steady w (snd (m w))"
      using same_more_world [OF keeps_snd [OF that(3), of w]] keeps_snd [OF that(1), of w] keeps_snd [OF that(2), of w]
      by (simp add: steady_def)
  qed
  note s = this
  show "keeps steady (GetShard env b l :: (('r, 'x) world_scheme, _) comp)"
    by (rule s [OF shard_later(1) GetShard_same_conf shard_same_more(1)])
  show "keeps steady (PutShard env b d :: (('r, 'x) world_scheme, _) comp)"
    by (rule s [OF PutShard_later PutShard_same_conf shard_same_more(2)])
  show "keeps steady (DeleteShard env b l :: (('r, 'x) world_scheme, _) comp)"
    by (rule s [OF shard_later(2) DeleteShard_same_conf shard_same_more(3)])
qed

lemma tick_steady: "steady w (w\<lparr>tick := Suc (tick w)\<rparr>)"
  by (simp add: steady_def later_def)

lemma processChunk_steady: "keeps (steady :: ('r, 'x) world_scheme \<Rightarrow> _) (processChunk env data ty cmp bs)"
  unfolding processChunk_def split_def
  by (intro stdy.keeps_rules store_steady [OF Encrypt_store_same] store_steady [OF uuid_New_store_same]
      ShardData_keeps [OF stdy.frame_rel_axioms shard_steady(2) tick_steady])

lemma DeleteChunk_steady: "keeps (steady :: ('r, 'x) world_scheme \<Rightarrow> _) (DeleteChunk env c)"
  unfolding DeleteChunk_def DestroyShards_def by (intro stdy.keeps_forE shard_steady)

lemma ChunkStream_steady: "keeps (steady :: ('r, 'x) world_scheme \<Rightarrow> _) (ChunkStream env r ty cmp bs conc)"
  by (rule ChunkStream_keeps [OF stdy.frame_rel_axioms processChunk_steady DeleteChunk_steady tick_steady])

lemma collectChunk_steady: "keeps (steady :: ('r, 'x) world_scheme \<Rightarrow> _) (collectChunk env cmp c)"
  unfolding collectChunk_def Let_def
  by (intro stdy.keeps_rules CollectShards_keeps [OF stdy.frame_rel_axioms shard_steady(1)] store_steady [OF Decrypt_store_same])

lemma streamRange_steady: "keeps (steady :: ('r, 'x) world_scheme \<Rightarrow> _) (streamRangeFromChunks env cs cmp n b e)"
  unfolding streamRangeFromChunks_def split_def
  by (intro stdy.keeps_rules CollectChunksStream_keeps [OF stdy.frame_rel_axioms collectChunk_steady])

lemmas meta_steady = object_frames(2,4,6,8,10) [THEN store_steady] bucket_frames(2,4,6,8,10,12) [THEN store_steady]
  upload_frames(2,4,6,8,10,12,14) [THEN store_steady] PutPart_frames(2) [THEN store_steady] Complete_frames(2) [THEN store_steady]
  meta_GetObject_frames(2) [THEN store_steady]

lemma host_steady: "keeps steady (time_Now env)" "keeps steady next_tick" "keeps steady (GetCurrentTime env)"
  "keeps steady GetAvailableBackends"
  by (auto simp: keeps_def steady_def later_def time_Now_eq next_tick_def GetCurrentTime_eq GetAvailableBackends_def sconf.reflR)

lemmas steady_rules = stdy.keeps_rules meta_steady host_steady ChunkStream_steady DeleteChunk_steady streamRange_steady

lemma manager_steady:
  "keeps (steady :: ('r, 'x) world_scheme \<Rightarrow> _) (PutObjectStream env loc r)"
  "keeps (steady :: ('r, 'x) world_scheme \<Rightarrow> _) (UpdateObjectStream env loc r)"
  "keeps (steady :: ('r, 'x) world_scheme \<Rightarrow> _) (GetObject env loc)"
  "keeps (steady :: ('r, 'x) world_scheme \<Rightarrow> _) (DeleteObject env loc)"
  "keeps (steady :: ('r, 'x) world_scheme \<Rightarrow> _) (Object_GetData env ob b e)"
  "keeps (steady :: ('r, 'x) world_scheme \<Rightarrow> _) (CreateMultipartUpload env loc)"
  "keeps (steady :: ('r, 'x) world_scheme \<Rightarrow> _) (UploadPartStream env loc n i r)"
  "keeps (steady :: ('r, 'x) world_scheme \<Rightarrow> _) (AbortMultipartUpload env i)"
  unfolding PutObjectStream_def UpdateObjectStream_def GetObject_def DeleteObject_def DeleteChunks_def Object_GetData_def
    Object_GetDataStream_def CreateMultipartUpload_def UploadPartStream_def AbortMultipartUpload_def split_def Let_def
  by (intro steady_rules)+

section \<open>Reading\<close>

text \<open>Nothing stored changes: the database, every readable blob, the keys.\<close>

definition unchanged :: "'r env \<Rightarrow> ('r, 'x) world_scheme \<Rightarrow> ('r, 'x) world_scheme \<Rightarrow> bool" where
  "unchanged env w w' \<longleftrightarrow> calm env w w' \<and> metaDB w' = metaDB w"

interpretation unch: frame_rel "unchanged env" for env
  by unfold_locales (auto simp: unchanged_def calm.reflR intro: calm.transR)

lemma unchanged_basic:
  "keeps (unchanged env) (time_Now env)" "keeps (unchanged env) next_tick" "keeps (unchanged env) getDB"
  "keeps (unchanged env) (query env f)" "keeps (unchanged env) (uuid_New env)"
  by (simp_all add: keeps_def unchanged_def time_Now_eq next_tick_def getDB_eq query_eq uuid_New_eq tick_calm calm.reflR)

lemma unchanged_rows: "keeps (unchanged env) (query_row env what f)" "keeps (unchanged env) (getShards env i)"
  unfolding query_row_def getShards_def by (intro unch.keeps_rules unchanged_basic)+

lemma unchanged_chunks: "keeps (unchanged env) (chunkRowsToChunks env rows)" "keeps (unchanged env) (getChunks env loc)"
  "keeps (unchanged env) (getPartChunks env u n)"
  unfolding chunkRowsToChunks_def getChunks_def getPartChunks_def by (intro unch.keeps_rules unchanged_basic unchanged_rows)+

lemma GetShard_unchanged:
  fixes env :: "'r env"
  shows "keeps (unchanged env :: ('r, 'x) world_scheme \<Rightarrow> _) (GetShard env b l)"
proof (rule keepsI)
  fix w :: "('r, 'x) world_scheme"
  have "same_more w (snd (GetShard env b l w))" by (rule keeps_snd [OF shard_same_more(1)])
  moreover have "calm env w (snd (GetShard env b l w))" by (rule keeps_snd [OF GetShard_calm])
  ultimately show "unchanged env w (snd (GetShard env b l w))"
    using same_more_world [of w "snd (GetShard env b l w)"] by (simp add: unchanged_def)
qed

lemma Decrypt_unchanged:
  fixes env :: "'r env"
  shows "keeps (unchanged env :: ('r, 'x) world_scheme \<Rightarrow> _) (Decrypt env d e)"
proof (rule keepsI)
  fix w :: "('r, 'x) world_scheme"
  have "calm env w (snd (Decrypt env d e w))" by (rule keeps_snd [OF Decrypt_calm])
  moreover have "store_same w (snd (Decrypt env d e w))" by (rule keeps_snd [OF Decrypt_store_same])
  ultimately show "unchanged env w (snd (Decrypt env d e w))" by (simp add: unchanged_def store_same_def)
qed

lemma collectChunk_unchanged: "keeps (unchanged env) (collectChunk env cmp c)"
  unfolding collectChunk_def Let_def
  by (intro unch.keeps_rules CollectShards_keeps [OF unch.frame_rel_axioms GetShard_unchanged] Decrypt_unchanged)

lemma streamRange_unchanged: "keeps (unchanged env) (streamRangeFromChunks env cs cmp n b e)"
  unfolding streamRangeFromChunks_def split_def
  by (intro unch.keeps_rules CollectChunksStream_keeps [OF unch.frame_rel_axioms collectChunk_unchanged])

lemmas unchanged_rules = unch.keeps_rules unchanged_basic unchanged_rows unchanged_chunks streamRange_unchanged

lemma GetObject_unchanged: "keeps (unchanged env) (GetObject env loc)"
  unfolding GetObject_def meta_GetObject_def by (intro unchanged_rules)

lemma GetData_unchanged: "keeps (unchanged env) (Object_GetData env ob b e)"
  unfolding Object_GetData_def Object_GetDataStream_def split_def by (intro unchanged_rules)

end
