(* ===== verification/Upload_Safety.thy ===== *)
theory Upload_Safety
  imports System
begin

text \<open>
  An upload, whether it succeeds or fails, harms nothing that was there before: the files (the key file among
  them), the keys, the readable blobs, and with them every object at another location; a failed one also leaves
  the object at its own location as it was.
\<close>

section \<open>Files\<close>

definition file_step :: "'r env \<Rightarrow> ('r, 'x) iface_scheme \<Rightarrow> ('r, 'x) iface_scheme \<Rightarrow> bool" where
  "file_step env w w' \<longleftrightarrow> iface.grows env w w' \<and> (iface_ok env w \<longrightarrow> (\<forall>p x. files w p = Some x \<longrightarrow> files w' p = Some x))"

interpretation fstep: frame_rel "file_step env" for env
proof
  fix s t u :: "('a, 'b) iface_scheme"
  show "file_step env s s" by (simp add: file_step_def iface.growing.reflR)
  show "file_step env s t \<Longrightarrow> file_step env t u \<Longrightarrow> file_step env s u"
    using iface.grows_ok unfolding file_step_def by (blast intro: iface.growing.transR)
qed

lemma PutShard_file_step: "keeps (file_step env) (PutShard env b d)"
  using PutShard_files_kept [of env b d] iface.grows_put by (auto simp: keeps_def file_step_def files_kept_def)

lemma tick_file_step: "file_step env w (w\<lparr>tick := Suc (tick w)\<rparr>)"
  by (simp add: file_step_def next_tick_grows)

lemma store_same_file_step: "store_same w w' \<Longrightarrow> file_step env w w'"
proof -
  assume s: "store_same w w'"
  then have "iface_step env w w'"
    by (auto simp: store_same_def iface_step_def shard_addr_def [abs_def] fresh_inv_def GetShard_read split: option.splits)
  with s show ?thesis by (auto simp: file_step_def iface.grows_def iface_ok_def iface_step_def store_same_def)
qed

lemma Encrypt_file_step: "keeps (file_step env) (Encrypt env d ty)"
  by (rule keepsI) (rule store_same_file_step [OF keeps_snd [OF Encrypt_store_same]])

lemma uuid_file_step: "keeps (file_step env) (uuid_New env)"
  by (rule keepsI) (simp add: uuid_New_eq tick_file_step)

lemma processChunk_file_step: "keeps (file_step env) (processChunk env data ty cmp bs)"
  unfolding processChunk_def split_def
  by (intro fstep.keeps_rules uuid_file_step Encrypt_file_step ShardData_keeps [OF fstep.frame_rel_axioms PutShard_file_step tick_file_step])

text \<open>A put that makes a file makes a new one.\<close>

lemma PutShard_new_file:
  assumes "fresh_inv env w" and "PutShard env b d w = (Inr l, t)" and "shard_addr w b l = AFile p"
  shows "files w p = None"
proof -
  from assms(3) obtain s where s: "instances w b = Some (FileService s)" "p = filepath_Join (storageDirectory s) l"
    by (auto simp: shard_addr_def split: option.splits if_splits elim!: svc_addr.elims)
  with assms(2) have "l = ''shard_'' @ uuid_new env (tick w + 1)"
    by (auto simp: PutShard_def bindE_def getService_eq file_PutObject_eq split: if_splits)
  with assms(1) s(2) show ?thesis by (simp add: fresh_inv_def)
qed

section \<open>What holds of every shard that \<open>ShardData\<close> returns\<close>

lemma ShardData_shards:
  fixes w :: "('r, 'x) iface_scheme"
  assumes keep: "\<And>b d w. I w \<Longrightarrow> I (snd (PutShard env b d w))" and clock: "\<And>w. I w \<Longrightarrow> I (w\<lparr>tick := Suc (tick w)\<rparr>)"
    and Q: "\<And>b d w l t. I w \<Longrightarrow> PutShard env b d w = (Inr l, t) \<Longrightarrow> Q b l"
    and w: "I w" and sd: "ShardData env data bs w = (Inr (shards, d, n), t)" and s: "s \<in> set shards"
  shows "Q (Backend s) (Location s)"
proof -
  let ?J = "\<lambda>((ps, err), w). I w \<and> (\<forall>s \<in> set (donesOf ps). Q (Backend s) (Location s))"
  have step: "?J (group_step env i st)" if "?J st" for i and st :: "putGroup \<times> ('r, 'x) iface_scheme"
  proof -
    obtain ps err w where st: "st = ((ps, err), w)" by (metis prod.exhaust)
    have J: "I w" "\<forall>s \<in> set (donesOf ps). Q (Backend s) (Location s)" using that by (simp_all add: st)
    show ?thesis
    proof (cases rule: group_step_cases [of env i ps err w])
      case idle
      with that show ?thesis by (simp add: st)
    next
      case (fail p r rs e w')
      have "set (donesOf (ps[i := None])) \<subseteq> set (donesOf ps)"
        using set_mset_mono [OF donesOf_update_None [OF fail(1)]] by simp
      moreover have "I w'" using keep [OF J(1), of "pt_backend p" "raw_data r"] fail(4) by simp
      ultimately show ?thesis using J(2) by (auto simp: st fail(5))
    next
      case (put p r rs l w')
      let ?p = "p\<lparr>pt_todo := rs, pt_done := pt_done p @ [storedShard env (pt_backend p) r l]\<rparr>"
      have "mset (donesOf (ps[i := Some ?p])) = add_mset (storedShard env (pt_backend p) r l) (mset (donesOf ps))"
        by (rule donesOf_update_Some [OF put(1,2)]) simp
      then have "set (donesOf (ps[i := Some ?p])) = insert (storedShard env (pt_backend p) r l) (set (donesOf ps))"
        by (metis set_mset_add_mset_insert set_mset_mset)
      moreover have "I w'" using keep [OF J(1), of "pt_backend p" "raw_data r"] put(4) by simp
      moreover have "Q (pt_backend p) l" by (rule Q [OF J(1) put(4)])
      ultimately show ?thesis using J(2) by (auto simp: st put(5) storedShard_def)
    qed
  qed
  from sd obtain finals where up: "uploadShards env bs finals w = (Inr shards, t)" by (rule ShardData_Inr)
  let ?st = "((putters bs finals, None), w\<lparr>tick := Suc (tick w)\<rparr>)"
  have "donesOf (putters bs finals) = []" by (simp add: donesOf_def putters_def)
  then have "?J ?st" using clock [OF w] by simp
  then have "?J (fold (group_step env) (schedule env (tick w) bs finals) ?st)" by (intro fold_inv [of ?J] step)
  with up s show ?thesis by (auto simp: uploadShards_eq split: prod.splits option.splits)
qed

text \<open>The shards of a chunk made after \<open>w0\<close> are in no file that existed in \<open>w0\<close>.\<close>

definition new_files :: "('r, 'x) world_scheme \<Rightarrow> Chunk \<Rightarrow> bool" where
  "new_files w0 c \<longleftrightarrow> (\<forall>s \<in> set (Chunk_Shards c). \<forall>p. saddr w0 s = AFile p \<longrightarrow> files w0 p = None)"

lemma processChunk_new_files:
  fixes w0 :: "('r, 'x) world_scheme"
  assumes ok: "iface_ok env w0" and st: "file_step env w0 w" and p: "processChunk env data ty cmp bs w = (Inr c, t)"
  shows "new_files w0 c"
proof -
  let ?I = "\<lambda>w :: ('r, 'x) world_scheme. file_step env w0 w"
  let ?Q = "\<lambda>b l. \<forall>p. shard_addr w0 b l = AFile p \<longrightarrow> files w0 p = None"
  from p obtain cd ct k w1 d n w2 where e: "Encrypt env cd ty w = (Inr (ct, k), w1)"
    and s: "ShardData env ct bs w1 = (Inr (Chunk_Shards c, d, n), w2)"
    by (auto simp: processChunk_def bindE_eq_Inr_iff uuid_New_eq)
  have put: "?I (snd (PutShard env b d w))" if "?I w" for b d w by (rule fstep.transR [OF that keeps_snd [OF PutShard_file_step]])
  have clock: "?I (w\<lparr>tick := Suc (tick w)\<rparr>)" if "?I w" for w by (rule fstep.transR [OF that tick_file_step])
  have Q: "?Q b l" if i: "?I w" and pt: "PutShard env b d w = (Inr l, t)" for b d w l t
  proof (intro allI impI)
    fix p assume a: "shard_addr w0 b l = AFile p"
    have "iface_ok env w" "shard_addr w = shard_addr w0" using i ok by (auto simp: file_step_def iface.grows_def)
    with PutShard_new_file [OF _ pt, of p] a have "files w p = None" by (simp add: iface_ok_def)
    with i ok show "files w0 p = None" by (cases "files w0 p") (auto simp: file_step_def)
  qed
  have w1: "?I w1" by (rule fstep.transR [OF st keepsD [OF Encrypt_file_step e]])
  have "?Q (Backend x) (Location x)" if "x \<in> set (Chunk_Shards c)" for x
    by (rule ShardData_shards [where I = ?I and Q = ?Q, OF _ _ _ w1 s that]) (fact put, fact clock, fact Q)
  then show ?thesis by (simp add: new_files_def saddr_def)
qed

section \<open>The stream\<close>

lemma finalJob_files:
  fixes w :: "('r, 'x) world_scheme"
  assumes ok: "iface_ok env w" and f: "finalJob env r ty cmp bs conc w = (j, w1)"
  shows "file_step env w w1" and "cj_completed j i = Some c \<Longrightarrow> new_files w c"
proof -
  let ?I = "\<lambda>st :: chunkJob \<times> ('r, 'x) world_scheme. file_step env w (snd st) \<and>
      (\<forall>i c. cj_completed (fst st) i = Some c \<longrightarrow> new_files w c)"
  have step: "?I (jobStep env limit n fails ty cmp bs pick st)" if I: "?I st" for limit n fails pick st
  proof (cases "pick = 0")
    case True
    with I show ?thesis by (simp add: jobStep_def)
  next
    case False
    obtain j w' where st: "st = (j, w')" by (cases st)
    have 1: "file_step env w (snd (jobStep env limit n fails ty cmp bs pick st))"
      using fstep.transR [OF _ jobStep_keeps [OF fstep.frame_rel_axioms processChunk_file_step]] I by blast
    have "new_files w c" if "processChunk env buf ty cmp bs w' = (Inr c, t)" for buf c t
      using processChunk_new_files [OF ok _ that] I by (simp add: st)
    with 1 I False show ?thesis
      by (auto simp: st jobStep_def workStep_def Let_def split: prod.splits sum.splits if_splits)
  qed
  have "?I (finalJob env r ty cmp bs conc w)" unfolding finalJob_def Let_def
    by (intro drainJob_inv [of ?I] fold_inv [of ?I] step) (simp_all add: tick_file_step, simp_all add: newJob_def)
  with f show "file_step env w w1" "cj_completed j i = Some c \<Longrightarrow> new_files w c" by auto
qed

text \<open>Deleting a blob that is not in the file \<open>p\<close>.\<close>

definition file_spared :: "'r env \<Rightarrow> (BackendType \<Rightarrow> string \<Rightarrow> blob_addr) \<Rightarrow> string \<Rightarrow> ('r, 'x) iface_scheme \<Rightarrow> ('r, 'x) iface_scheme \<Rightarrow> bool" where
  "file_spared env A p w w' \<longleftrightarrow> (iface_ok env w \<and> shard_addr w = A \<longrightarrow> iface_ok env w' \<and> shard_addr w' = A \<and> files w' p = files w p)"

interpretation fspare: frame_rel "file_spared env A p" for env A p
  by unfold_locales (auto simp: file_spared_def)

lemma touched_files: "touched env w w' \<Longrightarrow> files w' = files w"
  by (auto elim: touchedE)

lemma svc_DeleteObject_files:
  assumes "svc_addr b svc l \<noteq> AFile p"
  shows "files (snd (svc_DeleteObject env b svc l w)) p = files w p"
proof (cases svc)
  case (FileService s)
  with assms show ?thesis by (auto simp: file_DeleteObject_def os_Remove_eq)
next
  case (DiscordService s)
  have "files (snd (ds_getSession env b s w)) = files w"
    by (auto simp: ds_getSession_def Let_def RegisterInstance_def)
  then show ?thesis
    unfolding DiscordService by (cases "ds_getSession env b s w")
      (auto simp: discord_DeleteObject_def ds_deleteObjectInMemory_def RegisterInstance_def bindE_def split: sum.splits prod.splits)
next
  case (TelegramService s)
  have "files (snd (tg_getRemote env b s w)) = files w"
    by (auto simp: tg_getRemote_def RegisterInstance_def bindE_def)
  then show ?thesis
    unfolding TelegramService by (cases "tg_getRemote env b s w")
      (auto simp: telegram_DeleteObject_def tg_deleteObjectInMemory_def td_DeleteObject_def RegisterInstance_def bindE_def liftE_def
        split: sum.splits prod.splits)
qed

lemma DeleteShard_spares_file:
  assumes "A b l \<noteq> AFile p"
  shows "keeps (file_spared env A p) (DeleteShard env b l)"
proof (rule keepsI)
  fix w :: "('a, 'b) iface_scheme"
  have "files (snd (DeleteShard env b l w)) p = files w p" if "shard_addr w = A"
  proof (cases "instances w b")
    case None
    then show ?thesis by (simp add: DeleteShard_def bindE_def getService_eq)
  next
    case (Some svc)
    then have "svc_addr b svc l \<noteq> AFile p" using assms that by (auto simp: shard_addr_def)
    with Some svc_DeleteObject_files show ?thesis by (simp add: DeleteShard_def bindE_def getService_eq)
  qed
  then show "file_spared env A p w (snd (DeleteShard env b l w))"
    using iface.del_ok [of env w b l] iface.del_addr [of env w b l] by (auto simp: file_spared_def)
qed

lemma DestroyShards_spares_file:
  fixes env :: "'r env"
  assumes "\<forall>s \<in> set ss. A (Backend s) (Location s) \<noteq> AFile p"
  shows "keeps (file_spared env A p :: ('r, 'x) iface_scheme \<Rightarrow> _) (DestroyShards env ss)"
  using assms
proof (induction ss)
  case Nil
  then show ?case by (simp add: DestroyShards_def fspare.keeps_returnE)
next
  case (Cons s ss)
  then show ?case by (simp add: DestroyShards_def fspare.keeps_bindE DeleteShard_spares_file)
qed

lemma next_tick_spares_file: "keeps (file_spared env A p) next_tick"
  by (rule keepsI) (use next_tick_grows in \<open>auto simp: next_tick_def file_spared_def iface.grows_def\<close>)

lemma ChunkStream_files:
  fixes w :: "('r, 'x) world_scheme"
  assumes ok: "iface_ok env w" and cs: "ChunkStream env r ty cmp bs conc w = (x, t)" and p: "files w p = Some d"
  shows "files t p = Some d"
proof (cases "0 < ChunkSize (Cfg env)")
  case False
  with cs p show ?thesis by (simp add: ChunkStream_def Let_def split: if_splits)
next
  case True
  obtain j w1 where f: "finalJob env r ty cmp bs conc w = (j, w1)" by (cases "finalJob env r ty cmp bs conc w")
  note fs = finalJob_files [OF ok f]
  have w1: "iface_ok env w1" "shard_addr w1 = shard_addr w" "files w1 p = Some d"
    using fs(1) ok p by (auto simp: file_step_def iface.grows_def)
  let ?R = "file_spared env (shard_addr w) p :: ('r, 'x) world_scheme \<Rightarrow> _"
  have "keeps ?R (ignoreE (DeleteChunk env c))" if "cj_completed j i = Some c" for i c
    unfolding DeleteChunk_def using fs(2) [OF that] p
    by (intro fspare.keeps_ignoreE DestroyShards_spares_file) (auto simp: new_files_def saddr_def)
  then have c: "keeps ?R (case cj_completed j i of None \<Rightarrow> returnE () | Some c \<Rightarrow> ignoreE (DeleteChunk env c))" for i
    by (simp split: option.split add: fspare.keeps_returnE)
  have "keeps ?R (bindE (cleanupChunks env (cj_completed j) k) (\<lambda>_. raiseE e :: (_, Chunk list \<times> int \<times> uint64) comp))" for k e
    unfolding cleanupChunks_def
    by (intro fspare.keeps_bindE fspare.keeps_raiseE next_tick_spares_file fspare.keeps_forE c)
  from keeps_snd [OF this, of w1] have clean: "files (snd (bindE (cleanupChunks env (cj_completed j) k)
      (\<lambda>_. raiseE e :: (_, Chunk list \<times> int \<times> uint64) comp) w1)) p = Some d" for k e
    using w1 by (simp add: file_spared_def)
  from cs have t: "t = snd (ChunkStream env r ty cmp bs conc w)" by simp
  show ?thesis unfolding t ChunkStream_eq [OF True f] using w1(3) clean by (simp split: option.split)
qed

section \<open>Everything that is preserved\<close>

definition keys_step :: "'r env \<Rightarrow> ('r, 'x) world_scheme \<Rightarrow> ('r, 'x) world_scheme \<Rightarrow> bool" where
  "keys_step env w w' \<longleftrightarrow> (sys_inv env w \<longrightarrow> sys_inv env w' \<and> defaultKMS w' = defaultKMS w \<and>
     (\<forall>k r. live_key k (db w) = Some r \<longrightarrow> live_key k (db w') = Some r))"

interpretation kstep: frame_rel "keys_step env" for env
  by unfold_locales (auto simp: keys_step_def)

lemma stable_keys_step: "stable env w w' \<Longrightarrow> keys_step env w w'"
  using iface.grows_ok by (auto simp: stable_def keys_step_def sys_inv_def keys_kept_def)

lemma DeleteChunk_keys_step:
  fixes env :: "'r env"
  shows "keeps (keys_step env) (DeleteChunk env c :: (('r, 'x) world_scheme, _) comp)"
proof -
  have "keeps (keys_step env) (DeleteShard env b l :: (('r, 'x) world_scheme, _) comp)" for b l
  proof (rule keepsI)
    fix w :: "('r, 'x) world_scheme"
    have "same_more w (snd (DeleteShard env b l w))" by (rule keeps_snd [OF shard_same_more(3)])
    with iface.del_ok show "keys_step env w (snd (DeleteShard env b l w))"
      by (auto simp: keys_step_def sys_inv_def dest!: same_more_world)
  qed
  then show ?thesis unfolding DeleteChunk_def DestroyShards_def by (intro kstep.keeps_forE)
qed

lemma ChunkStream_keys_step: "keeps (keys_step env) (ChunkStream env r ty cmp bs conc)"
proof -
  have "keeps (keys_step env) (processChunk env d ty cmp bs)" for d
    by (rule keepsI) (rule stable_keys_step [OF keeps_snd [OF processChunk_stable]])
  then show ?thesis
    by (intro ChunkStream_keeps [OF kstep.frame_rel_axioms _ DeleteChunk_keys_step stable_keys_step [OF tick_stable]])
qed

definition preserved :: "'r env \<Rightarrow> ('r, 'x) world_scheme \<Rightarrow> ('r, 'x) world_scheme \<Rightarrow> bool" where
  "preserved env w t \<longleftrightarrow> (sys_inv env w \<longrightarrow> sys_inv env t \<and> keys_kept w t \<and>
     (\<forall>b l d. fst (GetShard env b l w) = Inr d \<longrightarrow> fst (GetShard env b l t) = Inr d))"

interpretation pres: frame_rel "preserved env" for env
proof
  fix s t u :: "('a, 'b) world_scheme"
  show "preserved env s s" by (simp add: preserved_def kkept.reflR)
  show "preserved env s t \<Longrightarrow> preserved env t u \<Longrightarrow> preserved env s u"
    unfolding preserved_def using kkept.transR by blast
qed

lemma stable_preserved: "stable env w w' \<Longrightarrow> preserved env w w'"
  using iface.grows_ok iface.growsD by (fastforce simp: stable_def preserved_def sys_inv_def)

lemma ChunkStream_preserved:
  assumes "rs_law env" and "crypto_law env" and "distinct bs"
  shows "keeps (preserved env) (ChunkStream env r ty cmp bs conc)"
proof (rule keepsI)
  fix w :: "('a, 'b) world_scheme"
  obtain x t where c: "ChunkStream env r ty cmp bs conc w = (x, t)" by (cases "ChunkStream env r ty cmp bs conc w")
  have "preserved env w t" unfolding preserved_def
  proof (intro impI conjI allI)
    assume inv: "sys_inv env w"
    then have ok: "iface_ok env w" "db_inv (db w)" by (simp_all add: sys_inv_def)
    have k: "keys_step env w t" by (rule keepsD [OF ChunkStream_keys_step c])
    with inv show "sys_inv env t" by (simp add: keys_step_def)
    show "keys_kept w t" using k inv ChunkStream_files [OF ok(1) c] by (simp add: keys_step_def keys_kept_def)
    fix b l d assume d: "fst (GetShard env b l w) = Inr d"
    show "fst (GetShard env b l t) = Inr d"
    proof (cases "0 < ChunkSize (Cfg env)")
      case True
      show ?thesis by (rule ChunkStream_preserves(1) [OF assms(1,2) ok assms(3) True c d])
    next
      case False
      with c d show ?thesis by (simp add: ChunkStream_def Let_def split: if_splits)
    qed
  qed
  then show "preserved env w (snd (ChunkStream env r ty cmp bs conc w))" by (simp add: c)
qed

text \<open>The rows that make up an object.\<close>

definition same_object :: "string \<Rightarrow> string \<Rightarrow> database \<Rightarrow> database \<Rightarrow> bool" where
  "same_object b k d d' \<longleftrightarrow>
     find (\<lambda>x. ob_bucket x = b \<and> ob_key x = k) (t_objects d') = find (\<lambda>x. ob_bucket x = b \<and> ob_key x = k) (t_objects d) \<and>
     object_chunk_rows b k d' = object_chunk_rows b k d \<and>
     (\<forall>c \<in> set (object_chunk_rows b k d). filter (\<lambda>s. sh_chunk s = ch_id c) (t_shards d') = filter (\<lambda>s. sh_chunk s = ch_id c) (t_shards d))"

lemma same_object_refl [simp]: "same_object b k d d"
  by (simp add: same_object_def)

lemma same_object_trans: "same_object b k d d' \<Longrightarrow> same_object b k d' d'' \<Longrightarrow> same_object b k d d''"
  by (simp add: same_object_def)

lemma same_tables_object: "same_tables w t \<Longrightarrow> same_object b k (db w) (db t)"
  by (simp add: same_tables_def same_object_def object_chunk_rows_def)

text \<open>Deletions of other things leave it alone.\<close>

lemma delete_chunks_same:
  assumes "distinct (map ch_id (t_chunks d))" and nP: "\<And>c. c \<in> set (t_chunks d) \<Longrightarrow> owned b k c \<Longrightarrow> \<not> P c"
  shows "same_object b k d (delete_chunks P d)"
proof -
  have "filter (owned b k) (filter (\<lambda>c. \<not> P c) xs) = filter (owned b k) xs" if "set xs \<subseteq> set (t_chunks d)" for xs
    using that nP by (induction xs) auto
  then have o: "object_chunk_rows b k (delete_chunks P d) = object_chunk_rows b k d"
    by (simp add: object_chunk_rows_def delete_chunks_def del: filter_filter)
  have "filter (\<lambda>s. sh_chunk s = ch_id c) (filter (\<lambda>s. sh_chunk s \<notin> ch_id ` set (filter P (t_chunks d))) xs) = filter (\<lambda>s. sh_chunk s = ch_id c) xs"
    if "c \<in> set (object_chunk_rows b k d)" for c and xs :: "shard_row list"
  proof -
    from that have c: "c \<in> set (t_chunks d)" "owned b k c" by (auto simp: object_chunk_rows_def)
    with nP assms(1) have "ch_id c \<notin> ch_id ` set (filter P (t_chunks d))" by (auto simp: distinct_map inj_on_def)
    then show ?thesis by (induction xs) auto
  qed
  with o show ?thesis by (simp add: same_object_def delete_chunks_def del: filter_filter)
qed

lemma delete_objects_same:
  assumes "delete_objects P d = Inr (n, d')" and "distinct (map ch_id (t_chunks d))" and "\<And>r. ob_bucket r = b \<Longrightarrow> ob_key r = k \<Longrightarrow> \<not> P r"
  shows "same_object b k d d'"
proof -
  let ?gone = "(\<lambda>r. (ob_bucket r, ob_key r)) ` set (filter P (t_objects d))"
  let ?d = "d\<lparr>t_objects := filter (\<lambda>r. \<not> P r) (t_objects d)\<rparr>"
  have d': "d' = delete_chunks (\<lambda>c. case ch_key c of Some k \<Rightarrow> (ch_bucket c, k) \<in> ?gone | None \<Rightarrow> False) ?d"
    using assms(1) unfolding delete_objects_def Let_def sum.inject prod.inject by blast
  have "find (\<lambda>r. ob_bucket r = b \<and> ob_key r = k) (filter (\<lambda>r. \<not> P r) xs) = find (\<lambda>r. ob_bucket r = b \<and> ob_key r = k) xs" for xs
    using assms(3) by (induction xs) auto
  then have "same_object b k d ?d" by (simp add: same_object_def object_chunk_rows_def)
  moreover have "(b, k) \<notin> ?gone" using assms(3) by auto
  then have "same_object b k ?d d'" unfolding d' using assms(2) by (intro delete_chunks_same) auto
  ultimately show ?thesis by (rule same_object_trans)
qed

lemma delete_uploads_same:
  assumes "delete_uploads P d = Inr (n, d')" and "distinct (map ch_id (t_chunks d))"
    and "\<And>c. c \<in> set (t_chunks d) \<Longrightarrow> ch_key c \<noteq> None \<Longrightarrow> ch_upload c = None"
  shows "same_object b k d d'"
proof -
  let ?d = "d\<lparr>t_uploads := filter (\<lambda>u. \<not> P u) (t_uploads d)\<rparr>"
  from assms(1) have d': "d' = delete_parts (\<lambda>p. pa_upload p \<in> ul_id ` set (filter P (t_uploads d))) ?d"
    by (simp only: delete_uploads_def sum.inject prod.inject)
  have "same_object b k d0 (delete_parts Q d0)" if "t_chunks d0 = t_chunks d" for Q d0
  proof -
    let ?d0 = "d0\<lparr>t_parts := filter (\<lambda>p. \<not> Q p) (t_parts d0)\<rparr>"
    have "same_object b k d0 ?d0" by (simp add: same_object_def object_chunk_rows_def)
    moreover have "same_object b k ?d0 (delete_parts Q d0)"
      unfolding delete_parts_def Let_def using assms(2,3) that by (intro delete_chunks_same) auto
    ultimately show ?thesis by (rule same_object_trans)
  qed
  moreover have "same_object b k d ?d" by (simp add: same_object_def object_chunk_rows_def)
  ultimately show ?thesis unfolding d' by (metis (no_types, lifting) same_object_trans database.select_convs(7) database.update_convs(5) database.surjective)
qed

lemma object_stored_shards:
  assumes g: "\<And>c x d. c \<in> set cs \<Longrightarrow> x \<in> set (Chunk_Shards c) \<Longrightarrow> fst (GetShard env (Backend x) (Location x) w) = Inr d
      \<Longrightarrow> fst (GetShard env (Backend x) (Location x) t) = Inr d" and k: "keys_kept w t"
    and s: "same_object (loc_bucket loc) (Location_Key loc) (db w) (db t)"
    and st: "object_stored env bs w loc etag data cs"
  shows "object_stored env bs t loc etag data cs"
proof -
  from st obtain r ps where o: "find (\<lambda>x. ob_bucket x = loc_bucket loc \<and> ob_key x = Location_Key loc) (t_objects (db w)) = Some r"
      "ob_etag r = FormatUint etag" "ob_size r = int (length data)"
    and h: "holds_chunks env (db w) (object_chunk_rows (loc_bucket loc) (Location_Key loc) (db w)) cs"
    and ps: "concat ps = data" "list_all2 (chunk_stored env bs \<lparr>Compression_Type = ob_ctype r, Compression_Level = ob_clevel r\<rparr> w) ps cs"
    unfolding object_stored_def by blast
  have "holds_chunks env (db t) (object_chunk_rows (loc_bucket loc) (Location_Key loc) (db w)) cs"
    using h s unfolding holds_chunks_def same_object_def by (auto simp: list_all2_conv_all_nth)
  moreover have "list_all2 (chunk_stored env bs \<lparr>Compression_Type = ob_ctype r, Compression_Level = ob_clevel r\<rparr> t) ps cs"
    using ps(2) by (auto simp: list_all2_conv_all_nth intro!: chunk_stored_shards [OF g k])
  ultimately show ?thesis using o s ps(1) unfolding object_stored_def same_object_def by auto
qed

lemma object_stored_kept:
  assumes "preserved env w t" and "sys_inv env w" and "same_object (loc_bucket loc) (Location_Key loc) (db w) (db t)"
    and "object_stored env bs w loc etag data cs"
  shows "object_stored env bs t loc etag data cs"
  using assms(1,2) by (intro object_stored_shards [OF _ _ assms(3,4)]) (auto simp: preserved_def)

lemma upsertObject_other:
  assumes inv: "db_inv (db w)" and up: "upsertObject env ob w = (x, t)"
    and o: "(b, k) \<noteq> (loc_bucket (Obj_Location ob), Location_Key (Obj_Location ob)) \<or> (\<exists>e. x = Inl e)"
  shows "same_object b k (db w) (db t)"
proof (cases x)
  case (Inl e)
  then have "db t = db w"
    using up by (auto simp: upsertObject_def Let_def bindE_eq_Inl_iff getDB_eq split: if_splits dest: transaction_Inl)
  then show ?thesis by simp
next
  case (Inr u)
  let ?b = "loc_bucket (Obj_Location ob)" and ?k = "Location_Key (Obj_Location ob)"
  have ne: "(b, k) \<noteq> (?b, ?k)" and up': "upsertObject env ob w = (Inr (), t)" using o up Inr by auto
  obtain now d0 d1 nows where u: "metaDB w" "insert_or_ignore_bucket ?b now (db w) = Inr ((), d0)"
    "upsert_object (object_to_row now ob) d0 = Inr ((), d1)" "length nows = length (Obj_Chunks ob)"
    "distinct (map Chunk_Id (Obj_Chunks ob))"
    "Chunk_Id ` set (Obj_Chunks ob) \<inter> ch_id ` set (t_chunks (delete_chunks (owned ?b ?k) d1)) = {}"
    "db t = with_chunks ?b ?k (Obj_Chunks ob) nows (delete_chunks (owned ?b ?k) d1)" by (rule upsertObject_steps [OF up'])
  have "db_inv d1" using insert_or_ignore_bucket_ok upsert_object_ok inv u(2,3) unfolding stmt_ok_def by blast
  note w = with_chunks_other [OF this u(5,6,4) ne, folded u(7)]
  have 0: "t_chunks d1 = t_chunks (db w)" "t_shards d1 = t_shards (db w)" "t_objects d0 = t_objects (db w)"
    using upsert_object_Inr(2,3) [OF u(3)] insert_or_ignore_Inr [OF u(2)] by simp_all
  have "ob_bucket (object_to_row now ob) = ?b" "ob_key (object_to_row now ob) = ?k" by (simp_all add: object_to_row_def)
  then have "find (\<lambda>x. ob_bucket x = b \<and> ob_key x = k) (t_objects d1) = find (\<lambda>x. ob_bucket x = b \<and> ob_key x = k) (t_objects (db w))"
    using upsert_object_other [OF u(3), of b k] ne 0(3) by simp
  moreover have "t_objects (db t) = t_objects d1" by (simp add: u(7) with_chunks_def delete_chunks_def)
  moreover have "object_chunk_rows b k d1 = object_chunk_rows b k (db w)" by (simp add: object_chunk_rows_def 0)
  ultimately show ?thesis using w 0(2) by (simp add: same_object_def)
qed

lemma upsertObject_preserved: "keeps (preserved env) (upsertObject env ob)"
  by (rule keepsI) (rule stable_preserved [OF keeps_snd [OF upsertObject_stable]])

lemma tick_preserved: "preserved env w (w\<lparr>tick := Suc (tick w)\<rparr>)"
  by (rule stable_preserved [OF tick_stable])

text \<open>Putting or updating an object.\<close>

lemma PutObjectStream_safe:
  assumes l: "rs_law env" "crypto_law env" and inv: "sys_inv env w" and bs: "distinct (availableBackends w)"
    and p: "PutObjectStream env loc r w = (x, t) \<or> UpdateObjectStream env loc r w = (x, t)"
    and o: "(b, k) \<noteq> (loc_bucket loc, Location_Key loc) \<or> (\<exists>e. x = Inl e)"
  shows "preserved env w t \<and> same_object b k (db w) (db t)"
proof -
  let ?cmp = "configured_compression env" and ?bs = "availableBackends w" and ?conc = "ChunkConcurrency (Cfg env)"
  show ?thesis
  proof (cases "EncryptionTypeFromString (EncryptionMethod (Cfg env))")
    case (Inl e)
    with p show ?thesis by (auto simp: PutObjectStream_def UpdateObjectStream_def liftE_def bindE_def pres.reflR)
  next
    case (Inr ty)
    obtain y w1 where c: "ChunkStream env r ty ?cmp ?bs ?conc w = (y, w1)" by (cases "ChunkStream env r ty ?cmp ?bs ?conc w")
    have 1: "preserved env w w1" "same_object b k (db w) (db w1)"
      using keepsD [OF ChunkStream_preserved [OF l bs] c] keepsD [OF ChunkStream_tables c] same_tables_object by blast+
    show ?thesis
    proof (cases y)
      case (Inl e)
      with p c Inr 1 show ?thesis
        by (auto simp: PutObjectStream_def UpdateObjectStream_def liftE_def bindE_def GetAvailableBackends_def)
    next
      case (Inr z)
      obtain cs len h where z: "z = (cs, len, h)" by (cases z)
      have ty: "EncryptionTypeFromString (EncryptionMethod (Cfg env)) = Inr ty" by fact
      have "\<exists>ob w2. Obj_Location ob = loc \<and> (w2 = w1 \<or> w2 = w1\<lparr>tick := Suc (tick w1)\<rparr>) \<and> bindE (upsertObject env ob) (\<lambda>_. returnE ob) w2 = (x, t)"
        using p
      proof
        assume "PutObjectStream env loc r w = (x, t)"
        with c Inr z ty show ?thesis
          by (intro exI [of _ "\<lparr>Obj_Location = loc, Obj_Size = len, Obj_Compression = ?cmp, LastModified = now_at env (tick w1), ETag = h, Obj_Chunks = cs\<rparr>"]
              exI [of _ "w1\<lparr>tick := Suc (tick w1)\<rparr>"]) (simp add: PutObjectStream_def liftE_def GetAvailableBackends_def GetCurrentTime_eq meta_PutObject_def Let_def)
      next
        assume "UpdateObjectStream env loc r w = (x, t)"
        with c Inr z ty show ?thesis
          by (intro exI [of _ "\<lparr>Obj_Location = loc, Obj_Size = len, Obj_Compression = ?cmp, LastModified = 0, ETag = h, Obj_Chunks = cs\<rparr>"]
              exI [of _ w1]) (simp add: UpdateObjectStream_def liftE_def GetAvailableBackends_def meta_UpdateObject_def Let_def)
      qed
      then obtain ob w2 where ob: "Obj_Location ob = loc" and w2: "w2 = w1 \<or> w2 = w1\<lparr>tick := Suc (tick w1)\<rparr>"
        and tl: "bindE (upsertObject env ob) (\<lambda>_. returnE ob) w2 = (x, t)" by blast
      obtain x' t' where u': "upsertObject env ob w2 = (x', t')" by (cases "upsertObject env ob w2")
      with tl have u: "upsertObject env ob w2 = (x', t)" "(\<exists>e. x = Inl e) \<longleftrightarrow> (\<exists>e. x' = Inl e)" by (cases x'; auto)+
      have 2: "preserved env w w2" "db w2 = db w1" using w2 1(1) pres.transR [OF 1(1) tick_preserved] by auto
      then have "db_inv (db w2)" using inv by (simp add: preserved_def sys_inv_def)
      with upsertObject_other [OF _ u(1), of b k] o ob u(2) have "same_object b k (db w2) (db t)" by auto
      moreover have "preserved env w2 t" by (rule keepsD [OF upsertObject_preserved u(1)])
      ultimately show ?thesis using 1(2) 2 pres.transR same_object_trans by metis
    qed
  qed
qed

end
