(* ===== verification/Delete_Laws.thy ===== *)
theory Delete_Laws
  imports Upload_Safety
begin

text \<open>
  What the deletion of an object does: its blobs are gone, its rows too, and the rows of other objects stay.
\<close>

section \<open>Deleting an object\<close>

lemma DeleteShard_mono: "keeps (spares env A {}) (DeleteShard env b l)"
  by (rule DeleteShard_spares) simp

lemma DeleteChunks_gone:
  fixes w :: "('r, 'x) world_scheme"
  assumes "iface_ok env w" and "DeleteChunks env cs w = (Inr (), t)" and "c \<in> set cs" and "s \<in> set (Chunk_Shards c)"
  shows "\<exists>e. fst (GetShard env (Backend s) (Location s) t) = Inl e"
  using assms(1-3)
proof (induction cs arbitrary: w)
  case (Cons c' cs)
  from Cons.prems(2) obtain w1 where d: "DestroyShards env (Chunk_Shards c') w = (Inr (), w1)" and r: "DeleteChunks env cs w1 = (Inr (), t)"
    by (auto simp: DeleteChunks_def DeleteChunk_def bindE_eq_Inr_iff)
  have ok: "iface_ok env w1"
    using keepsD [OF DestroyShards_spares [of "Chunk_Shards c'" "shard_addr w" "{}" env] d] Cons.prems(1) by (simp add: spares_def)
  show ?case
  proof (cases "c \<in> set cs")
    case True
    with Cons.IH [OF ok r] show ?thesis by simp
  next
    case False
    with Cons.prems(3) have "s \<in> set (Chunk_Shards c')" using assms(4) by simp
    then obtain e where e: "fst (GetShard env (Backend s) (Location s) w1) = Inl e" using DestroyShards_gone [OF Cons.prems(1) d] by blast
    have "keeps (spares env (shard_addr w1) {} :: ('r, 'x) world_scheme \<Rightarrow> _) (DeleteChunks env cs)"
      unfolding DeleteChunks_def DeleteChunk_def by (intro spare.keeps_forE DestroyShards_spares) simp
    from keepsD [OF this r] ok e show ?thesis by (auto simp: spares_def intro: not_Inr_Inl)
  qed
qed simp

lemma DeleteChunks_tables: "keeps (same_tables :: ('r, 'x) world_scheme \<Rightarrow> _) (DeleteChunks env cs)"
  unfolding DeleteChunks_def by (intro tabs.keeps_forE DeleteChunk_tables)

lemma meta_GetObject_db:
  assumes "meta_GetObject env loc w = (x, t)"
  shows "db t = db w"
proof -
  let ?R = "\<lambda>w w' :: ('a, 'b) world_scheme. db w' = db w"
  have R: "frame_rel ?R" by unfold_locales auto
  have q: "keeps ?R (query env f)" "keeps ?R getDB" for f by (simp_all add: keeps_def query_eq getDB_eq)
  have "keeps ?R (meta_GetObject env loc)"
    unfolding meta_GetObject_def query_row_def getChunks_def chunkRowsToChunks_def getShards_def by (intro frame_rel.keeps_rules [OF R] q)
  from keepsD [OF this assms] show ?thesis .
qed

lemma delete_object_rows:
  assumes "delete_objects (\<lambda>r. ob_bucket r = b \<and> ob_key r = k) d = Inr (n, d')" and "db_inv d"
  shows "find (\<lambda>r. ob_bucket r = b \<and> ob_key r = k) (t_objects d') = None" and "n \<noteq> 0 \<Longrightarrow> object_chunk_rows b k d' = []"
    and "(b', k') \<noteq> (b, k) \<Longrightarrow> same_object b' k' d d'"
proof -
  let ?P = "\<lambda>r. ob_bucket r = b \<and> ob_key r = k"
  let ?gone = "(\<lambda>r. (ob_bucket r, ob_key r)) ` set (filter ?P (t_objects d))"
  let ?C = "\<lambda>c :: chunk_row. case ch_key c of Some k \<Rightarrow> (ch_bucket c, k) \<in> ?gone | None \<Rightarrow> False"
  have d': "d' = delete_chunks ?C (d\<lparr>t_objects := filter (\<lambda>r. \<not> ?P r) (t_objects d)\<rparr>)" and n: "n = length (filter ?P (t_objects d))"
    using assms(1) unfolding delete_objects_def Let_def sum.inject prod.inject by blast+
  define C where "C = ?C"
  have C: "C c \<longleftrightarrow> filter ?P (t_objects d) \<noteq> [] \<and> owned b k c" for c
  proof -
    have "?gone \<subseteq> {(b, k)}" "?gone = {} \<longleftrightarrow> filter ?P (t_objects d) = []" by (auto simp: filter_empty_conv)
    then have "(x, y) \<in> ?gone \<longleftrightarrow> filter ?P (t_objects d) \<noteq> [] \<and> x = b \<and> y = k" for x y by auto
    then show ?thesis by (simp add: C_def split: option.split)
  qed
  note d' = d' [folded C_def]
  show "find ?P (t_objects d') = None" by (auto simp: d' delete_chunks_def find_None_iff)
  show "object_chunk_rows b k d' = []" if "n \<noteq> 0"
  proof -
    have "filter (owned b k) (t_chunks d') = []" using that n by (auto simp: d' C delete_chunks_def filter_empty_conv)
    then show ?thesis by (simp add: object_chunk_rows_def)
  qed
  have "distinct (map ch_id (t_chunks d))" using assms(2) by (simp add: db_inv_def keys_unique_def)
  then show "same_object b' k' d d'" if "(b', k') \<noteq> (b, k)"
    using that by (intro delete_objects_same [OF assms(1)]) auto
qed

lemma DeleteObject_Inr:
  fixes w :: "('r, 'x) world_scheme"
  assumes inv: "sys_inv env w" and d: "DeleteObject env loc w = (Inr (), t)"
  shows "find (\<lambda>r. ob_bucket r = loc_bucket loc \<and> ob_key r = Location_Key loc) (t_objects (db t)) = None"
    and "object_chunk_rows (loc_bucket loc) (Location_Key loc) (db t) = []"
    and "(b', k') \<noteq> (loc_bucket loc, Location_Key loc) \<Longrightarrow> same_object b' k' (db w) (db t)"
    and "\<exists>ob w1. GetObject env loc w = (Inr ob, w1) \<and>
      (\<forall>c \<in> set (Obj_Chunks ob). \<forall>s \<in> set (Chunk_Shards c). \<exists>e. fst (GetShard env (Backend s) (Location s) t) = Inl e)"
    and "metaDB t"
proof -
  from d obtain ob w1 w2 n where g: "meta_GetObject env loc w = (Inr ob, w1)" and dc: "DeleteChunks env (Obj_Chunks ob) w1 = (Inr (), w2)"
    and ex: "exec env (delete_objects (\<lambda>r. ob_bucket r = loc_bucket loc \<and> ob_key r = Location_Key loc)) w2 = (Inr n, t)" "n \<noteq> 0" "metaDB w2"
    by (auto simp: DeleteObject_def meta_DeleteObject_def bindE_eq_Inr_iff getDB_eq split: if_splits)
  have i1: "sys_inv env w1" using keepsD [OF meta_inv(6) g] inv by (simp add: inv_step_def)
  have tb: "same_tables w1 w2" by (rule keepsD [OF DeleteChunks_tables dc])
  have "keeps (inv_step env :: ('r, 'x) world_scheme \<Rightarrow> _) (DeleteChunks env (Obj_Chunks ob))"
    unfolding DeleteChunks_def by (intro istep2.keeps_forE DeleteChunk_inv)
  from keepsD [OF this dc] i1 have i2: "sys_inv env w2" by (simp add: inv_step_def)
  from ex obtain d' where d': "delete_objects (\<lambda>r. ob_bucket r = loc_bucket loc \<and> ob_key r = Location_Key loc) (db w2) = Inr (n, d')" "db t = d'"
    "t = w2\<lparr>tick := Suc (tick w2), db := d'\<rparr>" by (auto simp: exec_Inr)
  show "metaDB t" using ex(3) by (simp add: d'(3))
  note rows = delete_object_rows [OF d'(1), folded d'(2)]
  have inv2: "db_inv (db w2)" using i2 by (simp add: sys_inv_def)
  show "find (\<lambda>r. ob_bucket r = loc_bucket loc \<and> ob_key r = Location_Key loc) (t_objects (db t)) = None" by (rule rows(1) [OF inv2])
  show "object_chunk_rows (loc_bucket loc) (Location_Key loc) (db t) = []" using rows(2) [OF inv2] ex(2) by blast
  show "same_object b' k' (db w) (db t)" if "(b', k') \<noteq> (loc_bucket loc, Location_Key loc)"
    using rows(3) [OF inv2 that] same_tables_object [OF tb, of b' k'] meta_GetObject_db [OF g] same_object_trans by metis
  have "fst (GetShard env b l t) = fst (GetShard env b l w2)" for b l by (simp add: d'(3) GetShard_read split: option.split)
  with DeleteChunks_gone [OF _ dc] i1 g show "\<exists>ob w1. GetObject env loc w = (Inr ob, w1) \<and>
      (\<forall>c \<in> set (Obj_Chunks ob). \<forall>s \<in> set (Chunk_Shards c). \<exists>e. fst (GetShard env (Backend s) (Location s) t) = Inl e)"
    unfolding GetObject_def sys_inv_def by metis
qed

end
