(* ===== verification/Store_Laws.thy ===== *)
theory Store_Laws
  imports Steady Delete_Laws
begin

text \<open>
  The objects of a system that works: where their blobs lie, that they are apart from one another, and that every
  put, read and deletion on such a system succeeds and keeps it so.
\<close>

section \<open>Deleting what can be read\<close>

text \<open>Documented behaviour of the messaging services: a message that exists can be deleted.\<close>

definition removable :: "'r env \<Rightarrow> bool" where
  "removable env \<longleftrightarrow> (\<forall>r c m d. ds_download env r c m = Inr d \<longrightarrow> fst (dg_delete env r c m)) \<and>
     (\<forall>r c l m d. td_GetObject env r c l = Inr d \<longrightarrow> parseTelegramMessageID l = Inr m \<longrightarrow> fst (td_delete env r c m))"

lemma svc_DeleteObject_succeeds:
  assumes nf: "no_faults env" and rm: "removable env" and d: "svc_read env (files w) (remote w) svc l = Inr d"
  shows "\<exists>t. svc_DeleteObject env b svc l w = (Inr (), t)"
proof (cases svc)
  case (FileService s)
  have "\<not> fault env k" for k using nf by (simp add: no_faults_def)
  with d FileService show ?thesis by (auto simp: file_DeleteObject_def os_Remove_eq split: if_splits option.splits)
next
  case (DiscordService s)
  show ?thesis
  proof (cases "ds_isConfigured s")
    case False
    with d DiscordService show ?thesis
      by (auto simp: discord_DeleteObject_def ds_getObjectInMemory_def ds_deleteObjectInMemory_def RegisterInstance_def returnE_def split: option.splits)
  next
    case True
    with d DiscordService obtain w1 where g: "ds_getSession env b s w = (Inr (), w1)" "remote w1 = remote w"
      and x: "ds_download env (remote w) (ds_channelID s) l = Inr d"
      by (cases "ds_session s") (auto simp: ds_getSession_eq split: if_split_asm)
    have "fst (dg_delete env (remote w) (ds_channelID s) l)" using rm x by (auto simp: removable_def)
    then obtain r' where "dg_delete env (remote w) (ds_channelID s) l = (True, r')" by (cases "dg_delete env (remote w) (ds_channelID s) l") simp
    with g True DiscordService show ?thesis by (simp add: discord_DeleteObject_def bindE_def)
  qed
next
  case (TelegramService s)
  show ?thesis
  proof (cases "tg_isConfigured s")
    case False
    with d TelegramService show ?thesis
      by (auto simp: telegram_DeleteObject_def tg_getObjectInMemory_def tg_deleteObjectInMemory_def RegisterInstance_def returnE_def split: option.splits)
  next
    case True
    with d TelegramService obtain w1 where g: "tg_getRemote env b s w = (Inr (), w1)" "remote w1 = remote w"
      and x: "td_GetObject env (remote w) (tg_chatID s) l = Inr d"
      by (cases "tg_remote s") (auto simp: tg_getRemote_eq split: if_split_asm)
    obtain m where m: "parseTelegramMessageID l = Inr m" using x by (auto simp: td_GetObject_def split: sum.splits)
    have "fst (td_delete env (remote w) (tg_chatID s) m)" using rm x m unfolding removable_def by blast
    then obtain r' where "td_delete env (remote w) (tg_chatID s) m = (True, r')" by (cases "td_delete env (remote w) (tg_chatID s) m") simp
    with g m True TelegramService show ?thesis by (simp add: telegram_DeleteObject_def td_DeleteObject_def bindE_def liftE_def)
  qed
qed

lemma DeleteShard_succeeds:
  assumes "no_faults env" and "removable env" and "fst (GetShard env b l w) = Inr d"
  shows "\<exists>t. DeleteShard env b l w = (Inr (), t)"
proof -
  from assms(3) obtain svc where "instances w b = Some svc" "svc_read env (files w) (remote w) svc l = Inr d"
    by (auto simp: GetShard_read split: option.splits)
  with svc_DeleteObject_succeeds [OF assms(1,2)] show ?thesis by (simp add: DeleteShard_def bindE_def getService_eq)
qed

lemma DestroyShards_succeeds:
  fixes w :: "('r, 'x) iface_scheme"
  assumes "no_faults env" and "removable env" and "iface_ok env w" and "distinct (map (saddr w) ss)"
    and "\<forall>s \<in> set ss. \<exists>d. fst (GetShard env (Backend s) (Location s) w) = Inr d"
  shows "\<exists>t. DestroyShards env ss w = (Inr (), t)"
  using assms(3-)
proof (induction ss arbitrary: w)
  case (Cons s ss)
  obtain d where "fst (GetShard env (Backend s) (Location s) w) = Inr d" using Cons.prems(3) by auto
  from DeleteShard_succeeds [OF assms(1,2) this] obtain w1 where w1: "DeleteShard env (Backend s) (Location s) w = (Inr (), w1)" by blast
  have a: "iface_ok env w1" "shard_addr w1 = shard_addr w"
    using iface.del_ok [OF Cons.prems(1), of "Backend s" "Location s"] iface.del_addr [OF Cons.prems(1), of "Backend s" "Location s"] w1 by simp_all
  have "\<exists>t. DestroyShards env ss w1 = (Inr (), t)"
  proof (rule Cons.IH [OF a(1)])
    show "distinct (map (saddr w1) ss)" using Cons.prems(2) by (simp add: saddr_def [abs_def] a(2))
    show "\<forall>x \<in> set ss. \<exists>d. fst (GetShard env (Backend x) (Location x) w1) = Inr d"
    proof
      fix x assume x: "x \<in> set ss"
      then obtain d where d: "fst (GetShard env (Backend x) (Location x) w) = Inr d" using Cons.prems(3) by auto
      have "shard_addr w (Backend s) (Location s) \<noteq> shard_addr w (Backend x) (Location x)"
        using Cons.prems(2) x by (auto simp: saddr_def)
      from iface.del_frame [OF Cons.prems(1) this d] w1 show "\<exists>d. fst (GetShard env (Backend x) (Location x) w1) = Inr d" by simp
    qed
  qed
  then show ?case using w1 by (simp add: DestroyShards_def bindE_def)
qed (simp add: DestroyShards_def returnE_def)

text \<open>The shards of an object.\<close>

abbreviation shards_of :: "Chunk list \<Rightarrow> shard list" where
  "shards_of cs \<equiv> concat (map Chunk_Shards cs)"

lemma DeleteChunks_shards: "DeleteChunks env cs = DestroyShards env (shards_of cs)"
  by (induction cs) (simp_all add: DeleteChunks_def DeleteChunk_def DestroyShards_def forE_append)


section \<open>Where the blobs of an upload lie\<close>

lemma processChunk_addrs:
  assumes law: "rs_law env" and ok: "iface_ok env w" and bs: "distinct bs"
    and p: "processChunk env data ty cmp bs w = (Inr c, t)"
  shows "distinct (map (saddr w) (Chunk_Shards c))" and "\<forall>s \<in> set (Chunk_Shards c). \<exists>d. fst (GetShard env (Backend s) (Location s) t) = Inr d"
proof -
  obtain cd ct k w1 d n w2 where e: "Encrypt env cd ty w = (Inr (ct, k), w1)"
    and s: "ShardData env ct bs w1 = (Inr (Chunk_Shards c, d, n), w2)" and t: "t = w2\<lparr>tick := Suc (tick w2)\<rparr>"
    using p that by (auto simp: processChunk_def bindE_eq_Inr_iff uuid_New_eq)
  have g: "iface.grows env w w1" using keepsD [OF Encrypt_stable e] by (simp add: stable_def)
  have a: "saddr w1 = saddr w" using g ok by (simp add: iface.grows_def saddr_def [abs_def])
  from ShardData_sharded [OF law iface.grows_ok [OF g ok] bs s] obtain p ys groups finals where
    sh: "sharded env ct bs w1 (Chunk_Shards c) d p n ys groups finals w2" by blast
  then show "distinct (map (saddr w) (Chunk_Shards c))" by (simp add: sharded_def uploaded_def a)
  show "\<forall>s \<in> set (Chunk_Shards c). \<exists>d. fst (GetShard env (Backend s) (Location s) t) = Inr d"
    using sharded_read [OF sh] by (simp add: t)
qed

text \<open>The chunks of a job lie apart from one another, whatever the schedule.\<close>

definition lies_apart :: "'r env \<Rightarrow> ('r, 'x) world_scheme \<Rightarrow> chunkJob \<times> ('r, 'x) world_scheme \<Rightarrow> bool" where
  "lies_apart env w0 st \<longleftrightarrow> stable env w0 (snd st) \<and>
     (\<forall>i c. cj_completed (fst st) i = Some c \<longrightarrow> distinct (map (saddr w0) (Chunk_Shards c)) \<and>
        (\<forall>s \<in> set (Chunk_Shards c). \<exists>d. fst (GetShard env (Backend s) (Location s) (snd st)) = Inr d)) \<and>
     (\<forall>i i' c c'. i \<noteq> i' \<longrightarrow> cj_completed (fst st) i = Some c \<longrightarrow> cj_completed (fst st) i' = Some c' \<longrightarrow>
        saddr w0 ` set (Chunk_Shards c) \<inter> saddr w0 ` set (Chunk_Shards c') = {})"

lemma workStep_apart:
  assumes law: "rs_law env" and ok: "iface_ok env w0" and bs: "distinct bs" and inv: "lies_apart env w0 (j, w)"
  shows "lies_apart env w0 (workStep env ty cmp bs k (j, w))"
proof (cases "k < length (cj_running j)")
  case False
  then show ?thesis using inv by (simp add: workStep_def)
next
  case True
  obtain i buf where r: "cj_running j ! k = (i, buf)" by (cases "cj_running j ! k")
  obtain q w' where p: "processChunk env buf ty cmp bs w = (q, w')" by (cases "processChunk env buf ty cmp bs w")
  have I: "stable env w0 w"
    "\<And>i c. cj_completed j i = Some c \<Longrightarrow> distinct (map (saddr w0) (Chunk_Shards c))"
    "\<And>i c s. cj_completed j i = Some c \<Longrightarrow> s \<in> set (Chunk_Shards c) \<Longrightarrow> \<exists>d. fst (GetShard env (Backend s) (Location s) w) = Inr d"
    "\<And>i i' c c'. i \<noteq> i' \<Longrightarrow> cj_completed j i = Some c \<Longrightarrow> cj_completed j i' = Some c' \<Longrightarrow>
        saddr w0 ` set (Chunk_Shards c) \<inter> saddr w0 ` set (Chunk_Shards c') = {}"
    using inv by (auto simp: lies_apart_def)
  have s: "stable env w w'" by (rule keepsD [OF processChunk_stable p])
  have okw: "iface_ok env w" "saddr w = saddr w0" using I(1) ok iface.grows_ok by (auto simp: stable_def iface.grows_def saddr_def [abs_def])
  have old: "\<exists>d. fst (GetShard env (Backend x) (Location x) w') = Inr d" if "cj_completed j i = Some c" "x \<in> set (Chunk_Shards c)" for i c x
    using I(3) [OF that] iface.growsD [OF _ okw(1)] s unfolding stable_def by blast
  have s0: "stable env w0 w'" by (rule stab.transR [OF I(1) s])
  show ?thesis
  proof (cases q)
    case (Inl e)
    then show ?thesis using True r p s0 I(2,4) old by (simp add: workStep_def Let_def lies_apart_def)
  next
    case (Inr c)
    note new = processChunk_addrs [OF law okw(1) bs p [unfolded Inr]]
    have "fresh_shards env w c" using processChunk_fresh [OF law okw(1) stab.reflR bs] p Inr by blast
    then have "saddr w0 ` set (Chunk_Shards c) \<inter> saddr w0 ` set (Chunk_Shards c') = {}" if "cj_completed j i' = Some c'" for i' c'
      using I(3) [OF that] unfolding fresh_shards_def okw(2) [symmetric] by (fastforce simp: saddr_def)
    note apart = this
    have "workStep env ty cmp bs k (j, w) = (j\<lparr>cj_running := take k (cj_running j) @ drop (Suc k) (cj_running j),
        cj_completed := (cj_completed j)(i \<mapsto> c)\<rparr>, w')" using True r p Inr by (simp add: workStep_def Let_def)
    then show ?thesis using s0 I(2,4) old new okw(2) apart by (simp add: lies_apart_def Int_commute)
  qed
qed

lemma finalJob_apart:
  assumes "rs_law env" and "iface_ok env w" and "distinct bs"
  shows "lies_apart env w (finalJob env r ty cmp bs conc w)"
proof -
  let ?I = "lies_apart env w"
  have step: "?I (jobStep env limit n fails ty cmp bs pick st)" if "?I st" for limit n fails pick st
  proof (cases "pick = 0")
    case True
    with that show ?thesis by (simp add: jobStep_def lies_apart_def)
  next
    case False
    then show ?thesis using workStep_apart [OF assms, of "fst st" "snd st"] that by (simp add: jobStep_def)
  qed
  show ?thesis unfolding finalJob_def Let_def
    by (intro drainJob_inv [of ?I] fold_inv [of ?I] step) (simp_all add: lies_apart_def tick_stable, simp_all add: newJob_def)
qed

lemma distinct_concat_upt:
  assumes "\<And>i. i < n \<Longrightarrow> distinct (map f (g i))" and "\<And>i j. i < n \<Longrightarrow> j < n \<Longrightarrow> i \<noteq> j \<Longrightarrow> f ` set (g i) \<inter> f ` set (g j) = {}"
  shows "distinct (map f (concat (map g [0 ..< n])))"
  using assms
proof (induction n)
  case (Suc n)
  have "f ` set (g i) \<inter> f ` set (g n) = {}" if "i < n" for i using Suc.prems(2) [of i n] that by simp
  then have "f ` set (concat (map g [0 ..< n])) \<inter> f ` set (g n) = {}" by fastforce
  with Suc show ?case by simp
qed simp

lemma ChunkStream_addrs:
  assumes hyp: "rs_law env" "crypto_law env" "iface_ok env w" "db_inv (db w)" "distinct bs" "0 < ChunkSize (Cfg env)"
    and cs: "ChunkStream env r ty cmp bs conc w = (Inr (cs, len, h), t)"
  shows "distinct (map (saddr w) (shards_of cs))" and "\<forall>c \<in> set cs. new_files w c"
proof -
  obtain j w1 where f: "finalJob env r ty cmp bs conc w = (j, w1)" by (cases "finalJob env r ty cmp bs conc w")
  have err: "cj_err j = None" "\<not> cj_readErr j" and out: "cs = map (\<lambda>i. the (cj_completed j i)) [0 ..< cj_ordinal j]"
    using cs unfolding ChunkStream_eq [OF hyp(6) f] by (auto simp: bindE_eq_Inr_iff split: option.splits if_splits)
  have "dom (cj_completed j) = {..< cj_ordinal j}"
    using finalJob_inv(1) [OF hyp, of r cmp ty conc] finalJob_inv(2) [OF hyp, of r ty cmp conc] err
    by (simp add: f job_inv_def read_inv_def jobDone_def job_entries_def)
  then have c: "cj_completed j i = Some (the (cj_completed j i))" if "i < cj_ordinal j" for i using that by (metis domIff lessThan_iff option.collapse)
  have I: "lies_apart env w (j, w1)" by (simp add: finalJob_apart [OF hyp(1,3,5)] flip: f)
  have s: "shards_of cs = concat (map (\<lambda>i. Chunk_Shards (the (cj_completed j i))) [0 ..< cj_ordinal j])" by (simp add: out comp_def)
  show "distinct (map (saddr w) (shards_of cs))" unfolding s
    by (rule distinct_concat_upt) (use I c in \<open>force simp: lies_apart_def\<close>)+
  show "\<forall>c \<in> set cs. new_files w c" using finalJob_files(2) [OF hyp(3) f] c by (auto simp: out)
qed


section \<open>The objects of a system\<close>

definition place :: "ObjectLocation \<Rightarrow> string \<times> string" where
  "place loc = (loc_bucket loc, Location_Key loc)"

definition object_at :: "ObjectLocation \<Rightarrow> database \<Rightarrow> object_row option" where
  "object_at loc d = find (\<lambda>r. ob_bucket r = loc_bucket loc \<and> ob_key r = Location_Key loc) (t_objects d)"

text \<open>A stored object whose blobs lie apart from one another and from the key file.\<close>

definition intact :: "'r env \<Rightarrow> ('r, 'x) world_scheme \<Rightarrow> ObjectLocation \<Rightarrow> bytes \<Rightarrow> Chunk list \<Rightarrow> bool" where
  "intact env w loc data cs \<longleftrightarrow> object_stored env (availableBackends w) w loc (xxhash64 env data) data cs \<and>
     distinct (map (saddr w) (shards_of cs)) \<and> (\<forall>path. defaultKMS w = Some path \<longrightarrow> AFile path \<notin> saddr w ` set (shards_of cs))"

text \<open>The system holds exactly the objects of a map, and their blobs are apart.\<close>

definition holds_objects :: "'r env \<Rightarrow> ('r, 'x) world_scheme \<Rightarrow> (string \<times> string \<rightharpoonup> bytes \<times> Chunk list) \<Rightarrow> bool" where
  "holds_objects env w M \<longleftrightarrow>
     (\<forall>loc. M (place loc) = None \<longrightarrow> object_at loc (db w) = None) \<and>
     (\<forall>loc data cs. M (place loc) = Some (data, cs) \<longrightarrow> intact env w loc data cs) \<and>
     (\<forall>x y data cs data' cs'. x \<noteq> y \<longrightarrow> M x = Some (data, cs) \<longrightarrow> M y = Some (data', cs') \<longrightarrow>
        saddr w ` set (shards_of cs) \<inter> saddr w ` set (shards_of cs') = {})"

lemma saddr_steady: "steady w t \<Longrightarrow> saddr t = saddr w"
  by (simp add: saddr_def [abs_def] steady_addr)

lemma intact_read:
  assumes "intact env w loc data cs" and "s \<in> set (shards_of cs)"
  shows "\<exists>d. fst (GetShard env (Backend s) (Location s) w) = Inr d"
proof -
  from assms(2) obtain c where c: "c \<in> set cs" "s \<in> set (Chunk_Shards c)" by auto
  from assms(1) obtain cmp ps where "list_all2 (chunk_stored env (availableBackends w) cmp w) ps cs"
    unfolding intact_def object_stored_def by blast
  with c(1) obtain d where "chunk_stored env (availableBackends w) cmp w d c" by (auto simp: list_all2_conv_all_nth in_set_conv_nth)
  then show ?thesis using chunk_stored_read c(2) by blast
qed

lemma intact_kept:
  assumes i: "intact env w loc data cs" and s: "steady w t" and k: "keys_kept w t"
    and o: "same_object (loc_bucket loc) (Location_Key loc) (db w) (db t)"
    and g: "\<And>x d. x \<in> set (shards_of cs) \<Longrightarrow> fst (GetShard env (Backend x) (Location x) w) = Inr d
      \<Longrightarrow> fst (GetShard env (Backend x) (Location x) t) = Inr d"
  shows "intact env t loc data cs"
proof -
  have "object_stored env (availableBackends w) t loc (xxhash64 env data) data cs"
    using i g by (intro object_stored_shards [OF _ k o]) (auto simp: intact_def)
  moreover have "defaultKMS t = defaultKMS w" using s by (simp add: steady_def)
  ultimately show ?thesis using i by (simp add: intact_def saddr_steady [OF s] steady_backends [OF s])
qed

lemma object_at_same: "same_object (loc_bucket loc) (Location_Key loc) d d' \<Longrightarrow> object_at loc d' = object_at loc d"
  by (simp add: same_object_def object_at_def)

text \<open>Nothing of an object is lost where nothing readable is lost.\<close>

lemma holds_kept:
  assumes h: "holds_objects env w M" and s: "steady w t" and k: "keys_kept w t"
    and o: "\<And>b k. same_object b k (db w) (db t)" and g: "\<And>b l d. fst (GetShard env b l w) = Inr d \<Longrightarrow> fst (GetShard env b l t) = Inr d"
  shows "holds_objects env t M"
  unfolding holds_objects_def saddr_steady [OF s]
proof (intro conjI allI impI)
  fix loc assume "M (place loc) = None"
  then show "object_at loc (db t) = None" using h object_at_same [OF o] by (simp add: holds_objects_def)
next
  fix loc data cs assume "M (place loc) = Some (data, cs)"
  then have "intact env w loc data cs" using h by (simp add: holds_objects_def)
  then show "intact env t loc data cs" by (rule intact_kept [OF _ s k o g])
next
  fix x y data cs data' cs' assume "x \<noteq> y" "M x = Some (data, cs)" "M y = Some (data', cs')"
  then show "saddr w ` set (shards_of cs) \<inter> saddr w ` set (shards_of cs') = {}" using h unfolding holds_objects_def by blast
qed

text \<open>A working system keeps working.\<close>

lemma accepting_steady:
  assumes a: "accepting env w" and s: "steady w t" and i: "sys_inv env t" and k: "keys_kept w t" and p: "ids_past env t"
  shows "accepting env t"
proof -
  have b: "availableBackends t = availableBackends w" by (rule steady_backends [OF s])
  have "ready env (availableBackends w) t"
    using a i kms_ready_kept [OF k] healthy_same s unfolding accepting_def ready_def sys_inv_def steady_def by blast
  with a p s show ?thesis unfolding accepting_def b steady_def by blast
qed

lemma ids_past_after:
  assumes "ids_past env w" and "tick w \<le> tick t" and "\<forall>c \<in> set (t_chunks (db t)). c \<in> set (t_chunks (db w)) \<or> (\<exists>k < tick t. ch_id c = uuid_new env k)"
  shows "ids_past env t"
  using assms unfolding ids_past_def by (meson order_less_le_trans)

section \<open>Reading\<close>

lemma unchanged_holds:
  assumes u: "unchanged env w t" and s: "steady w t" and i: "inv_step env w t" and a: "accepting env w" and h: "holds_objects env w M"
  shows "accepting env t \<and> holds_objects env t M"
proof -
  have c: "db t = db w" "keys_kept w t" "\<And>b l. fst (GetShard env b l t) = fst (GetShard env b l w)"
    using u by (auto simp: unchanged_def calm_def)
  have w: "sys_inv env w" "ids_past env w" using a by (simp_all add: accepting_def ready_def sys_inv_def)
  have "ids_past env t" by (rule ids_past_after [OF w(2)]) (use s c(1) in \<open>simp_all add: steady_def later_def\<close>)
  then have "accepting env t" using i w(1) by (intro accepting_steady [OF a s _ c(2)]) (auto simp: inv_step_def)
  moreover have "holds_objects env t M" by (rule holds_kept [OF h s c(2)]) (simp_all add: c)
  ultimately show ?thesis by blast
qed


section \<open>Changing one object\<close>

lemma place_surj: "\<exists>loc. place loc = y"
  by (rule exI [of _ "\<lparr>Location_Bucket = \<lparr>Bucket_Name = fst y, CreatedAt = 0\<rparr>, Location_Key = snd y\<rparr>"]) (simp add: place_def loc_bucket_def)

lemma intact_place: "place loc = place loc' \<Longrightarrow> intact env w loc data cs \<longleftrightarrow> intact env w loc' data cs"
  by (simp add: intact_def object_stored_def place_def)

lemma object_at_place: "place loc = place loc' \<Longrightarrow> object_at loc d = object_at loc' d"
  by (simp add: object_at_def place_def)

lemma holds_update:
  assumes h: "holds_objects env w M" and s: "steady w t" and k: "keys_kept w t"
    and o: "\<And>b k. (b, k) \<noteq> place loc \<Longrightarrow> same_object b k (db w) (db t)"
    and g: "\<And>y data cs x d. y \<noteq> place loc \<Longrightarrow> M y = Some (data, cs) \<Longrightarrow> x \<in> set (shards_of cs) \<Longrightarrow>
      fst (GetShard env (Backend x) (Location x) w) = Inr d \<Longrightarrow> fst (GetShard env (Backend x) (Location x) t) = Inr d"
    and none: "v = None \<Longrightarrow> object_at loc (db t) = None"
    and some: "\<And>data cs. v = Some (data, cs) \<Longrightarrow> intact env t loc data cs"
    and new: "\<And>data cs y data' cs'. v = Some (data, cs) \<Longrightarrow> y \<noteq> place loc \<Longrightarrow> M y = Some (data', cs') \<Longrightarrow>
      saddr w ` set (shards_of cs) \<inter> saddr w ` set (shards_of cs') = {}"
  shows "holds_objects env t (M(place loc := v))"
  unfolding holds_objects_def saddr_steady [OF s]
proof (intro conjI allI impI)
  fix l assume m: "(M(place loc := v)) (place l) = None"
  show "object_at l (db t) = None"
  proof (cases "place l = place loc")
    case True
    with m none object_at_place [OF True] show ?thesis by simp
  next
    case False
    then have "same_object (loc_bucket l) (Location_Key l) (db w) (db t)" by (intro o) (simp add: place_def)
    with False m h object_at_same show ?thesis by (simp add: holds_objects_def)
  qed
next
  fix l data cs assume m: "(M(place loc := v)) (place l) = Some (data, cs)"
  show "intact env t l data cs"
  proof (cases "place l = place loc")
    case True
    then have "v = Some (data, cs)" using m by simp
    then show ?thesis by (rule iffD2 [OF intact_place [OF True] some])
  next
    case False
    then have so: "same_object (loc_bucket l) (Location_Key l) (db w) (db t)" by (intro o) (simp add: place_def)
    from False m have m': "M (place l) = Some (data, cs)" by simp
    then have "intact env w l data cs" using h by (simp add: holds_objects_def)
    then show ?thesis by (rule intact_kept [OF _ s k so g [OF False m']])
  qed
next
  fix x y data cs data' cs' assume a: "x \<noteq> y" "(M(place loc := v)) x = Some (data, cs)" "(M(place loc := v)) y = Some (data', cs')"
  consider "x = place loc" | "y = place loc" | "x \<noteq> place loc" "y \<noteq> place loc" by blast
  then show "saddr w ` set (shards_of cs) \<inter> saddr w ` set (shards_of cs') = {}"
  proof cases
    case 1
    with a have "v = Some (data, cs)" "y \<noteq> place loc" "M y = Some (data', cs')" by auto
    then show ?thesis by (rule new)
  next
    case 2
    with a have "v = Some (data', cs')" "x \<noteq> place loc" "M x = Some (data, cs)" by auto
    from new [OF this] show ?thesis by (simp only: Int_commute)
  next
    case 3
    with a have "M x = Some (data, cs)" "M y = Some (data', cs')" by simp_all
    with a(1) h show ?thesis unfolding holds_objects_def by blast
  qed
qed

section \<open>Putting\<close>

lemma upsertObject_chunks:
  assumes inv: "db_inv (db w)" and up: "upsertObject env ob w = (Inr (), t)" and x: "x \<in> set (t_chunks (db t))"
  shows "x \<in> set (t_chunks (db w)) \<or> ch_id x \<in> Chunk_Id ` set (Obj_Chunks ob)"
proof -
  obtain d1 nows where "t_chunks d1 = t_chunks (db w)"
    and "db t = with_chunks (loc_bucket (Obj_Location ob)) (Location_Key (Obj_Location ob)) (Obj_Chunks ob) nows
       (delete_chunks (owned (loc_bucket (Obj_Location ob)) (Location_Key (Obj_Location ob))) d1)" by (rule upsertObject_Inr [OF inv up])
  moreover have "ch_id r \<in> Chunk_Id ` set cs" if "r \<in> set (chunk_rows b k u n i cs)" for r b k u n i cs
    using that chunk_rows_ids [of b k u n i cs] by blast
  ultimately show ?thesis using x by (auto simp: with_chunks_def delete_chunks_def)
qed

lemma PutObjectStream_holds:
  assumes pk: "packages env" and a: "accepting env w" and h: "holds_objects env w M" and p: "PutObjectStream env loc r w = (Inr ob, t)"
  shows "accepting env t \<and> holds_objects env t (M(place loc \<mapsto> (rd_data r, Obj_Chunks ob)))"
proof -
  let ?bs = "availableBackends w"
  have l: "rs_law env" "crypto_law env" using pk by (simp_all add: packages_def)
  have ok: "iface_ok env w" "db_inv (db w)" "distinct ?bs" "0 < ChunkSize (Cfg env)" "ids_past env w" "kms_ready env w"
    using a by (simp_all add: accepting_def ready_def)
  have inv: "sys_inv env w" using ok by (simp add: sys_inv_def)
  from p obtain ty cs len hash w1 where
    c: "ChunkStream env r ty (configured_compression env) ?bs (ChunkConcurrency (Cfg env)) w = (Inr (cs, len, hash), w1)"
    and ob: "Obj_Chunks ob = cs" and u: "upsertObject env ob (w1\<lparr>tick := Suc (tick w1)\<rparr>) = (Inr (), t)"
    by (auto simp: PutObjectStream_def bindE_eq_Inr_iff GetAvailableBackends_def GetCurrentTime_eq meta_PutObject_def Let_def)
  note st = PutObjectStream_Inr [OF l ok(1-4) p]
  note cs = ChunkStream_Inr [OF l ok(1-4) c]
  note ad = ChunkStream_addrs [OF l ok(1-4) c, folded ob]
  have s: "steady w t" by (rule keepsD [OF manager_steady(1) p])
  have pr: "iface.grows env w t" "keys_kept w t" "sys_inv env t" using st(2) ok iface.grows_ok by (auto simp: stable_def sys_inv_def)
  have tb: "same_tables w w1" by (rule keepsD [OF ChunkStream_tables c])
  have "tick w1 \<le> tick t" using keepsD [OF upsertObject_frames(2) u] by (simp add: store_same_def)
  moreover have "db_inv (db w1)" using cs(4) ok by (simp add: stable_def)
  ultimately have "ids_past env t"
  proof (intro ids_past_after [OF ok(5)])
    show "tick w \<le> tick t" using s by (simp add: steady_def later_def)
    show "\<forall>c \<in> set (t_chunks (db t)). c \<in> set (t_chunks (db w)) \<or> (\<exists>k < tick t. ch_id c = uuid_new env k)"
      if b: "tick w1 \<le> tick t" "db_inv (db w1)"
    proof
      fix x assume "x \<in> set (t_chunks (db t))"
      from upsertObject_chunks [OF _ u this] b(2) consider "x \<in> set (t_chunks (db w))" | c where "c \<in> set cs" "ch_id x = Chunk_Id c"
        using tb ob by (auto simp: same_tables_def)
      then show "x \<in> set (t_chunks (db w)) \<or> (\<exists>k < tick t. ch_id x = uuid_new env k)"
        using cs(6) b(1) by cases (auto simp: made_def intro: order_less_le_trans)
    qed
  qed
  then have "accepting env t" by (rule accepting_steady [OF a s pr(3,2)])
  moreover have "holds_objects env t (M(place loc \<mapsto> (rd_data r, Obj_Chunks ob)))"
  proof (rule holds_update [OF h s pr(2)])
    show "same_object b k (db w) (db t)" if "(b, k) \<noteq> place loc" for b k
      using PutObjectStream_safe [OF l inv ok(3) disjI1 [OF p] disjI1] that by (simp add: place_def)
    show "fst (GetShard env (Backend x) (Location x) t) = Inr d" if "fst (GetShard env (Backend x) (Location x) w) = Inr d" for x d
      using iface.growsD [OF pr(1) ok(1) that] .
  next
    fix data cs' assume "Some (rd_data r, Obj_Chunks ob) = Some (data, cs')"
    then have d: "data = rd_data r" "cs' = Obj_Chunks ob" by simp_all
    have "AFile path \<notin> saddr w ` set (shards_of (Obj_Chunks ob))" if "defaultKMS w = Some path" for path
    proof -
      have "files w path \<noteq> None" using ok(6) that by (cases "files w path") (auto simp: kms_ready_def password_of_def)
      then show ?thesis using ad(2) ob unfolding new_files_def by fastforce
    qed
    moreover have "defaultKMS t = defaultKMS w" using s by (simp add: steady_def)
    ultimately show "intact env t loc data cs'"
      using st(1) ad(1) by (simp add: d intact_def saddr_steady [OF s] steady_backends [OF s])
  next
    fix data cs' y data' cs'' assume e: "Some (rd_data r, Obj_Chunks ob) = Some (data, cs')" "M y = Some (data', cs'')"
    then have d: "cs' = cs" using ob by simp
    obtain loc' where "y = place loc'" using place_surj by metis
    then have i: "intact env w loc' data' cs''" using h e(2) by (simp add: holds_objects_def)
    have "saddr w x \<noteq> saddr w x'" if "x \<in> set (shards_of cs)" "x' \<in> set (shards_of cs'')" for x x'
      using cs(6) that(1) intact_read [OF i that(2)] by (auto simp: made_def fresh_shards_def saddr_def)
    then show "saddr w ` set (shards_of cs') \<inter> saddr w ` set (shards_of cs'') = {}" unfolding d by blast
  qed simp
  ultimately show ?thesis by blast
qed


text \<open>A put whose reader fails is refused and changes no object.\<close>

lemma PutObjectStream_refused:
  assumes pk: "packages env" and a: "accepting env w" and h: "holds_objects env w M" and r: "rd_fails r"
  shows "\<exists>e t. PutObjectStream env loc r w = (Inl e, t) \<and> accepting env t \<and> holds_objects env t M"
proof -
  let ?bs = "availableBackends w"
  have l: "rs_law env" "crypto_law env" using pk by (simp_all add: packages_def)
  have ok: "iface_ok env w" "db_inv (db w)" "distinct ?bs" "0 < ChunkSize (Cfg env)" "ids_past env w"
    using a by (simp_all add: accepting_def ready_def)
  have inv: "sys_inv env w" using ok by (simp add: sys_inv_def)
  obtain ty where ty: "EncryptionTypeFromString (EncryptionMethod (Cfg env)) = Inr ty" using a by (auto simp: accepting_def)
  obtain x t where c: "ChunkStream env r ty (configured_compression env) ?bs (ChunkConcurrency (Cfg env)) w = (x, t)"
    by (cases "ChunkStream env r ty (configured_compression env) ?bs (ChunkConcurrency (Cfg env)) w")
  have "\<exists>e. x = Inl e"
  proof (cases x)
    case (Inr y)
    obtain cs len hash where "y = (cs, len, hash)" by (cases y)
    with c Inr r ChunkStream_Inr(1) [OF l ok(1-4)] show ?thesis by blast
  qed simp
  then obtain e where e: "x = Inl e" ..
  have p: "PutObjectStream env loc r w = (Inl e, t)"
    using ty c e by (simp add: PutObjectStream_def bindE_def GetAvailableBackends_def liftE_def)
  have s: "steady w t" by (rule keepsD [OF manager_steady(1) p])
  have safe: "preserved env w t \<and> same_object b k (db w) (db t)" for b k
    using PutObjectStream_safe [OF l inv ok(3) disjI1 [OF p] disjI2] by blast
  then have pr: "sys_inv env t" "keys_kept w t" "\<And>b l d. fst (GetShard env b l w) = Inr d \<Longrightarrow> fst (GetShard env b l t) = Inr d"
    using inv by (auto simp: preserved_def)
  have "t_chunks (db t) = t_chunks (db w)" using keepsD [OF ChunkStream_tables c] by (simp add: same_tables_def)
  then have "ids_past env t" using s by (intro ids_past_after [OF ok(5)]) (auto simp: steady_def later_def)
  then have "accepting env t" by (rule accepting_steady [OF a s pr(1,2)])
  moreover have "holds_objects env t M" by (rule holds_kept [OF h s pr(2) _ pr(3)]) (use safe in blast)
  ultimately show ?thesis using p by blast
qed

section \<open>Deleting\<close>

lemma GetObject_missing:
  assumes "no_faults env" and "metaDB w" and "object_at loc (db w) = None"
  shows "meta_GetObject env loc w = (Inl (ErrNoRows (Location_Key loc)), w\<lparr>tick := Suc (tick w)\<rparr>)"
proof -
  have "\<not> fault env k" for k using assms(1) by (simp add: no_faults_def)
  then show ?thesis using assms(2,3) by (simp add: meta_GetObject_def getDB_eq bindE_def query_row_def query_eq raiseE_def object_at_def)
qed

lemma DestroyShards_more: "keeps (same_more :: ('r, 'x) world_scheme \<Rightarrow> _) (DestroyShards env ss)"
  unfolding DestroyShards_def by (intro smore.keeps_forE shard_same_more)

lemma delete_objects_rest:
  assumes "delete_objects P d = Inr (n, d')"
  shows "kms_keys d' = kms_keys d" and "set (t_chunks d') \<subseteq> set (t_chunks d)"
  using assms by (auto simp: delete_objects_def delete_chunks_def Let_def)

lemma DeleteObject_holds:
  fixes w :: "('r, 'x) world_scheme"
  assumes pk: "packages env" and rm: "removable env" and a: "accepting env w" and h: "holds_objects env w M"
    and m: "M (place loc) = Some (data, cs)"
  shows "\<exists>t. DeleteObject env loc w = (Inr (), t) \<and> accepting env t \<and> holds_objects env t (M(place loc := None))"
proof -
  let ?P = "\<lambda>r. ob_bucket r = loc_bucket loc \<and> ob_key r = Location_Key loc" and ?ss = "shards_of cs"
  have nf: "no_faults env" "\<not> fault env k" for k using pk by (simp_all add: packages_def no_faults_def)
  have ok: "sys_inv env w" "iface_ok env w" "ids_past env w" "metaDB w" using a by (simp_all add: accepting_def ready_def sys_inv_def)
  have i: "intact env w loc data cs" using h m by (simp add: holds_objects_def)
  then obtain r where r: "find ?P (t_objects (db w)) = Some r" "ob_etag r = FormatUint (xxhash64 env data)"
    and hc: "holds_chunks env (db w) (object_chunk_rows (loc_bucket loc) (Location_Key loc) (db w)) cs"
    by (auto simp: intact_def object_stored_def)
  from meta_GetObject_holds [OF nf(1) ok(4) r hc] obtain n where
    g: "meta_GetObject env loc w = (Inr (row_object loc r cs (xxhash64 env data)), w\<lparr>tick := n\<rparr>)" by blast
  let ?w1 = "w\<lparr>tick := n\<rparr>"
  have s1: "steady w ?w1" by (rule keepsD [OF meta_GetObject_frames(2) [THEN store_steady] g])
  have i1: "sys_inv env ?w1" using keepsD [OF meta_inv(6) g] ok(1) by (simp add: inv_step_def)
  then have ok1: "iface_ok env ?w1" by (simp add: sys_inv_def)
  have "\<exists>w2. DestroyShards env ?ss ?w1 = (Inr (), w2)"
  proof (rule DestroyShards_succeeds [OF nf(1) rm ok1])
    show "distinct (map (saddr ?w1) ?ss)" using i by (simp add: intact_def saddr_steady [OF s1])
    show "\<forall>s \<in> set ?ss. \<exists>d. fst (GetShard env (Backend s) (Location s) ?w1) = Inr d" using intact_read [OF i] by simp
  qed
  then obtain w2 where w2: "DestroyShards env ?ss ?w1 = (Inr (), w2)" ..
  have d2: "db w2 = db w" "metaDB w2" "defaultKMS w2 = defaultKMS w"
    using same_more_world [OF keepsD [OF DestroyShards_more w2]] ok(4) by simp_all
  obtain k d' where d': "delete_objects ?P (db w2) = Inr (k, d')" by (auto simp: delete_objects_def Let_def)
  have "k = length (filter ?P (t_objects (db w2)))" using d' by (simp add: delete_objects_def Let_def)
  then have "k \<noteq> 0" using r(1) by (auto simp: d2(1) find_Some_iff filter_empty_conv)
  let ?t = "w2\<lparr>tick := Suc (tick w2), db := d'\<rparr>"
  have t: "DeleteObject env loc w = (Inr (), ?t)"
    using g w2 d' \<open>k \<noteq> 0\<close> d2(2) nf(2) by (simp add: DeleteObject_def meta_DeleteObject_def bindE_def row_object_def DeleteChunks_shards
        getDB_eq exec_eq guardE_eq)
  have s: "steady w ?t" by (rule keepsD [OF manager_steady(4) t])
  have inv: "sys_inv env ?t" using keepsD [OF manager_inv(4) t] ok(1) by (simp add: inv_step_def)
  note rows = DeleteObject_Inr [OF ok(1) t]
  have A: "shard_addr ?w1 = shard_addr w" by (rule steady_addr [OF s1])
  have keys: "keys_kept w ?t"
  proof -
    have "files w2 path = files w path" if "defaultKMS w = Some path" for path
    proof -
      have "keeps (file_spared env (shard_addr w) path :: ('r, 'x) world_scheme \<Rightarrow> _) (DestroyShards env ?ss)"
      proof (rule DestroyShards_spares_file)
        have "AFile path \<notin> saddr w ` set ?ss" using i that unfolding intact_def by blast
        then show "\<forall>s \<in> set ?ss. shard_addr w (Backend s) (Location s) \<noteq> AFile path" by (metis image_eqI saddr_def)
      qed
      from keepsD [OF this w2] ok1 A show ?thesis by (simp add: file_spared_def)
    qed
    then show ?thesis using d2 delete_objects_rest(1) [OF d'] by (simp add: keys_kept_def live_key_def)
  qed
  have "ids_past env ?t"
    using s delete_objects_rest(2) [OF d'] d2(1) by (intro ids_past_after [OF ok(3)]) (auto simp: steady_def later_def)
  then have "accepting env ?t" by (rule accepting_steady [OF a s inv keys])
  moreover have "holds_objects env ?t (M(place loc := None))"
  proof (rule holds_update [OF h s keys])
    show "same_object b k (db w) (db ?t)" if "(b, k) \<noteq> place loc" for b k by (rule rows(3)) (use that in \<open>simp add: place_def\<close>)
    show "object_at loc (db ?t) = None" using rows(1) by (simp add: object_at_def)
  next
    fix y data' cs' x d
    assume y: "y \<noteq> place loc" "M y = Some (data', cs')" "x \<in> set (shards_of cs')" "fst (GetShard env (Backend x) (Location x) w) = Inr d"
    have "saddr w ` set ?ss \<inter> saddr w ` set (shards_of cs') = {}" using h m y(1,2) unfolding holds_objects_def by blast
    then have "\<forall>s \<in> set ?ss. saddr w s \<noteq> saddr w x" using y(3) by blast
    then have "keeps (spares env (shard_addr w) {saddr w x} :: ('r, 'x) world_scheme \<Rightarrow> _) (DestroyShards env ?ss)"
      by (intro DestroyShards_spares) (simp add: saddr_def)
    from keepsD [OF this w2] have sp: "spares env (shard_addr w) {saddr w x} ?w1 w2" .
    have "fst (GetShard env (Backend x) (Location x) ?w1) = Inr d" using y(4) by simp
    moreover have "shard_addr w (Backend x) (Location x) \<in> {saddr w x}" by (simp add: saddr_def)
    ultimately have "fst (GetShard env (Backend x) (Location x) w2) = Inr d" using sp ok1 A unfolding spares_def by blast
    then show "fst (GetShard env (Backend x) (Location x) ?t) = Inr d" by (simp add: GetShard_read split: option.splits)
  qed simp_all
  ultimately show ?thesis using t by blast
qed

end
