(* ===== verification/Concrete.thy ===== *)
theory Concrete
  imports Upload_Safety
begin

text \<open>
  A concrete environment and a concrete state in which the hypotheses of the development hold:
  a replication code for Reed-Solomon, a marker byte for zstd, ciphers that do not hide anything,
  a readable base64, and two backends in memory. They show that the documented behaviour the
  theorems assume can be satisfied, and the properties are instantiated on them.
\<close>

section \<open>The packages\<close>

definition demo_cfg :: config where
  "demo_cfg = \<lparr>ServiceName = ''shards3'', Environment = ''dev'', S3Address = '':8080'', DashboardAddress = '':8081'',
     FQDN = ''localhost'', StorageClass = ''STANDARD'', EnableDashboard = False, BackendsConfigPath = ''backends.json'',
     S3AccountID = ''0'', S3Region = ''us-east-1'', S3AccessKeyID = ''k'', S3SecretAccessKey = ''s'', S3AllowedSkewSec = 900,
     KMSPasswordKeyPath = ''kms.key'', SQLitePath = ''shards3.db'', SQLiteBusyTimeoutMS = 5000, SQLiteMaxOpenConns = 1,
     ChunkSize = 4, ChunkConcurrency = 2, CompressionLevel = 3, EncryptionMethod = ''AES-256-GCM'',
     FailureTolerance = 1\<rparr>"

definition rep_encode :: "nat \<Rightarrow> nat \<Rightarrow> bytes list \<Rightarrow> bytes list option" where
  "rep_encode d p xs = (case xs of [] \<Rightarrow> None | x # _ \<Rightarrow> Some (replicate (d + p) x))"

definition rep_reconstruct :: "nat \<Rightarrow> nat \<Rightarrow> bytes option list \<Rightarrow> bytes option list option" where
  "rep_reconstruct d p zs = (case find (\<lambda>z. z \<noteq> None) zs of None \<Rightarrow> None | Some z \<Rightarrow> Some (replicate (d + p) z))"

definition letter :: "nat \<Rightarrow> char" where
  "letter n = char_of (97 + n)"

definition unletter :: "char \<Rightarrow> nat" where
  "unletter c = of_char c - 97"

definition hex_encode :: "bytes \<Rightarrow> string" where
  "hex_encode x = concat (map (\<lambda>b. [letter (unat b div 16), letter (unat b mod 16)]) x)"

fun hex_decode :: "string \<Rightarrow> bytes option" where
  "hex_decode [] = Some []"
| "hex_decode [c] = None"
| "hex_decode (c # c' # cs) = map_option ((#) (word_of_nat (unletter c * 16 + unletter c'))) (hex_decode cs)"

definition put_string :: "string \<Rightarrow> bytes" where
  "put_string s = concat (map (\<lambda>c. [1, word_of_nat (of_char c)]) s) @ [0]"

fun get_string :: "bytes \<Rightarrow> (string \<times> bytes) option" where
  "get_string [] = None"
| "get_string (b # bs) = (if b = 0 then Some ([], bs)
     else case bs of [] \<Rightarrow> None
        | c # cs \<Rightarrow> (case get_string cs of None \<Rightarrow> None | Some (s, r) \<Rightarrow> Some (char_of (unat c) # s, r)))"

definition demo_marshal :: "encryptedPayload \<Rightarrow> bytes option" where
  "demo_marshal p = Some (put_string (SaltB64 p) @ put_string (NonceB64 p) @ put_string (CiphertextB64 p))"

definition demo_unmarshal :: "bytes \<Rightarrow> encryptedPayload option" where
  "demo_unmarshal b = (case get_string b of None \<Rightarrow> None | Some (x, r) \<Rightarrow>
     (case get_string r of None \<Rightarrow> None | Some (y, r') \<Rightarrow>
     (case get_string r' of None \<Rightarrow> None | Some (z, _) \<Rightarrow>
        Some \<lparr>SaltB64 = x, NonceB64 = y, CiphertextB64 = z\<rparr>)))"

definition demo_env :: "unit env" where
  "demo_env = \<lparr>Cfg = demo_cfg, fault = (\<lambda>_. False), uuid_new = (\<lambda>n. replicate (Suc n) CHR ''u''),
     uuid_valid = (\<lambda>_. True), now_at = (\<lambda>n. int n), sql_time = FormatInt,
     time_parse = (\<lambda>_ t. case ParseInt 64 t of Inl _ \<Rightarrow> None | Inr i \<Rightarrow> Some i), rand_read = (\<lambda>n k. replicate k (word_of_nat n)),
     sched = (\<lambda>n. [1, 0, 2, 0]), xxhash64 = (\<lambda>d. word_of_nat (length d)),
     rs_new = (\<lambda>d p. d = 1), rs_encode = rep_encode, rs_reconstruct = rep_reconstruct,
     zstd_writer = (\<lambda>_. True), zstd_encode = (\<lambda>_ d. 40 # d), zstd_reader = True,
     zstd_decode = (\<lambda>d. case d of [] \<Rightarrow> None | _ # x \<Rightarrow> Some x),
     gcm_seal = (\<lambda>_ _ d. d), gcm_open = (\<lambda>_ _ d. Some d), chacha_seal = (\<lambda>_ _ d. d), chacha_open = (\<lambda>_ _ d. Some d),
     sha256 = (\<lambda>_. replicate 32 0), b64_encode = hex_encode, b64_decode = hex_decode,
     json_marshal = demo_marshal, json_unmarshal = demo_unmarshal,
     dg_new = (\<lambda>_. False), dg_message = (\<lambda>_ _ _. None), dg_request = (\<lambda>_ _. None),
     dg_send = (\<lambda>r _ _. (None, r)), dg_delete = (\<lambda>r _ _. (False, r)),
     td_connect = (\<lambda>_ _ _ _ _ _. False), td_message = (\<lambda>_ _ _. None), td_download = (\<lambda>_ _. None),
     td_local = (\<lambda>_ _. None), td_send = (\<lambda>r _ _. (None, r)), td_delete = (\<lambda>r _ _. (False, r)),
     time_format = (\<lambda>_. FormatInt), hmac_sum = (\<lambda>k d. k @ d), hash_sum = (\<lambda>_ d. d), xml_delete = (\<lambda>d. if d = [] then None else Some ([bytes_string d], False)),
     xml_complete = (\<lambda>d. if d = [] then None else Some []),
     host_route = (\<lambda>ps _ h. if h \<in> set ps then Some h
       else let wild = CHR ''*'' # dropWhile (\<lambda>c. c \<noteq> CHR ''.'') h in if wild \<in> set ps then Some wild else None),
     chi_match = (\<lambda>ms m _. m \<in> set ms), router_status = 405, yaml_backends = (\<lambda>_. Some []), os_env = (\<lambda>_. None),
     float_int = (\<lambda>_ i. i), float_percent = (\<lambda>v m. v * 10000 div m), float_fixed1 = (\<lambda>v d. FormatInt (v div d)),
     parse_form = (\<lambda>_ _ d. Some (\<lambda>_. bytes_string d))\<rparr>"

definition memory_service :: service where
  "memory_service = DiscordService \<lparr>ds_channelID = [], ds_botToken = [], ds_session = False, ds_objects = Map.empty\<rparr>"

definition demo_world :: "unit world" where
  "demo_world = \<lparr>tick = 0, files = [''kms.key'' \<mapsto> string_bytes (hex_encode [7])], remote = (),
     instances = [''a'' \<mapsto> memory_service, ''b'' \<mapsto> memory_service], availableBackends = [''a'', ''b''],
     db = empty_db, metaDB = True, defaultKMS = Some ''kms.key''\<rparr>"

section \<open>They satisfy the laws\<close>

lemma letter_unletter: "n < 16 \<Longrightarrow> unletter (letter n) = n"
  by (simp add: unletter_def letter_def of_char_of)

lemma hex_decode_encode: "hex_decode (hex_encode x) = Some x"
proof (induction x)
  case Nil
  then show ?case by (simp add: hex_encode_def)
next
  case (Cons b x)
  have "unat b < 256" using unsigned_less [where ?w = b and ?'a = nat] by simp
  then have "unletter (letter (unat b div 16)) * 16 + unletter (letter (unat b mod 16)) = unat b"
    by (simp add: letter_unletter)
  moreover have "hex_decode (letter (unat b div 16) # letter (unat b mod 16) # hex_encode x)
      = map_option ((#) (word_of_nat (unletter (letter (unat b div 16)) * 16 + unletter (letter (unat b mod 16)))))
          (hex_decode (hex_encode x))" by simp
  ultimately show ?case using Cons by (simp add: hex_encode_def)
qed

lemma hex_letters: "c \<in> set (hex_encode x) \<Longrightarrow> \<not> isSpace c"
proof -
  assume "c \<in> set (hex_encode x)"
  then obtain b where "b \<in> set x" "c = letter (unat b div 16) \<or> c = letter (unat b mod 16)"
    by (auto simp: hex_encode_def)
  moreover have "unat b < 256" using unsigned_less [where ?w = b and ?'a = nat] by simp
  moreover have "\<not> isSpace (letter n)" if "n < 16" for n
    using that by (simp add: isSpace_def letter_def of_char_of)
  ultimately show ?thesis by auto
qed

lemma hex_trim: "x \<noteq> [] \<Longrightarrow> hex_encode x \<noteq> [] \<and> trimSpace (hex_encode x) = hex_encode x"
proof -
  assume "x \<noteq> []"
  then have "hex_encode x \<noteq> []" by (cases x) (simp_all add: hex_encode_def)
  with hex_letters [of _ x] show ?thesis by (auto intro!: trimSpace_id)
qed

lemma get_put_string: "get_string (put_string s @ r) = Some (s, r)"
proof (induction s)
  case Nil
  then show ?case by (simp add: put_string_def)
next
  case (Cons c s)
  have "char_of (unat (word_of_nat (of_char c) :: byte)) = c"
    by (simp add: unat_of_nat of_char_mod_256 take_bit_eq_mod)
  with Cons show ?case by (simp add: put_string_def)
qed

lemma demo_crypto_law: "crypto_law demo_env"
proof -
  have "demo_unmarshal b = Some p" if "demo_marshal p = Some b" for p b
    using that by (auto simp: demo_marshal_def demo_unmarshal_def get_put_string
        get_put_string [where r = "[]", simplified])
  then have "\<exists>b. demo_marshal p = Some b \<and> demo_unmarshal b = Some p" for p
    by (simp add: demo_marshal_def)
  then show ?thesis by (simp add: crypto_law_def demo_env_def hex_decode_encode hex_trim)
qed

lemma demo_zstd_law: "zstd_law demo_env"
  by (simp add: zstd_law_def demo_env_def)

lemma demo_no_faults: "no_faults demo_env"
  by (simp add: no_faults_def demo_env_def)

lemma demo_lawful: "lawful demo_env"
proof -
  have "replicate (Suc m) CHR ''u'' = replicate (Suc n) CHR ''u'' \<Longrightarrow> m = n" for m n
    by (metis length_replicate nat.inject)
  then show ?thesis
    by (auto simp: lawful_def uuid_law_def discord_law_def telegram_law_def remote_grows_def demo_env_def inj_def
        ds_download_def td_GetObject_def split: sum.splits)
qed

lemma demo_rs_law: "rs_law demo_env"
proof -
  have "\<exists>out. rep_reconstruct (Suc 0) p zs = Some out \<and> length out = Suc p \<and> out ! 0 = Some x"
    if l: "length zs = Suc p" and c: "\<forall>i < Suc p. zs ! i = None \<or> zs ! i = Some x"
      and n: "Suc 0 \<le> card {i. i < Suc p \<and> zs ! i \<noteq> None}" for p zs x
  proof -
    have "{i. i < Suc p \<and> zs ! i \<noteq> None} \<noteq> {}" using n by (metis card.empty not_one_le_zero One_nat_def)
    then obtain i where "i < Suc p" "zs ! i \<noteq> None" by blast
    then have "find (\<lambda>z. z \<noteq> None) zs \<noteq> None" using l by (auto simp: find_None_iff in_set_conv_nth)
    then obtain z where z: "find (\<lambda>z. z \<noteq> None) zs = Some z" by blast
    then have "z \<noteq> None" "z \<in> set zs" by (auto simp: find_Some_iff in_set_conv_nth)
    then have "z = Some x" using l c by (auto simp: in_set_conv_nth)
    with z show ?thesis by (simp add: rep_reconstruct_def)
  qed
  moreover have "(x # replicate k x) ! i = x" if "i < Suc k" for i k and x :: bytes
    using that by (simp flip: replicate_Suc)
  ultimately show ?thesis
    unfolding rs_law_def demo_env_def by (auto simp: rep_encode_def split: list.splits)
qed

lemma demo_ok: "iface_ok demo_env demo_world"
proof -
  have "filepath_Join dir (''shard_'' @ replicate (Suc n) CHR ''u'') \<noteq> ''kms.key''" for dir n
  proof
    assume a: "filepath_Join dir (''shard_'' @ replicate (Suc n) CHR ''u'') = ''kms.key''"
    have "name_of (filepath_Join dir (''shard_'' @ replicate (Suc n) CHR ''u'')) = ''shard_'' @ replicate (Suc n) CHR ''u''"
      by (rule name_of_Join) simp_all
    then show False unfolding a by (simp add: name_of_def)
  qed
  then have "fresh_inv demo_env demo_world"
    by (auto simp: fresh_inv_def demo_world_def memory_service_def demo_env_def split: if_splits)
  then show ?thesis by (simp add: iface_ok_def demo_lawful)
qed

lemma demo_healthy: "\<forall>b \<in> set [''a'', ''b'']. healthy demo_env demo_world b"
  by (simp add: healthy_def demo_world_def memory_service_def ds_isConfigured_def trimSpace_def)

lemma demo_capacity: "map (capacity demo_world) [''a'', ''b''] = [26214400, 26214400]"
  by (simp add: capacity_def demo_world_def memory_service_def discordMaxObjectSize_def)

lemma demo_rowSize: "length data \<le> 26214400 \<Longrightarrow> rowSize demo_world [''a'', ''b''] data = 26214400"
  unfolding rowSize_def demo_capacity by (simp add: chooseShardSize_def)

lemma demo_rowCount: "0 < len \<Longrightarrow> len \<le> 26214400 \<Longrightarrow> rowCount len 26214400 = 1"
  by (simp add: rowCount_def div_nat_eqI)

lemma demo_accepts: "rs_accepts demo_env nb 1 n"
  by (auto simp: rs_accepts_def demo_env_def rep_encode_def split: list.split)

lemma demo_tolerance: "FailureTolerance (Cfg demo_env) = 1"
  by (simp add: demo_env_def demo_cfg_def)

text \<open>The demonstration system accepts uploads of any data it can chunk.\<close>

lemma demo_packages: "packages demo_env"
  by (simp add: packages_def demo_rs_law demo_crypto_law demo_zstd_law demo_no_faults)

lemma demo_backends: "availableBackends demo_world = [''a'', ''b'']"
  by (simp add: demo_world_def)

lemma demo_password: "password_of demo_env demo_world ''kms.key'' = Inr [7]"
proof -
  have "bytes_string (string_bytes s) = s" for s
    by (simp add: string_bytes_def bytes_string_def unat_of_nat of_char_mod_256 take_bit_eq_mod map_idI)
  moreover have "trimSpace (hex_encode [7]) = hex_encode [7]" "hex_encode [7] \<noteq> []" using hex_trim [of "[7]"] by simp_all
  moreover have "hex_decode (hex_encode [7]) = Some [7]" by (rule hex_decode_encode)
  ultimately show ?thesis by (simp add: password_of_def demo_world_def demo_env_def)
qed

lemma demo_accepting: "accepting demo_env demo_world"
proof -
  have "kms_ready demo_env demo_world"
    unfolding kms_ready_def using demo_password by (intro exI [of _ "''kms.key''"] exI [of _ "[7]"]) (simp add: demo_world_def)
  moreover have "db_inv (db demo_world)" by (simp add: demo_world_def empty_db_inv)
  ultimately have "ready demo_env [''a'', ''b''] demo_world" using demo_ok demo_healthy by (simp add: ready_def)
  moreover have "EncryptionTypeFromString (EncryptionMethod (Cfg demo_env)) = Inr 1"
    by (simp add: EncryptionTypeFromString_def demo_env_def demo_cfg_def)
  ultimately show ?thesis
    by (simp add: accepting_def demo_backends demo_tolerance ids_past_def) (simp add: demo_world_def empty_db_def demo_env_def demo_cfg_def)
qed

lemma demo_ciphertext:
  assumes "Encrypt demo_env x 1 u = (Inr (ct, k), t)"
  shows "length ct = 12 + length x"
  using assms by (auto simp: Encrypt_def encryptAES256GCM_def bindE_eq_Inr_iff rand_Read_eq gcmNonceSize_def split: if_splits)
    (simp add: demo_env_def)

lemma demo_fits: "length p \<le> 4 \<Longrightarrow> fits demo_env [''a'', ''b''] 1 (configured_compression demo_env) demo_world p"
proof -
  assume p: "length p \<le> 4"
  have c: "cd = 40 # p" if "Compress demo_env p (configured_compression demo_env) = Inr cd" for cd
    using that by (simp add: Compress_def configured_compression_def demo_env_def)
  have "ct \<noteq> [] \<and> rs_accepts demo_env (length [''a'', ''b'']) (rowCount (length ct) (rowSize demo_world [''a'', ''b''] ct)) (rowSize demo_world [''a'', ''b''] ct)"
    if "length ct = 13 + length p" for ct
  proof -
    have "ct \<noteq> []" "length ct \<le> 26214400" "0 < length ct" using that p by auto
    then show ?thesis using demo_rowSize [of ct] demo_rowCount [of "length ct"] demo_accepts by simp
  qed
  then show ?thesis unfolding fits_def using c demo_ciphertext by fastforce
qed

lemma pieces_length: "x \<in> set (pieces n xs) \<Longrightarrow> length x \<le> n"
proof (induction n xs rule: pieces.induct)
  case (1 n xs)
  then show ?case by (auto simp: pieces.simps [of n xs] split: if_splits)
qed

lemma demo_data_fits: "data_fits demo_env demo_world data"
proof -
  have "EncryptionTypeFromString (EncryptionMethod (Cfg demo_env)) = Inr 1" "nat (ChunkSize (Cfg demo_env)) = 4"
    by (simp_all add: EncryptionTypeFromString_def demo_env_def demo_cfg_def)
  then show ?thesis unfolding data_fits_def demo_backends using pieces_length [of _ 4 data] demo_fits by auto
qed

definition demo_loc :: ObjectLocation where
  "demo_loc = \<lparr>Location_Bucket = \<lparr>Bucket_Name = ''bucket'', CreatedAt = 0\<rparr>, Location_Key = ''key''\<rparr>"

text \<open>The same system with a blob in it.\<close>

definition demo_full_world :: "unit world" where
  "demo_full_world = demo_world\<lparr>instances := [''a'' \<mapsto> DiscordService \<lparr>ds_channelID = [], ds_botToken = [], ds_session = False,
     ds_objects = [''old'' \<mapsto> [9]]\<rparr>, ''b'' \<mapsto> memory_service]\<rparr>"

lemma demo_full_blob: "fst (GetShard demo_env ''a'' ''old'' demo_full_world) = Inr [9]"
  by (simp add: GetShard_read demo_full_world_def ds_isConfigured_def ds_getObjectInMemory_def trimSpace_def)

lemma demo_full_inv: "db_inv (db demo_full_world)"
  by (simp add: demo_full_world_def demo_world_def empty_db_inv)

lemma demo_full_ok: "iface_ok demo_env demo_full_world"
proof -
  have "\<not> (''discord-'' @ u = ''old'')" for u by simp
  with demo_ok show ?thesis
    by (auto simp: iface_ok_def fresh_inv_def demo_full_world_def demo_world_def memory_service_def split: if_splits)
qed

text \<open>A system that holds one object, of one chunk with one shard.\<close>

definition demo_shard :: shard where
  "demo_shard = \<lparr>First = 0, Last = 0, Backend = ''a'', Location = ''old'', lastVerified = 0, Checksum = 1\<rparr>"

definition demo_object_db :: database where
  "demo_object_db = empty_db\<lparr>t_buckets := [\<lparr>bk_name = ''bucket'', bk_created = 0, bk_updated = 0\<rparr>],
     t_objects := [\<lparr>ob_bucket = ''bucket'', ob_key = ''key'', ob_etag = FormatUint 1, ob_size = 1, ob_ctype = 0, ob_clevel = 0,
                    ob_created = 0, ob_updated = 0\<rparr>],
     t_chunks := [\<lparr>ch_id = ''c'', ch_bucket = ''bucket'', ch_key = Some ''key'', ch_upload = None, ch_part = None, ch_ordinal = 0,
                   ch_shardSize = 1, ch_dataShards = 1, ch_parityShards = 0, ch_encryption = 0, ch_kms = None, ch_size = 1\<rparr>],
     t_shards := [shard_to_row ''c'' 0 demo_shard]\<rparr>"

definition demo_object_world :: "unit world" where
  "demo_object_world = demo_full_world\<lparr>db := demo_object_db\<rparr>"

lemma demo_object_db_inv: "db_inv demo_object_db"
  by (simp add: db_inv_defs demo_object_db_def empty_db_def chunk_refs_def ordinal_clash_def shard_to_row_def demo_shard_def)

lemma demo_object_inv: "sys_inv demo_env demo_object_world"
  using demo_full_ok demo_object_db_inv
  by (simp add: sys_inv_def demo_object_world_def iface_ok_def fresh_inv_def)

lemma demo_object_get:
  "\<exists>n. meta_GetObject demo_env demo_loc demo_object_world = (Inr \<lparr>Obj_Location = demo_loc, Obj_Size = 1,
     Obj_Compression = \<lparr>Compression_Type = 0, Compression_Level = 0\<rparr>, LastModified = 0, ETag = 1,
     Obj_Chunks = [\<lparr>Chunk_Id = ''c'', Chunk_Size = 1, EncodedShardSize = 1, EncodedDataShards = 1, EncodedParityShards = 0,
       Chunk_Encryption = \<lparr>Encryption_Type = 0, Encryption_KeyId = 0\<rparr>, Chunk_Shards = [demo_shard]\<rparr>]\<rparr>, demo_object_world\<lparr>tick := n\<rparr>)"
proof -
  let ?c = "\<lparr>Chunk_Id = ''c'', Chunk_Size = 1, EncodedShardSize = 1, EncodedDataShards = 1, EncodedParityShards = 0,
       Chunk_Encryption = \<lparr>Encryption_Type = 0, Encryption_KeyId = 0\<rparr>, Chunk_Shards = [demo_shard]\<rparr>"
  let ?r = "\<lparr>ob_bucket = ''bucket'', ob_key = ''key'', ob_etag = FormatUint 1, ob_size = 1, ob_ctype = 0, ob_clevel = 0, ob_created = 0, ob_updated = 0\<rparr>"
  have d: "db demo_object_world = demo_object_db" "metaDB demo_object_world" by (simp_all add: demo_object_world_def demo_full_world_def demo_world_def)
  have l: "loc_bucket demo_loc = ''bucket''" "Location_Key demo_loc = ''key''" by (simp_all add: loc_bucket_def demo_loc_def)
  have f: "find (\<lambda>x. ob_bucket x = loc_bucket demo_loc \<and> ob_key x = Location_Key demo_loc) (t_objects (db demo_object_world)) = Some ?r"
    by (simp add: d l demo_object_db_def)
  have h: "holds_chunks demo_env (db demo_object_world) (object_chunk_rows (loc_bucket demo_loc) (Location_Key demo_loc) (db demo_object_world)) [?c]"
    by (simp add: holds_chunks_def d l demo_object_db_def object_chunk_rows_def row_chunk_def row_shard_def shard_to_row_def demo_shard_def)
      (simp add: demo_env_def)
  from meta_GetObject_holds [OF demo_no_faults d(2) f _ h, of 1] show ?thesis by (simp add: row_object_def)
qed

lemma demo_object_read: "\<exists>ob w1. GetObject demo_env demo_loc demo_object_world = (Inr ob, w1) \<and> map Chunk_Shards (Obj_Chunks ob) = [[demo_shard]]"
  using demo_object_get by (fastforce simp: GetObject_def)

lemma demo_object_delete: "\<exists>t. DeleteObject demo_env demo_loc demo_object_world = (Inr (), t)"
proof -
  have nf: "\<not> fault demo_env k" for k using demo_no_faults by (simp add: no_faults_def)
  from demo_object_get obtain n where
    g: "meta_GetObject demo_env demo_loc demo_object_world = (Inr \<lparr>Obj_Location = demo_loc, Obj_Size = 1,
     Obj_Compression = \<lparr>Compression_Type = 0, Compression_Level = 0\<rparr>, LastModified = 0, ETag = 1,
     Obj_Chunks = [\<lparr>Chunk_Id = ''c'', Chunk_Size = 1, EncodedShardSize = 1, EncodedDataShards = 1, EncodedParityShards = 0,
       Chunk_Encryption = \<lparr>Encryption_Type = 0, Encryption_KeyId = 0\<rparr>, Chunk_Shards = [demo_shard]\<rparr>]\<rparr>, demo_object_world\<lparr>tick := n\<rparr>)" by blast
  have s: "\<exists>t. DeleteShard demo_env ''a'' ''old'' (demo_object_world\<lparr>tick := n\<rparr>) = (Inr (), t) \<and> db t = demo_object_db \<and> metaDB t"
    by (simp add: DeleteShard_def bindE_def getService_eq demo_object_world_def demo_full_world_def discord_DeleteObject_def ds_isConfigured_def
        trimSpace_def ds_deleteObjectInMemory_def RegisterInstance_def demo_world_def)
  then obtain t where t: "DeleteShard demo_env ''a'' ''old'' (demo_object_world\<lparr>tick := n\<rparr>) = (Inr (), t)" "db t = demo_object_db" "metaDB t" by blast
  then have "DeleteChunks demo_env [\<lparr>Chunk_Id = ''c'', Chunk_Size = 1, EncodedShardSize = 1, EncodedDataShards = 1, EncodedParityShards = 0,
       Chunk_Encryption = \<lparr>Encryption_Type = 0, Encryption_KeyId = 0\<rparr>, Chunk_Shards = [demo_shard]\<rparr>] (demo_object_world\<lparr>tick := n\<rparr>) = (Inr (), t)"
    by (simp add: DeleteChunks_def DeleteChunk_def DestroyShards_def demo_shard_def)
  with g t show ?thesis
    by (simp add: DeleteObject_def meta_DeleteObject_def getDB_eq exec_eq nf delete_objects_def Let_def demo_object_db_def loc_bucket_def demo_loc_def
        bindE_def split: sum.split prod.split)
qed

end
