(* ===== verification/Store_Theorems.thy ===== *)
theory Store_Theorems
  imports Store_Laws Concrete
begin

text \<open>
  The object store against its reference: a map from places (a bucket name and a key) to bytes.
\<close>

section \<open>The operations and their reference\<close>

datatype object_op = PutOp ObjectLocation reader | GetOp ObjectLocation int int | DeleteOp ObjectLocation

datatype object_out = Accepted int uint64 | Refused | Content int uint64 "bytes res" | Removed | NotFound error

text \<open>What the object manager answers.\<close>

fun perform :: "'r env \<Rightarrow> object_op \<Rightarrow> ('r, 'x) world_scheme \<Rightarrow> object_out \<times> ('r, 'x) world_scheme" where
  "perform env (PutOp loc r) w =
     (case PutObjectStream env loc r w of (Inl _, t) \<Rightarrow> (Refused, t) | (Inr ob, t) \<Rightarrow> (Accepted (Obj_Size ob) (ETag ob), t))"
| "perform env (GetOp loc b e) w =
     (case GetObject env loc w of (Inl x, t) \<Rightarrow> (NotFound x, t)
      | (Inr ob, t) \<Rightarrow> (case Object_GetData env ob b e t of (d, u) \<Rightarrow> (Content (Obj_Size ob) (ETag ob) d, u)))"
| "perform env (DeleteOp loc) w =
     (case DeleteObject env loc w of (Inl x, t) \<Rightarrow> (NotFound x, t) | (Inr _, t) \<Rightarrow> (Removed, t))"

fun perform_all :: "'r env \<Rightarrow> object_op list \<Rightarrow> ('r, 'x) world_scheme \<Rightarrow> object_out list \<times> ('r, 'x) world_scheme" where
  "perform_all env [] w = ([], w)"
| "perform_all env (x # xs) w = (case perform env x w of (out, t) \<Rightarrow> (case perform_all env xs t of (outs, u) \<Rightarrow> (out # outs, u)))"

text \<open>What a map answers. A put whose reader fails changes nothing.\<close>

definition slice :: "bytes \<Rightarrow> int \<Rightarrow> int \<Rightarrow> bytes res" where
  "slice d b e = (let n = int (length d); stop = (if e = 0 then n else e)
     in if b < 0 then Inl ErrRangeBegin else if n < b then Inl ErrRangeBeyond
        else if stop < b \<or> n < stop then Inl ErrRangeEnd else Inr (take (nat (stop - b)) (drop (nat b) d)))"

lemma slice_normal: "slice d b e = (case normalizeRange (int (length d)) b e of Inl x \<Rightarrow> Inl x
    | Inr (b', e') \<Rightarrow> Inr (take (nat e' - nat b') (drop (nat b') d)))"
  by (simp add: slice_def normalizeRange_def Let_def nat_diff_distrib')

fun expected :: "(bytes \<Rightarrow> uint64) \<Rightarrow> object_op \<Rightarrow> (string \<times> string \<rightharpoonup> bytes) \<Rightarrow> object_out \<times> (string \<times> string \<rightharpoonup> bytes)" where
  "expected hash (PutOp loc r) m =
     (if rd_fails r then (Refused, m) else (Accepted (int (length (rd_data r))) (hash (rd_data r)), m(place loc \<mapsto> rd_data r)))"
| "expected hash (GetOp loc b e) m = (case m (place loc) of None \<Rightarrow> (NotFound (ErrNoRows (Location_Key loc)), m)
     | Some d \<Rightarrow> (Content (int (length d)) (hash d) (slice d b e), m))"
| "expected hash (DeleteOp loc) m = (case m (place loc) of None \<Rightarrow> (NotFound (ErrNoRows (Location_Key loc)), m)
     | Some _ \<Rightarrow> (Removed, m(place loc := None)))"

fun expected_all :: "(bytes \<Rightarrow> uint64) \<Rightarrow> object_op list \<Rightarrow> (string \<times> string \<rightharpoonup> bytes) \<Rightarrow> object_out list \<times> (string \<times> string \<rightharpoonup> bytes)" where
  "expected_all hash [] m = ([], m)"
| "expected_all hash (x # xs) m = (case expected hash x m of (out, n) \<Rightarrow> (case expected_all hash xs n of (outs, p) \<Rightarrow> (out # outs, p)))"

definition contents :: "(string \<times> string \<rightharpoonup> bytes \<times> Chunk list) \<Rightarrow> (string \<times> string \<rightharpoonup> bytes)" where
  "contents M = (\<lambda>x. map_option fst (M x))"

lemma contents_simps [simp]:
  "contents Map.empty = Map.empty" "contents (M(x \<mapsto> (d, cs))) = (contents M)(x \<mapsto> d)" "contents (M(x := None)) = (contents M)(x := None)"
  "M x = None \<Longrightarrow> contents M x = None" "M x = Some (d, cs) \<Longrightarrow> contents M x = Some d"
  by (auto simp: contents_def)

fun op_fits :: "'r env \<Rightarrow> ('r, 'x) world_scheme \<Rightarrow> object_op \<Rightarrow> bool" where
  "op_fits env w (PutOp loc r) \<longleftrightarrow> rd_fails r \<or> data_fits env w (rd_data r)"
| "op_fits env w (GetOp loc b e) \<longleftrightarrow> True"
| "op_fits env w (DeleteOp loc) \<longleftrightarrow> True"

lemma op_fits_steady:
  assumes "accepting env w" and "steady w t" and "op_fits env w x"
  shows "op_fits env t x"
proof (cases x)
  case (PutOp loc r)
  have "\<forall>b \<in> set (availableBackends w). healthy env w b" using assms(1) by (simp add: accepting_def ready_def)
  then have "data_fits env t d" if "data_fits env w d" for d
    using that fits_stable [of w t] assms(2) steady_backends [OF assms(2)] unfolding data_fits_def steady_def by metis
  with PutOp assms(3) show ?thesis by auto
qed simp_all

section \<open>One operation\<close>

lemma get_answer:
  fixes w :: "('r, 'x) world_scheme"
  assumes pk: "packages env" and tol: "0 \<le> FailureTolerance (Cfg env)" and a: "accepting env w" and h: "holds_objects env w M"
  shows "fst (perform env (GetOp loc b e) w) = fst (expected (xxhash64 env) (GetOp loc b e) (contents M))"
proof (cases "M (place loc)")
  case None
  then have "object_at loc (db w) = None" using h by (simp add: holds_objects_def)
  moreover have "no_faults env" "metaDB w" using pk a by (simp_all add: packages_def accepting_def)
  ultimately show ?thesis using None by (simp add: GetObject_def GetObject_missing)
next
  case (Some y)
  then obtain data cs where m: "M (place loc) = Some (data, cs)" by (cases y) simp
  then have "intact env w loc data cs" using h by (simp add: holds_objects_def)
  then have st: "object_stored env (availableBackends w) w loc (xxhash64 env data) data cs" by (simp add: intact_def)
  have l: "rs_law env" "crypto_law env" "zstd_law env" "no_faults env" using pk by (simp_all add: packages_def)
  have d: "distinct (availableBackends w)" "metaDB w" using a by (simp_all add: accepting_def)
  then have "lossy env {} cs w w" using tol by (simp add: lossy_def degraded_refl)
  from GetObject_stored [OF l d(1) st this, of b e] obtain ob u where "GetObject env loc w = (Inr ob, u)"
    "Obj_Size ob = int (length data)" "ETag ob = xxhash64 env data" "fst (Object_GetData env ob b e u) = slice data b e"
    unfolding slice_normal by blast
  then show ?thesis using m by (auto split: prod.split)
qed

lemma perform_step:
  fixes w :: "('r, 'x) world_scheme"
  assumes pk: "packages env" and rm: "removable env" and tol: "0 \<le> FailureTolerance (Cfg env)"
    and a: "accepting env w" and h: "holds_objects env w M" and f: "op_fits env w x" and p: "perform env x w = (out, t)"
  shows "steady w t \<and> accepting env t \<and> (\<exists>M'. holds_objects env t M' \<and> expected (xxhash64 env) x (contents M) = (out, contents M'))"
proof (cases x)
  case (PutOp loc r)
  show ?thesis
  proof (cases "rd_fails r")
    case True
    then obtain e u where u: "PutObjectStream env loc r w = (Inl e, u)" "accepting env u" "holds_objects env u M"
      using PutObjectStream_refused [OF pk a h] by blast
    then have "t = u" "out = Refused" using p PutOp by simp_all
    then show ?thesis using u keepsD [OF manager_steady(1) u(1)] True PutOp by auto
  next
    case False
    with f PutOp obtain ob u where u: "PutObjectStream env loc r w = (Inr ob, u)" using PutObjectStream_succeeds [OF pk a] by fastforce
    have l: "rs_law env" "crypto_law env" "iface_ok env w" "db_inv (db w)" "distinct (availableBackends w)" "0 < ChunkSize (Cfg env)"
      using pk a by (simp_all add: packages_def accepting_def ready_def)
    note o = PutObjectStream_Inr(4,5) [OF l u] and k = PutObjectStream_holds [OF pk a h u]
    have "t = u" "out = Accepted (int (length (rd_data r))) (xxhash64 env (rd_data r))" using p u o PutOp by simp_all
    then show ?thesis using keepsD [OF manager_steady(1) u] k False PutOp by (auto intro!: exI [of _ "M(place loc \<mapsto> (rd_data r, Obj_Chunks ob))"])
  qed
next
  case (GetOp loc b e)
  have "unchanged env w t \<and> steady w t \<and> inv_step env w t"
  proof -
    obtain y u where g: "GetObject env loc w = (y, u)" by (cases "GetObject env loc w")
    have 1: "unchanged env w u" "steady w u" "inv_step env w u"
      using keepsD [OF GetObject_unchanged g] keepsD [OF manager_steady(3) g] keepsD [OF manager_inv(3) g] by blast+
    show ?thesis
    proof (cases y)
      case (Inl z)
      with p g 1 GetOp show ?thesis by simp
    next
      case (Inr ob)
      obtain d v where v: "Object_GetData env ob b e u = (d, v)" by (cases "Object_GetData env ob b e u")
      have "t = v" using p g Inr v GetOp by simp
      then show ?thesis
        using unch.transR [OF 1(1) keepsD [OF GetData_unchanged v]] stdy.transR [OF 1(2) keepsD [OF manager_steady(5) v]]
          istep2.transR [OF 1(3) keepsD [OF manager_inv(5) v]] by blast
    qed
  qed
  then have "steady w t" "accepting env t \<and> holds_objects env t M" using unchanged_holds [OF _ _ _ a h] by blast+
  moreover have "expected (xxhash64 env) x (contents M) = (out, contents M)"
    using get_answer [OF pk tol a h, of loc b e] p GetOp by (auto split: option.splits)
  ultimately show ?thesis by blast
next
  case (DeleteOp loc)
  show ?thesis
  proof (cases "M (place loc)")
    case None
    then have "object_at loc (db w) = None" using h by (simp add: holds_objects_def)
    moreover have "no_faults env" "metaDB w" using pk a by (simp_all add: packages_def accepting_def)
    ultimately have g: "GetObject env loc w = (Inl (ErrNoRows (Location_Key loc)), w\<lparr>tick := Suc (tick w)\<rparr>)"
      by (simp add: GetObject_def GetObject_missing)
    then have "DeleteObject env loc w = (Inl (ErrNoRows (Location_Key loc)), w\<lparr>tick := Suc (tick w)\<rparr>)"
      by (simp add: DeleteObject_def GetObject_def bindE_def)
    then have t: "t = w\<lparr>tick := Suc (tick w)\<rparr>" "out = NotFound (ErrNoRows (Location_Key loc))" using p DeleteOp by simp_all
    have "accepting env t \<and> holds_objects env t M"
      using unchanged_holds [OF keepsD [OF GetObject_unchanged g] tick_steady keepsD [OF manager_inv(3) g] a h] t by simp
    then show ?thesis using t None tick_steady DeleteOp by auto
  next
    case (Some y)
    then obtain data cs where m: "M (place loc) = Some (data, cs)" by (cases y) simp
    from DeleteObject_holds [OF pk rm a h m] obtain u where u: "DeleteObject env loc w = (Inr (), u)" "accepting env u"
      "holds_objects env u (M(place loc := None))" by blast
    then have "t = u" "out = Removed" using p DeleteOp by simp_all
    then show ?thesis using u keepsD [OF manager_steady(4) u(1)] m DeleteOp by (auto intro!: exI [of _ "M(place loc := None)"])
  qed
qed


lemma perform_all_steps:
  fixes w :: "('r, 'x) world_scheme"
  assumes pk: "packages env" and rm: "removable env" and tol: "0 \<le> FailureTolerance (Cfg env)"
    and "accepting env w" and "holds_objects env w M" and "\<forall>x \<in> set xs. op_fits env w x"
  shows "\<exists>M'. holds_objects env (snd (perform_all env xs w)) M' \<and>
    expected_all (xxhash64 env) xs (contents M) = (fst (perform_all env xs w), contents M')"
  using assms(4-)
proof (induction xs arbitrary: w M)
  case (Cons x xs)
  obtain out t where p: "perform env x w = (out, t)" by (cases "perform env x w")
  have "op_fits env w x" using Cons.prems(3) by simp
  from perform_step [OF pk rm tol Cons.prems(1,2) this p] obtain M1 where
    1: "steady w t" "accepting env t" "holds_objects env t M1" "expected (xxhash64 env) x (contents M) = (out, contents M1)" by blast
  have "\<forall>y \<in> set xs. op_fits env t y" using Cons.prems(3) op_fits_steady [OF Cons.prems(1) 1(1)] by simp
  from Cons.IH [OF 1(2,3) this] 1(4) p show ?case by (auto split: prod.split)
qed auto

section \<open>The property\<close>

text \<open>C4: On a system that works, the object store answers every sequence of puts, range reads and deletions, at any places, of any
  data that fit and of uploads whose reader fails, exactly as a map from places to bytes does: with the size and the hash of the data
  put, with the bytes of the range or the range error, with \<open>ErrNoRows\<close> for a place that holds nothing. What it holds at
  the end is what the map holds. This is so for every scheduler of the concurrent uploads.\<close>

theorem object_store_is_map:
  assumes "packages env" and "removable env" and "0 \<le> FailureTolerance (Cfg env)"
    and "accepting env w" and "holds_objects env w M" and "\<forall>x \<in> set ops. op_fits env w x"
  shows "fst (perform_all env ops w) = fst (expected_all (xxhash64 env) ops (contents M)) \<and>
    (\<exists>M'. holds_objects env (snd (perform_all env ops w)) M' \<and> contents M' = snd (expected_all (xxhash64 env) ops (contents M)))"
  using perform_all_steps [OF assms] by (metis fst_conv snd_conv)

lemma demo_removable: "removable demo_env"
  by (simp add: removable_def ds_download_def td_GetObject_def demo_env_def split: sum.split)

definition demo_ops :: "object_op list" where
  "demo_ops = [PutOp demo_loc (bytes_NewReader [1, 2, 3]), PutOp demo_loc \<lparr>rd_data = [9], rd_fails = True\<rparr>, GetOp demo_loc 1 3,
     DeleteOp demo_loc, GetOp demo_loc 0 0]"

theorem object_store_is_map_witness:
  "fst (perform_all demo_env demo_ops demo_world) =
     [Accepted 3 (xxhash64 demo_env [1, 2, 3]), Refused, Content 3 (xxhash64 demo_env [1, 2, 3]) (Inr [2, 3]), Removed, NotFound (ErrNoRows ''key'')]"
proof -
  have h: "holds_objects demo_env demo_world Map.empty" by (simp add: holds_objects_def object_at_def demo_world_def empty_db_def)
  have f: "\<forall>x \<in> set demo_ops. op_fits demo_env demo_world x" by (simp add: demo_ops_def demo_data_fits)
  have t: "0 \<le> FailureTolerance (Cfg demo_env)" by (simp add: demo_tolerance)
  have "Location_Key demo_loc = ''key''" by (simp add: demo_loc_def)
  then have "fst (expected_all (xxhash64 demo_env) demo_ops Map.empty) =
     [Accepted 3 (xxhash64 demo_env [1, 2, 3]), Refused, Content 3 (xxhash64 demo_env [1, 2, 3]) (Inr [2, 3]), Removed, NotFound (ErrNoRows ''key'')]"
    by (simp add: demo_ops_def bytes_NewReader_def slice_def)
  with object_store_is_map [OF demo_packages demo_removable t demo_accepting h f] show ?thesis by simp
qed

end
