(* ===== verification/Object_Theorems.thy ===== *)
theory Object_Theorems
  imports Concrete Delete_Laws Steady
begin

text \<open>
  The properties of the object manager on top of the metadata store: the invariant of the whole storage system,
  the isolation of objects from one another, and the effect of a deletion.
\<close>

section \<open>The properties\<close>

text \<open>C3: Every sequence of storage operations (puts, updates, reads, deletions, multipart uploads, bucket, key and listing
  operations), whatever their arguments, their order and their outcome, keeps the integrity of the database (unique keys, no dangling
  references, no two chunks of an owner at one position, key numbers below the counter) and the invariant of the backends.\<close>

theorem system_invariant:
  assumes "sys_steps env w t" and "iface_ok env w" and "db_inv (db w)"
  shows "iface_ok env t \<and> db_inv (db t)"
  using sys_steps_inv [OF assms(1)] assms(2,3) by (simp add: sys_inv_def)

theorem system_invariant_witness:
  "iface_ok demo_env (snd (DeleteBucket demo_env (Location_Bucket demo_loc) (snd (PutObject demo_env demo_loc [1, 2] demo_world)))) \<and>
   db_inv (db (snd (DeleteBucket demo_env (Location_Bucket demo_loc) (snd (PutObject demo_env demo_loc [1, 2] demo_world)))))"
proof (rule system_invariant [OF _ demo_ok])
  let ?t = "snd (PutObject demo_env demo_loc [1, 2] demo_world)"
  have "sys_step demo_env demo_world ?t" unfolding PutObject_def
    by (rule sys_step.put_object [OF surjective_pairing])
  moreover have "sys_step demo_env ?t (snd (DeleteBucket demo_env (Location_Bucket demo_loc) ?t))"
    by (rule sys_step.delete_bucket [OF surjective_pairing])
  ultimately show "sys_steps demo_env demo_world (snd (DeleteBucket demo_env (Location_Bucket demo_loc) ?t))" by auto
qed (simp add: demo_world_def empty_db_inv)

text \<open>C2: An object that was put stays readable, with the same bytes, size and ETag, whatever is put or updated at other locations
  afterwards, and also after a put or an update at its own location that failed (a reader or a backend that failed, a database error).\<close>

theorem put_isolation:
  assumes "packages env" and "accepting env w" and "PutObject env loc data w = (Inr ob, t)"
    and "PutObjectStream env loc' r t = (x, t') \<or> UpdateObjectStream env loc' r t = (x, t')"
    and "(loc_bucket loc, Location_Key loc) \<noteq> (loc_bucket loc', Location_Key loc') \<or> (\<exists>e. x = Inl e)"
    and "lossy env F (Obj_Chunks ob) t' u"
  shows "\<exists>ob' u'. GetObject env loc u = (Inr ob', u') \<and> Obj_Size ob' = int (length data) \<and> ETag ob' = xxhash64 env data \<and>
    fst (Object_GetData env ob' b e u') = (case normalizeRange (int (length data)) b e of Inl y \<Rightarrow> Inl y
      | Inr (b', e') \<Rightarrow> Inr (take (nat e' - nat b') (drop (nat b') data)))"
proof -
  have l: "rs_law env" "crypto_law env" "zstd_law env" "no_faults env" using assms(1) by (simp_all add: packages_def)
  have a: "iface_ok env w" "db_inv (db w)" "distinct (availableBackends w)" "0 < ChunkSize (Cfg env)"
    using assms(2) by (simp_all add: accepting_def ready_def)
  note p = PutObjectStream_Inr [OF l(1,2) a assms(3) [unfolded PutObject_def]]
  have r: "rd_data (bytes_NewReader data) = data" by (simp add: bytes_NewReader_def)
  have inv: "sys_inv env t" using p(2) a iface.grows_ok by (auto simp: stable_def sys_inv_def)
  have bs: "availableBackends t = availableBackends w" using p(2) by (simp add: stable_def same_conf_def)
  have dt: "distinct (availableBackends t)" using a(3) bs by simp
  note s = PutObjectStream_safe [OF l(1,2) inv dt assms(4,5)]
  have "object_stored env (availableBackends w) t' loc (xxhash64 env data) data (Obj_Chunks ob)"
    by (rule object_stored_kept [where w = t]) (use s inv p(1) r in auto)
  from GetObject_stored [OF l a(3) this assms(6)] show ?thesis by blast
qed

theorem put_isolation_witness:
  "\<exists>ob t x t'. PutObject demo_env demo_loc [1, 2, 3] demo_world = (Inr ob, t) \<and>
    PutObjectStream demo_env demo_loc \<lparr>rd_data = [9], rd_fails = True\<rparr> t = (x, t') \<and>
    (\<exists>ob' u'. GetObject demo_env demo_loc t' = (Inr ob', u') \<and> fst (Object_GetData demo_env ob' 0 0 u') = Inr [1, 2, 3])"
proof -
  have l: "rs_law demo_env" "crypto_law demo_env" using demo_packages by (simp_all add: packages_def)
  have a: "iface_ok demo_env demo_world" "db_inv (db demo_world)" "distinct (availableBackends demo_world)" "0 < ChunkSize (Cfg demo_env)"
    using demo_accepting by (simp_all add: accepting_def ready_def)
  obtain ob t where p: "PutObject demo_env demo_loc [1, 2, 3] demo_world = (Inr ob, t)"
    using PutObjectStream_succeeds [OF demo_packages demo_accepting demo_data_fits, of "bytes_NewReader [1, 2, 3]" demo_loc]
    by (auto simp: PutObject_def bytes_NewReader_def)
  note st = PutObjectStream_Inr [OF l a p [unfolded PutObject_def]]
  obtain x t' where q: "PutObjectStream demo_env demo_loc \<lparr>rd_data = [9], rd_fails = True\<rparr> t = (x, t')"
    by (cases "PutObjectStream demo_env demo_loc \<lparr>rd_data = [9], rd_fails = True\<rparr> t")
  have inv: "iface_ok demo_env t" "db_inv (db t)" using st(2) a iface.grows_ok by (auto simp: stable_def)
  have bs: "availableBackends t = availableBackends demo_world" using st(2) by (simp add: stable_def same_conf_def)
  have "\<exists>e. x = Inl e"
  proof (cases x)
    case (Inr ob')
    from q Inr obtain ty cs len h w1 where "ChunkStream demo_env \<lparr>rd_data = [9], rd_fails = True\<rparr> ty (configured_compression demo_env)
        (availableBackends t) (ChunkConcurrency (Cfg demo_env)) t = (Inr (cs, len, h), w1)"
      by (auto simp: PutObjectStream_def bindE_eq_Inr_iff GetAvailableBackends_def)
    from ChunkStream_Inr(1) [OF l inv _ a(4) this] a(3) bs show ?thesis by simp
  qed simp
  moreover have "lossy demo_env {} (Obj_Chunks ob) t' t'"
  proof -
    have "metaDB t'" using keepsD [OF manager_steady(1) q] st(3) by (simp add: steady_def)
    then show ?thesis by (simp add: lossy_def demo_tolerance degraded_refl)
  qed
  ultimately have "\<exists>ob' u'. GetObject demo_env demo_loc t' = (Inr ob', u') \<and> Obj_Size ob' = int (length [1 :: byte, 2, 3]) \<and> ETag ob' = xxhash64 demo_env [1, 2, 3] \<and>
    fst (Object_GetData demo_env ob' 0 0 u') = (case normalizeRange (int (length [1 :: byte, 2, 3])) 0 0 of Inl y \<Rightarrow> Inl y
      | Inr (b', e') \<Rightarrow> Inr (take (nat e' - nat b') (drop (nat b') [1, 2, 3])))"
    using q by (intro put_isolation [OF demo_packages demo_accepting p, of demo_loc "\<lparr>rd_data = [9], rd_fails = True\<rparr>" x t']) simp_all
  then show ?thesis using p q by (simp add: normalizeRange_def) blast
qed

text \<open>C11: After a successful deletion the object is not found any more, none of its blobs can be read from its backend, and the
  rows of every other object are untouched.\<close>

theorem delete_object:
  assumes "no_faults env" and "sys_inv env w" and "DeleteObject env loc w = (Inr (), t)"
  shows "fst (GetObject env loc t) = Inl (ErrNoRows (Location_Key loc)) \<and>
    (\<forall>b k. (b, k) \<noteq> (loc_bucket loc, Location_Key loc) \<longrightarrow> same_object b k (db w) (db t)) \<and>
    (\<exists>ob w1. GetObject env loc w = (Inr ob, w1) \<and>
      (\<forall>c \<in> set (Obj_Chunks ob). \<forall>s \<in> set (Chunk_Shards c). \<exists>e. fst (GetShard env (Backend s) (Location s) t) = Inl e))"
proof -
  note d = DeleteObject_Inr [OF assms(2,3)]
  have "\<not> fault env k" for k using assms(1) by (simp add: no_faults_def)
  then have "fst (GetObject env loc t) = Inl (ErrNoRows (Location_Key loc))"
    using d(1,5) by (simp add: GetObject_def meta_GetObject_def getDB_eq bindE_def query_row_def query_eq raiseE_def)
  with d(3,4) show ?thesis by blast
qed

theorem delete_object_witness:
  "\<exists>t. DeleteObject demo_env demo_loc demo_object_world = (Inr (), t) \<and> fst (GetObject demo_env demo_loc t) = Inl (ErrNoRows ''key'') \<and>
     (\<exists>ob w1. GetObject demo_env demo_loc demo_object_world = (Inr ob, w1) \<and> map Location (concat (map Chunk_Shards (Obj_Chunks ob))) = [''old'']) \<and>
     (\<exists>e. fst (GetShard demo_env ''a'' ''old'' t) = Inl e)"
proof -
  obtain t where t: "DeleteObject demo_env demo_loc demo_object_world = (Inr (), t)" using demo_object_delete by blast
  obtain ob w1 where ob: "GetObject demo_env demo_loc demo_object_world = (Inr ob, w1)" "map Chunk_Shards (Obj_Chunks ob) = [[demo_shard]]"
    using demo_object_read by (elim exE conjE)
  have "Location demo_shard = ''old''" "Backend demo_shard = ''a''" by (simp_all add: demo_shard_def)
  moreover from ob(2) have "\<exists>c \<in> set (Obj_Chunks ob). demo_shard \<in> set (Chunk_Shards c)" by auto
  moreover have "Location_Key demo_loc = ''key''" by (simp add: demo_loc_def)
  ultimately show ?thesis using delete_object [OF demo_no_faults demo_object_inv t] t ob by fastforce
qed

end
