(* ===== verification/Blob_Spec.thy ===== *)
theory Blob_Spec
  imports Backend_Laws
begin

text \<open>
  The abstract store that the storage backends implement: a partial map from blob names to bytes. A read
  returns what the map holds and changes nothing, a put adds a blob under a name it chooses at an address
  nobody uses, a delete removes blobs at one address only. Every operation may fail; a failed put may leave
  an orphan behind but never changes a blob, a failed delete changes nothing elsewhere.
\<close>

datatype 'b blob_op = BlobGet 'b string | BlobPut 'b bytes | BlobDelete 'b string

datatype blob_out = Data bytes | Stored string | Deleted | Failed

type_synonym 'b blobs = "'b \<times> string \<rightharpoonup> bytes"

inductive blob_step :: "('b \<Rightarrow> string \<Rightarrow> 'a) \<Rightarrow> 'b blobs \<Rightarrow> 'b blob_op \<Rightarrow> blob_out \<Rightarrow> 'b blobs \<Rightarrow> bool" for addr where
  read: "m (b, l) = Some d \<Longrightarrow> blob_step addr m (BlobGet b l) (Data d) m"
| missing: "m (b, l) = None \<Longrightarrow> blob_step addr m (BlobGet b l) Failed m"
| put: "m \<subseteq>\<^sub>m m' \<Longrightarrow> m' (b, l) = Some d \<Longrightarrow> (\<And>b' l'. (b', l') \<in> dom m \<Longrightarrow> addr b l \<noteq> addr b' l')
    \<Longrightarrow> blob_step addr m (BlobPut b d) (Stored l) m'"
| put_failed: "m \<subseteq>\<^sub>m m' \<Longrightarrow> blob_step addr m (BlobPut b d) Failed m'"
| delete: "m' \<subseteq>\<^sub>m m \<Longrightarrow> m' (b, l) = None \<Longrightarrow> (\<And>b' l'. addr b l \<noteq> addr b' l' \<Longrightarrow> m' (b', l') = m (b', l'))
    \<Longrightarrow> blob_step addr m (BlobDelete b l) Deleted m'"
| delete_failed: "m' \<subseteq>\<^sub>m m \<Longrightarrow> (\<And>b' l'. addr b l \<noteq> addr b' l' \<Longrightarrow> m' (b', l') = m (b', l'))
    \<Longrightarrow> blob_step addr m (BlobDelete b l) Failed m'"

inductive blob_trace :: "('b \<Rightarrow> string \<Rightarrow> 'a) \<Rightarrow> 'b blobs \<Rightarrow> 'b blob_op list \<Rightarrow> blob_out list \<Rightarrow> 'b blobs \<Rightarrow> bool" for addr where
  stop: "blob_trace addr m [] [] m"
| step: "blob_step addr m x o1 m1 \<Longrightarrow> blob_trace addr m1 xs os m' \<Longrightarrow> blob_trace addr m (x # xs) (o1 # os) m'"

inductive_cases blob_step_getE: "blob_step addr m (BlobGet b l) o1 m'"
inductive_cases blob_step_putE: "blob_step addr m (BlobPut b d) o1 m'"
inductive_cases blob_step_deleteE: "blob_step addr m (BlobDelete b l) o1 m'"
inductive_simps blob_trace_simps: "blob_trace addr m [] os m'" "blob_trace addr m (x # xs) os m'"

lemmas blob_stepE = blob_step_getE blob_step_putE blob_step_deleteE

text \<open>The operations that may take away the blob at an address.\<close>

fun spares_address :: "('b \<Rightarrow> string \<Rightarrow> 'a) \<Rightarrow> 'a \<Rightarrow> 'b blob_op \<Rightarrow> bool" where
  "spares_address addr a (BlobDelete b l) \<longleftrightarrow> addr b l \<noteq> a"
| "spares_address addr a (BlobGet b l) \<longleftrightarrow> True"
| "spares_address addr a (BlobPut b d) \<longleftrightarrow> True"

lemma map_le_Some: "m \<subseteq>\<^sub>m m' \<Longrightarrow> m x = Some d \<Longrightarrow> m' x = Some d"
  by (auto simp: map_le_def dom_def)

lemma blob_step_spares:
  assumes "blob_step addr m x o1 m'" and "m (b, l) = Some d" and "spares_address addr (addr b l) x"
  shows "m' (b, l) = Some d"
  using assms by (cases x) (auto elim!: blob_stepE intro: map_le_Some)

lemma blob_trace_spares:
  assumes "blob_trace addr m xs os m'" and "m (b, l) = Some d" and "\<forall>x \<in> set xs. spares_address addr (addr b l) x"
  shows "m' (b, l) = Some d"
  using assms by (induction xs arbitrary: m os) (auto simp: blob_trace_simps dest: blob_step_spares)

text \<open>What a put stored is what the reads of the run return until a delete takes it away.\<close>

lemma blob_trace_put_get:
  assumes "blob_trace addr m (BlobPut b d # xs) (Stored l # os) m'" and "\<forall>x \<in> set xs. spares_address addr (addr b l) x"
  shows "m' (b, l) = Some d"
proof -
  obtain m1 where "blob_step addr m (BlobPut b d) (Stored l) m1" "blob_trace addr m1 xs os m'"
    using assms(1) by (auto simp: blob_trace_simps)
  then show ?thesis using blob_trace_spares [OF _ _ assms(2)] by (auto elim: blob_step_putE)
qed

text \<open>What the operations of a store show, one after the other.\<close>

fun run_op :: "('b \<Rightarrow> string \<Rightarrow> ('s, bytes) comp) \<Rightarrow> ('b \<Rightarrow> bytes \<Rightarrow> ('s, string) comp) \<Rightarrow> ('b \<Rightarrow> string \<Rightarrow> ('s, unit) comp)
    \<Rightarrow> 'b blob_op \<Rightarrow> 's \<Rightarrow> blob_out \<times> 's" where
  "run_op get put del (BlobGet b l) s = (case get b l s of (Inl _, t) \<Rightarrow> (Failed, t) | (Inr d, t) \<Rightarrow> (Data d, t))"
| "run_op get put del (BlobPut b d) s = (case put b d s of (Inl _, t) \<Rightarrow> (Failed, t) | (Inr l, t) \<Rightarrow> (Stored l, t))"
| "run_op get put del (BlobDelete b l) s = (case del b l s of (Inl _, t) \<Rightarrow> (Failed, t) | (Inr _, t) \<Rightarrow> (Deleted, t))"

fun run_ops :: "('b \<Rightarrow> string \<Rightarrow> ('s, bytes) comp) \<Rightarrow> ('b \<Rightarrow> bytes \<Rightarrow> ('s, string) comp) \<Rightarrow> ('b \<Rightarrow> string \<Rightarrow> ('s, unit) comp)
    \<Rightarrow> 'b blob_op list \<Rightarrow> 's \<Rightarrow> blob_out list \<times> 's" where
  "run_ops get put del [] s = ([], s)"
| "run_ops get put del (x # xs) s =
     (case run_op get put del x s of (o1, s1) \<Rightarrow> (case run_ops get put del xs s1 of (os, t) \<Rightarrow> (o1 # os, t)))"

definition view :: "('b \<Rightarrow> string \<Rightarrow> ('s, bytes) comp) \<Rightarrow> 's \<Rightarrow> 'b blobs" where
  "view get s = (\<lambda>(b, l). case fst (get b l s) of Inl _ \<Rightarrow> None | Inr d \<Rightarrow> Some d)"

lemma view_Some [simp]: "view get s (b, l) = Some d \<longleftrightarrow> fst (get b l s) = Inr d"
  by (simp add: view_def split: sum.split)

lemma view_None [simp]: "view get s (b, l) = None \<longleftrightarrow> (\<exists>e. fst (get b l s) = Inl e)"
  by (simp add: view_def split: sum.split)

lemma view_le: "view get s \<subseteq>\<^sub>m view get t \<longleftrightarrow> (\<forall>b l d. fst (get b l s) = Inr d \<longrightarrow> fst (get b l t) = Inr d)"
proof -
  have "m \<subseteq>\<^sub>m m' \<longleftrightarrow> (\<forall>b l d. m (b, l) = Some d \<longrightarrow> m' (b, l) = Some d)" for m m' :: "'a blobs"
    by (force simp: map_le_def dom_def)
  then show ?thesis by simp
qed

context blob_store
begin

lemma view_get: "view get (snd (get b l s)) = view get s"
  by (simp add: view_def fun_eq_iff get_pure)

lemma get_refines: "blob_step (addr s) (view get s) (BlobGet b l) (case fst (get b l s) of Inl _ \<Rightarrow> Failed | Inr d \<Rightarrow> Data d) (view get s)"
  by (cases "fst (get b l s)") (auto intro!: blob_step.intros)

lemma put_refines:
  assumes "ok s" and "put b d s = (r, t)"
  shows "blob_step (addr s) (view get s) (BlobPut b d) (case r of Inl _ \<Rightarrow> Failed | Inr l \<Rightarrow> Stored l) (view get t)"
proof -
  have "view get s \<subseteq>\<^sub>m view get t" using put_frame [OF assms(1), of _ _ _ b d] assms(2) by (simp add: view_le)
  moreover have "addr s b l \<noteq> addr s b' l'" if "r = Inr l" "(b', l') \<in> dom (view get s)" for l b' l'
    using put_fresh [OF assms(1), of b d l t b' l'] assms(2) that by (auto simp: dom_def)
  ultimately show ?thesis
    using put_get [OF assms(1)] assms(2) by (cases r) (auto intro!: blob_step.intros)
qed

lemma del_refines:
  assumes "ok s" and "del b l s = (r, t)"
  shows "blob_step (addr s) (view get s) (BlobDelete b l) (case r of Inl _ \<Rightarrow> Failed | Inr _ \<Rightarrow> Deleted) (view get t)"
proof -
  have le: "view get t \<subseteq>\<^sub>m view get s" using del_mono [OF assms(1), of _ _ b l] assms(2) by (simp add: view_le)
  have "view get t (b', l') = view get s (b', l')" if "addr s b l \<noteq> addr s b' l'" for b' l'
  proof (cases "view get s (b', l')")
    case None
    then show ?thesis using le by (metis map_le_def domIff)
  next
    case (Some d)
    with del_frame [OF assms(1) that, of d] assms(2) show ?thesis by (metis snd_conv view_Some)
  qed
  with le del_gone [OF assms(1), of b l t] assms(2) show ?thesis by (cases r) (auto intro!: blob_step.intros)
qed

lemma run_op_refines:
  assumes "ok s" and "run_op get put del x s = (o1, t)"
  shows "ok t \<and> addr t = addr s \<and> blob_step (addr s) (view get s) x o1 (view get t)"
proof (cases x)
  case (BlobGet b l)
  obtain r where g: "get b l s = (r, t)" using assms(2) BlobGet by (auto split: prod.splits sum.splits)
  then have "ok t" "addr t = addr s" "view get t = view get s"
    using get_ok [OF assms(1), of b l] get_addr [of b l s] view_get [of b l s] by simp_all
  then show ?thesis using get_refines [of s b l] assms(2) g BlobGet by (auto split: sum.splits)
next
  case (BlobPut b d)
  obtain r where g: "put b d s = (r, t)" using assms(2) BlobPut by (auto split: prod.splits sum.splits)
  then have "ok t" "addr t = addr s" using put_ok [OF assms(1), of b d] put_addr [OF assms(1), of b d] by simp_all
  then show ?thesis using put_refines [OF assms(1) g] assms(2) g BlobPut by (auto split: sum.splits)
next
  case (BlobDelete b l)
  obtain r where g: "del b l s = (r, t)" using assms(2) BlobDelete by (auto split: prod.splits sum.splits)
  then have "ok t" "addr t = addr s" using del_ok [OF assms(1), of b l] del_addr [OF assms(1), of b l] by simp_all
  then show ?thesis using del_refines [OF assms(1) g] assms(2) g BlobDelete by (auto split: sum.splits)
qed

lemma run_ops_refines:
  assumes "ok s" and "run_ops get put del xs s = (os, t)"
  shows "ok t \<and> addr t = addr s \<and> blob_trace (addr s) (view get s) xs os (view get t)"
  using assms
proof (induction xs arbitrary: s os)
  case Nil
  then show ?case by (auto intro: blob_trace.stop)
next
  case (Cons x xs)
  obtain o1 s1 os' where 1: "run_op get put del x s = (o1, s1)" and 2: "run_ops get put del xs s1 = (os', t)" and os: "os = o1 # os'"
    using Cons.prems(2) by (auto split: prod.splits)
  note a = run_op_refines [OF Cons.prems(1) 1]
  have "ok s1" "addr s1 = addr s" using a by simp_all
  with Cons.IH [OF _ 2] a os show ?case by (auto intro: blob_trace.step)
qed

end

end
