(* ===== verification/Shard_Theorems.thy ===== *)
theory Shard_Theorems
  imports Concrete Blob_Spec
begin

text \<open>
  The properties of the storage backends and of the sharding layer: the backends implement the abstract blob
  store, the parity count is the least sufficient one, the layout of the shards is balanced and within the
  limits of the backends, and collecting never returns wrong data.
\<close>

section \<open>Lemmas on the layout\<close>

definition span :: "shard \<Rightarrow> int" where
  "span s = Last s - First s + 1"

lemma runs_span: "runs ys a b rs \<Longrightarrow> sum_list (map (\<lambda>r. raw_Last r - raw_First r + 1) rs) = int b - int a"
  by (induction ys a b rs rule: runs.induct) auto

lemma sharded_span:
  assumes sh: "sharded env data bs w shards d p n ys groups finals t" and i: "i < length bs"
  shows "sum_list (map span (groups ! i)) = int (blockLen (length bs) (d + p) i)"
proof -
  have "map span (groups ! i) = map (\<lambda>r. raw_Last r - raw_First r + 1) (finals (bs ! i))"
    using shardedD(3) [OF sh i] by (induction rule: list_all2_induct) (auto simp: held_def span_def)
  with runs_span [OF shardedD(4) [OF sh i]] show ?thesis by (simp add: blockStart_Suc)
qed

lemma sharded_filter:
  assumes sh: "sharded env data bs w shards d p n ys groups finals t" and bs: "distinct bs" and i: "i < length bs"
  shows "filter (\<lambda>s. Backend s = bs ! i) shards = groups ! i"
proof -
  have g: "filter (\<lambda>s. Backend s = bs ! i) (groups ! j) = (if j = i then groups ! i else [])" if "j < length bs" for j
    using sharded_cover(2) [OF sh that] bs i that by (auto simp: filter_empty_conv filter_id_conv nth_eq_iff_index_eq)
  have "filter P (concat gs) = (if i < length gs then gs ! i else [])"
    if "\<forall>j < length gs. filter P (gs ! j) = (if j = i then gs ! i else [])" for P and gs :: "shard list list" and i
    using that
  proof (induction gs arbitrary: i)
    case (Cons x gs)
    show ?case
    proof (cases i)
      case 0
      have "\<forall>y \<in> set gs. filter P y = []" using Cons.prems 0 by (metis Suc_less_eq in_set_conv_nth length_Cons nat.simps(3) nth_Cons_Suc)
      then have "filter P (concat gs) = []" by (induction gs) auto
      moreover have "filter P x = x" using Cons.prems 0 by (metis length_greater_0_conv list.distinct(1) nth_Cons_0)
      ultimately show ?thesis using 0 by simp
    next
      case (Suc k)
      have "filter P x = []" using Cons.prems Suc by (metis length_greater_0_conv list.distinct(1) nat.simps(3) nth_Cons_0)
      moreover have "\<forall>j < length gs. filter P (gs ! j) = (if j = k then gs ! k else [])"
        using Cons.prems Suc by (metis Suc_less_eq length_Cons nat.inject nth_Cons_Suc)
      ultimately show ?thesis using Cons.IH [of k] Suc by simp
    qed
  qed simp
  from this [of groups "\<lambda>s. Backend s = bs ! i" i] g shardedD(1,2) [OF sh] i show ?thesis by simp
qed

lemma sharded_total:
  assumes sh: "sharded env data bs w shards d p n ys groups finals t"
  shows "sum_list (map span shards) = int (d + p)"
proof -
  have bs: "0 < length bs" using sh by (simp add: sharded_def)
  have s: "sum_list (map span (concat gs)) = (\<Sum>i < length gs. sum_list (map span (gs ! i)))" for gs
    by (induction gs rule: rev_induct) (simp_all add: nth_append)
  have "sum_list (map span shards) = (\<Sum>i < length bs. int (blockLen (length bs) (d + p) i))"
    unfolding shardedD(1) [OF sh] s shardedD(2) [OF sh] using sharded_span [OF sh] by simp
  also have "\<dots> = int (blockStart (length bs) (d + p) (length bs))" by (simp add: blockStart_sum)
  finally show ?thesis using bs by (simp add: blockStart_end)
qed

lemma sharded_blob:
  assumes law: "rs_law env" and sh: "sharded env data bs w shards d p n ys groups finals t" and s: "s \<in> set shards"
  shows "\<exists>x. fst (GetShard env (Backend s) (Location s) t) = Inr x \<and> length x \<le> capacity w (Backend s) \<and>
    int (length x) = span s * int n \<and> Checksum s = GenerateChecksum env x"
proof -
  from s obtain i where i: "i < length bs" "s \<in> set (groups ! i)"
    unfolding shardedD(1) [OF sh] set_concat by (metis UN_E in_set_conv_nth shardedD(2) [OF sh])
  with shardedD(3) [OF sh i(1)] obtain r where r: "r \<in> set (finals (bs ! i))" "held env t (bs ! i) r s"
    by (metis in_set_conv_nth list_all2_conv_all_nth)
  have ys: "length ys = d + p" by (rule sharded_length [OF law sh])
  have "\<forall>y \<in> set ys. length y = n"
    using law sh inputRows_shape [where ?data = data and ?n = n and ?d = d and ?p = p] unfolding rs_law_def sharded_def by blast
  have x: "fst (GetShard env (Backend s) (Location s) t) = Inr (raw_data r)" "Checksum s = GenerateChecksum env (raw_data r)" "Backend s = bs ! i"
    using r(2) by (auto simp: held_def)
  have seg: "segment ys s (raw_data r)" by (rule sharded_segment [OF sh ys s x(1)])
  let ?xs = "map ((!) ys) [nat (First s) ..< Suc (nat (Last s))]"
  have "\<forall>x \<in> set ?xs. length x = n" using \<open>\<forall>y \<in> set ys. length y = n\<close> seg ys by (auto simp: segment_def)
  from concat_const_length [OF this] seg have "int (length (raw_data r)) = span s * int n"
    by (simp add: segment_def span_def of_nat_diff nat_le_iff del: upt_Suc)
  with x shardedD(5) [OF sh i(1) r(1)] show ?thesis by simp
qed

section \<open>The properties\<close>



text \<open>C18: When fewer backends may fail than there are, the search for the number of parity rows ends; the number it returns
  covers the loss of any \<open>FailureTolerance\<close> backends, and every smaller number fails to cover the loss of some set of
  that many backends.\<close>

theorem parity_count_least:
  assumes "0 < n" and "FailureTolerance (Cfg env) < int n"
  shows "\<exists>p. getShardParityCount env n d = Inr p \<and>
    (\<forall>F. finite F \<and> int (card F) \<le> FailureTolerance (Cfg env) \<longrightarrow> (\<Sum>i \<in> F. blockLen n (d + p) i) \<le> p) \<and>
    (\<forall>q < p. \<exists>F \<subseteq> {..< n}. int (card F) \<le> FailureTolerance (Cfg env) \<and> q < (\<Sum>i \<in> F. blockLen n (d + q) i))"
proof -
  let ?tol = "FailureTolerance (Cfg env)"
  obtain p where p: "getShardParityCount env n d = Inr p"
    using parityLoop_defined [OF assms, of d] assms(1) by (auto simp: getShardParityCount_def)
  note s = getShardParityCount_sound [OF p]
  have 1: "(\<Sum>i \<in> F. blockLen n (d + p) i) \<le> p" if "finite F" "int (card F) \<le> ?tol" for F
    using blockLen_lost [OF that, of n "d + p"] s(2) by linarith
  have "\<exists>F \<subseteq> {..< n}. int (card F) \<le> ?tol \<and> q < (\<Sum>i \<in> F. blockLen n (d + q) i)" if q: "q < p" for q
  proof -
    have lt: "int q < lostRows ?tol n (d + q)" by (rule s(3) [OF q])
    have "0 \<le> ?tol"
    proof (rule ccontr)
      assume "\<not> 0 \<le> ?tol"
      then have "?tol \<le> 0" "?tol * int ((d + q) div n) \<le> 0" by (simp_all add: mult_nonpos_nonneg)
      then have "lostRows ?tol n (d + q) \<le> 0" by (auto simp: lostRows_def Let_def)
      with lt show False by simp
    qed
    with lt have "q < (\<Sum>i < nat ?tol. blockLen n (d + q) i)" by (simp only: lostRows_worst of_nat_less_iff)
    with \<open>0 \<le> ?tol\<close> assms(2) show ?thesis by (intro exI [of _ "{..< nat ?tol}"]) auto
  qed
  with p 1 show ?thesis by blast
qed

theorem parity_count_least_witness:
  "\<exists>p. getShardParityCount demo_env 3 4 = Inr p \<and>
    (\<forall>F. finite F \<and> int (card F) \<le> 1 \<longrightarrow> (\<Sum>i \<in> F. blockLen 3 (4 + p) i) \<le> p) \<and>
    (\<forall>q < p. \<exists>F \<subseteq> {..< 3}. int (card F) \<le> 1 \<and> q < (\<Sum>i \<in> F. blockLen 3 (4 + q) i))"
  using parity_count_least [of 3 demo_env 4] by (simp add: demo_tolerance)



text \<open>C17: A successful \<open>ShardData\<close> stores every encoded row exactly once (the shards cover the rows and their spans add up to
  the number of rows), gives each backend its fair share up to one row, and every blob has the size of its rows, fits the limit of
  its backend and matches its checksum.\<close>

theorem shard_layout:
  assumes "rs_law env" and "iface_ok env w" and "distinct bs" and "ShardData env data bs w = (Inr (shards, d, n), t)"
  shows "\<exists>p. getShardParityCount env (length bs) d = Inr p \<and> (\<Union>s \<in> set shards. rowsOf s) = {..< d + p} \<and>
    sum_list (map span shards) = int (d + p) \<and>
    (\<forall>b \<in> set bs. sum_list (map span (filter (\<lambda>s. Backend s = b) shards)) \<in>
       {int ((d + p) div length bs), int ((d + p) div length bs) + 1}) \<and>
    (\<forall>s \<in> set shards. \<exists>x. fst (GetShard env (Backend s) (Location s) t) = Inr x \<and> length x \<le> capacity w (Backend s) \<and>
       int (length x) = span s * int n \<and> Checksum s = GenerateChecksum env x)"
proof -
  from ShardData_sharded [OF assms] obtain p ys groups finals where
    sh: "sharded env data bs w shards d p n ys groups finals t" by blast
  have "sum_list (map span (filter (\<lambda>s. Backend s = b) shards)) \<in> {int ((d + p) div length bs), int ((d + p) div length bs) + 1}"
    if b: "b \<in> set bs" for b
  proof -
    from b obtain i where i: "i < length bs" "b = bs ! i" by (metis in_set_conv_nth)
    show ?thesis unfolding i(2) sharded_filter [OF sh assms(3) i(1)] sharded_span [OF sh i(1)] by (simp add: blockLen_def)
  qed
  moreover have "getShardParityCount env (length bs) d = Inr p" using sh unfolding sharded_def by blast
  ultimately show ?thesis using sharded_rows [OF sh] sharded_total [OF sh] sharded_blob [OF assms(1) sh] by blast
qed

theorem shard_layout_witness:
  "\<exists>shards d n t p. ShardData demo_env [1, 2, 3] [''a'', ''b''] demo_world = (Inr (shards, d, n), t) \<and>
    getShardParityCount demo_env 2 d = Inr p \<and> sum_list (map span shards) = int (d + p)"
proof -
  obtain shards d n t where s: "ShardData demo_env [1, 2, 3] [''a'', ''b''] demo_world = (Inr (shards, d, n), t)"
    using ShardData_succeeds [OF demo_no_faults demo_rs_law _ _ _ demo_healthy, of "[1, 2, 3]"]
    by (auto simp: demo_tolerance demo_rowSize demo_rowCount demo_accepts [simplified])
  have "distinct [''a'', ''b'']" by simp
  from shard_layout [OF demo_rs_law demo_ok this s] s show ?thesis by (simp add: numeral_2_eq_2) blast
qed

text \<open>C23: The row size is the largest size that all backends accept or one of its first ten halvings that is at least 50 KiB,
  and none of these candidates leaves a smaller remainder of the data.\<close>

theorem row_size_optimal:
  assumes "m < len"
  shows "(chooseShardSize len m = m \<or> (\<exists>i \<in> {1 .. 10}. chooseShardSize len m = m div 2 ^ i \<and> 51200 \<le> chooseShardSize len m)) \<and>
    len mod chooseShardSize len m \<le> len mod m \<and>
    (\<forall>i \<in> {1 .. 10}. 51200 \<le> m div 2 ^ i \<longrightarrow> len mod chooseShardSize len m \<le> len mod (m div 2 ^ i))"
proof -
  have "{1 .. 10} = set [1 ..< 11]" by auto
  moreover have "chooseShardSize len m = candidateLoop len m [1 ..< 11] m (len mod m)" using assms by (simp add: chooseShardSize_def)
  ultimately show ?thesis using candidateLoop_best [of "[1 ..< 11]" "len mod m" len m m] by auto
qed

theorem row_size_optimal_witness:
  "31559680 mod chooseShardSize 31559680 31457280 \<le> 102400 \<and>
   31559680 mod chooseShardSize 31559680 31457280 \<le> 31559680 mod (31457280 div 2 ^ 9)"
proof -
  have "(9 :: nat) \<in> {1 .. 10}" "51200 \<le> (31457280 :: nat) div 2 ^ 9" by simp_all
  note row_size_optimal [of 31457280 31559680, THEN conjunct2, THEN conjunct1]
    and row_size_optimal [of 31457280 31559680, THEN conjunct2, THEN conjunct2, rule_format, OF _ this]
  then show ?thesis by simp
qed

text \<open>C10: Whatever blobs have become unreadable, \<open>CollectShards\<close> returns the data (padded to whole rows) exactly when at least
  as many rows are readable as there are data rows, and reports that there are not enough shards otherwise.\<close>

theorem collect_exact:
  assumes "rs_law env" and "iface_ok env w" and "distinct bs" and "ShardData env data bs w = (Inr (shards, d, n), t)"
    and "getShardParityCount env (length bs) d = Inr p" and "backends_lost env UNIV shards t u"
  shows "fst (CollectShards env shards (int n) (int d) (int p) u) =
    (if d \<le> card (\<Union>s \<in> {s \<in> set shards. \<exists>x. fst (GetShard env (Backend s) (Location s) u) = Inr x}. rowsOf s)
     then Inr (padTo (d * n) data) else Inl ErrNotEnoughShards)"
proof -
  from ShardData_sharded [OF assms(1-4)] obtain p' ys groups finals where
    sh: "sharded env data bs w shards d p' n ys groups finals t" by blast
  then have p: "p' = p" using assms(5) by (simp add: sharded_def)
  note sh = sh [unfolded p]
  have s: "0 < n" "d = rowCount (length data) n" "data \<noteq> []" "rs_new env d p" "rs_encode env d p (inputRows data n d p) = Some ys"
    using sh unfolding sharded_def by blast+
  note rows = inputRows_shape [where ?data = data and ?n = n and ?d = d and ?p = p]
  have ys: "length ys = d + p" "\<forall>y \<in> set ys. length y = n" using assms(1) s(4,5) rows unfolding rs_law_def by blast+
  have seg: "\<forall>s \<in> set shards. \<forall>x. fst (GetShard env (Backend s) (Location s) u) = Inr x \<longrightarrow> segment ys s x"
    using assms(6) sharded_segment [OF sh ys(1)] unfolding backends_lost_def by (metis sum.distinct(1))
  have "0 < d" using rowCount_pos [of "length data" n] s(1-3) by simp
  with CollectShards_rows [OF assms(1) s(4,5) rows this seg] CollectShards_few [OF ys seg] s(1,2) show ?thesis
    by (auto simp: concat_inputRows)
qed

theorem collect_exact_witness:
  "\<exists>shards d n t p. ShardData demo_env [1, 2, 3] [''a'', ''b''] demo_world = (Inr (shards, d, n), t) \<and>
    fst (CollectShards demo_env shards (int n) (int d) (int p) (t\<lparr>instances := Map.empty\<rparr>)) = Inl ErrNotEnoughShards"
proof -
  let ?bs = "[''a'', ''b'']"
  obtain shards d n t where s: "ShardData demo_env [1, 2, 3] ?bs demo_world = (Inr (shards, d, n), t)"
    using ShardData_succeeds [OF demo_no_faults demo_rs_law _ _ _ demo_healthy, of "[1, 2, 3]"]
    by (auto simp: demo_tolerance demo_rowSize demo_rowCount demo_accepts [simplified])
  have bs: "distinct ?bs" by simp
  from ShardData_sharded [OF demo_rs_law demo_ok bs s] obtain p ys groups finals where
    sh: "sharded demo_env [1, 2, 3] ?bs demo_world shards d p n ys groups finals t" by blast
  have p: "getShardParityCount demo_env (length ?bs) d = Inr p" "0 < d" using sh by (auto simp: sharded_def rowCount_pos)
  let ?u = "t\<lparr>instances := Map.empty\<rparr>"
  have u: "\<exists>e. fst (GetShard demo_env b l ?u) = Inl e" for b l by (simp add: GetShard_read)
  then have lost: "backends_lost demo_env UNIV shards t ?u" by (simp add: backends_lost_def)
  have "{s \<in> set shards. \<exists>x. fst (GetShard demo_env (Backend s) (Location s) ?u) = Inr x} = {}" by (simp add: GetShard_read)
  with collect_exact [OF demo_rs_law demo_ok bs s p(1) lost] p(2) s show ?thesis by auto
qed

end
