(* ===== verification/Http.thy ===== *)
theory Http
  imports Object_Manager
begin

text \<open>
  HTTP as the handlers of \<open>s3/web\<close> see it: requests, the response writer, the parts of \<open>strings\<close>,
  \<open>net\<close>, \<open>net/url\<close> and \<open>net/textproto\<close> that they use, the error response of \<open>errors.go\<close> and the
  writers of \<open>requests.go\<close> (\<open>applyHeaders\<close>, \<open>WriteResponse\<close>, \<open>WriteResponseStream\<close>).

  A handler is a computation on the response and the storage system. It reports its errors in the
  response, so its own error result is left to a Go panic or a call that never returns. The body of a
  response is the list of what the handler writes; an XML document stands there as the Go value that
  \<open>encoding/xml\<close> encodes.
\<close>

section \<open>Strings\<close>

definition toLower_char :: "char \<Rightarrow> char" where
  "toLower_char c = (let n = of_char c :: nat in if 65 \<le> n \<and> n \<le> 90 then char_of (n + 32) else c)"

definition toUpper_char :: "char \<Rightarrow> char" where
  "toUpper_char c = (let n = of_char c :: nat in if 97 \<le> n \<and> n \<le> 122 then char_of (n - 32) else c)"

definition toLower :: "string \<Rightarrow> string" where
  "toLower s = map toLower_char s"

definition toUpper :: "string \<Rightarrow> string" where
  "toUpper s = map toUpper_char s"

text \<open>\<open>strings.Index\<close>; \<open>None\<close> is its \<open>-1\<close>.\<close>

fun strIndex :: "string \<Rightarrow> string \<Rightarrow> nat option" where
  "strIndex [] p = (if p = [] then Some 0 else None)"
| "strIndex (c # s) p = (if hasPrefix (c # s) p then Some 0 else map_option Suc (strIndex s p))"

definition strContains :: "string \<Rightarrow> string \<Rightarrow> bool" where
  "strContains s p \<longleftrightarrow> strIndex s p \<noteq> None"

text \<open>\<open>strings.Split\<close> at a one-character separator, \<open>strings.Cut\<close>, \<open>strings.Join\<close> and
  \<open>strings.Fields\<close>.\<close>

fun strSplit :: "char \<Rightarrow> string \<Rightarrow> string list" where
  "strSplit x [] = [[]]"
| "strSplit x (c # s) = (if c = x then [] # strSplit x s
     else case strSplit x s of [] \<Rightarrow> [[c]] | f # fs \<Rightarrow> (c # f) # fs)"

definition strCut :: "char \<Rightarrow> string \<Rightarrow> (string \<times> string) option" where
  "strCut x s = (case dropWhile (\<lambda>c. c \<noteq> x) s of [] \<Rightarrow> None | _ # r \<Rightarrow> Some (takeWhile (\<lambda>c. c \<noteq> x) s, r))"

fun strJoin :: "string \<Rightarrow> string list \<Rightarrow> string" where
  "strJoin sep [] = []"
| "strJoin sep [s] = s"
| "strJoin sep (s # t # ss) = s @ sep @ strJoin sep (t # ss)"

definition strFields :: "string \<Rightarrow> string list" where
  "strFields s = filter (\<lambda>f. f \<noteq> []) (strSplit CHR '' '' (map (\<lambda>c. if isSpace c then CHR '' '' else c) s))"

section \<open>net and net/url\<close>

definition lastIndexOf :: "char \<Rightarrow> string \<Rightarrow> nat option" where
  "lastIndexOf x s = (if x \<in> set s then Some (length s - 1 - length (takeWhile (\<lambda>c. c \<noteq> x) (rev s))) else None)"

definition indexOf :: "char \<Rightarrow> string \<Rightarrow> nat option" where
  "indexOf x s = (if x \<in> set s then Some (length (takeWhile (\<lambda>c. c \<noteq> x) s)) else None)"

text \<open>\<open>net.SplitHostPort\<close>; \<open>None\<close> is an error.\<close>

definition SplitHostPort :: "string \<Rightarrow> (string \<times> string) option" where
  "SplitHostPort hostport =
     (case lastIndexOf CHR '':'' hostport of
        None \<Rightarrow> None
      | Some i \<Rightarrow>
          (case (if hd hostport = CHR ''['' then
                   (case indexOf CHR '']'' hostport of
                      None \<Rightarrow> None
                    | Some stop \<Rightarrow> if stop + 1 = i then Some (take (stop - 1) (tl hostport), 1, stop + 1) else None)
                 else if CHR '':'' \<in> set (take i hostport) then None
                 else Some (take i hostport, 0, 0)) of
             None \<Rightarrow> None
           | Some (host, j, k) \<Rightarrow>
               if CHR ''['' \<in> set (drop j hostport) \<or> CHR '']'' \<in> set (drop k hostport) then None
               else Some (host, drop (i + 1) hostport)))"

text \<open>\<open>url.QueryEscape\<close> and \<open>url.QueryUnescape\<close>.\<close>

definition hexDigit :: "nat \<Rightarrow> char" where
  "hexDigit n = char_of (if n < 10 then 48 + n else 55 + n)"

definition hexVal :: "char \<Rightarrow> nat option" where
  "hexVal c = (let n = of_char c :: nat in
     if 48 \<le> n \<and> n \<le> 57 then Some (n - 48)
     else if 65 \<le> n \<and> n \<le> 70 then Some (n - 55)
     else if 97 \<le> n \<and> n \<le> 102 then Some (n - 87) else None)"

definition unreserved :: "char \<Rightarrow> bool" where
  "unreserved c \<longleftrightarrow> (let n = of_char c :: nat in
     48 \<le> n \<and> n \<le> 57 \<or> 65 \<le> n \<and> n \<le> 90 \<or> 97 \<le> n \<and> n \<le> 122 \<or> c \<in> set ''-_.~'')"

definition QueryEscape :: "string \<Rightarrow> string" where
  "QueryEscape s = concat (map (\<lambda>c. if unreserved c then [c] else if c = CHR '' '' then ''+''
     else [CHR ''%'', hexDigit (of_char c div 16), hexDigit (of_char c mod 16)]) s)"

fun QueryUnescape :: "string \<Rightarrow> string option" where
  "QueryUnescape [] = Some []"
| "QueryUnescape (c # s) =
     (if c = CHR ''%'' then
        (case s of
           x # y # r \<Rightarrow>
             (case (hexVal x, hexVal y) of
                (Some a, Some b) \<Rightarrow> map_option ((#) (char_of (16 * a + b))) (QueryUnescape r)
              | _ \<Rightarrow> None)
         | _ \<Rightarrow> None)
      else map_option ((#) (if c = CHR ''+'' then CHR '' '' else c)) (QueryUnescape s))"

text \<open>\<open>url.ParseQuery\<close>: a pair that cannot be read is left out, the other pairs are kept.\<close>

definition parsePair :: "string \<Rightarrow> (string \<times> string) option" where
  "parsePair p =
     (if p = [] \<or> CHR '';'' \<in> set p then None
      else case (case strCut CHR ''='' p of None \<Rightarrow> (p, []) | Some kv \<Rightarrow> kv) of
        (k, v) \<Rightarrow> (case (QueryUnescape k, QueryUnescape v) of (Some k', Some v') \<Rightarrow> Some (k', v') | _ \<Rightarrow> None))"

definition ParseQuery :: "string \<Rightarrow> (string \<times> string) list" where
  "ParseQuery q = List.map_filter parsePair (strSplit CHR ''&'' q)"

section \<open>Requests\<close>

text \<open>The header lines of a request in the order they came; \<open>http.Header.Get\<close> returns the first line
  with the canonical name that it is asked for.\<close>

record request =
  rq_Method :: string
  rq_Host :: string
  rq_Path :: string
  rq_EscapedPath :: string
  rq_RawQuery :: string
  rq_Header :: "(string \<times> string) list"
  rq_ContentLength :: int
  rq_Body :: reader

definition tokenChar :: "char \<Rightarrow> bool" where
  "tokenChar c \<longleftrightarrow> (let n = of_char c :: nat in
     48 \<le> n \<and> n \<le> 57 \<or> 65 \<le> n \<and> n \<le> 90 \<or> 97 \<le> n \<and> n \<le> 122 \<or>
     n \<in> {33, 35, 36, 37, 38, 39, 42, 43, 45, 46, 94, 95, 96, 124, 126})"

fun canonical_from :: "bool \<Rightarrow> string \<Rightarrow> string" where
  "canonical_from up [] = []"
| "canonical_from up (c # s) = (if up then toUpper_char c else toLower_char c) # canonical_from (c = CHR ''-'') s"

definition CanonicalHeaderKey :: "string \<Rightarrow> string" where
  "CanonicalHeaderKey k = (if list_all tokenChar k then canonical_from True k else k)"

definition Header_Get :: "request \<Rightarrow> string \<Rightarrow> string" where
  "Header_Get r name =
     (case find (\<lambda>(k, _). CanonicalHeaderKey k = CanonicalHeaderKey name) (rq_Header r) of
        None \<Rightarrow> [] | Some (_, v) \<Rightarrow> v)"

definition Query_Get :: "request \<Rightarrow> string \<Rightarrow> string" where
  "Query_Get r name = (case map_of (ParseQuery (rq_RawQuery r)) name of None \<Rightarrow> [] | Some v \<Rightarrow> v)"

definition Query_Has :: "request \<Rightarrow> string \<Rightarrow> bool" where
  "Query_Has r name \<longleftrightarrow> name \<in> fst ` set (ParseQuery (rq_RawQuery r))"

end
