(* ===== verification/Backend_Config.thy ===== *)
theory Backend_Config
  imports Http
begin

text \<open>
  How the backends are configured: the settings and secrets of one backend (the factories and the readers of
  \<open>file.go\<close>, \<open>discord.go\<close>, \<open>telegram.go\<close>), the registry of the drivers (\<open>registry.go\<close>), and the inventory in
  \<open>backends.yaml\<close> (\<open>platform/backendconfig\<close>). Secrets come from the environment of the process, \<open>os_env\<close>.
\<close>

type_synonym settings = "string \<rightharpoonup> any_val"
type_synonym secrets = "string \<Rightarrow> string option"

text \<open>A type assertion \<open>v, _ := x.(string)\<close>: the empty string when it fails.\<close>

definition string_setting :: "settings \<Rightarrow> string \<Rightarrow> string" where
  "string_setting settings key = (case settings key of Some (AnyString s) \<Rightarrow> s | _ \<Rightarrow> [])"

section \<open>Reading settings and secrets\<close>

text \<open>Conversions between integer types keep the low bits (\<open>signed_take_bit\<close>); that of a \<open>float64\<close> is
  \<open>float_int\<close>.\<close>

definition int64_value :: "'r env \<Rightarrow> string \<Rightarrow> any_val \<Rightarrow> int res" where
  "int64_value env key raw = (case raw of
     AnyInt i \<Rightarrow> Inr i
   | AnyUint n \<Rightarrow> Inr (signed_take_bit 63 (int n))
   | AnyUint64 n \<Rightarrow> (if n > 2 ^ 63 - 1 then Inl (ErrSetting key) else Inr (int n))
   | AnyFloat f \<Rightarrow> Inr (signed_take_bit 63 (float_int env 64 f))
   | AnyString v \<Rightarrow> (let trimmed = trimSpace v in
       if trimmed = [] then Inl (ErrSetting key)
       else case ParseInt 64 trimmed of Inl _ \<Rightarrow> Inl (ErrSetting key) | Inr parsed \<Rightarrow> Inr parsed)
   | AnyOther \<Rightarrow> Inl (ErrSetting key))"

definition readInt64Setting :: "'r env \<Rightarrow> settings \<Rightarrow> string \<Rightarrow> int res" where
  "readInt64Setting env settings key =
     (case settings key of None \<Rightarrow> Inl (ErrSetting key) | Some raw \<Rightarrow> int64_value env key raw)"

definition parseInt32Value :: "'r env \<Rightarrow> string \<Rightarrow> any_val \<Rightarrow> int res" where
  "parseInt32Value env key raw = (case raw of
     AnyInt i \<Rightarrow> Inr (signed_take_bit 31 i)
   | AnyUint n \<Rightarrow> Inr (signed_take_bit 31 (int n))
   | AnyUint64 n \<Rightarrow> Inr (signed_take_bit 31 (int n))
   | AnyFloat f \<Rightarrow> Inr (signed_take_bit 31 (float_int env 32 f))
   | AnyString v \<Rightarrow> (let trimmed = trimSpace v in
       if trimmed = [] then Inl (ErrSetting key)
       else case ParseInt 32 trimmed of Inl _ \<Rightarrow> Inl (ErrSetting key) | Inr parsed \<Rightarrow> Inr parsed)
   | AnyOther \<Rightarrow> Inl (ErrSetting key))"

definition readInt32SettingOrSecret :: "'r env \<Rightarrow> settings \<Rightarrow> secrets \<Rightarrow> string \<Rightarrow> int res" where
  "readInt32SettingOrSecret env settings secrets key =
     (case settings key of
        Some raw \<Rightarrow> parseInt32Value env key raw
      | None \<Rightarrow> (case secrets key of
          None \<Rightarrow> Inl (ErrSetting key)
        | Some v \<Rightarrow> if trimSpace v = [] then Inl (ErrSetting key)
            else case ParseInt 32 (trimSpace v) of Inl _ \<Rightarrow> Inl (ErrSetting key) | Inr parsed \<Rightarrow> Inr parsed))"

definition readStringSettingOrSecret :: "settings \<Rightarrow> secrets \<Rightarrow> string \<Rightarrow> string res" where
  "readStringSettingOrSecret settings secrets key =
     (case settings key of
        Some raw \<Rightarrow> (case raw of
            AnyString s \<Rightarrow> if trimSpace s \<noteq> [] then Inr (trimSpace s) else Inl (ErrSetting key)
          | _ \<Rightarrow> Inl (ErrSetting key))
      | None \<Rightarrow> (case secrets key of
          None \<Rightarrow> Inl (ErrSetting key)
        | Some v \<Rightarrow> if trimSpace v = [] then Inl (ErrSetting key) else Inr (trimSpace v)))"

text \<open>A secret that has to be there and is not trimmed.\<close>

definition required_secret :: "secrets \<Rightarrow> string \<Rightarrow> string res" where
  "required_secret secrets key =
     (case secrets key of None \<Rightarrow> Inl (ErrSetting key) | Some v \<Rightarrow> if v = [] then Inl (ErrSetting key) else Inr v)"

section \<open>The factories\<close>

type_synonym 'r factory = "'r env \<Rightarrow> BackendType \<Rightarrow> settings \<Rightarrow> secrets \<Rightarrow> service res"

definition newFileService :: "'r factory" where
  "newFileService env b settings secrets =
     (let dir = string_setting settings ''storage_dir''
      in Inr (FileService \<lparr>fs_fail = False, fs_dir = (if dir = [] then ''./testdata'' else dir)\<rparr>))"

definition newDiscordService :: "'r factory" where
  "newDiscordService env b settings secrets =
     (let channelID = string_setting settings ''channel_id''
      in if trimSpace channelID = [] then Inl (ErrSetting ''channel_id'')
         else case required_secret secrets ''bot_token'' of
           Inl e \<Rightarrow> Inl e
         | Inr botToken \<Rightarrow> Inr (DiscordService \<lparr>ds_channelID = channelID, ds_botToken = botToken, ds_session = False,
             ds_objects = Map.empty\<rparr>))"

definition newTelegramService :: "'r factory" where
  "newTelegramService env b settings secrets =
     (case readInt64Setting env settings ''chat_id'' of Inl e \<Rightarrow> Inl e | Inr chatID \<Rightarrow>
     (case required_secret secrets ''bot_token'' of Inl e \<Rightarrow> Inl e | Inr botToken \<Rightarrow>
     (case readInt32SettingOrSecret env settings secrets ''api_id'' of Inl e \<Rightarrow> Inl e | Inr apiID \<Rightarrow>
     (case readStringSettingOrSecret settings secrets ''api_hash'' of Inl e \<Rightarrow> Inl e | Inr apiHash \<Rightarrow>
        Inr (TelegramService \<lparr>tg_chatID = chatID, tg_botToken = botToken, tg_apiID = apiID, tg_apiHash = apiHash,
          tg_tdlibWorkDir = string_setting settings ''tdlib_workdir'', tg_remote = False, tg_objects = Map.empty\<rparr>)))))"

section \<open>The registry of the drivers\<close>

definition RegisterKind :: "string \<Rightarrow> 'r factory \<Rightarrow> (string \<rightharpoonup> 'r factory) \<Rightarrow> (string \<rightharpoonup> 'r factory)" where
  "RegisterKind kind factory fs = fs(kind \<mapsto> factory)"

text \<open>The three \<open>init\<close> functions of the package have run when the program starts.\<close>

definition factories :: "string \<rightharpoonup> 'r factory" where
  "factories = RegisterKind ''telegram'' newTelegramService (RegisterKind ''file'' newFileService
     (RegisterKind ''discord'' newDiscordService Map.empty))"

definition NewFactory :: "string \<Rightarrow> 'r factory option" where
  "NewFactory kind = factories kind"

definition RegisterFileTestBackends :: "nat \<Rightarrow> nat list \<Rightarrow> (('r, 'x) iface_scheme, BackendType list) comp" where
  "RegisterFileTestBackends n failIdx = mapE (\<lambda>i. let b = ''file-'' @ FormatInt (int i) in
     bindE (RegisterInstance b (FileService \<lparr>fs_fail = (i \<in> set failIdx), fs_dir = ''./testdata''\<rparr>)) (\<lambda>_. returnE b)) [0 ..< n]"

section \<open>The inventory\<close>

definition sanitize :: "string \<Rightarrow> string" where
  "sanitize s = map (\<lambda>c. let n = of_char c :: nat in if 65 \<le> n \<and> n \<le> 90 \<or> 48 \<le> n \<and> n \<le> 57 then c else CHR ''_'') (toUpper s)"

definition secretEnvName :: "string \<Rightarrow> string \<Rightarrow> string" where
  "secretEnvName b key = ''SHARDS3_BACKEND_'' @ sanitize b @ ''_'' @ sanitize key"

definition envSecretResolver :: "'r env \<Rightarrow> string \<Rightarrow> secrets" where
  "envSecretResolver env b = (\<lambda>key. os_env env (secretEnvName b key))"

fun check_defs :: "string \<Rightarrow> string set \<Rightarrow> BackendDef list \<Rightarrow> unit res" where
  "check_defs path seen [] = Inr ()"
| "check_defs path seen (d # ds) =
     (if Def_ID d = [] \<or> Def_Kind d = [] \<or> Def_ID d \<in> seen then Inl (ErrBackendsFile path)
      else check_defs path (insert (Def_ID d) seen) ds)"

definition LoadBackends :: "'r env \<Rightarrow> string \<Rightarrow> (('r, 'x) host_scheme, BackendDef list) comp" where
  "LoadBackends env path = bindE (os_ReadFile path) (\<lambda>data.
     case yaml_backends env data of
       None \<Rightarrow> raiseE (ErrBackendsFile path)
     | Some defs \<Rightarrow> bindE (liftE (check_defs path {} defs)) (\<lambda>_. returnE defs))"

fun BuildBackends :: "'r env \<Rightarrow> BackendDef list \<Rightarrow> (('r, 'x) iface_scheme, BackendType list) comp" where
  "BuildBackends env [] = returnE []"
| "BuildBackends env (d # ds) =
     (if \<not> Def_Enabled d then BuildBackends env ds
      else case NewFactory (Def_Kind d) of
        None \<Rightarrow> raiseE (ErrUnknownKind (Def_Kind d))
      | Some factory \<Rightarrow>
          bindE (liftE (factory env (Def_ID d) (Def_Settings d) (envSecretResolver env (Def_ID d)))) (\<lambda>svc.
          bindE (RegisterInstance (Def_ID d) svc) (\<lambda>_.
          bindE (BuildBackends env ds) (\<lambda>bs. returnE (Def_ID d # bs)))))"

end
