(* ===== verification/Startup.thy ===== *)
theory Startup
  imports Backend_Config
begin

text \<open>
  The start of the program (\<open>cmd/shards3/main.go\<close>, \<open>platform/db/db.go\<close>): the database is opened, the key manager and
  the metadata store are configured, and the backends of the inventory are built. The configuration has
  been read before (\<open>Cfg\<close>). The tables that are in the database file stay as they are: the migrations only
  create what is missing.
\<close>

definition sqlite_dsn :: "'r env \<Rightarrow> string" where
  "sqlite_dsn env =
     (let p = SQLitePath (Cfg env); dbPath = (if p = [] then ''shards3.db'' else p); timeout = SQLiteBusyTimeoutMS (Cfg env)
      in dbPath @ ''?_pragma=journal_mode(WAL)&_pragma=busy_timeout('' @ FormatInt (if timeout = 0 then 5000 else timeout) @
         '')&_pragma=foreign_keys(1)'')"

text \<open>Opening, pinging and migrating may each fail.\<close>

definition db_New :: "'r env \<Rightarrow> (('r, 'x) host_scheme, string) comp" where
  "db_New env = bindE (ext_call env) (\<lambda>_. bindE (ext_call env) (\<lambda>_. bindE (ext_call env) (\<lambda>_. returnE (sqlite_dsn env))))"

text \<open>What \<open>log.Fatalf\<close> reports is the error; otherwise the services start, the dashboard with them when it is
  enabled.\<close>

definition main :: "'r env \<Rightarrow> (('r, 'x) world_scheme, bool) comp" where
  "main env =
     bindE (db_New env) (\<lambda>_.
     bindE (ConfigureKMS env) (\<lambda>_.
     bindE (Configure True) (\<lambda>_.
     bindE (LoadBackends env (BackendsConfigPath (Cfg env))) (\<lambda>backendDefs.
     bindE (BuildBackends env backendDefs) (\<lambda>backendIDs.
     bindE (guardE (FailureTolerance (Cfg env) < int (length backendIDs))
        (ErrTooFewBackends (length backendIDs) (FailureTolerance (Cfg env)))) (\<lambda>_.
     bindE (SetAvailableBackends backendIDs) (\<lambda>_.
     returnE (EnableDashboard (Cfg env)))))))))"

end
