(* ===== verification/Startup_Laws.thy ===== *)
theory Startup_Laws
  imports Startup Manager_Laws
begin

text \<open>
  What the start of the program establishes: every enabled backend of the inventory is built from its settings and
  registered under its own name, with nothing stored in it, and the system is in the state from which the
  theorems on requests begin.
\<close>

section \<open>The settings of a backend\<close>

lemma signed_take_bit_range: "int_range (Suc n) (signed_take_bit n i)"
  by (simp add: int_range_def signed_take_bit_int_less_exp signed_take_bit_int_greater_eq_minus_exp)

lemma ParseInt_int_range:
  "ParseInt 64 s = Inr i \<Longrightarrow> int_range 64 i" "ParseInt 32 s = Inr i \<Longrightarrow> int_range 32 i"
  by (auto simp: ParseInt_def int_range_def Let_def split: if_splits sum.splits option.splits)

text \<open>YAML integers are 64-bit integers.\<close>

definition yaml_ok :: "settings \<Rightarrow> bool" where
  "yaml_ok st \<longleftrightarrow> (\<forall>k i. st k = Some (AnyInt i) \<longrightarrow> int_range 64 i)"

text \<open>Documented behaviour of \<open>yaml.v3\<close>.\<close>

definition yaml_law :: "'r env \<Rightarrow> bool" where
  "yaml_law env \<longleftrightarrow> (\<forall>data defs. yaml_backends env data = Some defs \<longrightarrow> (\<forall>d \<in> set defs. yaml_ok (Def_Settings d)))"

lemma readInt64Setting_range: "yaml_ok st \<Longrightarrow> readInt64Setting env st k = Inr i \<Longrightarrow> int_range 64 i"
  using signed_take_bit_range [of 63]
  by (auto simp: readInt64Setting_def int64_value_def yaml_ok_def Let_def split: option.splits any_val.splits if_splits sum.splits
      dest: ParseInt_int_range) (auto simp: int_range_def)

lemma readInt32_range: "readInt32SettingOrSecret env st sec k = Inr i \<Longrightarrow> int_range 32 i"
  using signed_take_bit_range [of 31]
  by (auto simp: readInt32SettingOrSecret_def parseInt32Value_def Let_def split: option.splits any_val.splits if_splits sum.splits
      dest: ParseInt_int_range)

text \<open>A service as its factory leaves it.\<close>

fun built :: "service \<Rightarrow> bool" where
  "built (FileService s) \<longleftrightarrow> \<not> fs_fail s \<and> fs_dir s \<noteq> []"
| "built (DiscordService s) \<longleftrightarrow> trimSpace (ds_channelID s) \<noteq> [] \<and> ds_botToken s \<noteq> [] \<and> \<not> ds_session s \<and> ds_objects s = Map.empty"
| "built (TelegramService s) \<longleftrightarrow> int_range 64 (tg_chatID s) \<and> tg_botToken s \<noteq> [] \<and> int_range 32 (tg_apiID s) \<and>
     tg_apiHash s \<noteq> [] \<and> \<not> tg_remote s \<and> tg_objects s = Map.empty"

fun kind_of :: "service \<Rightarrow> string" where
  "kind_of (FileService _) = ''file''"
| "kind_of (DiscordService _) = ''discord''"
| "kind_of (TelegramService _) = ''telegram''"

lemma readString_nonempty: "readStringSettingOrSecret st sec k = Inr v \<Longrightarrow> v \<noteq> []"
  by (auto simp: readStringSettingOrSecret_def split: option.splits any_val.splits if_splits)

lemma required_secret_nonempty: "required_secret sec k = Inr v \<Longrightarrow> v \<noteq> []"
  by (auto simp: required_secret_def split: option.splits if_splits)

lemma NewFactory_built:
  assumes "NewFactory kind = Some f" and "yaml_ok st" and "f env b st sec = Inr svc"
  shows "built svc \<and> kind_of svc = kind"
proof -
  have "kind = ''telegram'' \<and> f = newTelegramService \<or> kind = ''file'' \<and> f = newFileService \<or> kind = ''discord'' \<and> f = newDiscordService"
    using assms(1) by (auto simp: NewFactory_def factories_def RegisterKind_def split: if_splits)
  then show ?thesis
    using assms(2,3) readInt64Setting_range readInt32_range readString_nonempty required_secret_nonempty
    by (auto simp: newTelegramService_def newFileService_def newDiscordService_def Let_def split: sum.splits if_splits)
qed

section \<open>The inventory\<close>

lemma check_defs_Inr: "check_defs path seen ds = Inr () \<Longrightarrow> distinct (map Def_ID ds) \<and> Def_ID ` set ds \<inter> seen = {}"
  by (induction ds arbitrary: seen) (auto split: if_splits)

lemma BuildBackends_Inr:
  assumes "BuildBackends env ds w = (Inr bs, t)" and "\<forall>d \<in> set ds. yaml_ok (Def_Settings d)" and "distinct (map Def_ID ds)"
  shows "bs = map Def_ID (filter Def_Enabled ds) \<and> t = w\<lparr>instances := instances t\<rparr> \<and>
    (\<forall>b. b \<notin> set bs \<longrightarrow> instances t b = instances w b) \<and>
    (\<forall>d \<in> set ds. Def_Enabled d \<longrightarrow> (\<exists>svc. instances t (Def_ID d) = Some svc \<and> built svc \<and> kind_of svc = Def_Kind d))"
  using assms
proof (induction ds arbitrary: w bs)
  case Nil
  then show ?case by (simp add: returnE_def)
next
  case (Cons d ds)
  show ?case
  proof (cases "Def_Enabled d")
    case False
    with Cons show ?thesis by auto
  next
    case True
    then obtain f svc bs' where f: "NewFactory (Def_Kind d) = Some f" "f env (Def_ID d) (Def_Settings d) (envSecretResolver env (Def_ID d)) = Inr svc"
      and b: "BuildBackends env ds (w\<lparr>instances := (instances w)(Def_ID d \<mapsto> svc)\<rparr>) = (Inr bs', t)" "bs = Def_ID d # bs'"
      using Cons.prems(1)
      by (auto simp: bindE_def liftE_def raiseE_def returnE_def RegisterInstance_def modifyE_def split: option.splits sum.splits prod.splits)
    note ih = Cons.IH [OF b(1)]
    have "built svc \<and> kind_of svc = Def_Kind d" by (rule NewFactory_built [OF f(1) _ f(2)]) (use Cons.prems(2) in simp)
    moreover have "Def_ID d \<notin> set bs'" using ih Cons.prems(2,3) by auto
    ultimately show ?thesis using ih Cons.prems(2,3) b(2) True by auto
  qed
qed

section \<open>The state after the start\<close>

definition key_path :: "'r env \<Rightarrow> string" where
  "key_path env = (if trimSpace (KMSPasswordKeyPath (Cfg env)) = [] then ''kms.key'' else trimSpace (KMSPasswordKeyPath (Cfg env)))"

lemma ConfigureKMS_Inr:
  assumes "ConfigureKMS env w = (Inr (), t)"
  shows "t = w\<lparr>tick := tick t, files := files t, defaultKMS := Some (key_path env)\<rparr> \<and> tick w \<le> tick t \<and>
    (\<forall>p. p \<noteq> key_path env \<longrightarrow> files t p = files w p) \<and> files t (key_path env) \<noteq> None"
  using assms
  by (cases "files w (key_path env)")
    (auto simp: ConfigureKMS_def NewKMS_def ensurePasswordFile_def Let_def bindE_def ext_call_eq rand_Read_eq os_WriteFile_eq raiseE_def
        next_tick_def returnE_def modifyE_def key_path_def [symmetric] split: if_splits)

text \<open>The name of the key file is not that of a shard.\<close>

definition key_apart :: "'r env \<Rightarrow> bool" where
  "key_apart env \<longleftrightarrow> (\<forall>n. name_of (key_path env) \<noteq> ''shard_'' @ uuid_new env n)"

definition started :: "'r env \<Rightarrow> BackendDef list \<Rightarrow> ('r, 'x) world_scheme \<Rightarrow> ('r, 'x) world_scheme \<Rightarrow> bool" where
  "started env defs w t \<longleftrightarrow> db t = db w \<and> metaDB t \<and> defaultKMS t = Some (key_path env) \<and> tick w \<le> tick t \<and>
     (\<forall>p. p \<noteq> key_path env \<longrightarrow> files t p = files w p) \<and> files t (key_path env) \<noteq> None \<and>
     availableBackends t = map Def_ID (filter Def_Enabled defs) \<and> distinct (availableBackends t) \<and>
     FailureTolerance (Cfg env) < int (length (availableBackends t)) \<and>
     (\<forall>b. b \<notin> set (availableBackends t) \<longrightarrow> instances t b = instances w b) \<and>
     (\<forall>d \<in> set defs. Def_Enabled d \<longrightarrow> (\<exists>svc. instances t (Def_ID d) = Some svc \<and> built svc \<and> kind_of svc = Def_Kind d))"

lemma main_Inr:
  assumes m: "main env w = (Inr dash, t)"
    and y: "yaml_law env"
  shows "\<exists>data defs. yaml_backends env data = Some defs \<and> started env defs w t \<and>
    (BackendsConfigPath (Cfg env) \<noteq> key_path env \<longrightarrow> files w (BackendsConfigPath (Cfg env)) = Some data)"
proof -
  let ?p = "BackendsConfigPath (Cfg env)"
  have new: "\<exists>n. db_New env w = (Inr (sqlite_dsn env), w\<lparr>tick := n\<rparr>) \<and> tick w \<le> n" if "\<exists>d u. db_New env w = (Inr d, u)"
    using that by (auto simp: db_New_def bindE_def ext_call_eq returnE_def split: if_splits)
  obtain n w1 data defs bs w2 where n: "tick w \<le> n" and k: "ConfigureKMS env (w\<lparr>tick := n\<rparr>) = (Inr (), w1)"
    and d: "files w1 ?p = Some data" "yaml_backends env data = Some defs" "check_defs ?p {} defs = Inr ()"
    and b: "BuildBackends env defs (w1\<lparr>metaDB := True\<rparr>) = (Inr bs, w2)"
    and tol: "FailureTolerance (Cfg env) < int (length bs)" and t: "t = w2\<lparr>availableBackends := bs\<rparr>"
    using m new
    by (fastforce simp: main_def bindE_eq_Inr_iff Configure_def modifyE_def LoadBackends_def os_ReadFile_eq liftE_def raiseE_def returnE_def
        SetAvailableBackends_def split: option.splits sum.splits if_splits)
  note kms = ConfigureKMS_Inr [OF k]
  have "distinct (map Def_ID defs)" using check_defs_Inr [OF d(3)] by simp
  moreover have "\<forall>d \<in> set defs. yaml_ok (Def_Settings d)" using y d(2) unfolding yaml_law_def by blast
  ultimately have bb: "bs = map Def_ID (filter Def_Enabled defs) \<and> w2 = w1\<lparr>metaDB := True, instances := instances w2\<rparr> \<and>
    (\<forall>b. b \<notin> set bs \<longrightarrow> instances w2 b = instances w1 b) \<and>
    (\<forall>d \<in> set defs. Def_Enabled d \<longrightarrow> (\<exists>svc. instances w2 (Def_ID d) = Some svc \<and> built svc \<and> kind_of svc = Def_Kind d))"
    using BuildBackends_Inr [OF b] by simp
  have "distinct bs" using bb \<open>distinct (map Def_ID defs)\<close> by (metis distinct_map_filter)
  moreover have w2: "w2 = w1\<lparr>metaDB := True, instances := instances w2\<rparr>" using bb by simp
  moreover have w1: "w1 = w\<lparr>tick := tick w1, files := files w1, defaultKMS := Some (key_path env)\<rparr>" using kms by simp
  have f1: "db w1 = db w" "instances w1 = instances w" "defaultKMS w1 = Some (key_path env)"
    using arg_cong [OF w1, of db] arg_cong [OF w1, of instances] arg_cong [OF w1, of defaultKMS] by simp_all
  have f2: "db w2 = db w1" "metaDB w2" "defaultKMS w2 = defaultKMS w1" "tick w2 = tick w1" "files w2 = files w1"
    using arg_cong [OF w2, of db] arg_cong [OF w2, of metaDB] arg_cong [OF w2, of defaultKMS] arg_cong [OF w2, of tick]
      arg_cong [OF w2, of files] by simp_all
  ultimately have "started env defs w t"
    using kms bb tol n unfolding started_def t by (simp add: f1 f2)
  moreover have "?p \<noteq> key_path env \<longrightarrow> files w ?p = Some data" using kms d(1) by auto
  ultimately show ?thesis using d(2) by blast
qed

lemma ConfigureKMS_succeeds:
  assumes "no_faults env" and "crypto_law env" and "path = (if trimSpace (KMSPasswordKeyPath (Cfg env)) = [] then ''kms.key''
      else trimSpace (KMSPasswordKeyPath (Cfg env)))"
  shows "\<exists>t. ConfigureKMS env w = (Inr (), t) \<and> defaultKMS t = Some path \<and> (\<forall>p \<noteq> path. files t p = files w p) \<and>
    (files w path = None \<longrightarrow> (\<exists>n. password_of env t path = Inr (rand_read env n 32))) \<and>
    (\<forall>x. files w path = Some x \<longrightarrow> files t path = Some x)"
proof -
  have nf: "\<not> fault env k" for k using assms(1) by (simp add: no_faults_def)
  have new: "NewKMS env w = bindE (ensurePasswordFile env path) (\<lambda>_. returnE path) w"
    by (simp add: NewKMS_def Let_def assms(3))
  show ?thesis
  proof (cases "files w path")
    case (Some x)
    then have "ConfigureKMS env w = (Inr (), w\<lparr>tick := Suc (tick w), defaultKMS := Some path\<rparr>)"
      by (simp add: ConfigureKMS_def bindE_def new ensurePasswordFile_def ext_call_eq nf returnE_def)
    with Some show ?thesis by simp
  next
    case None
    let ?pw = "rand_read env (Suc (tick w)) 32"
    let ?t = "w\<lparr>tick := Suc (Suc (Suc (Suc (tick w)))), files := (files w)(path \<mapsto> string_bytes (b64_encode env ?pw)),
        defaultKMS := Some path\<rparr>"
    have "ConfigureKMS env w = (Inr (), ?t)" using None
      by (simp add: ConfigureKMS_def bindE_def new ensurePasswordFile_def ext_call_eq nf returnE_def rand_Read_eq next_tick_def os_WriteFile_eq)
    moreover have "length ?pw = 32" using assms(2) by (simp add: crypto_law_def)
    then have "?pw \<noteq> []" by auto
    then have "b64_encode env ?pw \<noteq> []" "trimSpace (b64_encode env ?pw) = b64_encode env ?pw" "b64_decode env (b64_encode env ?pw) = Some ?pw"
      using assms(2) by (simp_all add: crypto_law_def)
    then have "password_of env ?t path = Inr ?pw" by (simp add: password_of_def)
    ultimately show ?thesis using None by (intro exI [of _ ?t]) auto
  qed
qed

section \<open>From the start to requests\<close>

lemma started_ok:
  assumes st: "started env defs w t" and law: "lawful env" "key_apart env" and w: "fresh_inv env w" "instances w = Map.empty"
  shows "iface_ok env t"
proof -
  note s = st [unfolded started_def]
  have u: "uuid_new env n \<noteq> []" "CHR ''/'' \<notin> set (uuid_new env n)" for n using law(1) by (simp_all add: lawful_def uuid_law_def)
  have f: "files t (filepath_Join dir (''shard_'' @ uuid_new env n)) = None" if n: "tick t \<le> n" for dir n
  proof -
    have "name_of (filepath_Join dir (''shard_'' @ uuid_new env n)) = ''shard_'' @ uuid_new env n"
      by (rule name_of_Join) (use u in simp_all)
    then have "filepath_Join dir (''shard_'' @ uuid_new env n) \<noteq> key_path env" using law(2) unfolding key_apart_def by metis
    moreover have "files w (filepath_Join dir (''shard_'' @ uuid_new env n)) = None" using w(1) n s unfolding fresh_inv_def by auto
    ultimately show ?thesis using s by metis
  qed
  have i: "built svc" if "instances t b = Some svc" for b svc
  proof -
    have "b \<in> set (availableBackends t)" using that s w(2) by (metis option.distinct(1))
    then obtain d where "d \<in> set defs" "Def_Enabled d" "b = Def_ID d" using s by auto
    with that s show ?thesis by force
  qed
  have "ds_objects x = Map.empty" if "instances t b = Some (DiscordService x)" for b x using i [OF that] by simp
  moreover have "tg_objects x = Map.empty" if "instances t b = Some (TelegramService x)" for b x using i [OF that] by simp
  ultimately have "fresh_inv env t" using f by (simp add: fresh_inv_def)
  with law(1) show ?thesis by (simp add: iface_ok_def)
qed

lemma main_ok:
  assumes "main env w = (Inr dash, t)" and "yaml_law env"
    and "lawful env" and "key_apart env" and "fresh_inv env w" and "instances w = Map.empty" and "db_inv (db w)"
  shows "iface_ok env t \<and> db_inv (db t) \<and> FailureTolerance (Cfg env) < int (length (availableBackends t)) \<and>
    (\<exists>data defs. yaml_backends env data = Some defs \<and> started env defs w t)"
proof -
  obtain data defs where y: "yaml_backends env data = Some defs" and s: "started env defs w t"
    using main_Inr [OF assms(1,2)] by blast
  have n: "FailureTolerance (Cfg env) < int (length (availableBackends t))" "db t = db w" using s unfolding started_def by blast+
  have "iface_ok env t" by (rule started_ok [OF s assms(3-6)])
  with y s n(1) assms(7) show ?thesis unfolding n(2) by blast
qed

lemma getShardParityCount_defined:
  assumes "0 \<le> FailureTolerance (Cfg env)" and "FailureTolerance (Cfg env) < int n"
  shows "\<exists>p. getShardParityCount env n rows = Inr p"
  using parityLoop_defined [OF _ assms(2), of rows] assms by (auto simp: getShardParityCount_def)

text \<open>An inventory of file backends is always built.\<close>

lemma BuildBackends_files:
  fixes env :: "'r env" and w :: "('r, 'x) iface_scheme"
  assumes "\<forall>d \<in> set ds. Def_Enabled d \<longrightarrow> Def_Kind d = ''file''"
  shows "\<exists>t. BuildBackends env ds w = (Inr (map Def_ID (filter Def_Enabled ds)), t)"
  using assms
proof (induction ds arbitrary: w)
  case Nil
  then show ?case by (simp add: returnE_def)
next
  case (Cons d ds)
  have f: "NewFactory ''file'' = Some newFileService" by (simp add: NewFactory_def factories_def RegisterKind_def)
  have ih: "\<exists>t. BuildBackends env ds w' = (Inr (map Def_ID (filter Def_Enabled ds)), t)" for w' :: "('r, 'x) iface_scheme"
    using Cons by simp
  show ?case
  proof (cases "Def_Enabled d")
    case False
    then show ?thesis using ih by simp
  next
    case True
    obtain x where "newFileService env (Def_ID d) (Def_Settings d) (envSecretResolver env (Def_ID d)) = Inr x"
      by (simp add: newFileService_def Let_def)
    moreover obtain t where "BuildBackends env ds (w\<lparr>instances := (instances w)(Def_ID d \<mapsto> x)\<rparr>) = (Inr (map Def_ID (filter Def_Enabled ds)), t)"
      using ih by blast
    ultimately show ?thesis
      using True Cons.prems by (simp add: f bindE_def liftE_def RegisterInstance_def modifyE_def returnE_def)
  qed
qed

lemma check_defs_ok:
  "\<forall>d \<in> set ds. Def_ID d \<noteq> [] \<and> Def_Kind d \<noteq> [] \<Longrightarrow> distinct (map Def_ID ds) \<Longrightarrow> Def_ID ` set ds \<inter> seen = {} \<Longrightarrow>
    check_defs path seen ds = Inr ()"
  by (induction ds arbitrary: seen) auto

text \<open>The start succeeds when nothing fails and all enabled backends are directories.\<close>

lemma main_files:
  assumes nf: "no_faults env" and law: "crypto_law env" and kf: "files w (key_path env) = None"
    and bf: "files w (BackendsConfigPath (Cfg env)) = Some data" "yaml_backends env data = Some defs"
    and defs: "\<forall>d \<in> set defs. Def_ID d \<noteq> [] \<and> Def_Kind d \<noteq> [] \<and> (Def_Enabled d \<longrightarrow> Def_Kind d = ''file'')" "distinct (map Def_ID defs)"
    and tol: "FailureTolerance (Cfg env) < int (length (filter Def_Enabled defs))" and y: "yaml_law env"
  shows "\<exists>t. main env w = (Inr (EnableDashboard (Cfg env)), t) \<and> kms_ready env t \<and> started env defs w t"
proof -
  let ?p = "BackendsConfigPath (Cfg env)" and ?n = "Suc (Suc (Suc (tick w)))" and ?bs = "map Def_ID (filter Def_Enabled defs)"
  have f: "\<not> fault env k" for k using nf by (simp add: no_faults_def)
  have new: "db_New env w = (Inr (sqlite_dsn env), w\<lparr>tick := ?n\<rparr>)" by (simp add: db_New_def bindE_def ext_call_eq f returnE_def)
  obtain w1 m where k: "ConfigureKMS env (w\<lparr>tick := ?n\<rparr>) = (Inr (), w1)" and pw: "password_of env w1 (key_path env) = Inr (rand_read env m 32)"
    using ConfigureKMS_succeeds [OF nf law key_path_def, of "w\<lparr>tick := ?n\<rparr>"] kf by auto
  note kms = ConfigureKMS_Inr [OF k]
  have apart: "?p \<noteq> key_path env" using kf bf(1) by auto
  with kms bf(1) have "files w1 ?p = Some data" by simp
  then have l: "LoadBackends env ?p (w1\<lparr>metaDB := True\<rparr>) = (Inr defs, w1\<lparr>metaDB := True\<rparr>)"
    using bf(2) check_defs_ok [of defs "{}" ?p] defs by (simp add: LoadBackends_def bindE_def os_ReadFile_eq liftE_def returnE_def)
  obtain w2 where b: "BuildBackends env defs (w1\<lparr>metaDB := True\<rparr>) = (Inr ?bs, w2)"
    using BuildBackends_files [of defs env "w1\<lparr>metaDB := True\<rparr>"] defs(1) by auto
  have m: "main env w = (Inr (EnableDashboard (Cfg env)), w2\<lparr>availableBackends := ?bs\<rparr>)"
    using tol by (simp add: main_def bindE_def new k Configure_def modifyE_def l b SetAvailableBackends_def returnE_def guardE_def)
  have "\<forall>d \<in> set defs. yaml_ok (Def_Settings d)" using y bf(2) unfolding yaml_law_def by blast
  then have w2: "w2 = w1\<lparr>metaDB := True, instances := instances w2\<rparr>" using BuildBackends_Inr [OF b _ defs(2)] by simp
  have "files w2 = files w1" "defaultKMS w2 = defaultKMS w1" using arg_cong [OF w2, of files] arg_cong [OF w2, of defaultKMS] by simp_all
  moreover have "defaultKMS w1 = Some (key_path env)" using arg_cong [OF conjunct1 [OF kms], of defaultKMS] by simp
  ultimately have "kms_ready env (w2\<lparr>availableBackends := ?bs\<rparr>)" using pw by (auto simp: kms_ready_def password_of_def)
  moreover obtain data' defs' where "yaml_backends env data' = Some defs'" "started env defs' w (w2\<lparr>availableBackends := ?bs\<rparr>)"
    "?p \<noteq> key_path env \<longrightarrow> files w ?p = Some data'" using main_Inr [OF m y] by blast
  ultimately show ?thesis using m bf apart by auto
qed

end
