(* ===== verification/Crypto_Theorems.thy ===== *)
theory Crypto_Theorems
  imports Concrete Startup_Laws
begin

text \<open>
  The properties of encryption and key management: what is encrypted can be decrypted as long as its key lives,
  a deleted key is gone for good, and a new installation gets a usable key file.
\<close>

section \<open>Lemmas on keys\<close>

lemma DeleteKey_Inr:
  assumes "DeleteKey env k w = (Inr (), t)"
  shows "store_same w t" and "kms_seq (db t) = kms_seq (db w)"
    and "live_key k (db t) = None" and "k' \<noteq> k \<Longrightarrow> live_key k' (db t) = live_key k' (db w)" and "\<exists>r. live_key k (db w) = Some r"
proof -
  let ?hit = "\<lambda>r. kms_id r = k \<and> kms_deleted r = None"
  from assms obtain now w1 where ex: "\<exists>n. exec env (delete_kms k now) w1 = (Inr n, t) \<and> n \<noteq> 0" and w1: "w1 = w\<lparr>tick := Suc (tick w)\<rparr>"
    by (auto simp: DeleteKey_def kms_DeleteKey_def getDefaultKMS_def bindE_eq_Inr_iff time_Now_eq split: option.splits if_splits)
  then have t: "db t = (db w)\<lparr>kms_keys := map (\<lambda>r. if ?hit r then r\<lparr>kms_deleted := Some now\<rparr> else r) (kms_keys (db w))\<rparr>"
      "filter ?hit (kms_keys (db w)) \<noteq> []" and w: "t = w1\<lparr>tick := Suc (tick w1), db := db t\<rparr>"
    by (auto simp: exec_Inr delete_kms_def Let_def)
  show "store_same w t" by (subst w) (simp add: w1 store_same_def)
  show "kms_seq (db t) = kms_seq (db w)" by (simp add: t(1))
  have "find ?hit (map (\<lambda>r. if ?hit r then r\<lparr>kms_deleted := Some now\<rparr> else r) rs) = None" for rs by (induction rs) auto
  then show "live_key k (db t) = None" by (simp add: t(1) live_key_def)
  have "find (\<lambda>r. kms_id r = k' \<and> kms_deleted r = None) (map (\<lambda>r. if ?hit r then r\<lparr>kms_deleted := Some now\<rparr> else r) rs)
      = find (\<lambda>r. kms_id r = k' \<and> kms_deleted r = None) rs" if "k' \<noteq> k" for rs
    using that by (induction rs) auto
  then show "k' \<noteq> k \<Longrightarrow> live_key k' (db t) = live_key k' (db w)" by (simp add: t(1) live_key_def)
  have "find ?hit (kms_keys (db w)) \<noteq> None" using t(2) by (auto simp: find_None_iff filter_empty_conv)
  then show "\<exists>r. live_key k (db w) = Some r" by (simp add: live_key_def)
qed

lemma CreateKey_new:
  assumes "CreateKey env w = (Inr k, t)"
  shows "k = kms_seq (db w) + 1 \<and> kms_seq (db t) = k"
proof -
  from assms obtain enc now w2 where e: "exec env (insert_kms enc now) w2 = (Inr k, t)" "db w2 = db w"
    by (auto simp: CreateKey_def getDefaultKMS_def kms_CreateKey_def bindE_eq_Inr_iff rand_Read_eq readPassword_eq
        time_Now_eq encryptJSON_def Let_def split: option.splits if_splits)
  then show ?thesis by (auto simp: exec_Inr insert_kms_def Let_def)
qed

lemma Decrypt_no_key:
  assumes "live_key k (db w) = None" and "ty \<noteq> 0"
  shows "\<exists>e. fst (Decrypt env ct \<lparr>Encryption_Type = ty, Encryption_KeyId = k\<rparr> w) = Inl e"
proof -
  have "\<exists>e t. getKey env k w = (Inl e, t)"
    using assms(1) by (auto simp: getKey_def getDefaultKMS_def kms_GetKey_eq bindE_def raiseE_def returnE_def split: option.split)
  with assms(2) show ?thesis
    by (auto simp: Decrypt_def decryptAES256GCM_def decryptChaCha20Poly1305_def bindE_def raiseE_def)
qed

section \<open>The properties\<close>

text \<open>C19: With a readable key file, encryption with each of the three known methods succeeds, and in every later state in which
  the key file and the live keys are kept, decryption with the recorded method and key gives the data back.\<close>

theorem encrypt_decrypt:
  assumes "no_faults env" and "crypto_law env" and "db_inv (db w)" and "kms_ready env w" and "ty \<in> {0, 1, 2}"
  shows "\<exists>ct k t. Encrypt env data ty w = (Inr (ct, k), t) \<and>
    (\<forall>u. keys_kept t u \<longrightarrow> fst (Decrypt env ct \<lparr>Encryption_Type = ty, Encryption_KeyId = k\<rparr> u) = Inr data)"
proof -
  obtain ct k t where e: "Encrypt env data ty w = (Inr (ct, k), t)" using Encrypt_succeeds [OF assms, of data] by blast
  then have "sealed env t ct \<lparr>Encryption_Type = ty, Encryption_KeyId = k\<rparr> data" using Encrypt_sealed [OF assms(2,3)] by blast
  then have "fst (Decrypt env ct \<lparr>Encryption_Type = ty, Encryption_KeyId = k\<rparr> u) = Inr data" if "keys_kept t u" for u
    using Decrypt_sealed [OF assms(2) sealed_kept [OF that]] assms(1) by (fastforce simp: no_faults_def)
  with e show ?thesis by blast
qed

theorem encrypt_decrypt_witness:
  "\<exists>ct k t. Encrypt demo_env [1, 2, 3] 2 demo_world = (Inr (ct, k), t) \<and>
    (\<forall>u. keys_kept t u \<longrightarrow> fst (Decrypt demo_env ct \<lparr>Encryption_Type = 2, Encryption_KeyId = k\<rparr> u) = Inr [1, 2, 3])"
proof -
  have "db_inv (db demo_world)" "kms_ready demo_env demo_world" using demo_accepting by (simp_all add: accepting_def ready_def)
  then show ?thesis using encrypt_decrypt [OF demo_no_faults demo_crypto_law, of demo_world 2 "[1, 2, 3]"] by simp
qed

text \<open>C20: After a key was deleted, nothing encrypted under it can be decrypted, the key is not listed, every other key still
  reads the same, deleting it again fails, and no key created later gets its number.\<close>

theorem key_deleted:
  assumes "db_inv (db w)" and "DeleteKey env k w = (Inr (), t)"
  shows "(\<forall>ct ty. ty \<noteq> 0 \<longrightarrow> (\<exists>e. fst (Decrypt env ct \<lparr>Encryption_Type = ty, Encryption_KeyId = k\<rparr> t) = Inl e)) \<and>
    (\<forall>k' key. k' \<noteq> k \<and> holds_key env w k' key \<longrightarrow> holds_key env t k' key) \<and>
    (\<forall>ids. fst (ListKeys env t) = Inr ids \<longrightarrow> k \<notin> set ids) \<and>
    (\<forall>t'. DeleteKey env k t \<noteq> (Inr (), t')) \<and>
    (\<forall>u k' t'. kms_seq (db t) \<le> kms_seq (db u) \<and> CreateKey env u = (Inr k', t') \<longrightarrow> k < k')"
proof (intro conjI allI impI)
  note d = DeleteKey_Inr [OF assms(2)]
  show "\<exists>e. fst (Decrypt env ct \<lparr>Encryption_Type = ty, Encryption_KeyId = k\<rparr> t) = Inl e" if "ty \<noteq> 0" for ct ty
    by (rule Decrypt_no_key [OF d(3) that])
  show "holds_key env t k' key" if "k' \<noteq> k \<and> holds_key env w k' key" for k' key
    using that d(1,4) by (auto simp: holds_key_def store_same_def password_of_def)
  show "k \<notin> set ids" if "fst (ListKeys env t) = Inr ids" for ids
  proof -
    from that have "set ids \<subseteq> kms_id ` {r \<in> set (kms_keys (db t)). kms_deleted r = None}"
      by (auto simp: ListKeys_def getDefaultKMS_def kms_ListKeys_def bindE_def query_eq raiseE_def returnE_def split: option.splits if_splits sum.splits)
    moreover have "k \<notin> kms_id ` {r \<in> set (kms_keys (db t)). kms_deleted r = None}" using d(3) by (auto simp: live_key_def find_None_iff)
    ultimately show ?thesis by blast
  qed
  show "DeleteKey env k t \<noteq> (Inr (), t')" for t' using DeleteKey_Inr(5) [of env k t t'] d(3) by auto
  show "k < k'" if "kms_seq (db t) \<le> kms_seq (db u) \<and> CreateKey env u = (Inr k', t')" for u k' t'
  proof -
    from d(5) have "k \<in> kms_ids (db w)" by (force simp: live_key_def find_Some_iff)
    then have "k \<le> kms_seq (db w)" using assms(1) by (auto simp: db_inv_def kms_ok_def)
    with that CreateKey_new [of env u k' t'] d(2) show ?thesis by simp
  qed
qed

theorem key_deleted_witness:
  "\<exists>(w :: unit world) t t' k'. DeleteKey demo_env 1 w = (Inr (), t) \<and> CreateKey demo_env t = (Inr k', t') \<and> 1 < k' \<and>
    (\<exists>e. fst (Decrypt demo_env [1, 2, 3] \<lparr>Encryption_Type = 1, Encryption_KeyId = 1\<rparr> t) = Inl e)"
proof -
  have inv: "db_inv (db demo_world)" and rd: "kms_ready demo_env demo_world"
    using demo_accepting by (simp_all add: accepting_def ready_def)
  obtain i w where c: "CreateKey demo_env demo_world = (Inr i, w)" using CreateKey_succeeds [OF demo_no_faults demo_crypto_law rd] by blast
  have i: "i = 1" using CreateKey_new [OF c] by (simp add: demo_world_def empty_db_def)
  note c' = CreateKey_Inr [OF demo_crypto_law inv c, unfolded i]
  from c'(2) obtain key path r where k: "holds_key demo_env w 1 key" "defaultKMS w = Some path" "live_key 1 (db w) = Some r"
    by (auto simp: holds_key_def)
  then have "\<exists>x \<in> set (kms_keys (db w)). kms_id x = 1 \<and> kms_deleted x = None" by (force simp: live_key_def find_Some_iff)
  then obtain t where t: "DeleteKey demo_env 1 w = (Inr (), t)"
    using k(2) demo_no_faults by (auto simp: DeleteKey_def kms_DeleteKey_def getDefaultKMS_def bindE_def time_Now_eq exec_eq delete_kms_def
        Let_def returnE_def raiseE_def no_faults_def filter_empty_conv)
  have "keys_kept demo_world w" by (rule c'(1))
  then have "kms_ready demo_env w" using rd kms_ready_kept by blast
  then have "kms_ready demo_env t" using DeleteKey_Inr(1) [OF t] by (simp add: kms_ready_def store_same_def password_of_def)
  then obtain k' t' where c2: "CreateKey demo_env t = (Inr k', t')" using CreateKey_succeeds [OF demo_no_faults demo_crypto_law] by blast
  note del = key_deleted [OF c'(4) t]
  have "(1 :: int) \<noteq> 0" "kms_seq (db t) \<le> kms_seq (db t)" by simp_all
  with del c2 have "\<exists>e. fst (Decrypt demo_env [1, 2, 3] \<lparr>Encryption_Type = 1, Encryption_KeyId = 1\<rparr> t) = Inl e \<and> 1 < k'" by meson
  with t c2 show ?thesis by blast
qed

text \<open>C24: Starting the key manager without a key file creates one with a random password that can be read; an existing key file
  is left alone.\<close>

theorem kms_bootstrap:
  assumes "no_faults env" and "crypto_law env" and "path = (if trimSpace (KMSPasswordKeyPath (Cfg env)) = [] then ''kms.key''
      else trimSpace (KMSPasswordKeyPath (Cfg env)))"
  shows "\<exists>t. ConfigureKMS env w = (Inr (), t) \<and> defaultKMS t = Some path \<and> (\<forall>p \<noteq> path. files t p = files w p) \<and>
    (files w path = None \<longrightarrow> (\<exists>n. password_of env t path = Inr (rand_read env n 32))) \<and>
    (\<forall>x. files w path = Some x \<longrightarrow> files t path = Some x)"
  by (rule ConfigureKMS_succeeds [OF assms])

theorem kms_bootstrap_witness:
  "\<exists>t n. ConfigureKMS demo_env (demo_world\<lparr>files := Map.empty\<rparr>) = (Inr (), t) \<and> defaultKMS t = Some ''kms.key'' \<and>
    password_of demo_env t ''kms.key'' = Inr (rand_read demo_env n 32)"
proof -
  have "''kms.key'' = (if trimSpace (KMSPasswordKeyPath (Cfg demo_env)) = [] then ''kms.key'' else trimSpace (KMSPasswordKeyPath (Cfg demo_env)))"
    by (simp add: demo_env_def demo_cfg_def trimSpace_def isSpace_def)
  from kms_bootstrap [OF demo_no_faults demo_crypto_law this, of "demo_world\<lparr>files := Map.empty\<rparr>"] show ?thesis by auto
qed

end
