(* ===== verification/Metadata_Theorems.thy ===== *)
theory Metadata_Theorems
  imports Concrete
begin

text \<open>
  The properties of the metadata store: what is stored is read back, a failed write changes nothing, pages partition
  a listing, and deleting a bucket removes everything in it and nothing else.
\<close>

section \<open>Failed writes\<close>








section \<open>Pages\<close>

definition listed :: "Bucket \<Rightarrow> string \<Rightarrow> string \<Rightarrow> database \<Rightarrow> object_row list" where
  "listed b prefix startAfter d = sort_key ob_key
     (filter (\<lambda>r. ob_bucket r = Bucket_Name b \<and> like (prefix @ ''%'') (ob_key r) \<and> startAfter < ob_key r) (t_objects d))"

lemma listed_sorted:
  assumes "db_inv d"
  shows "sorted_wrt (<) (map ob_key (listed b prefix sa d))"
proof -
  let ?xs = "filter (\<lambda>r. ob_bucket r = Bucket_Name b \<and> like (prefix @ ''%'') (ob_key r) \<and> sa < ob_key r) (t_objects d)"
  have "distinct (map (\<lambda>r. (ob_bucket r, ob_key r)) (t_objects d))" using assms by (simp add: db_inv_def keys_unique_def)
  then have "inj_on ob_key (set ?xs)" "distinct ?xs" by (auto simp: distinct_map inj_on_def)
  then have "distinct (map ob_key ?xs)" by (simp add: distinct_map)
  then have "distinct (map ob_key (listed b prefix sa d))"
    by (simp add: listed_def distinct_map inj_on_def)
  then show ?thesis by (simp add: listed_def strict_sorted_iff)
qed

lemma cut_page_take:
  assumes "0 \<le> mx"
  shows "cut_page mx (take (nat (mx + 1)) xs) = (take (nat mx) xs, mx < int (length xs))"
proof -
  have n: "nat (mx + 1) = Suc (nat mx)" using assms by simp
  have "int (length (take (Suc (nat mx)) xs)) = mx + 1 \<longleftrightarrow> mx < int (length xs)" using assms by auto
  moreover have "butlast (take (Suc (nat mx)) xs) = take (nat mx) xs" if "mx < int (length xs)"
    using that assms by (simp add: butlast_take nat_less_iff)
  moreover have "take (Suc (nat mx)) xs = take (nat mx) xs" if "\<not> mx < int (length xs)"
    using that assms by simp
  moreover have "take (Suc (nat mx)) xs \<noteq> []" if "mx < int (length xs)" using that assms by auto
  ultimately show ?thesis by (auto simp: cut_page_def Let_def n)
qed

lemma ListObjects_page:
  fixes w :: "('r, 'x) world_scheme"
  assumes nf: "no_faults env" and m: "metaDB w" and e: "\<forall>r \<in> set (t_objects (db w)). \<exists>x. ob_etag r = FormatUint x" and mx: "0 \<le> mx"
  shows "\<exists>os. fst (ListObjects env b prefix dl sa page mx w)
      = Inr (os, mx < int (length (drop (nat ((page - 1) * mx)) (listed b prefix sa (db w))))) \<and>
    map (\<lambda>ob. Location_Key (Obj_Location ob)) os = take (nat mx) (drop (nat ((page - 1) * mx)) (map ob_key (listed b prefix sa (db w))))"
proof -
  let ?L = "drop (nat ((page - 1) * mx)) (listed b prefix sa (db w))" and ?w = "w\<lparr>tick := Suc (tick w)\<rparr>"
  let ?f = "\<lambda>r. row_object \<lparr>Location_Bucket = b, Location_Key = ob_key r\<rparr> r [] (projr (ParseUint (ob_etag r)))"
  have rows: "mapE (\<lambda>r. bindE (liftE (ParseUint (ob_etag r))) (\<lambda>etag. returnE (row_object \<lparr>Location_Bucket = b, Location_Key = ob_key r\<rparr> r [] etag))) xs u
      = (Inr (map ?f xs), u)" if "set xs \<subseteq> set (t_objects (db w))" for xs and u :: "('r, 'x) world_scheme"
    using that
  proof (induction xs)
    case (Cons r xs)
    then obtain x where "ob_etag r = FormatUint x" using e by auto
    then have "ParseUint (ob_etag r) = Inr x" using u64.parse_enc by simp
    with Cons show ?case by (simp add: bindE_def liftE_def returnE_def)
  qed (simp add: returnE_def)
  have sub: "set (take (nat (mx + 1)) ?L) \<subseteq> set (t_objects (db w))"
    by (auto simp: listed_def dest!: in_set_takeD in_set_dropD)
  have nf': "\<not> fault env k" for k using nf by (simp add: no_faults_def)
  have "limit_offset (mx + 1) ((page - 1) * mx) (listed b prefix sa (db w)) = take (nat (mx + 1)) ?L"
    using mx by (simp add: limit_offset_def)
  with rows [OF sub] m nf' have "fst (ListObjects env b prefix dl sa page mx w) = Inr (cut_page mx (map ?f (take (nat (mx + 1)) ?L)))"
    by (simp add: ListObjects_def getDB_eq bindE_def query_eq returnE_def listed_def)
  also have "cut_page mx (map ?f (take (nat (mx + 1)) ?L)) = (take (nat mx) (map ?f ?L), mx < int (length ?L))"
    using cut_page_take [OF mx, of "map ?f ?L"] by (simp add: take_map)
  finally show ?thesis by (simp add: row_object_def take_map drop_map comp_def)
qed

section \<open>Deleting a bucket\<close>


section \<open>The properties\<close>



text \<open>C15: What the store records of an object is what it returns: reading back a put object gives the object, chunk by chunk and
  shard by shard, with the time the row was made.\<close>

theorem metadata_roundtrip:
  assumes "no_faults env" and "db_inv (db w)" and "\<forall>c \<in> set (Obj_Chunks ob). normal_chunk env c" and "meta_PutObject env ob w = (Inr (), t)"
  shows "\<exists>ob' n. meta_GetObject env (Obj_Location ob) t = (Inr ob', t\<lparr>tick := n\<rparr>) \<and> ob'\<lparr>LastModified := LastModified ob\<rparr> = ob"
proof -
  note rd = upsertObject_read [OF assms(2) assms(4) [unfolded meta_PutObject_def] assms(3)]
  from rd(1) obtain r where r: "find (\<lambda>x. ob_bucket x = loc_bucket (Obj_Location ob) \<and> ob_key x = Location_Key (Obj_Location ob)) (t_objects (db t)) = Some r"
    "ob_etag r = FormatUint (ETag ob)" "ob_size r = Obj_Size ob" "ob_ctype r = Compression_Type (Obj_Compression ob)"
    "ob_clevel r = Compression_Level (Obj_Compression ob)" by blast
  obtain n where "meta_GetObject env (Obj_Location ob) t = (Inr (row_object (Obj_Location ob) r (Obj_Chunks ob) (ETag ob)), t\<lparr>tick := n\<rparr>)"
    using meta_GetObject_holds [OF assms(1) rd(3) r(1,2) rd(2)] by blast
  moreover have "(row_object (Obj_Location ob) r (Obj_Chunks ob) (ETag ob))\<lparr>LastModified := LastModified ob\<rparr> = ob"
    by (simp add: row_object_def r(3-))
  ultimately show ?thesis by blast
qed

theorem metadata_roundtrip_witness:
  "\<exists>t ob' n. meta_PutObject demo_env \<lparr>Obj_Location = demo_loc, Obj_Size = 7, Obj_Compression = \<lparr>Compression_Type = 1, Compression_Level = 3\<rparr>,
       LastModified = 0, ETag = 11, Obj_Chunks = []\<rparr> demo_object_world = (Inr (), t) \<and>
     meta_GetObject demo_env demo_loc t = (Inr ob', t\<lparr>tick := n\<rparr>) \<and> Obj_Size ob' = 7 \<and> ETag ob' = 11 \<and> Obj_Chunks ob' = []"
proof -
  let ?ob = "\<lparr>Obj_Location = demo_loc, Obj_Size = 7, Obj_Compression = \<lparr>Compression_Type = 1, Compression_Level = 3\<rparr>,
       LastModified = 0, ETag = 11, Obj_Chunks = []\<rparr>"
  have d: "db_inv (db demo_object_world)" "metaDB demo_object_world"
    using demo_object_inv by (simp_all add: sys_inv_def demo_object_world_def demo_full_world_def demo_world_def)
  obtain t where t: "meta_PutObject demo_env ?ob demo_object_world = (Inr (), t)"
    using upsertObject_succeeds [OF demo_no_faults d, of ?ob] by (auto simp: meta_PutObject_def)
  from metadata_roundtrip [OF demo_no_faults d(1) _ t] obtain ob' n where g: "meta_GetObject demo_env demo_loc t = (Inr ob', t\<lparr>tick := n\<rparr>)"
    "ob'\<lparr>LastModified := 0\<rparr> = ?ob" by auto
  have "Obj_Size (ob'\<lparr>LastModified := 0\<rparr>) = 7" "ETag (ob'\<lparr>LastModified := 0\<rparr>) = 11" "Obj_Chunks (ob'\<lparr>LastModified := 0\<rparr>) = []"
    unfolding g(2) by simp_all
  with t g(1) show ?thesis by auto
qed

text \<open>C21: The pages of a listing, asked for one after the other, give the keys of the bucket that match the prefix and come after the
  marker, each once and in increasing order, and the last page is the one that reports no more.\<close>

theorem list_objects_pages:
  assumes "no_faults env" and "metaDB w" and "db_inv (db w)" and "\<forall>r \<in> set (t_objects (db w)). \<exists>x. ob_etag r = FormatUint x" and "0 \<le> mx"
  shows "\<exists>pages. (\<forall>p. fst (ListObjects env b prefix dl sa (int p + 1) mx w)
        = Inr (pages p, int (Suc p) * mx < int (length (listed b prefix sa (db w))))) \<and>
    (\<forall>k. map (\<lambda>ob. Location_Key (Obj_Location ob)) (concat (map pages [0 ..< k]))
        = take (k * nat mx) (map ob_key (listed b prefix sa (db w)))) \<and>
    sorted_wrt (<) (map ob_key (listed b prefix sa (db w)))"
proof -
  let ?L = "listed b prefix sa (db w)"
  have "\<exists>os. fst (ListObjects env b prefix dl sa (int p + 1) mx w) = Inr (os, int (Suc p) * mx < int (length ?L)) \<and>
      map (\<lambda>ob. Location_Key (Obj_Location ob)) os = take (nat mx) (drop (p * nat mx) (map ob_key ?L))" for p
  proof -
    have n: "nat ((int p + 1 - 1) * mx) = p * nat mx" using assms(5) by (simp add: nat_mult_distrib)
    have "mx < int (length (drop (p * nat mx) ?L)) \<longleftrightarrow> int (Suc p) * mx < int (length ?L)"
    proof -
      have "int (p * nat mx) = int p * mx" using assms(5) by simp
      then have "int (length (drop (p * nat mx) ?L)) = max 0 (int (length ?L) - int p * mx)" unfolding length_drop by linarith
      then show ?thesis using assms(5) by (simp add: algebra_simps max_def)
    qed
    with ListObjects_page [OF assms(1,2,4,5), of b prefix dl sa "int p + 1"] show ?thesis unfolding n by simp
  qed
  then obtain pages where p: "fst (ListObjects env b prefix dl sa (int p + 1) mx w) = Inr (pages p, int (Suc p) * mx < int (length ?L))"
      "map (\<lambda>ob. Location_Key (Obj_Location ob)) (pages p) = take (nat mx) (drop (p * nat mx) (map ob_key ?L))" for p by metis
  have "map (\<lambda>ob. Location_Key (Obj_Location ob)) (concat (map pages [0 ..< k])) = take (k * nat mx) (map ob_key ?L)" for k
    by (induction k) (simp_all add: p(2) take_add [symmetric] add.commute)
  with p(1) listed_sorted [OF assms(3)] show ?thesis by blast
qed

theorem list_objects_pages_witness:
  "\<exists>os. fst (ListObjects demo_env (Location_Bucket demo_loc) ''k'' [] [] 1 10 demo_object_world) = Inr (os, False)"
proof -
  have d: "db demo_object_world = demo_object_db" "metaDB demo_object_world" by (simp_all add: demo_object_world_def demo_full_world_def demo_world_def)
  have e: "\<forall>r \<in> set (t_objects (db demo_object_world)). \<exists>x. ob_etag r = FormatUint x" by (simp add: d demo_object_db_def) blast
  have i: "db_inv (db demo_object_world)" using demo_object_inv by (simp add: sys_inv_def)
  have "length (listed (Location_Bucket demo_loc) ''k'' [] (db demo_object_world)) \<le> 1"
    by (simp add: d demo_object_db_def listed_def)
  moreover obtain pages where "\<forall>p. fst (ListObjects demo_env (Location_Bucket demo_loc) ''k'' [] [] (int p + 1) 10 demo_object_world)
      = Inr (pages p, int (Suc p) * 10 < int (length (listed (Location_Bucket demo_loc) ''k'' [] (db demo_object_world))))"
    using list_objects_pages [OF demo_no_faults d(2) i e, of 10 "Location_Bucket demo_loc" "''k''" "[]" "[]"] by auto
  from spec [OF this, of 0] have "fst (ListObjects demo_env (Location_Bucket demo_loc) ''k'' [] [] 1 10 demo_object_world)
      = Inr (pages 0, 10 < int (length (listed (Location_Bucket demo_loc) ''k'' [] (db demo_object_world))))" by simp
  ultimately show ?thesis by simp
qed



text \<open>C26: \<open>GetMultipartUploadByLocation\<close> does not return the identifier of the upload it finds: when that identifier was
  generated for its bucket in the past, the returned one is another.\<close>

theorem upload_by_location_wrong_id:
  assumes "uuid_law env" and "find (\<lambda>r. ul_bucket r = loc_bucket loc \<and> ul_key r = Location_Key loc) (t_uploads (db w)) = Some r"
    and "k < tick w" and "ul_id r = ul_bucket r @ ''-'' @ uuid_new env k" and "GetMultipartUploadByLocation env loc w = (Inr u, t)"
  shows "UploadID u \<noteq> ul_id r \<and> Location_Key (Upload_Location u) = ul_key r"
proof -
  have "ul_bucket r = loc_bucket loc" using assms(2) by (auto simp: find_Some_iff)
  moreover from assms(2,5) have u: "u = row_upload (loc_bucket loc @ ''-'' @ uuid_new env (Suc (tick w))) \<lparr>Bucket_Name = ul_bucket r, CreatedAt = 0\<rparr> r"
    by (auto simp: GetMultipartUploadByLocation_def bindE_eq_Inr_iff getDB_eq query_row_def query_eq generateUploadID_def uuid_New_eq loc_bucket_def
        split: if_splits option.splits)
  ultimately show ?thesis using assms(1,3,4) by (auto simp: row_upload_def uuid_new_inject)
qed

theorem upload_by_location_wrong_id_witness:
  "\<exists>u t w. CreateMultipartUpload demo_env demo_loc demo_world = (Inr u, w) \<and>
     (\<exists>u'. GetMultipartUploadByLocation demo_env demo_loc w = (Inr u', t) \<and> UploadID u' \<noteq> UploadID u)"
proof -
  have nf: "\<not> fault demo_env k" for k using demo_no_faults by (simp add: no_faults_def)
  let ?i = "loc_bucket demo_loc @ ''-'' @ uuid_new demo_env 0"
  have uu: "uuid_law demo_env" using demo_lawful by (simp add: lawful_def)
  have d: "db demo_world = empty_db" "metaDB demo_world" "tick demo_world = 0" by (simp_all add: demo_world_def)
  obtain u w now c l where c: "CreateMultipartUpload demo_env demo_loc demo_world = (Inr u, w)" and id: "UploadID u = ?i"
    and w: "t_uploads (db w) = [\<lparr>ul_id = ?i, ul_bucket = loc_bucket demo_loc, ul_key = Location_Key demo_loc, ul_ctype = c, ul_clevel = l, ul_initiated = now\<rparr>]"
      "metaDB w" "0 < tick w"
    by (simp add: CreateMultipartUpload_def meta_CreateMultipartUpload_def getDB_eq d generateUploadID_def uuid_New_eq time_Now_eq transaction_def ext_call_eq nf
        exec_eq insert_or_ignore_bucket_def insert_bucket_def insert_upload_def empty_db_def bindE_def returnE_def GetCurrentTime_eq loc_bucket_def)
  let ?r = "\<lparr>ul_id = ?i, ul_bucket = loc_bucket demo_loc, ul_key = Location_Key demo_loc, ul_ctype = c, ul_clevel = l, ul_initiated = now\<rparr>"
  have f: "find (\<lambda>r. ul_bucket r = loc_bucket demo_loc \<and> ul_key r = Location_Key demo_loc) (t_uploads (db w)) = Some ?r" by (simp add: w)
  obtain u' t where g: "GetMultipartUploadByLocation demo_env demo_loc w = (Inr u', t)"
    using f w(2) nf by (simp add: GetMultipartUploadByLocation_def getDB_eq query_row_def query_eq generateUploadID_def uuid_New_eq bindE_def returnE_def)
  from upload_by_location_wrong_id [OF uu f w(3) _ g] id c g show ?thesis by auto
qed

end
