(* ===== verification/Multipart_Laws.thy ===== *)
theory Multipart_Laws
  imports Manager_Laws
begin

text \<open>
  Multipart uploads are correct: a part that was uploaded is held by the tables until it is replaced, and completing
  an upload makes an object of its parts, in the order of their numbers, without moving a blob.
\<close>

section \<open>Storing a part\<close>

abbreviation of_part :: "string \<Rightarrow> int \<Rightarrow> chunk_row \<Rightarrow> bool" where
  "of_part i n c \<equiv> ch_upload c = Some i \<and> ch_part c = Some n"

text \<open>Shards of a chunk that stays are kept when other chunks are deleted and new ones inserted.\<close>

lemma kept_shards:
  assumes uniq: "distinct (map ch_id (t_chunks d))" and c: "c \<in> set (t_chunks d)" "\<not> P c" and ids: "Chunk_Id ` set cs \<inter> ch_id ` set (t_chunks (delete_chunks P d)) = {}"
  shows "filter (\<lambda>s. sh_chunk s = ch_id c) (t_shards (delete_chunks P d) @ shard_rows cs nows) = filter (\<lambda>s. sh_chunk s = ch_id c) (t_shards d)"
proof -
  have keep: "ch_id c \<notin> ch_id ` set (filter P (t_chunks d))" using c uniq by (auto simp: distinct_map inj_on_def)
  have "c \<in> set (t_chunks (delete_chunks P d))" using c by (simp add: delete_chunks_def)
  then have "ch_id c \<notin> Chunk_Id ` set cs" using ids by blast
  then have "filter (\<lambda>s. sh_chunk s = ch_id c) (shard_rows cs nows) = []"
    by (force simp: shard_rows_def filter_empty_conv shard_to_row_def dest!: set_zip_leftD)
  moreover have "filter (\<lambda>s. sh_chunk s = ch_id c) (filter (\<lambda>s. sh_chunk s \<notin> ch_id ` set (filter P (t_chunks d))) xs)
      = filter (\<lambda>s. sh_chunk s = ch_id c) xs" for xs using keep by (induction xs) auto
  ultimately show ?thesis by (simp add: delete_chunks_def)
qed

lemma chunk_ids: "db_inv d \<Longrightarrow> distinct (map ch_id (t_chunks d))"
  by (simp add: db_inv_def keys_unique_def)

lemma holds_chunks_cong:
  "(\<And>r. r \<in> set rows \<Longrightarrow> filter (\<lambda>s. sh_chunk s = ch_id r) (t_shards d') = filter (\<lambda>s. sh_chunk s = ch_id r) (t_shards d)) \<Longrightarrow>
    holds_chunks env d rows cs \<Longrightarrow> holds_chunks env d' rows cs"
  by (auto simp: holds_chunks_def list_all2_conv_all_nth)

lemma upsert_part_Inr:
  assumes "upsert_part p d = Inr ((), d')"
  shows "t_chunks d' = t_chunks d" "t_shards d' = t_shards d" "kms_keys d' = kms_keys d" "t_uploads d' = t_uploads d"
    and "t_objects d' = t_objects d" and "part_keys d' = insert (pa_upload p, pa_number p) (part_keys d)"
    and "find (\<lambda>x. pa_upload x = pa_upload p \<and> pa_number x = pa_number p) (t_parts d') = Some p"
    and "(i, n) \<noteq> (pa_upload p, pa_number p) \<Longrightarrow>
      find (\<lambda>x. pa_upload x = i \<and> pa_number x = n) (t_parts d') = find (\<lambda>x. pa_upload x = i \<and> pa_number x = n) (t_parts d)"
proof -
  let ?f = "\<lambda>x. if (pa_upload x, pa_number x) = (pa_upload p, pa_number p) then p else x"
  have 1: "find (\<lambda>x. pa_upload x = pa_upload p \<and> pa_number x = pa_number p) (map ?f xs) = Some p"
    if "(pa_upload p, pa_number p) \<in> (\<lambda>x. (pa_upload x, pa_number x)) ` set xs" for xs
    using that by (induction xs) auto
  have 2: "find (\<lambda>x. pa_upload x = pa_upload p \<and> pa_number x = pa_number p) (xs @ [p]) = Some p"
    if "(pa_upload p, pa_number p) \<notin> (\<lambda>x. (pa_upload x, pa_number x)) ` set xs" for xs
    using that by (induction xs) auto
  show "find (\<lambda>x. pa_upload x = pa_upload p \<and> pa_number x = pa_number p) (t_parts d') = Some p"
    using assms 1 [of "t_parts d"] 2 [of "t_parts d"] by (auto simp: upsert_part_def split: if_splits)
  show "t_chunks d' = t_chunks d" "t_shards d' = t_shards d" "kms_keys d' = kms_keys d" "t_uploads d' = t_uploads d"
    "t_objects d' = t_objects d"
    using assms by (auto simp: upsert_part_def split: if_splits)
  have "(pa_upload (?f x), pa_number (?f x)) = (pa_upload x, pa_number x)" for x by simp
  then have "(\<lambda>x. (pa_upload x, pa_number x)) ` set (map ?f xs) = (\<lambda>x. (pa_upload x, pa_number x)) ` set xs" for xs
    unfolding set_map image_image by (intro image_cong) simp_all
  then show "part_keys d' = insert (pa_upload p, pa_number p) (part_keys d)"
    using assms by (auto simp: upsert_part_def split: if_splits)
  assume ne: "(i, n) \<noteq> (pa_upload p, pa_number p)"
  have "find (\<lambda>x. pa_upload x = i \<and> pa_number x = n) (map ?f xs) = find (\<lambda>x. pa_upload x = i \<and> pa_number x = n) xs"
    "find (\<lambda>x. pa_upload x = i \<and> pa_number x = n) (xs @ [p]) = find (\<lambda>x. pa_upload x = i \<and> pa_number x = n) xs" for xs
    using ne by (induction xs) auto
  with assms show "find (\<lambda>x. pa_upload x = i \<and> pa_number x = n) (t_parts d') = find (\<lambda>x. pa_upload x = i \<and> pa_number x = n) (t_parts d)"
    by (auto simp: upsert_part_def split: if_splits)
qed

lemma GetMultipartUpload_Inr:
  "GetMultipartUpload env i w = (Inr up, t) \<longleftrightarrow> metaDB w \<and> \<not> fault env (tick w) \<and> t = w\<lparr>tick := Suc (tick w)\<rparr> \<and>
     (\<exists>u. find (\<lambda>r. ul_id r = i) (t_uploads (db w)) = Some u \<and> up = row_upload i \<lparr>Bucket_Name = ul_bucket u, CreatedAt = 0\<rparr> u)"
  by (auto simp: GetMultipartUpload_def bindE_eq_Inr_iff getDB_eq query_row_def query_eq split: option.splits if_splits)

text \<open>The database after a part is stored: \<open>d1\<close> has the new row of the part.\<close>

lemma PutPart_steps:
  assumes p: "PutPart env part w = (Inr (), t)"
  obtains u now d1 nows where "metaDB w" "find (\<lambda>r. ul_id r = Part_UploadID part) (t_uploads (db w)) = Some u"
    "upsert_part \<lparr>pa_upload = Part_UploadID part, pa_number = PartNumber part, pa_etag = FormatUint (Part_ETag part),
       pa_size = Part_Size part, pa_created = now\<rparr> (delete_chunks (of_part (Part_UploadID part) (PartNumber part)) (db w)) = Inr ((), d1)"
    "length nows = length (Part_Chunks part)" "distinct (map Chunk_Id (Part_Chunks part))"
    "Chunk_Id ` set (Part_Chunks part) \<inter> ch_id ` set (t_chunks (delete_chunks (of_part (Part_UploadID part) (PartNumber part)) (db w))) = {}"
    "db t = d1\<lparr>t_chunks := t_chunks d1 @ chunk_rows (ul_bucket u) None (Some (Part_UploadID part)) (Some (PartNumber part)) 0 (Part_Chunks part),
       t_shards := t_shards d1 @ shard_rows (Part_Chunks part) nows\<rparr>"
proof -
  let ?i = "Part_UploadID part" and ?n = "PartNumber part"
  let ?row = "\<lambda>now. \<lparr>pa_upload = ?i, pa_number = ?n, pa_etag = FormatUint (Part_ETag part), pa_size = Part_Size part, pa_created = now\<rparr>"
  from p obtain u now w1 w2 w3 w4 where m: "metaDB w" "find (\<lambda>r. ul_id r = ?i) (t_uploads (db w)) = Some u"
    and 1: "exec env (\<lambda>d. Inr ((), delete_chunks (of_part ?i ?n) d)) w1 = (Inr (), w2)" "db w1 = db w"
    and 2: "exec env (upsert_part (?row now)) (w2\<lparr>tick := Suc (tick w2)\<rparr>) = (Inr (), w3)"
    and 3: "insertPartChunks env (ul_bucket u) ?i ?n (Part_Chunks part) w3 = (Inr (), w4)" and t: "t = w4\<lparr>tick := Suc (tick w4)\<rparr>"
    by (auto simp: PutPart_def Let_def bindE_eq_Inr_iff getDB_eq GetMultipartUpload_Inr transaction_Inr time_Now_eq row_upload_def loc_bucket_def
        split: if_splits)
  have d2: "db w2 = delete_chunks (of_part ?i ?n) (db w)" using 1 by (auto simp: exec_Inr)
  have d3: "upsert_part (?row now) (delete_chunks (of_part ?i ?n) (db w)) = Inr ((), db w3)" using 2 d2 by (auto simp: exec_Inr)
  from insert_chunks_Inr [OF 3 [unfolded insertPartChunks_def]] obtain nows where
    "distinct (map Chunk_Id (Part_Chunks part))" "Chunk_Id ` set (Part_Chunks part) \<inter> ch_id ` set (t_chunks (db w3)) = {}"
    "length nows = length (Part_Chunks part)"
    "db w4 = (db w3)\<lparr>t_chunks := t_chunks (db w3) @ chunk_rows (ul_bucket u) None (Some ?i) (Some ?n) 0 (Part_Chunks part),
       t_shards := t_shards (db w3) @ shard_rows (Part_Chunks part) nows\<rparr>" by blast
  with m d3 t upsert_part_Inr(1) [OF d3] show thesis by (intro that [of u now "db w3" nows]) simp_all
qed

lemma part_rows_owner:
  "filter (of_part i' n') (chunk_rows b None (Some i) (Some n) k cs) = (if (i', n') = (i, n) then chunk_rows b None (Some i) (Some n) k cs else [])"
  by (auto simp: chunk_rows_def chunk_to_row_def filter_id_conv filter_empty_conv)

lemma filter_other_part:
  "(i', n') \<noteq> (i, n) \<Longrightarrow> filter (of_part i' n') (filter (\<lambda>c. \<not> of_part i n c) xs) = filter (of_part i' n') xs"
  by (induction xs) auto

lemma PutPart_read:
  assumes inv: "db_inv (db w)" and p: "PutPart env part w = (Inr (), t)" and norm: "\<forall>c \<in> set (Part_Chunks part). normal_chunk env c"
  shows "\<exists>u now. find (\<lambda>r. ul_id r = Part_UploadID part) (t_uploads (db w)) = Some u \<and>
      find (\<lambda>x. pa_upload x = Part_UploadID part \<and> pa_number x = PartNumber part) (t_parts (db t)) =
        Some \<lparr>pa_upload = Part_UploadID part, pa_number = PartNumber part, pa_etag = FormatUint (Part_ETag part),
          pa_size = Part_Size part, pa_created = now\<rparr> \<and>
      (\<forall>c \<in> set (part_chunk_rows (Part_UploadID part) (PartNumber part) (db t)). ch_bucket c = ul_bucket u)"
    and "holds_chunks env (db t) (part_chunk_rows (Part_UploadID part) (PartNumber part) (db t)) (Part_Chunks part)"
    and "(i, n) \<noteq> (Part_UploadID part, PartNumber part) \<Longrightarrow>
      find (\<lambda>x. pa_upload x = i \<and> pa_number x = n) (t_parts (db t)) = find (\<lambda>x. pa_upload x = i \<and> pa_number x = n) (t_parts (db w)) \<and>
      part_chunk_rows i n (db t) = part_chunk_rows i n (db w) \<and>
      (holds_chunks env (db w) (part_chunk_rows i n (db w)) cs \<longrightarrow> holds_chunks env (db t) (part_chunk_rows i n (db t)) cs)"
    and "metaDB t" and "kms_keys (db t) = kms_keys (db w)" and "t_uploads (db t) = t_uploads (db w)"
    and "part_keys (db t) = insert (Part_UploadID part, PartNumber part) (part_keys (db w))"
proof -
  let ?i = "Part_UploadID part" and ?n = "PartNumber part" and ?cs = "Part_Chunks part"
  obtain u now d1 nows where u: "metaDB w" "find (\<lambda>r. ul_id r = ?i) (t_uploads (db w)) = Some u"
    and d1: "upsert_part \<lparr>pa_upload = ?i, pa_number = ?n, pa_etag = FormatUint (Part_ETag part), pa_size = Part_Size part, pa_created = now\<rparr>
      (delete_chunks (of_part ?i ?n) (db w)) = Inr ((), d1)"
    and ids: "length nows = length ?cs" "distinct (map Chunk_Id ?cs)"
      "Chunk_Id ` set ?cs \<inter> ch_id ` set (t_chunks (delete_chunks (of_part ?i ?n) (db w))) = {}"
    and t: "db t = d1\<lparr>t_chunks := t_chunks d1 @ chunk_rows (ul_bucket u) None (Some ?i) (Some ?n) 0 ?cs,
       t_shards := t_shards d1 @ shard_rows ?cs nows\<rparr>"
    by (rule PutPart_steps [OF p])
  note e = upsert_part_Inr [OF d1, simplified]
  let ?rows = "chunk_rows (ul_bucket u) None (Some ?i) (Some ?n) 0 ?cs"
  have ch: "t_chunks (db t) = t_chunks (delete_chunks (of_part ?i ?n) (db w)) @ ?rows"
    and sh: "t_shards (db t) = t_shards (delete_chunks (of_part ?i ?n) (db w)) @ shard_rows ?cs nows"
    and tb: "t_parts (db t) = t_parts d1" "t_uploads (db t) = t_uploads d1" "kms_keys (db t) = kms_keys d1"
    unfolding t using e(1,2) by simp_all
  have del: "t_parts (delete_chunks P d) = t_parts d" "t_uploads (delete_chunks P d) = t_uploads d" "kms_keys (delete_chunks P d) = kms_keys d"
    for P d by (simp_all add: delete_chunks_def)
  show "metaDB t" using keepsD [OF PutPart_frames(2) p] u(1) by (simp add: store_same_def)
  show "kms_keys (db t) = kms_keys (db w)" "t_uploads (db t) = t_uploads (db w)" using e(3,4) tb del by simp_all
  show "part_keys (db t) = insert (?i, ?n) (part_keys (db w))" using e(6) tb del by simp
  have "filter (of_part ?i ?n) (t_chunks (db t)) = ?rows"
    unfolding ch by (simp add: part_rows_owner delete_chunks_def)
  then have rows: "part_chunk_rows ?i ?n (db t) = ?rows"
    unfolding part_chunk_rows_def by (simp add: sort_key_id_if_sorted chunk_rows_sorted)
  have "ch_bucket c = ul_bucket u" if "c \<in> set ?rows" for c using that by (auto simp: chunk_rows_def chunk_to_row_def)
  with e(7) tb u(2) rows show "\<exists>u now. find (\<lambda>r. ul_id r = ?i) (t_uploads (db w)) = Some u \<and>
      find (\<lambda>x. pa_upload x = ?i \<and> pa_number x = ?n) (t_parts (db t)) =
        Some \<lparr>pa_upload = ?i, pa_number = ?n, pa_etag = FormatUint (Part_ETag part), pa_size = Part_Size part, pa_created = now\<rparr> \<and>
      (\<forall>c \<in> set (part_chunk_rows ?i ?n (db t)). ch_bucket c = ul_bucket u)" by auto
  have "refs_ok (delete_chunks (of_part ?i ?n) (db w))" using delete_chunks_ok [OF inv] by (simp add: db_inv_def)
  from inserted_holds [OF this ids(2,3,1) norm sh]
  show "holds_chunks env (db t) (part_chunk_rows ?i ?n (db t)) ?cs" unfolding rows .
  assume ne: "(i, n) \<noteq> (?i, ?n)"
  have "filter (of_part i n) (t_chunks (db t)) = filter (of_part i n) (t_chunks (db w))"
    unfolding ch using ne filter_other_part [OF ne] by (auto simp: part_rows_owner delete_chunks_def)
  then have same: "part_chunk_rows i n (db t) = part_chunk_rows i n (db w)" by (simp add: part_chunk_rows_def)
  have "filter (\<lambda>s. sh_chunk s = ch_id c) (t_shards (db t)) = filter (\<lambda>s. sh_chunk s = ch_id c) (t_shards (db w))"
    if "c \<in> set (part_chunk_rows i n (db w))" for c
  proof -
    from that ne have "c \<in> set (t_chunks (db w))" "\<not> of_part ?i ?n c" by (auto simp: part_chunk_rows_def)
    from kept_shards [OF chunk_ids [OF inv] this ids(3)] show ?thesis unfolding sh .
  qed
  then have "holds_chunks env (db w) (part_chunk_rows i n (db w)) cs \<longrightarrow> holds_chunks env (db t) (part_chunk_rows i n (db t)) cs"
    unfolding same using holds_chunks_cong by blast
  moreover have "find (\<lambda>x. pa_upload x = i \<and> pa_number x = n) (t_parts d1) = find (\<lambda>x. pa_upload x = i \<and> pa_number x = n) (t_parts (db w))"
    using e(8) [of i n] ne del by simp
  ultimately show "find (\<lambda>x. pa_upload x = i \<and> pa_number x = n) (t_parts (db t)) =
      find (\<lambda>x. pa_upload x = i \<and> pa_number x = n) (t_parts (db w)) \<and>
      part_chunk_rows i n (db t) = part_chunk_rows i n (db w) \<and>
      (holds_chunks env (db w) (part_chunk_rows i n (db w)) cs \<longrightarrow> holds_chunks env (db t) (part_chunk_rows i n (db t)) cs)" using same tb by simp
qed

lemma PutPart_chunks:
  assumes "PutPart env part w = (Inr (), t)" and "x \<in> set (t_chunks (db t))"
  shows "x \<in> set (t_chunks (db w)) \<or> ch_id x \<in> Chunk_Id ` set (Part_Chunks part)"
proof -
  let ?i = "Part_UploadID part" and ?n = "PartNumber part" and ?cs = "Part_Chunks part"
  obtain u now d1 nows where "metaDB w" "find (\<lambda>r. ul_id r = ?i) (t_uploads (db w)) = Some u"
    and d1: "upsert_part \<lparr>pa_upload = ?i, pa_number = ?n, pa_etag = FormatUint (Part_ETag part), pa_size = Part_Size part, pa_created = now\<rparr>
      (delete_chunks (of_part ?i ?n) (db w)) = Inr ((), d1)"
    and "length nows = length ?cs" "distinct (map Chunk_Id ?cs)"
      "Chunk_Id ` set ?cs \<inter> ch_id ` set (t_chunks (delete_chunks (of_part ?i ?n) (db w))) = {}"
    and t: "db t = d1\<lparr>t_chunks := t_chunks d1 @ chunk_rows (ul_bucket u) None (Some ?i) (Some ?n) 0 ?cs,
       t_shards := t_shards d1 @ shard_rows ?cs nows\<rparr>"
    by (rule PutPart_steps [OF assms(1)])
  have "ch_id r \<in> Chunk_Id ` set cs" if "r \<in> set (chunk_rows b k u n i cs)" for r b k u n i cs
    using that chunk_rows_ids [of b k u n i cs] by blast
  with assms(2) t upsert_part_Inr(1) [OF d1] show ?thesis by (auto simp: delete_chunks_def)
qed

section \<open>What an upload is\<close>

text \<open>The data of a part, held by the tables and the backends.\<close>

definition part_in :: "'r env \<Rightarrow> BackendType list \<Rightarrow> ('r, 'x) world_scheme \<Rightarrow> string \<Rightarrow> string \<Rightarrow> int \<Rightarrow> bytes \<Rightarrow> bool" where
  "part_in env bs w i b n data \<longleftrightarrow> (\<exists>r ps cs. find (\<lambda>x. pa_upload x = i \<and> pa_number x = n) (t_parts (db w)) = Some r \<and>
     pa_etag r = FormatUint (xxhash64 env data) \<and> pa_size r = int (length data) \<and>
     (\<forall>c \<in> set (part_chunk_rows i n (db w)). ch_bucket c = b) \<and> holds_chunks env (db w) (part_chunk_rows i n (db w)) cs \<and>
     concat ps = data \<and> list_all2 (chunk_stored env bs (configured_compression env) w) ps cs)"

text \<open>An upload and the data of its parts by number.\<close>

definition upload_in :: "'r env \<Rightarrow> BackendType list \<Rightarrow> ('r, 'x) world_scheme \<Rightarrow> string \<Rightarrow> ObjectLocation \<Rightarrow> (int \<rightharpoonup> bytes) \<Rightarrow> bool" where
  "upload_in env bs w i loc m \<longleftrightarrow> metaDB w \<and>
     (\<exists>u. find (\<lambda>r. ul_id r = i) (t_uploads (db w)) = Some u \<and> ul_bucket u = loc_bucket loc \<and> ul_key u = Location_Key loc \<and>
        ul_ctype u = Compression_Type (configured_compression env) \<and> ul_clevel u = Compression_Level (configured_compression env)) \<and>
     (\<forall>n. (i, n) \<in> part_keys (db w) \<longleftrightarrow> n \<in> dom m) \<and> (\<forall>n data. m n = Some data \<longrightarrow> part_in env bs w i (loc_bucket loc) n data)"

lemma part_in_stable:
  assumes ok: "iface_ok env w" "db_inv (db w)" and s: "stable env w w'" and p: "part_in env bs w i b n data"
    and same: "find (\<lambda>x. pa_upload x = i \<and> pa_number x = n) (t_parts (db w')) = find (\<lambda>x. pa_upload x = i \<and> pa_number x = n) (t_parts (db w))"
      "part_chunk_rows i n (db w') = part_chunk_rows i n (db w)"
      "\<And>cs. holds_chunks env (db w) (part_chunk_rows i n (db w)) cs \<Longrightarrow> holds_chunks env (db w') (part_chunk_rows i n (db w')) cs"
  shows "part_in env bs w' i b n data"
proof -
  from p obtain r ps cs where r: "find (\<lambda>x. pa_upload x = i \<and> pa_number x = n) (t_parts (db w)) = Some r"
    "pa_etag r = FormatUint (xxhash64 env data)" "pa_size r = int (length data)"
    "\<forall>c \<in> set (part_chunk_rows i n (db w)). ch_bucket c = b" "holds_chunks env (db w) (part_chunk_rows i n (db w)) cs"
    and ps: "concat ps = data" "list_all2 (chunk_stored env bs (configured_compression env) w) ps cs" unfolding part_in_def by blast
  have "list_all2 (chunk_stored env bs (configured_compression env) w') ps cs"
    using ps(2) chunk_stored_from [OF stab.reflR ok s] by (auto elim!: list_all2_mono)
  with r same ps(1) show ?thesis unfolding part_in_def by metis
qed

lemma PutPart_stable:
  assumes p: "PutPart env part w = (Inr (), t)" and n: "\<forall>c \<in> set (Part_Chunks part). normal_chunk env c"
  shows "stable env w t"
proof (rule store_same_stable [OF keepsD [OF PutPart_frames(2) p]])
  assume inv: "db_inv (db w)"
  moreover have "db_inv (db t)" using keepsD [OF PutPart_frames(1) p] inv by (simp add: db_step_def)
  ultimately show "db_inv (db t) \<and> (\<forall>k r. live_key k (db w) = Some r \<longrightarrow> live_key k (db t) = Some r)"
    using PutPart_read(5) [OF inv p n] by (simp add: live_key_def)
qed

lemma UploadPartStream_in:
  fixes w :: "('r, 'x) world_scheme"
  assumes hyp: "rs_law env" "crypto_law env" "iface_ok env w" "db_inv (db w)" "distinct (availableBackends w)" "0 < ChunkSize (Cfg env)"
    and up: "upload_in env (availableBackends w) w i loc m" and p: "UploadPartStream env loc' n i r w = (Inr part, t)"
  shows "upload_in env (availableBackends w) t i loc (m(n \<mapsto> rd_data r)) \<and> stable env w t \<and>
    Part_ETag part = xxhash64 env (rd_data r) \<and> Part_Size part = int (length (rd_data r))"
proof -
  let ?cmp = "configured_compression env" and ?bs = "availableBackends w"
  from p obtain ty cs len h w1 where
    c: "ChunkStream env r ty ?cmp ?bs (ChunkConcurrency (Cfg env)) (w\<lparr>tick := Suc (tick w)\<rparr>) = (Inr (cs, len, h), w1)"
    and part: "part = \<lparr>Part_UploadID = i, PartNumber = n, Part_ETag = h, Part_Size = len, Part_CreatedAt = now_at env (tick w1), Part_Chunks = cs\<rparr>"
    and u: "PutPart env part (w1\<lparr>tick := Suc (tick w1)\<rparr>) = (Inr (), t)"
    by (auto simp: UploadPartStream_def bindE_eq_Inr_iff GetAvailableBackends_def GetCurrentTime_eq GetMultipartUpload_Inr row_upload_def Let_def)
  let ?w0 = "w\<lparr>tick := Suc (tick w)\<rparr>" and ?w2 = "w1\<lparr>tick := Suc (tick w1)\<rparr>"
  have s0: "stable env w ?w0" by (rule tick_stable)
  have ok0: "iface_ok env ?w0" "db_inv (db ?w0)" using hyp(3,4) s0 iface.grows_ok by (auto simp: stable_def)
  note cs = ChunkStream_Inr [OF hyp(1,2) ok0 hyp(5,6) c]
  have norm: "\<forall>c \<in> set (Part_Chunks part). normal_chunk env c" using cs(6) part by (simp add: made_def)
  have s2: "stable env ?w0 ?w2" by (rule stab.transR [OF cs(4) tick_stable])
  have ok2: "iface_ok env ?w2" "db_inv (db ?w2)" using ok0 s2 iface.grows_ok by (auto simp: stable_def)
  have s3: "stable env ?w2 t" by (rule PutPart_stable [OF u norm])
  have s: "stable env w ?w2" "stable env w t" using stab.transR [OF s0 s2] stab.transR [OF stab.transR [OF s0 s2] s3] .
  have tb: "same_tables w ?w2" using keepsD [OF ChunkStream_tables c] by (simp add: same_tables_def)
  note rd = PutPart_read [OF ok2(2) u norm]
  have f: "Part_UploadID part = i" "PartNumber part = n" "Part_Chunks part = cs" using part by simp_all
  have bk: "Part_ETag part = xxhash64 env (rd_data r)" "Part_Size part = int (length (rd_data r))" using part cs(2,3) by simp_all
  obtain u where u: "find (\<lambda>r. ul_id r = i) (t_uploads (db w)) = Some u" "ul_bucket u = loc_bucket loc" using up unfolding upload_in_def by blast
  have "part_in env ?bs t i (loc_bucket loc) n (rd_data r)"
  proof -
    have "list_all2 (chunk_stored env ?bs ?cmp t) (pieces (nat (ChunkSize (Cfg env))) (rd_data r)) cs"
      using cs(5) chunk_stored_from [OF cs(4) ok0 stab.transR [OF tick_stable s3]] by (auto elim!: list_all2_mono)
    moreover have "concat (pieces (nat (ChunkSize (Cfg env))) (rd_data r)) = rd_data r" using hyp(6) by (simp add: concat_pieces)
    moreover have "find (\<lambda>r. ul_id r = i) (t_uploads (db ?w2)) = Some u" using u(1) tb by (simp add: same_tables_def)
    ultimately show ?thesis using rd(1,2) u(2) unfolding part_in_def f bk by fastforce
  qed
  moreover have "part_in env ?bs t i (loc_bucket loc) n' data" if "n' \<noteq> n" "m n' = Some data" for n' data
  proof -
    have p2: "part_in env ?bs ?w2 i (loc_bucket loc) n' data"
      by (rule part_in_stable [OF hyp(3,4) s(1)]) (use up that tb in \<open>auto simp: upload_in_def same_tables_def part_chunk_rows_def holds_chunks_def\<close>)
    have "(i, n') \<noteq> (Part_UploadID part, PartNumber part)" using that(1) f by simp
    note other = rd(3) [OF this]
    show ?thesis
      by (rule part_in_stable [OF ok2 s3 p2]) (rule conjunct1 [OF other], rule conjunct1 [OF conjunct2 [OF other]],
        rule mp [OF conjunct2 [OF conjunct2 [OF other]]])
  qed
  ultimately have parts: "part_in env ?bs t i (loc_bucket loc) n' data" if "(m(n \<mapsto> rd_data r)) n' = Some data" for n' data
    using that by (cases "n' = n") auto
  have keys: "(i, n') \<in> part_keys (db t) \<longleftrightarrow> n' \<in> dom (m(n \<mapsto> rd_data r))" for n'
    using up tb unfolding rd(7) f by (auto simp: upload_in_def same_tables_def)
  have ul: "t_uploads (db t) = t_uploads (db w)" using rd(6) tb by (simp add: same_tables_def)
  have "upload_in env ?bs t i loc (m(n \<mapsto> rd_data r))"
    unfolding upload_in_def ul using up [unfolded upload_in_def] rd(4) keys parts by blast
  with s(2) bk show ?thesis by blast
qed

section \<open>Opening an upload\<close>

lemma insert_upload_Inr:
  assumes "insert_upload u d = Inr ((), d')"
  shows "ul_id u \<notin> ul_id ` set (t_uploads d)" "d' = d\<lparr>t_uploads := t_uploads d @ [u]\<rparr>"
    "find (\<lambda>r. ul_id r = ul_id u) (t_uploads d') = Some u"
proof -
  have "find (\<lambda>r. ul_id r = ul_id u) (xs @ [u]) = Some u" if "ul_id u \<notin> ul_id ` set xs" for xs
    using that by (induction xs) auto
  with assms show "ul_id u \<notin> ul_id ` set (t_uploads d)" "d' = d\<lparr>t_uploads := t_uploads d @ [u]\<rparr>"
    "find (\<lambda>r. ul_id r = ul_id u) (t_uploads d') = Some u"
    by (auto simp: insert_upload_def split: if_splits)
qed

lemma CreateMultipartUpload_in:
  assumes inv: "db_inv (db w)" and p: "CreateMultipartUpload env loc w = (Inr up, t)"
  shows "upload_in env bs t (UploadID up) loc Map.empty \<and> stable env w t"
proof -
  from p obtain now i n n' w2 w3 where m: "metaDB w" and up: "UploadID up = i"
    and 1: "exec env (insert_or_ignore_bucket (loc_bucket loc) now) (w\<lparr>tick := n\<rparr>) = (Inr (), w2)"
    and 2: "exec env (insert_upload \<lparr>ul_id = i, ul_bucket = loc_bucket loc, ul_key = Location_Key loc,
        ul_ctype = Compression_Type (configured_compression env), ul_clevel = Compression_Level (configured_compression env), ul_initiated = now\<rparr>) w2 = (Inr (), w3)"
    and w3: "t = w3\<lparr>tick := n'\<rparr>"
    by (auto simp: CreateMultipartUpload_def meta_CreateMultipartUpload_def generateUploadID_def Let_def bindE_eq_Inr_iff getDB_eq transaction_Inr
        time_Now_eq uuid_New_eq GetCurrentTime_eq split: if_splits)
  have t: "db t = db w3" using w3 by simp
  let ?u = "\<lparr>ul_id = i, ul_bucket = loc_bucket loc, ul_key = Location_Key loc,
        ul_ctype = Compression_Type (configured_compression env), ul_clevel = Compression_Level (configured_compression env), ul_initiated = now\<rparr>"
  have d2: "insert_or_ignore_bucket (loc_bucket loc) now (db w) = Inr ((), db w2)" using 1 by (auto simp: exec_Inr)
  have d3: "insert_upload ?u (db w2) = Inr ((), db w3)" using 2 by (auto simp: exec_Inr)
  note e2 = insert_or_ignore_Inr [OF d2] and e3 = insert_upload_Inr [OF d3, simplified]
  have k: "kms_keys (db t) = kms_keys (db w)" using e2(3) arg_cong [OF e3(2), of kms_keys] t by simp
  have fr: "keeps db_step (CreateMultipartUpload env loc)" "keeps store_same (CreateMultipartUpload env loc)"
    unfolding CreateMultipartUpload_def GetCurrentTime_def by (intro meta_frames upload_frames)+
  have s: "stable env w t"
    by (rule store_same_stable [OF keepsD [OF fr(2) p]]) (use keepsD [OF fr(1) p] k in \<open>simp add: db_step_def live_key_def\<close>)
  have "(i, n) \<notin> part_keys (db t)" for n
  proof -
    have "db_inv (db w2)" using insert_or_ignore_bucket_ok inv d2 unfolding stmt_ok_def by blast
    then have "\<forall>p \<in> set (t_parts (db w2)). pa_upload p \<noteq> i" using e3(1) unfolding db_inv_def refs_ok_def by auto
    moreover have "t_parts (db t) = t_parts (db w2)" using arg_cong [OF e3(2), of t_parts] t by simp
    ultimately show ?thesis by auto
  qed
  moreover have "metaDB t" using keepsD [OF fr(2) p] m by (simp add: store_same_def)
  ultimately have "upload_in env bs t i loc Map.empty" using e3(3) unfolding upload_in_def t by simp
  with s up show ?thesis by simp
qed

section \<open>Reassigning chunks\<close>

text \<open>What a chunk row becomes when the chunks with the identifiers \<open>is\<close> get the ordinals from \<open>j\<close> on.\<close>

fun reassigned :: "string \<Rightarrow> nat \<Rightarrow> string list \<Rightarrow> chunk_row \<Rightarrow> chunk_row" where
  "reassigned k j [] c = c"
| "reassigned k j (i # is) c = reassigned k (Suc j) is
     (if ch_id c = i then c\<lparr>ch_key := Some k, ch_upload := None, ch_part := None, ch_ordinal := int j\<rparr> else c)"

lemma reassigned_id [simp]: "ch_id (reassigned k j is c) = ch_id c" "ch_bucket (reassigned k j is c) = ch_bucket c"
  by (induction "is" arbitrary: j c) auto

lemma reassigned_other: "ch_id c \<notin> set is \<Longrightarrow> reassigned k j is c = c"
  by (induction "is" arbitrary: j c) auto

lemma reassigned_nth:
  "distinct is \<Longrightarrow> p < length is \<Longrightarrow> ch_id c = is ! p \<Longrightarrow>
     reassigned k j is c = c\<lparr>ch_key := Some k, ch_upload := None, ch_part := None, ch_ordinal := int (j + p)\<rparr>"
proof (induction "is" arbitrary: j p)
  case (Cons i "is")
  show ?case
  proof (cases p)
    case 0
    with Cons.prems show ?thesis by (simp add: reassigned_other)
  next
    case (Suc q)
    with Cons.prems have "ch_id c \<noteq> i" by auto
    with Suc Cons show ?thesis by simp
  qed
qed simp

lemma row_chunk_reassigned:
  assumes "distinct is" and "ch_id c \<in> set is"
  shows "row_chunk (reassigned k j is c) ss = row_chunk c ss"
proof -
  obtain p where "p < length is" "ch_id c = is ! p" using assms(2) by (auto simp: in_set_conv_nth)
  from reassigned_nth [OF assms(1) this] show ?thesis by (simp add: row_chunk_def)
qed

text \<open>The statements succeed when the object exists and no chunk of it has an ordinal from \<open>j\<close> on.\<close>

lemma reassign_all:
  assumes nf: "no_faults env" and "db_inv (db w)" and "(b, k) \<in> obj_keys (db w)"
    and "\<forall>c \<in> set (t_chunks (db w)). owned b k c \<longrightarrow> ch_ordinal c < int j"
    and "\<forall>c \<in> set (t_chunks (db w)). ch_id c \<in> Chunk_Id ` set cs \<longrightarrow> ch_bucket c = b"
  shows "\<exists>n d. forE (\<lambda>(i, c). exec env (reassign_chunk k (int i) (Chunk_Id c))) (enumerate j cs) w = (Inr (), w\<lparr>tick := n, db := d\<rparr>) \<and>
    db_inv d \<and> d = (db w)\<lparr>t_chunks := map (reassigned k j (map Chunk_Id cs)) (t_chunks (db w))\<rparr>"
  using assms(2-)
proof (induction cs arbitrary: j w)
  case Nil
  have "map (reassigned k j []) xs = xs" for xs by (induction xs) auto
  with Nil show ?case by (intro exI [of _ "tick w"] exI [of _ "db w"]) simp
next
  case (Cons c cs)
  let ?st = "reassign_chunk k (int j) (Chunk_Id c)"
  let ?new = "\<lambda>x. x\<lparr>ch_key := Some k, ch_upload := None, ch_part := None, ch_ordinal := int j\<rparr>"
  let ?f = "\<lambda>x. if ch_id x = Chunk_Id c then ?new x else x"
  let ?d = "(db w)\<lparr>t_chunks := map ?f (t_chunks (db w))\<rparr>"
  have "chunk_refs_ok (db w) (?new x)" "\<not> ordinal_clash (?new x) y"
    if x: "x \<in> set (t_chunks (db w))" "ch_id x = Chunk_Id c" and y: "y \<in> set (t_chunks (db w))" for x y
  proof -
    have b: "ch_bucket x = b" using Cons.prems(4) x by simp
    have "chunk_refs_ok (db w) x" using Cons.prems(1) x(1) by (simp add: db_inv_def refs_ok_def)
    then show "chunk_refs_ok (db w) (?new x)" using b Cons.prems(2) by (auto simp: chunk_refs_def split: option.splits)
    show "\<not> ordinal_clash (?new x) y" using b Cons.prems(3) y by (auto simp: ordinal_clash_def)
  qed
  then have st: "?st (db w) = Inr ((), ?d)" by (auto simp: reassign_chunk_def Let_def)
  let ?w = "w\<lparr>tick := Suc (tick w), db := ?d\<rparr>"
  have e: "exec env ?st w = (Inr (), ?w)" by (rule exec_succeeds [where st = ?st, OF nf st])
  have "db_inv ?d" using reassign_chunk_ok Cons.prems(1) st unfolding stmt_ok_def by blast
  then obtain n d where IH: "forE (\<lambda>(i, c). exec env (reassign_chunk k (int i) (Chunk_Id c))) (enumerate (Suc j) cs) ?w = (Inr (), ?w\<lparr>tick := n, db := d\<rparr>)"
    "db_inv d" "d = ?d\<lparr>t_chunks := map (reassigned k (Suc j) (map Chunk_Id cs)) (map ?f (t_chunks (db w)))\<rparr>"
    using Cons.IH [of ?w "Suc j"] Cons.prems by fastforce
  from e have "forE (\<lambda>(i, c). exec env (reassign_chunk k (int i) (Chunk_Id c))) (enumerate j (c # cs)) w
      = forE (\<lambda>(i, c). exec env (reassign_chunk k (int i) (Chunk_Id c))) (enumerate (Suc j) cs) ?w"
    by (simp add: bindE_Inr [where m = "exec env ?st", OF e])
  also have "\<dots> = (Inr (), w\<lparr>tick := n, db := d\<rparr>)" using IH(1) by simp
  finally have "forE (\<lambda>(i, c). exec env (reassign_chunk k (int i) (Chunk_Id c))) (enumerate j (c # cs)) w = (Inr (), w\<lparr>tick := n, db := d\<rparr>)" .
  moreover have "d = (db w)\<lparr>t_chunks := map (reassigned k j (map Chunk_Id (c # cs))) (t_chunks (db w))\<rparr>"
    unfolding IH(3) by (simp add: o_def)
  ultimately show ?case using IH(2) by blast
qed

lemma sorted_by_unique:
  assumes "sorted (map f xs)" "distinct (map f xs)" "sorted (map f ys)" "distinct (map f ys)" "set xs = set ys"
  shows "xs = ys"
proof -
  have "map f xs = map f ys" by (rule sorted_distinct_set_unique [OF assms(1-4)]) (simp add: assms(5))
  moreover have "inj_on f (set xs \<union> set ys)" using assms(2,5) by (simp add: distinct_map)
  ultimately show ?thesis by (rule map_inj_on)
qed

text \<open>The reassigned rows are the chunks of the object, in the order in which they were reassigned.\<close>

lemma reassigned_rows:
  assumes uniq: "distinct (map ch_id (t_chunks d))" and none: "\<forall>c \<in> set (t_chunks d). \<not> owned b k c"
    and rs: "set rs \<subseteq> set (t_chunks d)" "distinct (map ch_id rs)" "\<forall>c \<in> set rs. ch_bucket c = b"
  shows "object_chunk_rows b k (d\<lparr>t_chunks := map (reassigned k 0 (map ch_id rs)) (t_chunks d)\<rparr>) = map (reassigned k 0 (map ch_id rs)) rs"
proof (rule sorted_by_unique [where f = ch_ordinal])
  let ?g = "reassigned k 0 (map ch_id rs)"
  have nth: "?g (rs ! p) = (rs ! p)\<lparr>ch_key := Some k, ch_upload := None, ch_part := None, ch_ordinal := int p\<rparr>" if "p < length rs" for p
    using reassigned_nth [OF rs(2), of p "rs ! p"] that by simp
  have ord: "map ch_ordinal (map ?g rs) = map int [0 ..< length rs]"
    by (rule nth_equalityI) (simp_all add: nth)
  show "sorted (map ch_ordinal (map ?g rs))" "distinct (map ch_ordinal (map ?g rs))"
    unfolding ord by (auto simp: sorted_iff_nth_mono distinct_map)
  have mem: "owned b k (?g c) \<longleftrightarrow> c \<in> set rs" if "c \<in> set (t_chunks d)" for c
  proof
    assume o: "owned b k (?g c)"
    then have "ch_id c \<in> ch_id ` set rs" using none that reassigned_other [of c "map ch_id rs"] by fastforce
    then obtain c' where "c' \<in> set rs" "ch_id c = ch_id c'" by auto
    moreover have "c = c'" using calculation rs(1) that uniq by (auto simp: distinct_map inj_on_def)
    ultimately show "c \<in> set rs" by simp
  next
    assume "c \<in> set rs"
    then obtain p where "p < length rs" "c = rs ! p" by (auto simp: in_set_conv_nth)
    with nth rs(3) show "owned b k (?g c)" by simp
  qed
  let ?rows = "object_chunk_rows b k (d\<lparr>t_chunks := map ?g (t_chunks d)\<rparr>)"
  have "filter (owned b k) (map ?g (t_chunks d)) = map ?g (filter (\<lambda>c. c \<in> set rs) (t_chunks d))"
    unfolding filter_map by (intro arg_cong [where f = "map ?g"] filter_cong) (use mem in auto)
  then have set: "set ?rows = ?g ` set rs" using rs(1) unfolding object_chunk_rows_def by auto
  then show "set ?rows = set (map ?g rs)" by simp
  show "sorted (map ch_ordinal ?rows)" by (simp add: object_chunk_rows_def)
  have "inj_on ch_ordinal (?g ` set rs)" using ord rs(2)
    by (metis distinct_map distinct_upt inj_on_of_nat list.set_map)
  moreover have "distinct ?rows"
  proof -
    have "distinct (map ch_id (map ?g (t_chunks d)))" using uniq by (simp add: o_def)
    then have "distinct (map ?g (t_chunks d))" unfolding distinct_map [of ch_id "map ?g (t_chunks d)"] by blast
    then show ?thesis by (simp add: object_chunk_rows_def)
  qed
  ultimately show "distinct (map ch_ordinal ?rows)" unfolding distinct_map set by simp
qed

section \<open>Completing an upload\<close>

lemma mapE_ticks:
  assumes "\<And>x n. x \<in> set xs \<Longrightarrow> \<exists>n'. f x (w\<lparr>tick := n\<rparr>) = (Inr (g x), w\<lparr>tick := n'\<rparr>)"
  shows "\<exists>n'. mapE f xs (w\<lparr>tick := n\<rparr>) = (Inr (map g xs), w\<lparr>tick := n'\<rparr>)"
  using assms
proof (induction xs arbitrary: n)
  case (Cons x xs)
  obtain n1 where n1: "f x (w\<lparr>tick := n\<rparr>) = (Inr (g x), w\<lparr>tick := n1\<rparr>)" using Cons.prems [of x n] by auto
  obtain n2 where "mapE f xs (w\<lparr>tick := n1\<rparr>) = (Inr (map g xs), w\<lparr>tick := n2\<rparr>)" using Cons.IH [of n1] Cons.prems by auto
  with n1 have "mapE f (x # xs) (w\<lparr>tick := n\<rparr>) = (Inr (map g (x # xs)), w\<lparr>tick := n2\<rparr>)" by (simp add: bindE_def returnE_def)
  then show ?case ..
qed (auto simp: returnE_def)

text \<open>The rows of the parts are those of the map, in the order of the numbers.\<close>

lemma part_rows_in:
  assumes inv: "db_inv (db w)" and up: "upload_in env bs w i loc m" and dom: "dom m \<subseteq> {1..10000}"
  shows "map pa_number (part_rows i 1 (db w)) = sorted_list_of_set (dom m)"
    and "r \<in> set (part_rows i 1 (db w)) \<Longrightarrow> pa_upload r = i \<and> pa_number r \<in> dom m \<and>
      find (\<lambda>x. pa_upload x = i \<and> pa_number x = pa_number r) (t_parts (db w)) = Some r"
    and "length (part_rows i 1 (db w)) \<le> 10000"
proof -
  let ?rows = "part_rows i 1 (db w)"
  have fin: "finite (dom m)" using finite_subset [OF dom] by simp
  have keys: "(i, n) \<in> part_keys (db w) \<longleftrightarrow> n \<in> dom m" for n using up by (simp add: upload_in_def)
  have uniq: "distinct (map (\<lambda>p. (pa_upload p, pa_number p)) (t_parts (db w)))" using inv by (simp add: db_inv_def keys_unique_def)
  have "set ?rows = {r \<in> set (t_parts (db w)). pa_upload r = i}"
    using keys dom by (force simp: part_rows_def)
  then have set: "set (map pa_number ?rows) = dom m" using keys by (force simp: image_iff)
  have "inj_on pa_number (set ?rows)" using uniq by (auto simp: part_rows_def distinct_map inj_on_def)
  moreover have "distinct ?rows" using uniq by (auto simp: part_rows_def distinct_map)
  ultimately have dist: "distinct (map pa_number ?rows)" by (simp add: distinct_map)
  show map: "map pa_number ?rows = sorted_list_of_set (dom m)"
    by (rule sorted_distinct_set_unique) (use set dist fin in \<open>simp_all add: part_rows_def\<close>)
  have "length ?rows = card (dom m)" using arg_cong [OF map, of length] by simp
  also have "\<dots> \<le> card {1..10000 :: int}" using dom by (intro card_mono) simp_all
  finally show "length ?rows \<le> 10000" by simp
  assume r: "r \<in> set ?rows"
  then have p: "pa_upload r = i" "r \<in> set (t_parts (db w))" by (simp_all add: part_rows_def)
  have "find (\<lambda>x. pa_upload x = i \<and> pa_number x = pa_number r) xs = Some r"
    if "r \<in> set xs" "distinct (map (\<lambda>p. (pa_upload p, pa_number p)) xs)" for xs
    using that p(1) by (induction xs) force+
  with p uniq set r show "pa_upload r = i \<and> pa_number r \<in> dom m \<and>
      find (\<lambda>x. pa_upload x = i \<and> pa_number x = pa_number r) (t_parts (db w)) = Some r" by auto
qed

abbreviation hash_of :: "'r env \<Rightarrow> (int \<rightharpoonup> bytes) \<Rightarrow> part_row \<Rightarrow> uint64" where
  "hash_of env m r \<equiv> xxhash64 env (the (m (pa_number r)))"

lemma ListParts_in:
  assumes nf: "no_faults env" and inv: "db_inv (db w)" and up: "upload_in env bs w i loc m" and dom: "dom m \<subseteq> {1..10000}"
  shows "ListParts env i 10000 1 (w\<lparr>tick := n\<rparr>) =
    (Inr (map (\<lambda>r. row_part r [] (hash_of env m r)) (part_rows i 1 (db w)), False), w\<lparr>tick := Suc n\<rparr>)"
proof -
  let ?rows = "part_rows i 1 (db w)" and ?w = "w\<lparr>tick := Suc n\<rparr>"
  note rows = part_rows_in [OF inv up dom]
  have "pa_etag r = FormatUint (hash_of env m r)" if r: "r \<in> set ?rows" for r
  proof -
    obtain data where d: "m (pa_number r) = Some data" using rows(2) [OF r] by blast
    with up have "part_in env bs w i (loc_bucket loc) (pa_number r) data" by (simp add: upload_in_def)
    then show ?thesis using rows(2) [OF r] d by (auto simp: part_in_def)
  qed
  then have "mapE (\<lambda>r. bindE (liftE (ParseUint (pa_etag r))) (\<lambda>etag. returnE (row_part r [] etag))) xs ?w
      = (Inr (map (\<lambda>r. row_part r [] (hash_of env m r)) xs), ?w)" if "set xs \<subseteq> set ?rows" for xs
    using that by (induction xs) (simp_all add: returnE_def bindE_def liftE_def u64.parse_enc)
  moreover have "metaDB w" "\<not> fault env n" using up nf by (simp_all add: upload_in_def no_faults_def)
  ultimately show ?thesis using rows(3)
    by (simp add: ListParts_def bindE_def getDB_eq query_eq limit_offset_def returnE_def cut_page_def)
qed

text \<open>The chunks of the parts: one list for each row.\<close>

lemma part_chunks_in:
  assumes nf: "no_faults env" and inv: "db_inv (db w)" and up: "upload_in env bs w i loc m" and dom: "dom m \<subseteq> {1..10000}"
  obtains csf psf where "\<forall>r \<in> set (part_rows i 1 (db w)). holds_chunks env (db w) (part_chunk_rows i (pa_number r) (db w)) (csf r) \<and>
      (\<forall>c \<in> set (part_chunk_rows i (pa_number r) (db w)). ch_bucket c = loc_bucket loc) \<and> concat (psf r) = the (m (pa_number r)) \<and>
      list_all2 (chunk_stored env bs (configured_compression env) w) (psf r) (csf r) \<and> pa_size r = int (length (the (m (pa_number r))))"
    and "\<forall>n. \<exists>n'. mapE (\<lambda>part. getPartChunks env i (PartNumber part)) (map (\<lambda>r. row_part r [] (hash_of env m r)) (part_rows i 1 (db w)))
      (w\<lparr>tick := n\<rparr>) = (Inr (map csf (part_rows i 1 (db w))), w\<lparr>tick := n'\<rparr>)"
proof -
  let ?rows = "part_rows i 1 (db w)"
  note rows = part_rows_in [OF inv up dom]
  have "\<exists>cs ps. holds_chunks env (db w) (part_chunk_rows i (pa_number r) (db w)) cs \<and>
      (\<forall>c \<in> set (part_chunk_rows i (pa_number r) (db w)). ch_bucket c = loc_bucket loc) \<and> concat ps = the (m (pa_number r)) \<and>
      list_all2 (chunk_stored env bs (configured_compression env) w) ps cs \<and> pa_size r = int (length (the (m (pa_number r))))"
    if r: "r \<in> set ?rows" for r
  proof -
    obtain data where d: "m (pa_number r) = Some data" using rows(2) [OF r] by blast
    with up have "part_in env bs w i (loc_bucket loc) (pa_number r) data" by (simp add: upload_in_def)
    then show ?thesis using rows(2) [OF r] d unfolding part_in_def by auto
  qed
  then obtain csf psf where h: "\<forall>r \<in> set ?rows. holds_chunks env (db w) (part_chunk_rows i (pa_number r) (db w)) (csf r) \<and>
      (\<forall>c \<in> set (part_chunk_rows i (pa_number r) (db w)). ch_bucket c = loc_bucket loc) \<and> concat (psf r) = the (m (pa_number r)) \<and>
      list_all2 (chunk_stored env bs (configured_compression env) w) (psf r) (csf r) \<and> pa_size r = int (length (the (m (pa_number r))))" by metis
  have one: "\<exists>n'. getPartChunks env i (pa_number r) (w\<lparr>tick := n\<rparr>) = (Inr (csf r), w\<lparr>tick := n'\<rparr>)" if "r \<in> set ?rows" for r n
  proof -
    have "holds_chunks env (db (w\<lparr>tick := Suc n\<rparr>)) (part_chunk_rows i (pa_number r) (db w)) (csf r)" using h that by simp
    from chunkRowsToChunks_holds [OF nf this] obtain n' where
      "chunkRowsToChunks env (part_chunk_rows i (pa_number r) (db w)) (w\<lparr>tick := Suc n\<rparr>) = (Inr (csf r), w\<lparr>tick := n'\<rparr>)" by auto
    moreover have "\<not> fault env n" using nf by (simp add: no_faults_def)
    ultimately have "getPartChunks env i (pa_number r) (w\<lparr>tick := n\<rparr>) = (Inr (csf r), w\<lparr>tick := n'\<rparr>)"
      by (simp add: getPartChunks_def bindE_def query_eq)
    then show ?thesis ..
  qed
  have map: "mapE f (map g xs) s = mapE (\<lambda>r. f (g r)) xs s" for f :: "MultipartPart \<Rightarrow> (('a, 'b) world_scheme, Chunk list) comp" and g xs s
    by (induction xs arbitrary: s) (simp_all add: bindE_def split: prod.split sum.split)
  have "\<exists>n'. mapE (\<lambda>part. getPartChunks env i (PartNumber part)) (map (\<lambda>r. row_part r [] (hash_of env m r)) ?rows)
      (w\<lparr>tick := n\<rparr>) = (Inr (map csf ?rows), w\<lparr>tick := n'\<rparr>)" for n
    unfolding map by (rule mapE_ticks) (use one in \<open>simp add: row_part_def\<close>)
  with h show thesis by (intro that [of csf psf]) auto
qed

lemma holds_ids: "holds_chunks env d rows cs \<Longrightarrow> map Chunk_Id cs = map ch_id rows"
  unfolding holds_chunks_def by (induction rule: list_all2_induct) (auto simp: row_chunk_def)

lemma kept_shards_only:
  assumes "distinct (map ch_id (t_chunks d))" and "c \<in> set (t_chunks d)" and "\<not> P c"
  shows "filter (\<lambda>s. sh_chunk s = ch_id c) (t_shards (delete_chunks P d)) = filter (\<lambda>s. sh_chunk s = ch_id c) (t_shards d)"
  using kept_shards [where d = d and c = c and P = P and cs = "[]" and nows = "[]"] assms by (simp add: shard_rows_def)

text \<open>The tables after the statements of a completion: \<open>d2\<close> has the row of the object, \<open>rs\<close> are the rows of the chunks of the parts.\<close>

lemma complete_tables:
  assumes inv0: "db_inv d0" and inv2: "db_inv d2" and d2: "t_chunks d2 = t_chunks d0" "t_shards d2 = t_shards d0"
    and d4: "d4 = (delete_chunks (owned b k) d2)\<lparr>t_chunks := map (reassigned k 0 (map ch_id rs)) (t_chunks (delete_chunks (owned b k) d2))\<rparr>"
    and inv4: "db_inv d4" and d5: "delete_uploads (\<lambda>r. ul_id r = i) d4 = Inr (n, d5)"
    and rs: "set rs \<subseteq> set (t_chunks d0)" "distinct (map ch_id rs)" "\<forall>c \<in> set rs. ch_bucket c = b \<and> ch_upload c = Some i"
    and h: "holds_chunks env d0 rs cs"
  shows "holds_chunks env d5 (object_chunk_rows b k d5) cs" and "t_objects d5 = t_objects d2" and "kms_keys d5 = kms_keys d2"
    and "find (\<lambda>r. ul_id r = i) (t_uploads d5) = None"
proof -
  let ?g = "reassigned k 0 (map ch_id rs)" and ?d3 = "delete_chunks (owned b k) d2"
  obtain us ps Q where d5': "d5 = delete_chunks Q (d4\<lparr>t_uploads := us, t_parts := ps\<rparr>)" and us: "us = filter (\<lambda>u. ul_id u \<noteq> i) (t_uploads d4)"
    and Q: "\<And>c. ch_upload c = None \<Longrightarrow> \<not> Q c"
    using d5 by (auto simp: delete_uploads_def delete_parts_def Let_def)
  show "t_objects d5 = t_objects d2" "kms_keys d5 = kms_keys d2" unfolding d5' d4 by (simp_all add: delete_chunks_def)
  show "find (\<lambda>r. ul_id r = i) (t_uploads d5) = None" unfolding d5' us by (auto simp: delete_chunks_def find_None_iff)
  have free: "ch_key c = None" if "c \<in> set rs" for c
    using that rs(1,3) inv0 by (auto simp: db_inv_def refs_ok_def chunk_refs_def)
  have in3: "set rs \<subseteq> set (t_chunks ?d3)" using rs(1) free d2 by (force simp: delete_chunks_def)
  have "db_inv ?d3" by (rule delete_chunks_ok [OF inv2])
  then have rows4: "object_chunk_rows b k d4 = map ?g rs"
    unfolding d4 by (intro reassigned_rows [OF chunk_ids]) (use in3 rs in \<open>auto simp: delete_chunks_def\<close>)
  have loose: "ch_upload c = None" if "c \<in> set (t_chunks d4)" "owned b k c" for c
    using that inv4 by (auto simp: db_inv_def refs_ok_def chunk_refs_def)
  have "filter (owned b k) (filter (\<lambda>c. \<not> Q c) (t_chunks d4)) = filter (owned b k) (t_chunks d4)"
    unfolding filter_filter using loose Q by (intro filter_cong) auto
  then have rows5: "object_chunk_rows b k d5 = map ?g rs"
    unfolding rows4 [symmetric] d5' object_chunk_rows_def by (simp add: delete_chunks_def)
  have sh: "filter (\<lambda>s. sh_chunk s = ch_id r) (t_shards d5) = filter (\<lambda>s. sh_chunk s = ch_id r) (t_shards d0)" if r: "r \<in> set rs" for r
  proof -
    have "?g r \<in> set (object_chunk_rows b k d4)" unfolding rows4 using r by simp
    then have g: "?g r \<in> set (t_chunks d4)" "ch_upload (?g r) = None" using loose by (auto simp: object_chunk_rows_def)
    have "filter (\<lambda>s. sh_chunk s = ch_id r) (t_shards d5) = filter (\<lambda>s. sh_chunk s = ch_id r) (t_shards d4)"
      using kept_shards_only [of "d4\<lparr>t_uploads := us, t_parts := ps\<rparr>" "?g r" Q] chunk_ids [OF inv4] g Q unfolding d5' by simp
    also have "\<dots> = filter (\<lambda>s. sh_chunk s = ch_id r) (t_shards ?d3)" unfolding d4 by simp
    also have "\<dots> = filter (\<lambda>s. sh_chunk s = ch_id r) (t_shards d2)"
      by (rule kept_shards_only [OF chunk_ids [OF inv2]]) (use r rs(1) free d2 in auto)
    finally show ?thesis unfolding d2 .
  qed
  have "row_chunk (?g r) ss = row_chunk r ss" if "r \<in> set rs" for r ss
    by (rule row_chunk_reassigned [OF rs(2)]) (use that in simp)
  then show "holds_chunks env d5 (object_chunk_rows b k d5) cs"
    using h sh unfolding rows5 holds_chunks_def by (auto simp: list_all2_conv_all_nth)
qed

lemma distinct_part_rows:
  assumes inv: "db_inv d" and "distinct (map pa_number rows)"
  shows "distinct (concat (map (\<lambda>r. part_chunk_rows i (pa_number r) d) rows))"
  using assms(2)
proof (induction rows)
  case (Cons r rows)
  have "distinct (t_chunks d)" using inv by (simp add: db_inv_def keys_unique_def distinct_map)
  with Cons show ?case by (auto simp: part_chunk_rows_def image_iff)
qed simp

lemma list_all2_concat:
  "(\<And>r. r \<in> set rows \<Longrightarrow> list_all2 P (f r) (g r)) \<Longrightarrow> list_all2 P (concat (map f rows)) (concat (map g rows))"
  by (induction rows) (auto intro: list_all2_appendI)

lemma Complete_stable:
  assumes p: "meta_CompleteMultipartUpload env i w = (r, t)" and k: "kms_keys (db t) = kms_keys (db w)"
  shows "stable env w t"
  by (rule store_same_stable [OF keepsD [OF Complete_frames(2) p]])
    (use keepsD [OF Complete_frames(1) p] k in \<open>simp add: db_step_def live_key_def\<close>)

text \<open>The chunks of the parts, the rows that hold them and the data they are, all in the order of the part numbers.\<close>

lemma parts_in:
  assumes nf: "no_faults env" and inv: "db_inv (db w)" and up: "upload_in env bs w i loc m" and dom: "dom m \<subseteq> {1..10000}"
  obtains css rs ps where
    "\<forall>n. \<exists>n'. mapE (\<lambda>part. getPartChunks env i (PartNumber part)) (map (\<lambda>r. row_part r [] (hash_of env m r)) (part_rows i 1 (db w)))
      (w\<lparr>tick := n\<rparr>) = (Inr css, w\<lparr>tick := n'\<rparr>)"
    "holds_chunks env (db w) rs (concat css)" "set rs \<subseteq> set (t_chunks (db w))" "distinct (map ch_id rs)"
    "\<forall>c \<in> set rs. ch_bucket c = loc_bucket loc \<and> ch_upload c = Some i"
    "concat ps = concat (map (the \<circ> m) (sorted_list_of_set (dom m)))"
    "list_all2 (chunk_stored env bs (configured_compression env) w) ps (concat css)"
    "sum_list (map pa_size (part_rows i 1 (db w))) = int (length (concat ps))"
proof -
  let ?rows = "part_rows i 1 (db w)"
  note rows = part_rows_in [OF inv up dom]
  obtain csf psf where h: "\<forall>r \<in> set ?rows. holds_chunks env (db w) (part_chunk_rows i (pa_number r) (db w)) (csf r) \<and>
      (\<forall>c \<in> set (part_chunk_rows i (pa_number r) (db w)). ch_bucket c = loc_bucket loc) \<and> concat (psf r) = the (m (pa_number r)) \<and>
      list_all2 (chunk_stored env bs (configured_compression env) w) (psf r) (csf r) \<and> pa_size r = int (length (the (m (pa_number r))))"
    and mp: "\<forall>n. \<exists>n'. mapE (\<lambda>part. getPartChunks env i (PartNumber part)) (map (\<lambda>r. row_part r [] (hash_of env m r)) ?rows)
      (w\<lparr>tick := n\<rparr>) = (Inr (map csf ?rows), w\<lparr>tick := n'\<rparr>)" by (rule part_chunks_in [OF assms])
  let ?rs = "concat (map (\<lambda>r. part_chunk_rows i (pa_number r) (db w)) ?rows)" and ?ps = "concat (map psf ?rows)"
  have "holds_chunks env (db w) ?rs (concat (map csf ?rows))"
    unfolding holds_chunks_def by (rule list_all2_concat) (use h in \<open>simp add: holds_chunks_def\<close>)
  moreover have "set ?rs \<subseteq> set (t_chunks (db w))" by (auto simp: part_chunk_rows_def)
  moreover have "distinct (map pa_number ?rows)" unfolding rows(1) by simp
  then have "distinct ?rs" by (rule distinct_part_rows [OF inv])
  then have "distinct (map ch_id ?rs)" using calculation(2) chunk_ids [OF inv] unfolding distinct_map by (meson inj_on_subset)
  moreover have "\<forall>c \<in> set ?rs. ch_bucket c = loc_bucket loc \<and> ch_upload c = Some i" using h by (auto simp: part_chunk_rows_def)
  moreover have cat: "concat (concat (map psf xs)) = concat (map (\<lambda>r. the (m (pa_number r))) xs)" if "set xs \<subseteq> set ?rows" for xs
    using that h by (induction xs) auto
  then have "concat ?ps = concat (map (the \<circ> m) (sorted_list_of_set (dom m)))"
    unfolding rows(1) [symmetric] by (simp add: o_def)
  moreover have "list_all2 (chunk_stored env bs (configured_compression env) w) ?ps (concat (map csf ?rows))"
    by (rule list_all2_concat) (use h in simp)
  moreover have "sum_list (map pa_size xs) = int (length (concat (map (\<lambda>r. the (m (pa_number r))) xs)))" if "set xs \<subseteq> set ?rows" for xs
    using that h by (induction xs) auto
  then have "sum_list (map pa_size ?rows) = int (length (concat ?ps))" using cat by simp
  ultimately show thesis using mp by (intro that [of "map csf ?rows" ?rs ?ps]) simp_all
qed

lemma Complete_transaction:
  assumes nf: "no_faults env" and inv: "db_inv (db w)" and b: "loc_bucket loc = b" "Location_Key loc = k"
    and h: "holds_chunks env (db w) rs cs" and rs: "set rs \<subseteq> set (t_chunks (db w))" "distinct (map ch_id rs)"
      "\<forall>c \<in> set rs. ch_bucket c = b \<and> ch_upload c = Some i"
  shows "\<exists>n' d r. transaction env (
       bindE (time_Now env) (\<lambda>now.
       bindE (exec env (insert_or_ignore_bucket b now)) (\<lambda>_.
       bindE (exec env (upsert_object \<lparr>ob_bucket = b, ob_key = k, ob_etag = etag, ob_size = sz, ob_ctype = ct, ob_clevel = cl,
                ob_created = now, ob_updated = now\<rparr>)) (\<lambda>_.
       bindE (exec env (\<lambda>d. Inr ((), delete_chunks (owned b k) d))) (\<lambda>_.
       bindE (forE (\<lambda>(i, c). exec env (reassign_chunk k (int i) (Chunk_Id c))) (enumerate 0 cs)) (\<lambda>_.
       bindE (exec env (delete_uploads (\<lambda>r. ul_id r = i))) (\<lambda>_. returnE ()))))))) (w\<lparr>tick := n\<rparr>) = (Inr (), w\<lparr>tick := n', db := d\<rparr>) \<and>
     find (\<lambda>x. ob_bucket x = b \<and> ob_key x = k) (t_objects d) = Some r \<and> ob_etag r = etag \<and> ob_size r = sz \<and> ob_ctype r = ct \<and> ob_clevel r = cl \<and>
     holds_chunks env d (object_chunk_rows b k d) cs \<and> kms_keys d = kms_keys (db w) \<and> find (\<lambda>r. ul_id r = i) (t_uploads d) = None"
proof -
  have nf': "\<not> fault env m" for m using nf by (simp add: no_faults_def)
  let ?now = "now_at env (Suc n)"
  let ?r = "\<lparr>ob_bucket = b, ob_key = k, ob_etag = etag, ob_size = sz, ob_ctype = ct, ob_clevel = cl, ob_created = ?now, ob_updated = ?now\<rparr>"
  obtain d1 where d1: "insert_or_ignore_bucket b ?now (db w) = Inr ((), d1)" "b \<in> bk_name ` set (t_buckets d1)"
    by (cases "b \<in> bk_name ` set (t_buckets (db w))") (auto simp: insert_or_ignore_bucket_def insert_bucket_def)
  obtain d2 where d2: "upsert_object ?r d1 = Inr ((), d2)" using upsert_object_defined [of ?r d1] d1(2) by auto
  have i2: "db_inv d2" using insert_or_ignore_bucket_ok upsert_object_ok inv d1(1) d2 unfolding stmt_ok_def by blast
  note e = upsert_object_Inr [OF d2, simplified] insert_or_ignore_Inr [OF d1(1)]
  have same: "t_chunks d2 = t_chunks (db w)" "t_shards d2 = t_shards (db w)" "kms_keys d2 = kms_keys (db w)" using e by simp_all
  let ?d3 = "delete_chunks (owned b k) d2"
  have i3: "db_inv ?d3" by (rule delete_chunks_ok [OF i2])
  let ?w3 = "w\<lparr>tick := Suc (Suc (Suc (Suc (Suc n)))), db := ?d3\<rparr>"
  note ids = holds_ids [OF h]
  have "\<exists>n d. forE (\<lambda>(i, c). exec env (reassign_chunk k (int i) (Chunk_Id c))) (enumerate 0 cs) ?w3 = (Inr (), ?w3\<lparr>tick := n, db := d\<rparr>) \<and>
    db_inv d \<and> d = (db ?w3)\<lparr>t_chunks := map (reassigned k 0 (map Chunk_Id cs)) (t_chunks (db ?w3))\<rparr>"
  proof (rule reassign_all [OF nf])
    show "db_inv (db ?w3)" using i3 by simp
    show "(b, k) \<in> obj_keys (db ?w3)" using e(1) find_object_key [of b k "t_objects d2"] by (auto simp: delete_chunks_def)
    show "\<forall>c \<in> set (t_chunks (db ?w3)). owned b k c \<longrightarrow> ch_ordinal c < int 0" by (auto simp: delete_chunks_def)
    have "ch_bucket c = b" if c: "c \<in> set (t_chunks (db w))" "ch_id c \<in> ch_id ` set rs" for c
    proof -
      from c(2) obtain r where "r \<in> set rs" "ch_id c = ch_id r" by auto
      then have "c = r" using c(1) rs(1) chunk_ids [OF inv] by (auto simp: distinct_map inj_on_def)
      with \<open>r \<in> set rs\<close> rs(3) show ?thesis by simp
    qed
    then show "\<forall>c \<in> set (t_chunks (db ?w3)). ch_id c \<in> Chunk_Id ` set cs \<longrightarrow> ch_bucket c = b"
      using arg_cong [OF ids, of set] same(1) by (auto simp: delete_chunks_def)
  qed
  then obtain n4 d4 where d4: "forE (\<lambda>(i, c). exec env (reassign_chunk k (int i) (Chunk_Id c))) (enumerate 0 cs) ?w3 = (Inr (), w\<lparr>tick := n4, db := d4\<rparr>)"
    "db_inv d4" "d4 = ?d3\<lparr>t_chunks := map (reassigned k 0 (map ch_id rs)) (t_chunks ?d3)\<rparr>"
    unfolding ids by auto
  obtain x d5 where d5: "delete_uploads (\<lambda>r. ul_id r = i) d4 = Inr (x, d5)" by (auto simp: delete_uploads_def)
  note c = complete_tables [OF inv i2 same(1,2) d4(3,2) d5 rs h]
  obtain r where r: "find (\<lambda>x. ob_bucket x = b \<and> ob_key x = k) (t_objects d2) = Some r" "ob_etag r = etag" "ob_size r = sz" "ob_ctype r = ct" "ob_clevel r = cl"
    using e(1) by auto
  show ?thesis
    by (intro exI [of _ "Suc (Suc n4)"] exI [of _ d5] exI [of _ r])
      (use d1(1) d2 d4(1) d5 nf' r c same(3) in \<open>simp add: transaction_def bindE_def ext_call_eq time_Now_eq exec_eq returnE_def tick_after_db\<close>)
qed

definition assembled :: "(int \<rightharpoonup> bytes) \<Rightarrow> bytes list" where
  "assembled m = map (the \<circ> m) (sorted_list_of_set (dom m))"

text \<open>The combined ETag is the hash of the hashes of the parts.\<close>

definition combined :: "'r env \<Rightarrow> bytes list \<Rightarrow> uint64" where
  "combined env ds = xxhash64 env (concat (map (\<lambda>d. bigEndian (xxhash64 env d)) ds))"

lemma CompleteMultipartUpload_in:
  assumes nf: "no_faults env" and ok: "iface_ok env w" "db_inv (db w)" and up: "upload_in env bs w i loc m"
    and dom: "dom m \<subseteq> {1..10000}" "dom m \<noteq> {}"
  shows "\<exists>ob t. CompleteMultipartUpload env i w = (Inr ob, t) \<and> stable env w t \<and> metaDB t \<and>
    object_stored env bs t loc (combined env (assembled m)) (concat (assembled m)) (Obj_Chunks ob) \<and>
    Obj_Size ob = int (length (concat (assembled m))) \<and> ETag ob = combined env (assembled m) \<and>
    find (\<lambda>r. ul_id r = i) (t_uploads (db t)) = None"
proof -
  let ?rows = "part_rows i 1 (db w)" and ?cmp = "configured_compression env" and ?b = "loc_bucket loc" and ?k = "Location_Key loc"
  let ?parts = "map (\<lambda>r. row_part r [] (hash_of env m r)) ?rows"
  note rows = part_rows_in [OF ok(2) up dom(1)]
  have nf': "\<not> fault env n" for n using nf by (simp add: no_faults_def)
  obtain u where u: "find (\<lambda>r. ul_id r = i) (t_uploads (db w)) = Some u" "ul_bucket u = ?b" "ul_key u = ?k"
    "ul_ctype u = Compression_Type ?cmp" "ul_clevel u = Compression_Level ?cmp" and m: "metaDB w" using up unfolding upload_in_def by blast
  let ?up = "row_upload i \<lparr>Bucket_Name = ul_bucket u, CreatedAt = 0\<rparr> u"
  have get: "GetMultipartUpload env i (w\<lparr>tick := n\<rparr>) = (Inr ?up, w\<lparr>tick := Suc n\<rparr>)" for n
    using m u(1) nf' by (auto simp: GetMultipartUpload_Inr)
  obtain css rs ps where mp: "\<forall>n. \<exists>n'. mapE (\<lambda>part. getPartChunks env i (PartNumber part)) ?parts (w\<lparr>tick := n\<rparr>) = (Inr css, w\<lparr>tick := n'\<rparr>)"
    and h: "holds_chunks env (db w) rs (concat css)" and rs: "set rs \<subseteq> set (t_chunks (db w))" "distinct (map ch_id rs)"
      "\<forall>c \<in> set rs. ch_bucket c = ?b \<and> ch_upload c = Some i"
    and ps: "concat ps = concat (map (the \<circ> m) (sorted_list_of_set (dom m)))" "list_all2 (chunk_stored env bs ?cmp w) ps (concat css)"
      "sum_list (map pa_size ?rows) = int (length (concat ps))" by (rule parts_in [OF nf ok(2) up dom(1)])
  let ?n = "Suc (Suc (Suc (tick w)))"
  obtain n1 where n1: "mapE (\<lambda>part. getPartChunks env i (PartNumber part)) ?parts (w\<lparr>tick := ?n\<rparr>) = (Inr css, w\<lparr>tick := n1\<rparr>)" using mp by blast
  let ?sz = "sum_list (map Part_Size ?parts)" and ?etag = "xxhash64 env (concat (map (\<lambda>part. bigEndian (Part_ETag part)) ?parts))"
  have "map (\<lambda>part. bigEndian (Part_ETag part)) ?parts = map (\<lambda>d. bigEndian (xxhash64 env d)) (map (the \<circ> m) (map pa_number ?rows))"
    by (simp add: row_part_def)
  then have etag: "?etag = combined env (assembled m)" unfolding rows(1) by (simp add: combined_def assembled_def)
  have sz: "?sz = int (length (concat (assembled m)))" using ps(1,3) by (simp add: row_part_def o_def assembled_def)
  obtain n2 d r where tr: "transaction env (
       bindE (time_Now env) (\<lambda>now.
       bindE (exec env (insert_or_ignore_bucket ?b now)) (\<lambda>_.
       bindE (exec env (upsert_object \<lparr>ob_bucket = ?b, ob_key = ?k, ob_etag = FormatUint ?etag, ob_size = ?sz,
                ob_ctype = Compression_Type ?cmp, ob_clevel = Compression_Level ?cmp, ob_created = now, ob_updated = now\<rparr>)) (\<lambda>_.
       bindE (exec env (\<lambda>d. Inr ((), delete_chunks (owned ?b ?k) d))) (\<lambda>_.
       bindE (forE (\<lambda>(i, c). exec env (reassign_chunk ?k (int i) (Chunk_Id c))) (enumerate 0 (concat css))) (\<lambda>_.
       bindE (exec env (delete_uploads (\<lambda>r. ul_id r = i))) (\<lambda>_. returnE ()))))))) (w\<lparr>tick := n1\<rparr>) = (Inr (), w\<lparr>tick := n2, db := d\<rparr>)"
    and r: "find (\<lambda>x. ob_bucket x = ?b \<and> ob_key x = ?k) (t_objects d) = Some r" "ob_etag r = FormatUint ?etag" "ob_size r = ?sz"
      "ob_ctype r = Compression_Type ?cmp" "ob_clevel r = Compression_Level ?cmp"
    and d: "holds_chunks env d (object_chunk_rows ?b ?k d) (concat css)" "kms_keys d = kms_keys (db w)" "find (\<lambda>r. ul_id r = i) (t_uploads d) = None"
    using Complete_transaction [OF nf ok(2) refl refl h rs, where n = n1 and etag = "FormatUint ?etag" and sz = ?sz
      and ct = "Compression_Type ?cmp" and cl = "Compression_Level ?cmp"] by blast
  let ?w = "w\<lparr>tick := n2, db := d\<rparr>" and ?loc = "Upload_Location ?up"
  have loc: "loc_bucket ?loc = ?b" "Location_Key ?loc = ?k" using u by (simp_all add: row_upload_def loc_bucket_def)
  obtain n3 where g: "meta_GetObject env ?loc ?w = (Inr (row_object ?loc r (concat css) ?etag), ?w\<lparr>tick := n3\<rparr>)"
    using meta_GetObject_holds [OF nf, of ?w ?loc r ?etag "concat css"] m r(1,2) d(1) loc by auto
  have "finite (dom m)" using finite_subset [OF dom(1)] by simp
  then have "sorted_list_of_set (dom m) \<noteq> []" using dom(2) by simp
  then have ne: "?parts \<noteq> []" unfolding rows(1) [symmetric] by simp
  have meta: "meta_CompleteMultipartUpload env i (w\<lparr>tick := Suc (tick w)\<rparr>) = (Inr (row_object ?loc r (concat css) ?etag), ?w\<lparr>tick := n3\<rparr>)"
    unfolding meta_CompleteMultipartUpload_def Let_def using m ne tr g n1 loc u ListParts_in [OF nf ok(2) up dom(1)]
    by (simp add: bindE_def getDB_eq get row_upload_def loc_bucket_def)
  have "CompleteMultipartUpload env i w = (Inr (row_object ?loc r (concat css) ?etag), ?w\<lparr>tick := n3\<rparr>)"
    using get [of "tick w"] meta by (simp add: CompleteMultipartUpload_def bindE_def)
  moreover have s: "stable env w (?w\<lparr>tick := n3\<rparr>)"
    using stab.transR [OF tick_stable Complete_stable [OF meta]] d(2) by simp
  moreover have "list_all2 (chunk_stored env bs ?cmp (?w\<lparr>tick := n3\<rparr>)) ps (concat css)"
    using ps(2) chunk_stored_from [OF stab.reflR ok s] by (auto elim!: list_all2_mono)
  then have "object_stored env bs (?w\<lparr>tick := n3\<rparr>) loc (combined env (assembled m)) (concat (assembled m)) (concat css)"
    unfolding object_stored_def using r d(1) ps(1) sz etag by (auto simp: configured_compression_def assembled_def)
  ultimately show ?thesis using r(3) d(3) m sz etag by (auto simp: row_object_def)
qed

end
