(* ===== verification/Multipart_Theorems.thy ===== *)
theory Multipart_Theorems
  imports Multipart_Laws Concrete Store_Laws
begin

text \<open>
  The properties of multipart uploads at the storage level.
\<close>

section \<open>Uploads succeed\<close>

lemma accepting_kept:
  assumes a: "accepting env w" and s: "stable env w t" and m: "metaDB t = metaDB w" and i: "ids_past env t"
  shows "accepting env t"
proof -
  have bs: "availableBackends t = availableBackends w" using s by (simp add: stable_def same_conf_def)
  have "ready env (availableBackends w) t" using ready_stable [OF s] a by (simp add: accepting_def)
  with a m i show ?thesis unfolding accepting_def bs by blast
qed

lemma data_fits_kept:
  assumes "accepting env w" and "stable env w t" and "data_fits env w data"
  shows "data_fits env t data"
proof -
  have bs: "availableBackends t = availableBackends w" and c: "same_conf w t" using assms(2) by (simp_all add: stable_def same_conf_def)
  have "\<forall>b \<in> set (availableBackends w). healthy env w b" using assms(1) by (simp add: accepting_def ready_def)
  with fits_stable [OF c] assms(3) show ?thesis unfolding data_fits_def bs by blast
qed

lemma PutPart_succeeds:
  assumes nf: "no_faults env" and inv: "db_inv (db w)" and m: "metaDB w"
    and u: "find (\<lambda>r. ul_id r = Part_UploadID part) (t_uploads (db w)) = Some u"
    and ids: "distinct (map Chunk_Id (Part_Chunks part))" "Chunk_Id ` set (Part_Chunks part) \<inter> ch_id ` set (t_chunks (db w)) = {}"
    and c: "\<forall>c \<in> set (Part_Chunks part). normal_chunk env c \<and>
      (Encryption_Type (Chunk_Encryption c) \<noteq> 0 \<longrightarrow> Encryption_KeyId (Chunk_Encryption c) \<in> kms_ids (db w))"
  shows "\<exists>t. PutPart env part w = (Inr (), t)"
proof -
  let ?i = "Part_UploadID part" and ?n = "PartNumber part"
  have nf': "\<not> fault env k" for k using nf by (simp add: no_faults_def)
  let ?now = "now_at env (Suc (Suc (Suc (tick w))))"
  let ?p = "\<lparr>pa_upload = ?i, pa_number = ?n, pa_etag = FormatUint (Part_ETag part), pa_size = Part_Size part, pa_created = ?now\<rparr>"
  let ?d1 = "delete_chunks (of_part ?i ?n) (db w)"
  have "ul_id u = ?i" "u \<in> set (t_uploads (db w))" using u by (auto simp: find_Some_iff)
  then have "?i \<in> ul_id ` set (t_uploads ?d1)" by (force simp: delete_chunks_def)
  then obtain d2 where d2: "upsert_part ?p ?d1 = Inr ((), d2)" by (cases "upsert_part ?p ?d1") (auto simp: upsert_part_def split: if_splits)
  have i2: "db_inv d2" using upsert_part_ok delete_chunks_ok [OF inv] d2 unfolding stmt_ok_def by blast
  note e = upsert_part_Inr [OF d2, simplified]
  let ?w = "w\<lparr>tick := Suc (Suc (Suc (Suc (Suc (tick w))))), db := d2\<rparr>"
  have "\<exists>t. forE (\<lambda>(i, c). insertChunk env (ul_bucket u) None (Some ?i) (Some ?n) (int i) c) (enumerate 0 (Part_Chunks part)) ?w = (Inr (), t)"
  proof (rule insert_chunks_succeeds [OF nf])
    show "db_inv (db ?w)" using i2 by simp
    show "owner_ok (db ?w) (ul_bucket u) None (Some ?i) (Some ?n)" using e(6) by (simp add: owner_ok_def)
    show "\<forall>x \<in> set (t_chunks (db ?w)). same_owner (ul_bucket u) None (Some ?i) (Some ?n) x \<longrightarrow> ch_ordinal x < int 0"
      using e(1) by (auto simp: same_owner_def delete_chunks_def)
    show "Chunk_Id ` set (Part_Chunks part) \<inter> ch_id ` set (t_chunks (db ?w)) = {}" using e(1) ids(2) by (auto simp: delete_chunks_def)
    show "\<forall>c \<in> set (Part_Chunks part). normal_chunk env c \<and>
      (Encryption_Type (Chunk_Encryption c) \<noteq> 0 \<longrightarrow> Encryption_KeyId (Chunk_Encryption c) \<in> kms_ids (db ?w))"
      using c e(3) by (simp add: delete_chunks_def)
  qed (rule ids(1))
  then obtain t where t: "insertPartChunks env (ul_bucket u) ?i ?n (Part_Chunks part) ?w = (Inr (), t)" unfolding insertPartChunks_def by blast
  have "GetMultipartUpload env ?i w = (Inr (row_upload ?i \<lparr>Bucket_Name = ul_bucket u, CreatedAt = 0\<rparr> u), w\<lparr>tick := Suc (tick w)\<rparr>)"
    using m u nf' by (auto simp: GetMultipartUpload_Inr)
  then have "PutPart env part w = (Inr (), t\<lparr>tick := Suc (tick t)\<rparr>)"
    using m d2 t nf' by (simp add: PutPart_def Let_def bindE_def getDB_eq transaction_def ext_call_eq time_Now_eq exec_eq returnE_def
        tick_after_db row_upload_def loc_bucket_def)
  then show ?thesis by blast
qed

lemma CreateMultipartUpload_accepting:
  assumes a: "accepting env w" and p: "CreateMultipartUpload env loc w = (Inr up, t)"
  shows "accepting env t"
proof (rule accepting_kept [OF a])
  have fr: "keeps store_same (CreateMultipartUpload env loc)"
    unfolding CreateMultipartUpload_def GetCurrentTime_def by (intro meta_frames upload_frames)+
  have inv: "db_inv (db w)" "ids_past env w" using a by (simp_all add: accepting_def ready_def)
  show "stable env w t" using CreateMultipartUpload_in [OF inv(1) p, of "[]"] by simp
  show "metaDB t = metaDB w" using keepsD [OF fr p] by (simp add: store_same_def)
  have "t_chunks (db t) = t_chunks (db w)" using p
    by (auto simp: CreateMultipartUpload_def meta_CreateMultipartUpload_def generateUploadID_def bindE_eq_Inr_iff getDB_eq transaction_Inr
        time_Now_eq uuid_New_eq GetCurrentTime_eq exec_Inr insert_or_ignore_Inr(1) insert_upload_def split: if_splits)
  then show "ids_past env t" using ids_past_after [OF inv(2), of t] keepsD [OF fr p] by (simp add: store_same_def)
qed

lemma UploadPartStream_succeeds:
  assumes pk: "packages env" and a: "accepting env w" and f: "data_fits env w (rd_data r)" and rd: "\<not> rd_fails r"
    and u: "find (\<lambda>r. ul_id r = i) (t_uploads (db w)) = Some u"
  shows "\<exists>part t. UploadPartStream env loc n i r w = (Inr part, t) \<and> accepting env t"
proof -
  let ?cmp = "configured_compression env" and ?bs = "availableBackends w" and ?w0 = "w\<lparr>tick := Suc (tick w)\<rparr>"
  have l: "rs_law env" "crypto_law env" "zstd_law env" "no_faults env" using pk by (simp_all add: packages_def)
  have s0: "stable env w ?w0" by (rule tick_stable)
  have a0: "accepting env ?w0" using a by (intro accepting_kept [OF a s0]) (auto simp: accepting_def ids_past_def intro: less_SucI)
  have a': "ready env ?bs ?w0" "ids_past env ?w0" "metaDB w" "distinct ?bs" "?bs \<noteq> []"
      "FailureTolerance (Cfg env) < int (length ?bs)" "0 < ChunkSize (Cfg env)" using a0 by (simp_all add: accepting_def)
  have ok: "iface_ok env ?w0" "db_inv (db ?w0)" using a'(1) by (simp_all add: ready_def)
  obtain ty where ty: "EncryptionTypeFromString (EncryptionMethod (Cfg env)) = Inr ty" using a by (auto simp: accepting_def)
  have c01: "Compression_Type ?cmp \<in> {0, 1}" by (simp add: configured_compression_def)
  have "\<forall>p \<in> set (pieces (nat (ChunkSize (Cfg env))) (rd_data r)). fits env ?bs ty ?cmp ?w0 p"
    using data_fits_kept [OF a s0 f] ty by (simp add: data_fits_def)
  then obtain cs w1 where c: "ChunkStream env r ty ?cmp ?bs (ChunkConcurrency (Cfg env)) ?w0
      = (Inr (cs, int (length (rd_data r)), xxhash64 env (rd_data r)), w1)"
    using ChunkStream_succeeds [OF l a'(4,5,6) EncryptionType_known [OF ty] c01 a'(1) _ a'(7) rd] by blast
  note cs = ChunkStream_Inr [OF l(1,2) ok a'(4,7) c]
  have tb: "same_tables ?w0 w1" by (rule keepsD [OF ChunkStream_tables c])
  let ?w2 = "w1\<lparr>tick := Suc (tick w1)\<rparr>"
  let ?part = "\<lparr>Part_UploadID = i, PartNumber = n, Part_ETag = xxhash64 env (rd_data r), Part_Size = int (length (rd_data r)),
      Part_CreatedAt = now_at env (tick w1), Part_Chunks = cs\<rparr>"
  have uu: "uuid_law env" using ok(1) by (simp add: iface_ok_def lawful_def)
  have new: "Chunk_Id c \<notin> ch_id ` set (t_chunks (db w1))" if "c \<in> set cs" for c
    using made_new_id [OF _ a'(2) uu] cs(6) that tb by (auto simp: same_tables_def)
  have keys: "normal_chunk env c \<and> (Encryption_Type (Chunk_Encryption c) \<noteq> 0 \<longrightarrow> Encryption_KeyId (Chunk_Encryption c) \<in> kms_ids (db w1))"
    if c: "c \<in> set cs" for c
  proof -
    from c obtain d where "chunk_stored env ?bs ?cmp w1 d c" using cs(5) by (auto simp: list_all2_conv_all_nth in_set_conv_nth)
    with stored_key_exists cs(6) c show ?thesis unfolding made_def by blast
  qed
  have i2: "db_inv (db ?w2)" using ok cs(4) by (simp add: stable_def)
  have "\<exists>t. PutPart env ?part ?w2 = (Inr (), t)"
    by (rule PutPart_succeeds [OF l(4) i2]) (use a'(3) tb u cs(7) new keys in \<open>auto simp: same_tables_def\<close>)
  then obtain t where t: "PutPart env ?part ?w2 = (Inr (), t)" ..
  have "GetMultipartUpload env i w = (Inr (row_upload i \<lparr>Bucket_Name = ul_bucket u, CreatedAt = 0\<rparr> u), ?w0)"
    using a'(3) u l(4) by (auto simp: GetMultipartUpload_Inr no_faults_def)
  then have run: "UploadPartStream env loc n i r w = (Inr ?part, t)"
    using ty c t by (simp add: UploadPartStream_def bindE_def GetAvailableBackends_def GetCurrentTime_eq Let_def returnE_def liftE_def row_upload_def)
  have norm: "\<forall>c \<in> set (Part_Chunks ?part). normal_chunk env c" using keys by simp
  have st: "stable env ?w0 t" by (rule stab.transR [OF stab.transR [OF cs(4) tick_stable] PutPart_stable [OF t norm]])
  have "ids_past env t"
  proof (rule ids_past_after [OF a'(2)])
    have tk: "tick ?w2 \<le> tick t" using keepsD [OF PutPart_frames(2) t] by (simp add: store_same_def)
    show "tick ?w0 \<le> tick t" using st by (simp add: stable_def later_def)
    show "\<forall>c \<in> set (t_chunks (db t)). c \<in> set (t_chunks (db ?w0)) \<or> (\<exists>k < tick t. ch_id c = uuid_new env k)"
    proof
      fix x assume "x \<in> set (t_chunks (db t))"
      from PutPart_chunks [OF t this] consider "x \<in> set (t_chunks (db ?w0))" | c where "c \<in> set cs" "ch_id x = Chunk_Id c"
        using tb by (auto simp: same_tables_def)
      then show "x \<in> set (t_chunks (db ?w0)) \<or> (\<exists>k < tick t. ch_id x = uuid_new env k)"
      proof cases
        case 2
        then obtain k where "k < tick w1" "ch_id x = uuid_new env k" using cs(6) by (auto simp: made_def)
        moreover have "tick w1 < tick t" using tk by simp
        ultimately show ?thesis using order_less_trans by blast
      qed blast
    qed
  qed
  moreover have "metaDB t = metaDB ?w0" using keepsD [OF PutPart_frames(2) t] tb by (simp add: store_same_def same_tables_def)
  ultimately have "accepting env t" by (intro accepting_kept [OF a0 st])
  with run show ?thesis by blast
qed

section \<open>Sequences of uploads\<close>

text \<open>Uploading parts one after the other; the last data sent for a number counts.\<close>

fun upload_parts :: "'r env \<Rightarrow> ObjectLocation \<Rightarrow> string \<Rightarrow> (int \<times> reader) list \<Rightarrow> (('r, 'x) world_scheme, unit) comp" where
  "upload_parts env loc i [] = returnE ()"
| "upload_parts env loc i ((n, r) # ps) = bindE (UploadPartStream env loc n i r) (\<lambda>_. upload_parts env loc i ps)"

definition last_parts :: "(int \<times> reader) list \<Rightarrow> (int \<rightharpoonup> bytes)" where
  "last_parts ps = foldl (\<lambda>m (n, r). m(n \<mapsto> rd_data r)) Map.empty ps"

lemma dom_foldl: "dom (foldl (\<lambda>m (n, r). m(n \<mapsto> rd_data r)) m ps) = dom m \<union> fst ` set ps"
  by (induction ps arbitrary: m) auto

lemma upload_parts_succeeds:
  fixes w :: "('r, 'x) world_scheme"
  assumes pk: "packages env" and "accepting env w" and "upload_in env (availableBackends w) w i loc m"
    and "\<forall>(n, r) \<in> set ps. data_fits env w (rd_data r) \<and> \<not> rd_fails r"
  shows "\<exists>t. upload_parts env loc' i ps w = (Inr (), t) \<and> accepting env t \<and> availableBackends t = availableBackends w \<and>
    upload_in env (availableBackends w) t i loc (foldl (\<lambda>m (n, r). m(n \<mapsto> rd_data r)) m ps)"
  using assms(2-)
proof (induction ps arbitrary: w m)
  case (Cons p ps)
  obtain n r where p: "p = (n, r)" by (cases p)
  have l: "rs_law env" "crypto_law env" using pk by (simp_all add: packages_def)
  have a: "iface_ok env w" "db_inv (db w)" "distinct (availableBackends w)" "0 < ChunkSize (Cfg env)"
    using Cons.prems(1) by (simp_all add: accepting_def ready_def)
  obtain u where "find (\<lambda>r. ul_id r = i) (t_uploads (db w)) = Some u" using Cons.prems(2) unfolding upload_in_def by blast
  moreover have "data_fits env w (rd_data r)" "\<not> rd_fails r" using Cons.prems(3) p by simp_all
  ultimately obtain part w1 where w1: "UploadPartStream env loc' n i r w = (Inr part, w1)" "accepting env w1"
    using UploadPartStream_succeeds [OF pk Cons.prems(1)] by blast
  from UploadPartStream_in [OF l a Cons.prems(2) w1(1)] have up: "upload_in env (availableBackends w) w1 i loc (m(n \<mapsto> rd_data r))"
    and s: "stable env w w1" by blast+
  have bs: "availableBackends w1 = availableBackends w" using s by (simp add: stable_def same_conf_def)
  have "\<forall>(n, r) \<in> set ps. data_fits env w1 (rd_data r) \<and> \<not> rd_fails r"
    using Cons.prems(3) data_fits_kept [OF Cons.prems(1) s] by auto
  from Cons.IH [OF w1(2) up [folded bs] this] obtain t where "upload_parts env loc' i ps w1 = (Inr (), t)" "accepting env t"
    "availableBackends t = availableBackends w" "upload_in env (availableBackends w) t i loc (foldl (\<lambda>m (n, r). m(n \<mapsto> rd_data r)) (m(n \<mapsto> rd_data r)) ps)"
    unfolding bs by blast
  then show ?case using w1(1) unfolding p foldl.simps prod.case upload_parts.simps by (intro exI [of _ t] conjI) (simp_all only: bindE_Inr)
qed simp

section \<open>The property\<close>

text \<open>C8: In a system with healthy backends, an upload that was opened takes its parts in any order and any number of times each, is
  completed, and leaves an object whose data are the last data of the parts, in the order of the part numbers: every range of it is read
  back, even after any \<open>FailureTolerance\<close> backends became unreadable. The ETag is the hash of the hashes of the parts, and the
  upload is gone.\<close>

theorem multipart_assembles:
  assumes "packages env" and "accepting env w" and "CreateMultipartUpload env loc w = (Inr up, w0)"
    and "ps \<noteq> []" and "\<forall>(n, r) \<in> set ps. 1 \<le> n \<and> n \<le> 10000 \<and> data_fits env w0 (rd_data r) \<and> \<not> rd_fails r"
  shows "\<exists>w1 ob t. upload_parts env loc (UploadID up) ps w0 = (Inr (), w1) \<and> CompleteMultipartUpload env (UploadID up) w1 = (Inr ob, t) \<and>
    ETag ob = combined env (assembled (last_parts ps)) \<and> fst (GetMultipartUpload env (UploadID up) t) = Inl (ErrNoRows (UploadID up)) \<and>
    (\<forall>F u b e. lossy env F (Obj_Chunks ob) t u \<longrightarrow>
       (\<exists>ob' u'. GetObject env loc u = (Inr ob', u') \<and> Obj_Size ob' = int (length (concat (assembled (last_parts ps)))) \<and> ETag ob' = ETag ob \<and>
          fst (Object_GetData env ob' b e u') = (case normalizeRange (int (length (concat (assembled (last_parts ps))))) b e of Inl x \<Rightarrow> Inl x
            | Inr (b', e') \<Rightarrow> Inr (take (nat e' - nat b') (drop (nat b') (concat (assembled (last_parts ps))))))))"
proof -
  let ?m = "last_parts ps" and ?i = "UploadID up" and ?bs = "availableBackends w0"
  have l: "rs_law env" "crypto_law env" "zstd_law env" "no_faults env" using assms(1) by (simp_all add: packages_def)
  have inv: "db_inv (db w)" using assms(2) by (simp add: accepting_def ready_def)
  have a0: "accepting env w0" by (rule CreateMultipartUpload_accepting [OF assms(2,3)])
  have up: "upload_in env ?bs w0 ?i loc Map.empty" using CreateMultipartUpload_in [OF inv assms(3)] by blast
  obtain w1 where w1: "upload_parts env loc ?i ps w0 = (Inr (), w1)" "accepting env w1" "availableBackends w1 = ?bs" "upload_in env ?bs w1 ?i loc ?m"
    using upload_parts_succeeds [OF assms(1) a0 up, of ps loc] assms(5) unfolding last_parts_def by blast
  have dom: "dom ?m \<subseteq> {1..10000}" "dom ?m \<noteq> {}" using assms(4,5) unfolding last_parts_def dom_foldl by auto
  have ok: "iface_ok env w1" "db_inv (db w1)" "distinct ?bs" using w1(2,3) by (simp_all add: accepting_def ready_def)
  obtain ob t where t: "CompleteMultipartUpload env ?i w1 = (Inr ob, t)" "metaDB t"
    "object_stored env ?bs t loc (combined env (assembled ?m)) (concat (assembled ?m)) (Obj_Chunks ob)"
    "ETag ob = combined env (assembled ?m)" "find (\<lambda>r. ul_id r = ?i) (t_uploads (db t)) = None"
    using CompleteMultipartUpload_in [OF l(4) ok(1,2) w1(4) dom] by blast
  have "fst (GetMultipartUpload env ?i t) = Inl (ErrNoRows ?i)"
    using t(2,5) l(4) by (simp add: GetMultipartUpload_def bindE_def getDB_eq query_row_def query_eq no_faults_def raiseE_def)
  moreover have "\<exists>ob' u'. GetObject env loc u = (Inr ob', u') \<and> Obj_Size ob' = int (length (concat (assembled ?m))) \<and> ETag ob' = ETag ob \<and>
      fst (Object_GetData env ob' b e u') = (case normalizeRange (int (length (concat (assembled ?m)))) b e of Inl x \<Rightarrow> Inl x
        | Inr (b', e') \<Rightarrow> Inr (take (nat e' - nat b') (drop (nat b') (concat (assembled ?m)))))"
    if "lossy env F (Obj_Chunks ob) t u" for F u b e
    using GetObject_stored [OF l ok(3) t(3) that, of b e] t(4) by auto
  ultimately show ?thesis using w1(1) t(1,4) by blast
qed

text \<open>Parts sent out of order, one of them twice.\<close>

definition demo_parts :: "(int \<times> reader) list" where
  "demo_parts = [(2, bytes_NewReader [4, 5]), (1, bytes_NewReader [9]), (1, bytes_NewReader [1, 2, 3])]"

lemma demo_assembled: "concat (assembled (last_parts demo_parts)) = [1, 2, 3, 4, 5]"
proof -
  have "last_parts demo_parts = [2 \<mapsto> [4, 5], 1 \<mapsto> [1, 2, 3]]" by (simp add: last_parts_def demo_parts_def bytes_NewReader_def)
  then show ?thesis by (simp add: assembled_def)
qed

theorem multipart_assembles_witness:
  "\<exists>up w0 w1 ob t. CreateMultipartUpload demo_env demo_loc demo_world = (Inr up, w0) \<and>
     upload_parts demo_env demo_loc (UploadID up) demo_parts w0 = (Inr (), w1) \<and>
     CompleteMultipartUpload demo_env (UploadID up) w1 = (Inr ob, t) \<and>
     (\<exists>ob' u'. GetObject demo_env demo_loc t = (Inr ob', u') \<and> fst (Object_GetData demo_env ob' 2 5 u') = Inr [3, 4, 5])"
proof -
  have nf: "\<not> fault demo_env k" for k using demo_no_faults by (simp add: no_faults_def)
  have "metaDB demo_world" "t_uploads (db demo_world) = []" "t_buckets (db demo_world) = []"
    by (simp_all add: demo_world_def empty_db_def)
  then obtain up w0 where c: "CreateMultipartUpload demo_env demo_loc demo_world = (Inr up, w0)"
    using nf by (simp add: CreateMultipartUpload_def meta_CreateMultipartUpload_def generateUploadID_def bindE_def getDB_eq transaction_def
        ext_call_eq time_Now_eq uuid_New_eq exec_eq GetCurrentTime_eq insert_or_ignore_bucket_def insert_bucket_def insert_upload_def returnE_def)
  have s: "stable demo_env demo_world w0"
    using CreateMultipartUpload_in [OF _ c, of "[]"] demo_accepting by (simp add: accepting_def ready_def)
  have "\<forall>(n, r) \<in> set demo_parts. 1 \<le> n \<and> n \<le> 10000 \<and> data_fits demo_env w0 (rd_data r) \<and> \<not> rd_fails r"
    using data_fits_kept [OF demo_accepting s demo_data_fits] by (simp add: demo_parts_def bytes_NewReader_def)
  from multipart_assembles [OF demo_packages demo_accepting c _ this] obtain w1 ob t where
    r: "upload_parts demo_env demo_loc (UploadID up) demo_parts w0 = (Inr (), w1)" "CompleteMultipartUpload demo_env (UploadID up) w1 = (Inr ob, t)"
    and no: "fst (GetMultipartUpload demo_env (UploadID up) t) = Inl (ErrNoRows (UploadID up))"
    and g: "\<forall>F u b e. lossy demo_env F (Obj_Chunks ob) t u \<longrightarrow>
       (\<exists>ob' u'. GetObject demo_env demo_loc u = (Inr ob', u') \<and> Obj_Size ob' = 5 \<and> ETag ob' = ETag ob \<and>
          fst (Object_GetData demo_env ob' b e u') = (case normalizeRange 5 b e of Inl x \<Rightarrow> Inl x
            | Inr (b', e') \<Rightarrow> Inr (take (nat e' - nat b') (drop (nat b') [1, 2, 3, 4, 5]))))"
    unfolding demo_assembled by (auto simp: demo_parts_def)
  have "metaDB t" using no by (cases "metaDB t") (simp_all add: GetMultipartUpload_def bindE_def getDB_eq)
  then have "lossy demo_env {} (Obj_Chunks ob) t t" by (simp add: lossy_def demo_tolerance degraded_refl)
  then obtain ob' u' where "GetObject demo_env demo_loc t = (Inr ob', u')" and d: "fst (Object_GetData demo_env ob' 2 5 u') = (case normalizeRange 5 2 5 of
      Inl x \<Rightarrow> Inl x | Inr (b', e') \<Rightarrow> Inr (take (nat e' - nat b') (drop (nat b') [1, 2, 3, 4, 5])))" using g by blast
  moreover have "fst (Object_GetData demo_env ob' 2 5 u') = Inr [3, 4, 5]" unfolding d by (simp add: normalizeRange_def)
  ultimately have "\<exists>ob' u'. GetObject demo_env demo_loc t = (Inr ob', u') \<and> fst (Object_GetData demo_env ob' 2 5 u') = Inr [3, 4, 5]" by blast
  with c r show ?thesis by blast
qed

end
