(* ===== verification/S3_Types.thy ===== *)
theory S3_Types
  imports Http
begin

text \<open>
  The values that the S3 handlers encode in a response: the structs of \<open>handlers_bucket.go\<close>,
  \<open>handlers_object.go\<close>, \<open>handlers_multipart.go\<close> and \<open>errors.go\<close>, the response writer, and the functions
  that write a response. A message is a literal text or the text of an error.
\<close>

section \<open>XML documents\<close>

datatype message = Msg string | MsgOf error

record errorResponse =
  Err_Code :: string
  Err_Message :: message
  Err_Resource :: string
  Err_RequestID :: string

record User =
  User_ID :: string
  User_DisplayName :: string

record Bucket_xml =
  bx_BucketArn :: string
  bx_BucketRegion :: string
  bx_Name :: string
  bx_CreationDate :: string

record ListAllMyBucketsResult =
  lb_Buckets :: "Bucket_xml list"
  lb_Owner :: User
  lb_ContinuationToken :: string
  lb_Prefix :: string

record Rule =
  SSEAlgorithm :: string
  KMSMasterKeyID :: string
  EncryptionType :: "string list"
  BucketKeyEnabled :: bool

record Grantee =
  Grantee_DisplayName :: string
  Grantee_EmailAddress :: string
  Grantee_ID :: string
  Grantee_Type :: string
  Grantee_URI :: string

record AccessControlList =
  Acl_Grant :: "Grantee list"
  Acl_Permission :: string

record AccessControlPolicy =
  Policy_Owner :: User
  Policy_List :: "AccessControlList list"

record Contents =
  ct_ChecksumAlgorithm :: string
  ct_ChecksumType :: string
  ct_ETag :: uint64
  ct_Key :: string
  ct_LastModified :: string
  ct_Owner :: User
  ct_IsRestoreInProgress :: bool
  ct_RestoreExpiryDate :: string
  ct_Size :: int
  ct_StorageClass :: string

text \<open>The order of \<open>CommonPrefixes\<close> is the order in which Go walks a map: any order.\<close>

record ListBucketResult =
  lo_IsTruncated :: bool
  lo_Contents :: "Contents list"
  lo_Name :: string
  lo_Prefix :: string
  lo_Delimiter :: string
  lo_MaxKeys :: int
  lo_CommonPrefixes :: "string set"
  lo_EncodingType :: string
  lo_KeyCount :: int
  lo_ContinuationToken :: int
  lo_NextContinuationToken :: int
  lo_StartAfter :: string

record DeletedObject =
  do_DeleteMarker :: bool
  do_DeleteMarkerVersionId :: string
  do_Key :: string
  do_VersionId :: string

record DeleteError =
  de_Code :: string
  de_Key :: string
  de_Message :: message
  de_VersionId :: string

record DeleteResult =
  dr_Deleted :: "DeletedObject list"
  dr_Errors :: "DeleteError list"

record InitiateMultipartUploadResult =
  im_Bucket :: string
  im_Key :: string
  im_UploadID :: string

record CompleteMultipartUploadResult =
  cm_Bucket :: string
  cm_Key :: string
  cm_ETag :: string

record ListPartsResultPart =
  lp_ETag :: string
  lp_LastModified :: string
  lp_PartNumber :: int
  lp_Size :: int

record ListPartsResult =
  ls_Bucket :: string
  ls_Key :: string
  ls_UploadID :: string
  ls_PartNumberMarker :: int
  ls_NextPartNumberMarker :: int
  ls_MaxParts :: int
  ls_IsTruncated :: bool
  ls_Parts :: "ListPartsResultPart list"
  ls_Initiator :: User
  ls_Owner :: User
  ls_StorageClass :: string
  ls_ChecksumAlgorithm :: string
  ls_ChecksumType :: string

record ListMultipartUploadsResultUpload =
  lu_ChecksumAlgorithm :: string
  lu_ChecksumType :: string
  lu_Initiated :: string
  lu_Initiator :: User
  lu_Key :: string
  lu_Owner :: User
  lu_StorageClass :: string
  lu_UploadID :: string

record ListMultipartUploadsResult =
  lm_Bucket :: string
  lm_KeyMarker :: string
  lm_UploadIDMarker :: string
  lm_NextKeyMarker :: string
  lm_Prefix :: string
  lm_Delimiter :: string
  lm_NextUploadIDMarker :: string
  lm_MaxUploads :: int
  lm_IsTruncated :: bool
  lm_Uploads :: "ListMultipartUploadsResultUpload list"
  lm_Prefixes :: "string set"
  lm_EncodingType :: string

datatype xml_body =
    XmlError errorResponse
  | XmlBuckets ListAllMyBucketsResult
  | XmlLocation string
  | XmlEncryption "Rule list"
  | XmlAcl AccessControlPolicy
  | XmlTagging "(string \<times> string) list"
  | XmlObjects ListBucketResult
  | XmlDelete DeleteResult
  | XmlInitiate InitiateMultipartUploadResult
  | XmlComplete CompleteMultipartUploadResult
  | XmlParts ListPartsResult
  | XmlUploads ListMultipartUploadsResult

datatype payload = Xml xml_body | Data bytes

section \<open>The response writer\<close>

text \<open>The first \<open>WriteHeader\<close> fixes the status and the headers that are sent (a body write before it sends
  200); later ones change nothing.\<close>

record response =
  rw_status :: "int option"
  rw_header :: "string \<rightharpoonup> string"
  rw_sent :: "string \<rightharpoonup> string"
  rw_body :: "payload list"

definition newResponse :: response where
  "newResponse = \<lparr>rw_status = None, rw_header = Map.empty, rw_sent = Map.empty, rw_body = []\<rparr>"

definition setHeader :: "string \<Rightarrow> string \<Rightarrow> response \<Rightarrow> response" where
  "setHeader name v w = w\<lparr>rw_header := (rw_header w)(CanonicalHeaderKey name \<mapsto> v)\<rparr>"

definition writeHeader :: "int \<Rightarrow> response \<Rightarrow> response" where
  "writeHeader status w =
     (if rw_status w = None then w\<lparr>rw_status := Some status, rw_sent := rw_header w\<rparr> else w)"

definition writeBody :: "payload \<Rightarrow> response \<Rightarrow> response" where
  "writeBody p w = (let w' = writeHeader 200 w in w'\<lparr>rw_body := rw_body w' @ [p]\<rparr>)"

text \<open>The status the client sees when the handler has returned.\<close>

definition finalStatus :: "response \<Rightarrow> int" where
  "finalStatus w = (case rw_status w of None \<Rightarrow> 200 | Some s \<Rightarrow> s)"

definition error_xml :: "string \<Rightarrow> message \<Rightarrow> string \<Rightarrow> xml_body" where
  "error_xml code msg resource = XmlError \<lparr>Err_Code = code, Err_Message = msg, Err_Resource = resource,
     Err_RequestID = ''shards3-request''\<rparr>"

definition writeS3Error :: "int \<Rightarrow> string \<Rightarrow> message \<Rightarrow> string \<Rightarrow> response \<Rightarrow> response" where
  "writeS3Error status code msg resource w =
     writeBody (Xml (error_xml code msg resource))
       (writeHeader status (setHeader ''Content-Type'' ''application/xml'' w))"

section \<open>Response headers\<close>

datatype hval = HString string | HInt int | HUint uint64 | HBool bool | HTime gotime

definition RFC1123 :: string where
  "RFC1123 = ''Mon, 02 Jan 2006 15:04:05 MST''"

definition RFC3339 :: string where
  "RFC3339 = ''2006-01-02T15:04:05Z07:00''"

definition header_text :: "'r env \<Rightarrow> hval \<Rightarrow> string" where
  "header_text env h = (case h of HString s \<Rightarrow> s | HInt i \<Rightarrow> FormatInt i | HUint u \<Rightarrow> FormatUint u
     | HBool b \<Rightarrow> (if b then ''true'' else ''false'')
     | HTime t \<Rightarrow> time_format env RFC1123 t)"

text \<open>A header struct is the list of its tagged fields; every one of them is set, the empty ones too.\<close>

type_synonym headers = "(string \<times> hval) list"

definition applyHeaders :: "'r env \<Rightarrow> headers \<Rightarrow> response \<Rightarrow> response" where
  "applyHeaders env hs w = fold (\<lambda>(name, h). setHeader name (header_text env h)) hs w"

record ObjectResponse =
  or_AcceptRanges :: string
  or_LastModified :: gotime
  or_ContentLength :: int
  or_xxHash64 :: uint64
  or_ChecksumType :: string
  or_ETag :: uint64
  or_CacheControl :: string
  or_ContentDisposition :: string
  or_ContentEncoding :: string
  or_ContentLanguage :: string
  or_ContentType :: string
  or_DeleteMarker :: string
  or_ContentRange :: string
  or_StorageClass :: string
  or_ObjectSize :: int
  or_Expires :: gotime

definition noObjectResponse :: ObjectResponse where
  "noObjectResponse = \<lparr>or_AcceptRanges = [], or_LastModified = 0, or_ContentLength = 0, or_xxHash64 = 0,
     or_ChecksumType = [], or_ETag = 0, or_CacheControl = [], or_ContentDisposition = [], or_ContentEncoding = [],
     or_ContentLanguage = [], or_ContentType = [], or_DeleteMarker = [], or_ContentRange = [], or_StorageClass = [],
     or_ObjectSize = 0, or_Expires = 0\<rparr>"

definition ObjectResponse_headers :: "ObjectResponse \<Rightarrow> headers" where
  "ObjectResponse_headers h = [(''accept-ranges'', HString (or_AcceptRanges h)), (''last-modified'', HTime (or_LastModified h)),
     (''Content-Length'', HInt (or_ContentLength h)), (''x-amz-checksum-xxhash64'', HUint (or_xxHash64 h)),
     (''x-amz-checksum-type'', HString (or_ChecksumType h)), (''ETag'', HUint (or_ETag h)),
     (''Cache-Control'', HString (or_CacheControl h)), (''Content-Disposition'', HString (or_ContentDisposition h)),
     (''Content-Encoding'', HString (or_ContentEncoding h)), (''Content-Language'', HString (or_ContentLanguage h)),
     (''Content-Type'', HString (or_ContentType h)), (''x-amz-delete-marker'', HString (or_DeleteMarker h)),
     (''Content-Range'', HString (or_ContentRange h)), (''x-amz-storage-class'', HString (or_StorageClass h)),
     (''x-amz-object-size'', HInt (or_ObjectSize h)), (''Expires'', HTime (or_Expires h))]"

definition MultipartResponse_headers :: "string \<Rightarrow> string \<Rightarrow> uint64 \<Rightarrow> headers" where
  "MultipartResponse_headers checksumAlgorithm checksumType etag = [(''x-amz-checksum-algorithm'', HString checksumAlgorithm),
     (''x-amz-checksum-type'', HString checksumType), (''ETag'', HUint etag)]"

definition BucketResponse_headers :: "string \<Rightarrow> string \<Rightarrow> headers" where
  "BucketResponse_headers arn region = [(''x-amz-bucket-arn'', HString arn), (''x-amz-bucket-region'', HString region)]"

section \<open>Writing a response\<close>

definition xml_header :: "xml_body option \<Rightarrow> response \<Rightarrow> response" where
  "xml_header body w = (if body = None then w else setHeader ''Content-Type'' ''application/xml'' w)"

definition write_xml :: "xml_body option \<Rightarrow> response \<Rightarrow> response" where
  "write_xml body w = (case body of None \<Rightarrow> w | Some x \<Rightarrow> writeBody (Xml x) w)"

definition WriteResponse :: "'r env \<Rightarrow> int \<Rightarrow> headers \<Rightarrow> xml_body option \<Rightarrow> bytes option \<Rightarrow> response \<Rightarrow> response" where
  "WriteResponse env status hs body data w =
     (let w1 = write_xml body (writeHeader status (applyHeaders env hs (xml_header body w)))
      in case data of None \<Rightarrow> w1 | Some d \<Rightarrow> writeBody (Data d) w1)"

text \<open>\<open>io.Copy\<close> from a stream: what it delivers is written, then its error is returned.\<close>

definition WriteResponseStream :: "'r env \<Rightarrow> int \<Rightarrow> headers \<Rightarrow> xml_body option \<Rightarrow> bytes \<times> error option
    \<Rightarrow> response \<Rightarrow> error option \<times> response" where
  "WriteResponseStream env status hs body data w =
     (let w1 = write_xml body (writeHeader status (applyHeaders env hs (xml_header body w)))
      in (snd data, if fst data = [] then w1 else writeBody (Data (fst data)) w1))"

section \<open>Handlers\<close>

type_synonym ('w, 'a) web = "(response \<times> 'w, 'a) comp"

text \<open>A call of the storage system: its error is a value for the handler, except a panic (which ends the
  handler) and a call that never returns.\<close>

definition fatal :: "error \<Rightarrow> bool" where
  "fatal e \<longleftrightarrow> e = ErrPanic \<or> e = ErrDiverge"

definition callE :: "('w, 'a) comp \<Rightarrow> ('w, 'a res) web" where
  "callE m = (\<lambda>(rw, w). case m w of (r, w') \<Rightarrow>
     (case r of Inl e \<Rightarrow> if fatal e then Inl e else Inr (Inl e) | Inr x \<Rightarrow> Inr (Inr x), (rw, w')))"

definition liftW :: "('w, 'a) comp \<Rightarrow> ('w, 'a) web" where
  "liftW m = (\<lambda>(rw, w). case m w of (r, w') \<Rightarrow> (r, (rw, w')))"

definition replyE :: "(response \<Rightarrow> response) \<Rightarrow> ('w, unit) web" where
  "replyE f = (\<lambda>(rw, w). (Inr (), (f rw, w)))"

text \<open>\<open>if err != nil { reply; return }\<close>.\<close>

definition orReply :: "'a res \<Rightarrow> (error \<Rightarrow> response \<Rightarrow> response) \<Rightarrow> ('a \<Rightarrow> ('w, unit) web) \<Rightarrow> ('w, unit) web" where
  "orReply r f k = (case r of Inl e \<Rightarrow> replyE (f e) | Inr x \<Rightarrow> k x)"

definition internalError :: "string \<Rightarrow> error \<Rightarrow> response \<Rightarrow> response" where
  "internalError resource e = writeS3Error 500 ''InternalError'' (MsgOf e) resource"

end
