(* ===== verification/Requests.thy ===== *)
theory Requests
  imports S3_Types
begin

text \<open>
  Reading a request (\<open>s3/web/requests.go\<close>, \<open>server.go\<close>): the bucket in the host name, the request
  structs that \<open>GetRequest\<close> fills by reflection, the checks of \<open>HandleRequest\<close>, and the range header; with
  the defaults of \<open>defaults.go\<close> and the resource names of \<open>ARN/arn.go\<close>.

  A struct type that is filled by reflection is the list of its fields with their tags; a value of it gives
  each field name its value.
\<close>

section \<open>Hosts (\<open>server.go\<close>)\<close>

definition normalizeHost :: "string \<Rightarrow> string" where
  "normalizeHost host =
     (let h = trimSpace (toLower host)
      in trimSuffix (case SplitHostPort h of None \<Rightarrow> h | Some (parsedHost, _) \<Rightarrow> parsedHost) ''.'')"

definition bucketFromHost :: "string \<Rightarrow> string \<Rightarrow> string option" where
  "bucketFromHost host fqdn =
     (let normalizedHost = normalizeHost host; normalizedFQDN = normalizeHost fqdn
      in if normalizedHost = [] \<or> normalizedFQDN = [] \<or> normalizedHost = normalizedFQDN then None
         else let suffix = ''.'' @ normalizedFQDN
              in if \<not> hasSuffix normalizedHost suffix then None
                 else let bucketName = trimSuffix normalizedHost suffix
                      in if bucketName = [] \<or> strContains bucketName ''.'' then None else Some bucketName)"

section \<open>Request structs\<close>

datatype field_source = FromHost | FromPath | FromQuery | FromHeader

datatype field_kind = KInt | KString | KTime

record field_tag =
  f_Name :: string
  f_http :: string
  f_source :: field_source
  f_kind :: field_kind
  f_default :: string
  f_range :: "(int \<times> int) option"
  f_label :: string

datatype field_value = VInt int | VString string | VTime gotime

type_synonym http_struct = "(string \<times> field_value) list"

text \<open>A field with nothing but its name, its \<open>http\<close> tag and its type.\<close>

definition fld :: "string \<Rightarrow> string \<Rightarrow> field_source \<Rightarrow> field_kind \<Rightarrow> field_tag" where
  "fld name http src kind = \<lparr>f_Name = name, f_http = http, f_source = src, f_kind = kind, f_default = [],
     f_range = None, f_label = []\<rparr>"

definition the_string :: "http_struct \<Rightarrow> string \<Rightarrow> string" where
  "the_string q name = (case map_of q name of Some (VString s) \<Rightarrow> s | _ \<Rightarrow> [])"

definition the_int :: "http_struct \<Rightarrow> string \<Rightarrow> int" where
  "the_int q name = (case map_of q name of Some (VInt i) \<Rightarrow> i | _ \<Rightarrow> 0)"

definition the_time :: "http_struct \<Rightarrow> string \<Rightarrow> gotime" where
  "the_time q name = (case map_of q name of Some (VTime t) \<Rightarrow> t | _ \<Rightarrow> 0)"

section \<open>GetRequest and HandleRequest (\<open>requests.go\<close>)\<close>

definition host_value :: "'r env \<Rightarrow> request \<Rightarrow> string" where
  "host_value env r = (case bucketFromHost (rq_Host r) (FQDN (Cfg env)) of None \<Rightarrow> [] | Some b \<Rightarrow> b)"

definition raw_value :: "'r env \<Rightarrow> request \<Rightarrow> field_tag \<Rightarrow> string" where
  "raw_value env r f = (case f_source f of
     FromHost \<Rightarrow> host_value env r
   | FromPath \<Rightarrow> (if hasPrefix (rq_Path r) ''/'' then tl (rq_Path r) else rq_Path r)
   | FromQuery \<Rightarrow> Query_Get r (f_http f)
   | FromHeader \<Rightarrow> Header_Get r (f_http f))"

definition field_parse :: "'r env \<Rightarrow> field_tag \<Rightarrow> string \<Rightarrow> field_value res" where
  "field_parse env f v = (case f_kind f of
     KInt \<Rightarrow> (if v = [] then Inr (VInt 0)
              else case ParseInt 64 v of Inl _ \<Rightarrow> Inl (ErrField (f_Name f)) | Inr i \<Rightarrow> Inr (VInt i))
   | KString \<Rightarrow> Inr (VString v)
   | KTime \<Rightarrow> (if v = [] then Inr (VTime 0)
              else case time_parse env RFC1123 v of None \<Rightarrow> Inl (ErrField (f_Name f)) | Some t \<Rightarrow> Inr (VTime t)))"

definition field_value :: "'r env \<Rightarrow> request \<Rightarrow> field_tag \<Rightarrow> field_value res" where
  "field_value env r f =
     (let value = raw_value env r f
      in field_parse env f (if value = [] \<and> f_default f \<noteq> [] then f_default f else value))"

fun GetRequest :: "'r env \<Rightarrow> field_tag list \<Rightarrow> request \<Rightarrow> http_struct res" where
  "GetRequest env [] r = Inr []"
| "GetRequest env (f # fs) r =
     (case field_value env r f of
        Inl e \<Rightarrow> Inl e
      | Inr v \<Rightarrow> (case GetRequest env fs r of Inl e \<Rightarrow> Inl e | Inr q \<Rightarrow> Inr ((f_Name f, v) # q)))"

text \<open>\<open>reflect.Value.String\<close>: only a string gives its own text, an integer gives \<open><int Value>\<close>.\<close>

definition reflect_String :: "field_value \<Rightarrow> string" where
  "reflect_String v = (case v of VString s \<Rightarrow> s | VInt _ \<Rightarrow> ''<int Value>'' | VTime _ \<Rightarrow> ''<time.Time Value>'')"

definition field_label :: "field_tag \<Rightarrow> string" where
  "field_label f = (if f_label f = [] then f_http f else f_label f)"

definition missing_field :: "bool \<Rightarrow> bool \<Rightarrow> string list \<Rightarrow> string list \<Rightarrow> field_tag \<Rightarrow> field_value
    \<Rightarrow> (response \<Rightarrow> response) option" where
  "missing_field bucketRequired keyRequired requiredHeaders requiredQueries f v =
     (if reflect_String v \<noteq> [] then None
      else case f_source f of
        FromHost \<Rightarrow> (if bucketRequired
           then Some (writeS3Error 400 (''Invalid'' @ f_Name f) (Msg (field_label f @ '' not found in host'')) []) else None)
      | FromPath \<Rightarrow> (if keyRequired
           then Some (writeS3Error 400 (''Invalid'' @ f_Name f) (Msg (field_label f @ '' not found in path'')) []) else None)
      | FromQuery \<Rightarrow> (if f_http f \<in> set requiredQueries
           then Some (writeS3Error 400 (''Missing'' @ f_Name f) (Msg (field_label f @ '' is required'')) []) else None)
      | FromHeader \<Rightarrow> (if f_http f \<in> set requiredHeaders
           then Some (writeS3Error 400 (''Missing'' @ f_Name f) (Msg (field_label f @ '' is required'')) []) else None))"

definition range_provided :: "'r env \<Rightarrow> request \<Rightarrow> field_tag \<Rightarrow> bool" where
  "range_provided env r f = (case f_source f of
     FromHost \<Rightarrow> host_value env r \<noteq> []
   | FromPath \<Rightarrow> rq_Path r \<noteq> []
   | FromQuery \<Rightarrow> Query_Get r (f_http f) \<noteq> []
   | FromHeader \<Rightarrow> Header_Get r (f_http f) \<noteq> [])"

definition out_of_range :: "'r env \<Rightarrow> request \<Rightarrow> field_tag \<Rightarrow> field_value \<Rightarrow> (response \<Rightarrow> response) option" where
  "out_of_range env r f v = (case (v, f_range f) of
     (VInt i, Some (a, b)) \<Rightarrow>
       (if range_provided env r f \<and> (i < a \<or> b < i)
        then Some (writeS3Error 400 (''Invalid'' @ f_Name f)
               (Msg (field_label f @ '' must be between '' @ FormatInt a @ '' and '' @ FormatInt b)) [])
        else None)
   | _ \<Rightarrow> None)"

fun check_fields :: "'r env \<Rightarrow> request \<Rightarrow> bool \<Rightarrow> bool \<Rightarrow> string list \<Rightarrow> string list \<Rightarrow> field_tag list \<Rightarrow> http_struct
    \<Rightarrow> (response \<Rightarrow> response) option" where
  "check_fields env r bucketRequired keyRequired requiredHeaders requiredQueries (f # fs) ((n, v) # q) =
     (case missing_field bucketRequired keyRequired requiredHeaders requiredQueries f v of
        Some reply \<Rightarrow> Some reply
      | None \<Rightarrow> (case out_of_range env r f v of
          Some reply \<Rightarrow> Some reply
        | None \<Rightarrow> check_fields env r bucketRequired keyRequired requiredHeaders requiredQueries fs q))"
| "check_fields env r bucketRequired keyRequired requiredHeaders requiredQueries _ _ = None"

definition HandleRequest :: "'r env \<Rightarrow> field_tag list \<Rightarrow> request \<Rightarrow> bool \<Rightarrow> bool \<Rightarrow> string list \<Rightarrow> string list
    \<Rightarrow> (http_struct \<Rightarrow> ('w, unit) web) \<Rightarrow> ('w, unit) web" where
  "HandleRequest env tags r bucketRequired keyRequired requiredHeaders requiredQueries k =
     (case GetRequest env tags r of
        Inl e \<Rightarrow> replyE (internalError [] e)
      | Inr q \<Rightarrow> (case check_fields env r bucketRequired keyRequired requiredHeaders requiredQueries tags q of
          Some reply \<Rightarrow> replyE reply
        | None \<Rightarrow> k q))"

section \<open>The range header\<close>

definition isDigit :: "char \<Rightarrow> bool" where
  "isDigit c \<longleftrightarrow> digit_val c \<noteq> None"

text \<open>The class \<open>\s\<close> of the package \<open>regexp\<close>.\<close>

definition isRegexSpace :: "char \<Rightarrow> bool" where
  "isRegexSpace c \<longleftrightarrow> of_char c \<in> {9, 10, 12, 13, 32 :: nat}"

text \<open>The expression \<open>^bytes(?:\s+|=)(\d+)-(\d+)(?:\/(\d+|\*))?$\<close> with its three groups; a group that takes no part
  is empty.\<close>

definition match_range :: "string \<Rightarrow> (string \<times> string \<times> string) option" where
  "match_range h =
     (if \<not> hasPrefix h ''bytes'' then None
      else let s = drop 5 h;
               s1 = (if hasPrefix s ''='' then Some (tl s)
                     else if s \<noteq> [] \<and> isRegexSpace (hd s) then Some (dropWhile isRegexSpace s) else None)
           in case s1 of
                None \<Rightarrow> None
              | Some t \<Rightarrow>
                  (let g1 = takeWhile isDigit t; t1 = dropWhile isDigit t
                   in if g1 = [] \<or> \<not> hasPrefix t1 ''-'' then None
                      else let t2 = tl t1; g2 = takeWhile isDigit t2; t3 = dropWhile isDigit t2
                           in if g2 = [] then None
                              else if t3 = [] then Some (g1, g2, [])
                              else if \<not> hasPrefix t3 ''/'' then None
                              else let g3 = tl t3
                                   in if g3 = ''*'' \<or> (g3 \<noteq> [] \<and> list_all isDigit g3) then Some (g1, g2, g3) else None))"

text \<open>The sum of two \<open>int64\<close>s.\<close>

definition wrap64 :: "int \<Rightarrow> int" where
  "wrap64 x = (x + 2 ^ 63) mod 2 ^ 64 - 2 ^ 63"

definition ParseContentRangeHeader :: "string \<Rightarrow> (int \<times> int \<times> int) res" where
  "ParseContentRangeHeader header =
     (case match_range (trimSpace header) of
        None \<Rightarrow> Inl (ErrHeader header)
      | Some (m1, m2, m3) \<Rightarrow>
          (case ParseInt 64 m1 of
             Inl _ \<Rightarrow> Inl (ErrHeader header)
           | Inr start \<Rightarrow>
               (case ParseInt 64 m2 of
                  Inl _ \<Rightarrow> Inl (ErrHeader header)
                | Inr inclusiveEnd \<Rightarrow>
                    (let stop = wrap64 (inclusiveEnd + 1)
                     in if m3 = [] \<or> m3 = ''*'' then Inr (start, stop, -1)
                        else case ParseInt 64 m3 of Inl _ \<Rightarrow> Inl (ErrHeader header) | Inr whole \<Rightarrow> Inr (start, stop, whole)))))"

section \<open>Defaults and resource names\<close>

definition GetDefaultUser :: "'r env \<Rightarrow> User" where
  "GetDefaultUser env = \<lparr>User_ID = S3AccountID (Cfg env), User_DisplayName = ServiceName (Cfg env)\<rparr>"

definition GetDefaultStorageClass :: "'r env \<Rightarrow> string" where
  "GetDefaultStorageClass env = StorageClass (Cfg env)"

record ChecksumMetadata =
  cmd_Algorithm :: string
  cmd_Type :: string

definition GetDefaultChecksumMetadata :: ChecksumMetadata where
  "GetDefaultChecksumMetadata = \<lparr>cmd_Algorithm = ''XXHASH64'', cmd_Type = ''FULL_OBJECT''\<rparr>"

definition getArn :: "'r env \<Rightarrow> string \<Rightarrow> string \<Rightarrow> string \<Rightarrow> string" where
  "getArn env service resourceType resourceId =
     ''arn:aws:'' @ service @ '':'' @ S3Region (Cfg env) @ '':'' @ S3AccountID (Cfg env) @ '':'' @ resourceType @
       (if resourceType \<noteq> [] then '':'' @ resourceId else resourceId)"

definition GetBucketArn :: "'r env \<Rightarrow> string \<Rightarrow> string" where
  "GetBucketArn env bucketName = getArn env ''s3'' ''bucket'' bucketName"

end
