(* ===== verification/Sig_V4.thy ===== *)
theory Sig_V4
  imports Requests "HOL-Library.Product_Lexorder"
begin

text \<open>
  Request signatures (\<open>s3/auth/service.go\<close>): the authorization header, the canonical request and the
  derivation of the signing key. SHA-256 and HMAC are parameters.
\<close>

definition sigV4Algorithm :: string where
  "sigV4Algorithm = ''AWS4-HMAC-SHA256''"

definition emptySHA256Hash :: string where
  "emptySHA256Hash = ''e3b0c44298fc1c149afbf4c8996fb92427ae41e4649b934ca495991b7852b855''"

section \<open>The service\<close>

record auth_config =
  ac_AccessKeyID :: string
  ac_SecretAccessKey :: string
  ac_Region :: string
  ac_AllowedSkew :: int

record auth_service =
  as_accessKeyID :: string
  as_secretAccessKey :: string
  as_region :: string
  as_allowedSkew :: int

definition NewAuthService :: "auth_config \<Rightarrow> auth_service" where
  "NewAuthService cfg =
     (let allowedSkew = (if ac_AllowedSkew cfg \<le> 0 then 5 * 60 * 1000000000 else ac_AllowedSkew cfg);
          region = trimSpace (ac_Region cfg)
      in \<lparr>as_accessKeyID = ac_AccessKeyID cfg, as_secretAccessKey = ac_SecretAccessKey cfg,
          as_region = (if region = [] then ''us-east-1'' else region), as_allowedSkew = allowedSkew\<rparr>)"

section \<open>The authorization header\<close>

text \<open>A later field replaces an earlier one of the same name.\<close>

fun parseFields :: "string list \<Rightarrow> (string \<rightharpoonup> string) \<Rightarrow> (string \<rightharpoonup> string) res" where
  "parseFields [] fs = Inr fs"
| "parseFields (part # parts) fs =
     (let p = trimSpace part
      in if p = [] then parseFields parts fs
         else case strCut CHR ''='' p of
           None \<Rightarrow> Inl (ErrHeader p)
         | Some (k, v) \<Rightarrow> parseFields parts (fs(trimSpace k \<mapsto> trimSpace v)))"

definition parseAuthorizationFields :: "string \<Rightarrow> (string \<rightharpoonup> string) res" where
  "parseAuthorizationFields raw = parseFields (strSplit CHR '','' raw) Map.empty"

definition isSortedLowerHeaderList :: "string list \<Rightarrow> bool" where
  "isSortedLowerHeaderList hs \<longleftrightarrow> hs \<noteq> [] \<and> (\<forall>h \<in> set hs. h \<noteq> [] \<and> h = toLower h) \<and> sorted hs"

section \<open>The canonical request\<close>

definition collapseSpaces :: "string \<Rightarrow> string" where
  "collapseSpaces s = strJoin '' '' (strFields s)"

fun canonicalLines :: "request \<Rightarrow> string list \<Rightarrow> string list res" where
  "canonicalLines r [] = Inr []"
| "canonicalLines r (name # names) =
     (let value = trimSpace (collapseSpaces (if name = ''host'' then rq_Host r else Header_Get r name))
      in if value = [] then Inl (ErrHeader name)
         else case canonicalLines r names of Inl e \<Rightarrow> Inl e | Inr ls \<Rightarrow> Inr ((name @ '':'' @ value) # ls))"

definition newline :: string where
  "newline = [char_of (10 :: nat)]"

definition buildCanonicalHeaders :: "request \<Rightarrow> string list \<Rightarrow> string res" where
  "buildCanonicalHeaders r names =
     (case canonicalLines r names of Inl e \<Rightarrow> Inl e | Inr ls \<Rightarrow> Inr (strJoin newline ls @ newline))"

definition canonicalURI :: "request \<Rightarrow> string" where
  "canonicalURI r = (if rq_EscapedPath r = [] then ''/'' else rq_EscapedPath r)"

text \<open>\<open>strings.ReplaceAll\<close> with a pattern that is not empty.\<close>

function replaceAll :: "string \<Rightarrow> string \<Rightarrow> string \<Rightarrow> string" where
  "replaceAll p q s =
     (if p = [] then s
      else case s of [] \<Rightarrow> [] | c # cs \<Rightarrow>
        (if hasPrefix s p then q @ replaceAll p q (drop (length p) s) else c # replaceAll p q cs))"
  by pat_completeness auto
termination
  by (relation "measure (\<lambda>(p, q, s). length s)") (auto simp: diff_less)

declare replaceAll.simps [simp del]

definition awsQueryEscape :: "string \<Rightarrow> string" where
  "awsQueryEscape s = replaceAll ''%7E'' ''~'' (replaceAll ''*'' ''%2A'' (replaceAll ''+'' ''%20'' (QueryEscape s)))"

definition canonicalQueryString :: "request \<Rightarrow> string" where
  "canonicalQueryString r =
     (if rq_RawQuery r = [] then []
      else let values = ParseQuery (rq_RawQuery r);
               keys = sort (remdups (map fst values))
           in strJoin ''&'' (concat (map (\<lambda>k. map (\<lambda>v. awsQueryEscape k @ ''='' @ awsQueryEscape v)
                (sort (map snd (filter (\<lambda>kv. fst kv = k) values)))) keys)))"

section \<open>The signature\<close>

definition ascii :: "string \<Rightarrow> bytes" where
  "ascii s = map of_char s"

definition hex_EncodeToString :: "bytes \<Rightarrow> string" where
  "hex_EncodeToString d = concat (map (\<lambda>b. [toLower_char (hexDigit (unat b div 16)), toLower_char (hexDigit (unat b mod 16))]) d)"

definition deriveSigningKey :: "'r env \<Rightarrow> string \<Rightarrow> string \<Rightarrow> string \<Rightarrow> string \<Rightarrow> bytes" where
  "deriveSigningKey env secret date region service =
     hmac_sum env (hmac_sum env (hmac_sum env (hmac_sum env (ascii (''AWS4'' @ secret)) (ascii date)) (ascii region))
       (ascii service)) (ascii ''aws4_request'')"

definition sign :: "'r env \<Rightarrow> auth_service \<Rightarrow> request \<Rightarrow> string \<Rightarrow> string \<Rightarrow> string \<Rightarrow> string \<Rightarrow> string \<Rightarrow> string \<Rightarrow> string" where
  "sign env s r scopeDate scopeRegion amzDate canonicalHeaders signedHeaders payloadHash =
     (let canonicalRequest = strJoin newline [rq_Method r, canonicalURI r, canonicalQueryString r, canonicalHeaders,
            signedHeaders, payloadHash];
          scope = strJoin ''/'' [scopeDate, scopeRegion, ''s3'', ''aws4_request''];
          stringToSign = strJoin newline [sigV4Algorithm, amzDate, scope, hex_EncodeToString (sha256 env (ascii canonicalRequest))]
      in hex_EncodeToString (hmac_sum env (deriveSigningKey env (as_secretAccessKey s) scopeDate scopeRegion ''s3'')
           (ascii stringToSign)))"

definition layout_amz :: string where
  "layout_amz = ''20060102T150405Z''"

definition payload_hash :: "request \<Rightarrow> string option" where
  "payload_hash r = (let h = trimSpace (Header_Get r ''X-Amz-Content-Sha256'')
     in if h \<noteq> [] then Some h else if rq_ContentLength r = 0 then Some emptySHA256Hash else None)"

text \<open>The checks after the clock was read.\<close>

definition verify_at :: "'r env \<Rightarrow> auth_service \<Rightarrow> request \<Rightarrow> gotime \<Rightarrow> gotime \<Rightarrow> string \<Rightarrow> string \<Rightarrow> string \<Rightarrow> string
    \<Rightarrow> string \<Rightarrow> unit res" where
  "verify_at env s r now signedAt amzDate scopeDate scopeRegion signedHeaders signature =
     (if signedAt - now > as_allowedSkew s \<or> now - signedAt > as_allowedSkew s then Inl ErrInvalidDate
      else if time_format env ''20060102'' signedAt \<noteq> scopeDate
        then Inl (ErrInvalidAuthorization ''x-amz-date and scope date mismatch'')
      else case payload_hash r of None \<Rightarrow> Inl (ErrInvalidAuthorization ''missing x-amz-content-sha256'') | Some payloadHash \<Rightarrow>
        (let names = strSplit CHR '';'' signedHeaders
         in if \<not> isSortedLowerHeaderList names
              then Inl (ErrInvalidAuthorization ''signed headers must be lowercase and sorted'')
            else case buildCanonicalHeaders r names of
              Inl _ \<Rightarrow> Inl (ErrInvalidAuthorization ''missing signed header'')
            | Inr canonicalHeaders \<Rightarrow>
                (if signature \<noteq> sign env s r scopeDate scopeRegion amzDate canonicalHeaders signedHeaders payloadHash
                 then Inl ErrInvalidSignature else Inr ())))"

definition VerifyRequest :: "'r env \<Rightarrow> auth_service \<Rightarrow> request \<Rightarrow> (('r, 'x) host_scheme, unit) comp" where
  "VerifyRequest env s r =
     (let authHeader = trimSpace (Header_Get r ''Authorization''); invalid = (\<lambda>t. raiseE (ErrInvalidAuthorization t))
      in if authHeader = [] then raiseE ErrMissingAuthorization
         else if \<not> hasPrefix authHeader (sigV4Algorithm @ '' '') then invalid ''unsupported authorization algorithm''
         else case parseAuthorizationFields (trimPrefix authHeader (sigV4Algorithm @ '' '')) of
           Inl _ \<Rightarrow> invalid ''malformed field''
         | Inr named \<Rightarrow>
             (case named ''Credential'' of None \<Rightarrow> invalid ''missing credential'' | Some credential \<Rightarrow>
             (case named ''SignedHeaders'' of None \<Rightarrow> invalid ''missing signed headers'' | Some signedHeaders \<Rightarrow>
              if signedHeaders = [] then invalid ''missing signed headers'' else
             (case named ''Signature'' of None \<Rightarrow> invalid ''missing signature'' | Some signature \<Rightarrow>
              if signature = [] then invalid ''missing signature'' else
             (case strSplit CHR ''/'' credential of
                [accessKeyID, scopeDate, scopeRegion, scopeService, scopeTerminator] \<Rightarrow>
                  (if accessKeyID \<noteq> as_accessKeyID s then invalid ''access key mismatch''
                   else if scopeRegion \<noteq> as_region s \<or> scopeService \<noteq> ''s3'' \<or> scopeTerminator \<noteq> ''aws4_request''
                     then invalid ''invalid credential scope''
                   else let amzDate = trimSpace (Header_Get r ''X-Amz-Date'')
                        in if amzDate = [] then raiseE ErrInvalidDate
                           else case time_parse env layout_amz amzDate of
                             None \<Rightarrow> raiseE ErrInvalidDate
                           | Some signedAt \<Rightarrow> bindE (time_Now env) (\<lambda>now.
                               liftE (verify_at env s r now signedAt amzDate scopeDate scopeRegion signedHeaders signature)))
              | _ \<Rightarrow> invalid ''malformed credential scope'')))))"

end
