(* ===== verification/Sig_Theorems.thy ===== *)
theory Sig_Theorems
  imports Sig_V4 Concrete
begin

text \<open>
  Signed requests: what the server accepts of a request that carries the authorization header of a client.
\<close>

section \<open>Splitting and trimming\<close>

lemma strSplit_free: "x \<notin> set s \<Longrightarrow> strSplit x s = [s]"
  by (induction s) auto

lemma strSplit_append: "x \<notin> set s \<Longrightarrow> strSplit x (s @ x # t) = s # strSplit x t"
  by (induction s) auto

lemma strSplit_join: "names \<noteq> [] \<Longrightarrow> \<forall>n \<in> set names. x \<notin> set n \<Longrightarrow> strSplit x (strJoin [x] names) = names"
  by (induction "[x]" names rule: strJoin.induct) (simp_all add: strSplit_free strSplit_append)

lemma strJoin_nonempty: "n \<noteq> [] \<Longrightarrow> strJoin sep (n # ns) \<noteq> []"
  by (cases ns) simp_all

lemma strCut_append: "x \<notin> set k \<Longrightarrow> strCut x (k @ x # v) = Some (k, v)"
  by (induction k) (auto simp: strCut_def split: list.splits)

text \<open>Texts that can stand in the header: no space, no separator.\<close>

definition token :: "string \<Rightarrow> bool" where
  "token x \<longleftrightarrow> x \<noteq> [] \<and> (\<forall>c \<in> set x. \<not> isSpace c \<and> c \<notin> {CHR '','', CHR ''/'', CHR '';''})"

lemma trimSpace_solid: "\<forall>c \<in> set x. \<not> isSpace c \<Longrightarrow> trimSpace x = x"
  by (cases "x = []") (simp_all add: trimSpace_id, simp add: trimSpace_def)

lemma trimSpace_blank: "trimSpace (CHR '' '' # s) = trimSpace s"
  by (simp add: trimSpace_def isSpace_def)

section \<open>The header of a client\<close>

definition authorization :: "string \<Rightarrow> string \<Rightarrow> string \<Rightarrow> string list \<Rightarrow> string \<Rightarrow> string" where
  "authorization akid date region names sig =
     sigV4Algorithm @ '' Credential='' @ strJoin ''/'' [akid, date, region, ''s3'', ''aws4_request''] @
     '', SignedHeaders='' @ strJoin '';'' names @ '', Signature='' @ sig"


lemma solid_join: "\<forall>n \<in> set ns. \<forall>c \<in> set n. Q c \<Longrightarrow> \<forall>c \<in> set sep. Q c \<Longrightarrow> \<forall>c \<in> set (strJoin sep ns). Q c"
  by (induction sep ns rule: strJoin.induct) auto

lemma parse_authorization:
  assumes "\<forall>c \<in> set cred. \<not> isSpace c \<and> c \<noteq> CHR '',''" and "\<forall>c \<in> set sh. \<not> isSpace c \<and> c \<noteq> CHR '',''"
    and "\<forall>c \<in> set sig. \<not> isSpace c \<and> c \<noteq> CHR '',''"
  shows "parseAuthorizationFields (''Credential='' @ cred @ '', SignedHeaders='' @ sh @ '', Signature='' @ sig) =
    Inr [''Credential'' \<mapsto> cred, ''SignedHeaders'' \<mapsto> sh, ''Signature'' \<mapsto> sig]"
proof -
  have "strSplit CHR '','' ((''Credential='' @ cred) @ CHR '','' # ('' SignedHeaders='' @ sh) @ CHR '','' # ('' Signature='' @ sig)) =
      [''Credential='' @ cred, '' SignedHeaders='' @ sh, '' Signature='' @ sig]"
    using assms by (subst strSplit_append, use assms in force, subst strSplit_append, use assms in force, subst strSplit_free) auto
  then have split: "strSplit CHR '','' (''Credential='' @ cred @ '', SignedHeaders='' @ sh @ '', Signature='' @ sig) =
      [''Credential='' @ cred, '' SignedHeaders='' @ sh, '' Signature='' @ sig]" by simp
  have trim: "trimSpace (''Credential='' @ cred) = ''Credential'' @ CHR ''='' # cred"
      "trimSpace ('' SignedHeaders='' @ sh) = ''SignedHeaders'' @ CHR ''='' # sh"
      "trimSpace ('' Signature='' @ sig) = ''Signature'' @ CHR ''='' # sig"
    using assms trimSpace_solid [of "''Credential='' @ cred"] trimSpace_solid [of "''SignedHeaders='' @ sh"] trimSpace_solid [of "''Signature='' @ sig"]
    by (simp_all add: trimSpace_blank isSpace_def)
  have cut: "strCut CHR ''='' (''Credential'' @ CHR ''='' # cred) = Some (''Credential'', cred)"
      "strCut CHR ''='' (''SignedHeaders'' @ CHR ''='' # sh) = Some (''SignedHeaders'', sh)"
      "strCut CHR ''='' (''Signature'' @ CHR ''='' # sig) = Some (''Signature'', sig)"
    by (rule strCut_append, simp)+
  have keys: "trimSpace ''Credential'' = ''Credential''" "trimSpace ''SignedHeaders'' = ''SignedHeaders''" "trimSpace ''Signature'' = ''Signature''"
    by (rule trimSpace_solid; simp add: isSpace_def)+
  have vals: "trimSpace cred = cred" "trimSpace sh = sh" "trimSpace sig = sig" by (rule trimSpace_solid, use assms in blast)+
  show ?thesis
    unfolding parseAuthorizationFields_def split parseFields.simps Let_def trim cut option.case prod.case keys vals
    by simp
qed

lemma VerifyRequest_fields:
  assumes "trimSpace (Header_Get r ''Authorization'') = (sigV4Algorithm @ '' '') @ f"
    and f: "parseAuthorizationFields f = Inr [''Credential'' \<mapsto> cred, ''SignedHeaders'' \<mapsto> sh, ''Signature'' \<mapsto> sig]"
    and c: "strSplit CHR ''/'' cred = [akid, date, region, service, scope]" and ne: "sh \<noteq> []" "sig \<noteq> []"
    and amz: "trimSpace (Header_Get r ''X-Amz-Date'') = amz" "amz \<noteq> []" "time_parse env layout_amz amz = Some at"
  shows "fst (VerifyRequest env s r w) = Inr () \<longleftrightarrow> akid = as_accessKeyID s \<and> region = as_region s \<and> service = ''s3'' \<and>
    scope = ''aws4_request'' \<and> verify_at env s r (now_at env (tick w)) at amz date region sh sig = Inr ()"
proof -
  have "(sigV4Algorithm @ '' '') @ f \<noteq> []" by (simp add: sigV4Algorithm_def)
  then show ?thesis
    using f c ne amz by (simp add: VerifyRequest_def assms(1) Let_def raiseE_def bindE_def time_Now_eq liftE_def del: append_assoc) blast
qed

lemma verify_at_iff:
  "verify_at env s r now at amz date region sh sig = Inr () \<longleftrightarrow>
    at - now \<le> as_allowedSkew s \<and> now - at \<le> as_allowedSkew s \<and> time_format env ''20060102'' at = date \<and>
    isSortedLowerHeaderList (strSplit CHR '';'' sh) \<and> (\<exists>hash headers. payload_hash r = Some hash \<and>
      buildCanonicalHeaders r (strSplit CHR '';'' sh) = Inr headers \<and> sig = sign env s r date region amz headers sh hash)"
  by (auto simp: verify_at_def Let_def split: option.split sum.split)

section \<open>The property\<close>

text \<open>C28: The server accepts the signature of a well-formed request exactly when the client named the configured access key and region,
  signed within the allowed skew of the clock and on the day of its scope, listed sorted lower-case headers that are all present,
  stated the hash of the body (or sent none), and the signature is the one that the server computes from the request with its secret
  key. So a client that computes the same signature is accepted, and any other signature is refused.\<close>

theorem signature_decides:
  assumes "Header_Get r ''Authorization'' = authorization akid date region names sig"
    and "token akid" and "token date" and "token region" and "token sig" and "names \<noteq> []" and "\<forall>n \<in> set names. token n"
    and "trimSpace (Header_Get r ''X-Amz-Date'') = amz" and "amz \<noteq> []" and "time_parse env layout_amz amz = Some at"
  shows "fst (VerifyRequest env s r w) = Inr () \<longleftrightarrow>
    akid = as_accessKeyID s \<and> region = as_region s \<and>
    at - now_at env (tick w) \<le> as_allowedSkew s \<and> now_at env (tick w) - at \<le> as_allowedSkew s \<and> time_format env ''20060102'' at = date \<and>
    isSortedLowerHeaderList names \<and> (\<exists>hash headers. payload_hash r = Some hash \<and> buildCanonicalHeaders r names = Inr headers \<and>
      sig = sign env s r date region amz headers (strJoin '';'' names) hash)"
proof -
  let ?cred = "strJoin ''/'' [akid, date, region, ''s3'', ''aws4_request'']" and ?sh = "strJoin '';'' names"
  have t: "\<forall>c \<in> set x. \<not> isSpace c \<and> c \<noteq> CHR '',''" "\<forall>c \<in> set x. c \<noteq> CHR ''/'' \<and> c \<noteq> CHR '';''" if "token x" for x
    using that by (auto simp: token_def)
  have cred: "\<forall>c \<in> set ?cred. \<not> isSpace c \<and> c \<noteq> CHR '',''"
    by (rule solid_join) (use t assms(2-4) in \<open>auto simp: isSpace_def\<close>)
  have sh: "\<forall>c \<in> set ?sh. \<not> isSpace c \<and> c \<noteq> CHR '',''"
    by (rule solid_join) (use t assms(7) in \<open>auto simp: isSpace_def\<close>)
  have parts: "strSplit CHR ''/'' ?cred = [akid, date, region, ''s3'', ''aws4_request'']"
    by (rule strSplit_join) (use t(2) assms(2-4) in auto)
  have heads: "strSplit CHR '';'' ?sh = names" by (rule strSplit_join) (use assms(6,7) in \<open>auto simp: token_def\<close>)
  have "?sh \<noteq> []" using assms(6,7) strJoin_nonempty by (cases names) (auto simp: token_def)
  moreover have "sig \<noteq> []" using assms(5) by (simp add: token_def)
  note ne = calculation this
  let ?f = "''Credential='' @ ?cred @ '', SignedHeaders='' @ ?sh @ '', Signature='' @ sig"
  have "trimSpace ((sigV4Algorithm @ '' '') @ ?f) = (sigV4Algorithm @ '' '') @ ?f"
    by (rule trimSpace_id) (use t(1) [OF assms(5)] ne(2) in \<open>auto simp: sigV4Algorithm_def isSpace_def last_append\<close>)
  then have "trimSpace (Header_Get r ''Authorization'') = (sigV4Algorithm @ '' '') @ ?f" by (simp add: assms(1) authorization_def)
  from VerifyRequest_fields [OF this parse_authorization [OF cred sh t(1) [OF assms(5)]] parts ne assms(8-10)]
  show ?thesis by (simp add: verify_at_iff heads)
qed


text \<open>A client that signs, and the requests it can send.\<close>

definition demo_signer :: auth_service where
  "demo_signer = NewAuthService \<lparr>ac_AccessKeyID = ''AKID'', ac_SecretAccessKey = ''secret'', ac_Region = [], ac_AllowedSkew = 0\<rparr>"

definition signed_request :: "string \<Rightarrow> request" where
  "signed_request sig = \<lparr>rq_Method = ''GET'', rq_Host = ''bucket.localhost'', rq_Path = ''/key'', rq_EscapedPath = ''/key'', rq_RawQuery = [],
     rq_Header = [(''Authorization'', authorization ''AKID'' ''60'' ''us-east-1'' [''host'', ''x-amz-date''] sig), (''X-Amz-Date'', ''60'')],
     rq_ContentLength = 0, rq_Body = bytes_NewReader []\<rparr>"

definition demo_signature :: string where
  "demo_signature = sign demo_env demo_signer (signed_request []) ''60'' ''us-east-1'' ''60''
     (''host:bucket.localhost'' @ newline @ ''x-amz-date:60'' @ newline) ''host;x-amz-date'' emptySHA256Hash"

lemma hex_token: "d \<noteq> [] \<Longrightarrow> token (hex_EncodeToString d)"
proof -
  have c: "of_char (toLower_char (hexDigit n)) = (if n < 10 then 48 + n else 87 + n)" if "n < 16" for n
    using that by (auto simp: toLower_char_def hexDigit_def of_char_of Let_def)
  have "\<forall>n < 16. \<not> isSpace (toLower_char (hexDigit n)) \<and> toLower_char (hexDigit n) \<notin> {CHR '','', CHR ''/'', CHR '';''}"
  proof (intro allI impI)
    fix n :: nat assume n: "n < 16"
    have "toLower_char (hexDigit n) \<noteq> k" if "of_char k \<in> {44, 47, 59 :: nat}" for k using c [OF n] that n by (auto split: if_splits)
    then show "\<not> isSpace (toLower_char (hexDigit n)) \<and> toLower_char (hexDigit n) \<notin> {CHR '','', CHR ''/'', CHR '';''}"
      using c [OF n] n by (auto simp: isSpace_def)
  qed
  moreover have "unat b div 16 < 16" "unat b mod 16 < 16" for b :: byte
    using unsigned_less [where ?w = b and ?'a = nat] by simp_all
  ultimately show ?thesis if "d \<noteq> []" using that by (cases d) (auto simp: token_def hex_EncodeToString_def)
qed

lemma length_hex: "length (hex_EncodeToString d) = 2 * length d"
  by (induction d) (simp_all add: hex_EncodeToString_def)

lemma demo_keys: "CanonicalHeaderKey ''Authorization'' = ''Authorization''" "CanonicalHeaderKey ''X-Amz-Date'' = ''X-Amz-Date''"
  "CanonicalHeaderKey ''x-amz-date'' = ''X-Amz-Date''" "CanonicalHeaderKey ''X-Amz-Content-Sha256'' = ''X-Amz-Content-Sha256''"
  by code_simp+

lemma demo_headers:
  "Header_Get (signed_request sig) ''Authorization'' = authorization ''AKID'' ''60'' ''us-east-1'' [''host'', ''x-amz-date''] sig"
  "Header_Get (signed_request sig) ''X-Amz-Date'' = ''60''" "Header_Get (signed_request sig) ''x-amz-date'' = ''60''"
  "Header_Get (signed_request sig) ''X-Amz-Content-Sha256'' = []"
  by (simp_all add: Header_Get_def signed_request_def demo_keys)

lemma demo_canonical:
  "payload_hash (signed_request sig) = Some emptySHA256Hash"
  "buildCanonicalHeaders (signed_request sig) [''host'', ''x-amz-date''] = Inr (''host:bucket.localhost'' @ newline @ ''x-amz-date:60'' @ newline)"
proof -
  have t: "trimSpace (collapseSpaces ''bucket.localhost'') = ''bucket.localhost''" "trimSpace (collapseSpaces ''60'') = ''60''" by code_simp+
  have "rq_Host (signed_request sig) = ''bucket.localhost''" "rq_ContentLength (signed_request sig) = 0" by (simp_all add: signed_request_def)
  then show "payload_hash (signed_request sig) = Some emptySHA256Hash"
    "buildCanonicalHeaders (signed_request sig) [''host'', ''x-amz-date''] = Inr (''host:bucket.localhost'' @ newline @ ''x-amz-date:60'' @ newline)"
    using demo_headers(3,4) [of sig] t by (simp_all add: payload_hash_def trimSpace_def buildCanonicalHeaders_def del: char_of_def)
qed

lemma demo_sixty: "FormatInt 60 = ''60''"
proof -
  have "digit 6 = CHR ''6''" "digit 0 = CHR ''0''" by code_simp+
  then show ?thesis by (simp add: FormatInt_def dec.simps)
qed

theorem signature_decides_witness:
  "fst (VerifyRequest demo_env demo_signer (signed_request demo_signature) demo_world) = Inr () \<and>
   fst (VerifyRequest demo_env demo_signer (signed_request ''00'') demo_world) \<noteq> Inr ()"
proof -
  have cfg: "as_accessKeyID demo_signer = ''AKID''" "as_region demo_signer = ''us-east-1''" "as_allowedSkew demo_signer = 300000000000"
      "as_secretAccessKey demo_signer = ''secret''"
    by (simp_all add: demo_signer_def NewAuthService_def trimSpace_def Let_def)
  have "hmac_sum demo_env k d = k @ d" for k d by (simp add: demo_env_def)
  then obtain x where long: "demo_signature = hex_EncodeToString (ascii ''AWS4secret'' @ x)"
    by (auto simp: demo_signature_def sign_def Let_def deriveSigningKey_def cfg(4) ascii_def)
  have "length demo_signature \<noteq> length ''00''" by (simp add: long length_hex ascii_def)
  then have tok: "token demo_signature" "demo_signature \<noteq> ''00''"
    using hex_token [of "ascii ''AWS4secret'' @ x"] by (auto simp: long ascii_def)
  have names: "token ''AKID''" "token ''60''" "token ''us-east-1''" "token ''host''" "token ''x-amz-date''" "token ''00''"
    by (simp_all add: token_def isSpace_def)
  have date: "trimSpace ''60'' = ''60''" "time_parse demo_env layout_amz ''60'' = Some 60" "time_format demo_env ''20060102'' 60 = ''60''"
      "now_at demo_env (tick demo_world) = 0"
    using i64.parse_enc [of 60] demo_sixty by (simp_all add: int_range_def trimSpace_def isSpace_def demo_env_def demo_world_def)
  have sorted: "isSortedLowerHeaderList [''host'', ''x-amz-date'']" by code_simp
  have sig: "sign demo_env demo_signer (signed_request y) ''60'' ''us-east-1'' ''60'' (''host:bucket.localhost'' @ newline @ ''x-amz-date:60'' @ newline)
      (strJoin '';'' [''host'', ''x-amz-date'']) emptySHA256Hash = demo_signature" for y
    by (simp add: demo_signature_def sign_def Let_def canonicalURI_def canonicalQueryString_def signed_request_def)
  have "fst (VerifyRequest demo_env demo_signer (signed_request y) demo_world) = Inr () \<longleftrightarrow> y = demo_signature" if "token y" for y
    using signature_decides [OF demo_headers(1) names(1-3) that, of "''60''" demo_env 60 demo_signer demo_world] names(4,5) date cfg sorted
    by (simp add: demo_headers(2) demo_canonical sig [simplified])
  with tok names(6) show ?thesis by metis
qed

end
