(* ===== verification/Web_Buckets.thy ===== *)
theory Web_Buckets
  imports Requests
begin

text \<open>
  The bucket handlers (\<open>s3/web/handlers_bucket.go\<close>) and the bucket service under them
  (\<open>s3/bucket/service_impl.go\<close>).
\<close>

section \<open>The bucket service\<close>

definition named_bucket :: "string \<Rightarrow> Bucket" where
  "named_bucket name = \<lparr>Bucket_Name = name, CreatedAt = 0\<rparr>"

definition service_ListBuckets :: "'r env \<Rightarrow> string \<Rightarrow> int \<Rightarrow> int \<Rightarrow> (('r, 'x) world_scheme, Bucket list \<times> bool) comp" where
  "service_ListBuckets env prefix page max_rows = ListBuckets env prefix page max_rows"

definition service_CreateBucket :: "'r env \<Rightarrow> string \<Rightarrow> (('r, 'x) world_scheme, unit) comp" where
  "service_CreateBucket env name = CreateBucket env (named_bucket name)"

definition service_GetBucket :: "'r env \<Rightarrow> string \<Rightarrow> (('r, 'x) world_scheme, Bucket) comp" where
  "service_GetBucket env name = GetBucket env (named_bucket name)"

definition service_DeleteBucket :: "'r env \<Rightarrow> string \<Rightarrow> (('r, 'x) world_scheme, unit) comp" where
  "service_DeleteBucket env name = DeleteBucket env (named_bucket name)"

section \<open>Handlers\<close>

definition BucketRequest :: "field_tag list" where
  "BucketRequest = [(fld ''BucketName'' ''Bucket'' FromHost KString)\<lparr>f_label := ''bucket name''\<rparr>,
     fld ''Prefix'' ''prefix'' FromQuery KString,
     (fld ''MaxBuckets'' ''max-buckets'' FromQuery KInt)\<lparr>f_range := Some (1, 10000)\<rparr>,
     (fld ''ContinuationToken'' ''continuation-token'' FromQuery KInt)\<lparr>f_default := ''1''\<rparr>]"

definition urlEncode :: "string \<Rightarrow> string" where
  "urlEncode s = QueryEscape s"

text \<open>The handlers below begin in the same way: read the request, look the bucket up.\<close>

definition with_bucket :: "'r env \<Rightarrow> request \<Rightarrow> (http_struct \<Rightarrow> (('r, 'x) world_scheme, unit) web)
    \<Rightarrow> (('r, 'x) world_scheme, unit) web" where
  "with_bucket env r k = HandleRequest env BucketRequest r True False [] [] (\<lambda>q.
     bindE (callE (service_GetBucket env (the_string q ''BucketName''))) (\<lambda>res.
     orReply res (\<lambda>_. writeS3Error 404 ''NoSuchBucket'' (Msg ''bucket not found'') (rq_Path r)) (\<lambda>_. k q)))"

definition GetBucketLocation :: "'r env \<Rightarrow> request \<Rightarrow> (('r, 'x) world_scheme, unit) web" where
  "GetBucketLocation env r = with_bucket env r (\<lambda>q.
     replyE (\<lambda>w. writeBody (Xml (XmlLocation (S3Region (Cfg env))))
       (writeHeader 200 (setHeader ''Content-Type'' ''application/xml'' w))))"

definition HeadBucket :: "'r env \<Rightarrow> request \<Rightarrow> (('r, 'x) world_scheme, unit) web" where
  "HeadBucket env r = with_bucket env r (\<lambda>q.
     replyE (WriteResponse env 200 (BucketResponse_headers (GetBucketArn env (the_string q ''BucketName'')) (S3Region (Cfg env)))
       None None))"

definition bucket_item :: "'r env \<Rightarrow> Bucket \<Rightarrow> (('r, 'x) world_scheme, Bucket_xml) web" where
  "bucket_item env b = (\<lambda>(rw, w).
     case (if CreatedAt b = 0 then time_Now env w else (Inr (CreatedAt b), w)) of
       (Inl e, w') \<Rightarrow> (Inl e, (rw, w'))
     | (Inr created, w') \<Rightarrow> (Inr \<lparr>bx_BucketArn = [], bx_BucketRegion = [], bx_Name = Bucket_Name b,
          bx_CreationDate = time_format env RFC3339 created\<rparr>, (rw, w')))"

definition ListBuckets_handler :: "'r env \<Rightarrow> request \<Rightarrow> (('r, 'x) world_scheme, unit) web" where
  "ListBuckets_handler env r = HandleRequest env BucketRequest r True False [] [] (\<lambda>q.
     let token = the_int q ''ContinuationToken'' in
     bindE (callE (service_ListBuckets env (the_string q ''Prefix'') token (the_int q ''MaxBuckets''))) (\<lambda>res.
     orReply res (internalError (rq_Path r)) (\<lambda>(buckets, hasMore).
     let nextToken = (if hasMore then wrap64 (token + 1) else 0) in
     bindE (mapE (bucket_item env) buckets) (\<lambda>items.
     replyE (WriteResponse env 200 [] (Some (XmlBuckets \<lparr>lb_Buckets = items, lb_Owner = GetDefaultUser env,
        lb_ContinuationToken = (if nextToken \<noteq> 0 then FormatInt nextToken else []), lb_Prefix = the_string q ''Prefix''\<rparr>))
       None)))))"

definition GetBucketEncryption :: "'r env \<Rightarrow> request \<Rightarrow> (('r, 'x) world_scheme, unit) web" where
  "GetBucketEncryption env r = with_bucket env r (\<lambda>q.
     replyE (WriteResponse env 200 [] (Some (XmlEncryption [\<lparr>SSEAlgorithm = EncryptionMethod (Cfg env), KMSMasterKeyID = [],
       EncryptionType = [], BucketKeyEnabled = False\<rparr>])) None))"

definition owner_policy :: "'r env \<Rightarrow> AccessControlPolicy" where
  "owner_policy env = \<lparr>Policy_Owner = GetDefaultUser env,
     Policy_List = [\<lparr>Acl_Grant = [\<lparr>Grantee_DisplayName = User_DisplayName (GetDefaultUser env), Grantee_EmailAddress = [],
                       Grantee_ID = User_ID (GetDefaultUser env), Grantee_Type = ''CanonicalUser'', Grantee_URI = []\<rparr>],
                     Acl_Permission = ''FULL_CONTROL''\<rparr>]\<rparr>"

definition GetBucketAcl :: "'r env \<Rightarrow> request \<Rightarrow> (('r, 'x) world_scheme, unit) web" where
  "GetBucketAcl env r = with_bucket env r (\<lambda>q.
     replyE (WriteResponse env 200 [] (Some (XmlAcl (owner_policy env))) None))"

definition GetBucketTagging :: "'r env \<Rightarrow> request \<Rightarrow> (('r, 'x) world_scheme, unit) web" where
  "GetBucketTagging env r = HandleRequest env BucketRequest r True False [] [] (\<lambda>q.
     replyE (WriteResponse env 200 [] (Some (XmlTagging [])) None))"

end
