(* ===== verification/Web_Objects.thy ===== *)
theory Web_Objects
  imports Web_Buckets
begin

text \<open>
  The object handlers (\<open>s3/web/handlers_object.go\<close>): conditional requests, reading whole objects, ranges
  and parts, writing, listing and deleting.
\<close>

section \<open>The request\<close>

definition ObjectRequest :: "field_tag list" where
  "ObjectRequest = [(fld ''BucketName'' ''Bucket'' FromHost KString)\<lparr>f_label := ''bucket name''\<rparr>,
     (fld ''Key'' ''Key'' FromPath KString)\<lparr>f_label := ''object key''\<rparr>,
     fld ''CacheControl'' ''response-cache-control'' FromQuery KString,
     fld ''ContentDisposition'' ''response-content-disposition'' FromQuery KString,
     fld ''ContentEncoding'' ''response-content-encoding'' FromQuery KString,
     fld ''ContentLanguage'' ''response-content-language'' FromQuery KString,
     fld ''ContentType'' ''response-content-type'' FromQuery KString,
     (fld ''PartNumber'' ''part-number'' FromQuery KInt)\<lparr>f_range := Some (1, 10000)\<rparr>,
     fld ''Expires'' ''response-expires'' FromQuery KTime,
     fld ''Prefix'' ''prefix'' FromQuery KString,
     fld ''ContinuationToken'' ''continuation-token'' FromQuery KInt,
     fld ''Delimiter'' ''delimiter'' FromQuery KString,
     fld ''FetchOwner'' ''fetch-owner'' FromQuery KString,
     fld ''StartAfter'' ''start-after'' FromQuery KString,
     fld ''EncodingType'' ''encoding-type'' FromQuery KString,
     (fld ''MaxKeys'' ''max-keys'' FromQuery KInt)\<lparr>f_range := Some (1, 1000), f_default := ''1000''\<rparr>,
     fld ''IfMatch'' ''If-Match'' FromHeader KString,
     fld ''IfModifiedSince'' ''If-Modified-Since'' FromHeader KString,
     fld ''IfNoneMatch'' ''If-None-Match'' FromHeader KString,
     fld ''IfUnmodifiedSince'' ''If-Unmodified-Since'' FromHeader KString,
     fld ''IfMatchSize'' ''x-amz-if-match-size'' FromHeader KString,
     fld ''Range'' ''range'' FromHeader KString]"

definition request_location :: "http_struct \<Rightarrow> ObjectLocation" where
  "request_location q = \<lparr>Location_Bucket = named_bucket (the_string q ''BucketName''), Location_Key = the_string q ''Key''\<rparr>"

section \<open>Conditional requests\<close>

text \<open>A check returns the reply of its error, or whether the condition holds. In the source every way out of
  these functions that is not an error returns true.\<close>

type_synonym check = "(response \<Rightarrow> response) + bool"

definition bad_header :: "string \<Rightarrow> Object \<Rightarrow> check" where
  "bad_header text ob = Inl (writeS3Error 400 ''InvalidRequest'' (Msg text) (Location_Key (Obj_Location ob)))"

definition evalIfMatch :: "Object \<Rightarrow> http_struct \<Rightarrow> check" where
  "evalIfMatch ob q = (let v = the_string q ''IfMatch'' in
     if v \<noteq> [] \<and> v \<noteq> ''*'' then
       (case ParseUint v of Inl _ \<Rightarrow> bad_header ''Invalid If-Match header format'' ob
        | Inr u \<Rightarrow> if u = ETag ob then Inr True else Inr True)
     else Inr True)"

definition evalModifiedSince :: "'r env \<Rightarrow> Object \<Rightarrow> http_struct \<Rightarrow> check" where
  "evalModifiedSince env ob q = (let v = the_string q ''IfModifiedSince'' in
     if v \<noteq> [] then
       (case time_parse env RFC1123 v of None \<Rightarrow> bad_header ''Invalid If-Modified-Since header format'' ob
        | Some t \<Rightarrow> if t < LastModified ob then Inr True else Inr True)
     else Inr True)"

definition evalNoneMatch :: "Object \<Rightarrow> http_struct \<Rightarrow> bool" where
  "evalNoneMatch ob q = (let v = the_string q ''IfNoneMatch'' in
     if v \<noteq> [] then (if v \<noteq> FormatUint (ETag ob) then True else True) else True)"

definition evalIfUnmodifiedSince :: "'r env \<Rightarrow> Object \<Rightarrow> http_struct \<Rightarrow> check" where
  "evalIfUnmodifiedSince env ob q = (let v = the_string q ''IfUnmodifiedSince'' in
     if v \<noteq> [] then
       (case time_parse env RFC1123 v of None \<Rightarrow> bad_header ''Invalid If-Unmodified-Since header format'' ob
        | Some t \<Rightarrow> if LastModified ob < t then Inr True else Inr True)
     else Inr True)"

definition evalIfMatchLastModifiedTime :: "'r env \<Rightarrow> request \<Rightarrow> Object \<Rightarrow> check" where
  "evalIfMatchLastModifiedTime env r ob = (let v = Header_Get r ''x-amz-if-match-last-modified-time'' in
     if v \<noteq> [] then
       (case time_parse env RFC1123 v of None \<Rightarrow> bad_header ''Invalid x-amz-if-match-last-modified-time header format'' ob
        | Some t \<Rightarrow> if LastModified ob = t then Inr True else Inr True)
     else Inr True)"

definition evalIfMatchSize :: "Object \<Rightarrow> http_struct \<Rightarrow> check" where
  "evalIfMatchSize ob q = (let v = the_string q ''IfMatchSize'' in
     if v \<noteq> [] \<and> v \<noteq> ''*'' then
       (case ParseUint v of Inl _ \<Rightarrow> bad_header ''Invalid x-amz-if-match-size header format'' ob
        | Inr u \<Rightarrow> if u = word_of_int (Obj_Size ob) then Inr True else Inr True)
     else Inr True)"

definition precondition_failed :: "string \<Rightarrow> Object \<Rightarrow> response \<Rightarrow> response" where
  "precondition_failed text ob = writeS3Error 412 ''PreconditionFailed'' (Msg text) (Location_Key (Obj_Location ob))"

text \<open>\<open>None\<close> when the request may go on, otherwise the reply.\<close>

definition evalIfMatches :: "'r env \<Rightarrow> Object \<Rightarrow> http_struct \<Rightarrow> (response \<Rightarrow> response) option" where
  "evalIfMatches env ob q =
     (case evalIfMatch ob q of Inl reply \<Rightarrow> Some reply | Inr ifMatchResult \<Rightarrow>
      (case evalModifiedSince env ob q of Inl reply \<Rightarrow> Some reply | Inr ifModifiedSinceResult \<Rightarrow>
       (let ifNoneMatchResult = evalNoneMatch ob q in
        case evalIfUnmodifiedSince env ob q of Inl reply \<Rightarrow> Some reply | Inr ifUnmodifiedSinceResult \<Rightarrow>
        (if the_string q ''IfMatch'' \<noteq> [] \<and> the_string q ''IfUnmodifiedSince'' \<noteq> [] \<and>
            \<not> (ifMatchResult \<and> \<not> ifUnmodifiedSinceResult)
         then Some (precondition_failed ''If-Match and If-Unmodified-Since conditions failed'' ob)
         else if the_string q ''IfMatch'' = [] \<and> the_string q ''IfUnmodifiedSince'' \<noteq> [] \<and> \<not> ifUnmodifiedSinceResult
         then Some (precondition_failed ''If-Unmodified-Since condition failed'' ob)
         else if the_string q ''IfNoneMatch'' \<noteq> [] \<and> the_string q ''IfModifiedSince'' \<noteq> [] \<and>
            \<not> (ifNoneMatchResult \<and> \<not> ifModifiedSinceResult)
         then Some (precondition_failed ''If-None-Match and If-Modified-Since conditions failed'' ob)
         else if the_string q ''IfNoneMatch'' = [] \<and> the_string q ''IfModifiedSince'' \<noteq> [] \<and> \<not> ifModifiedSinceResult
         then Some (precondition_failed ''If-Modified-Since condition failed'' ob)
         else None))))"

section \<open>Reading\<close>

definition request_range :: "string \<Rightarrow> Object \<Rightarrow> http_struct \<Rightarrow> string \<Rightarrow> int \<Rightarrow> (response \<Rightarrow> response) + (int \<times> int)" where
  "request_range resource ob q text whole =
     (if the_string q ''Range'' = [] then Inr (0, whole)
      else case ParseContentRangeHeader (the_string q ''Range'') of
        Inl e \<Rightarrow> Inl (writeS3Error 416 ''InvalidRange'' (MsgOf e) resource)
      | Inr (start, stop, _) \<Rightarrow>
          (if start < 0 \<or> stop \<le> start \<or> Obj_Size ob < stop
           then Inl (writeS3Error 416 ''InvalidRange'' (Msg text) resource) else Inr (start, stop)))"

definition HeadObject :: "'r env \<Rightarrow> request \<Rightarrow> (('r, 'x) world_scheme, unit) web" where
  "HeadObject env r = HandleRequest env ObjectRequest r True True [] [] (\<lambda>q.
     bindE (if the_int q ''PartNumber'' \<noteq> 0
            then bindE (callE (GetMultipartUploadByLocation env (request_location q)))
              (\<lambda>res. returnE (case res of Inl e \<Rightarrow> Some e | Inr _ \<Rightarrow> None))
            else returnE None) (\<lambda>partErr.
     case partErr of Some e \<Rightarrow> replyE (internalError (the_string q ''BucketName'') e) | None \<Rightarrow>
     bindE (callE (meta_GetObject env (request_location q))) (\<lambda>res.
     orReply res (internalError (the_string q ''BucketName'')) (\<lambda>ob.
     case evalIfMatches env ob q of Some reply \<Rightarrow> replyE reply | None \<Rightarrow>
     (case request_range (Location_Key (Obj_Location ob)) ob q ''Requested Range Not Satisfiable'' (Obj_Size ob) of
        Inl reply \<Rightarrow> replyE reply
      | Inr (start, stop) \<Rightarrow>
          replyE (WriteResponse env 200 (ObjectResponse_headers (noObjectResponse\<lparr>
            or_ChecksumType := cmd_Type GetDefaultChecksumMetadata, or_CacheControl := the_string q ''CacheControl'',
            or_ContentDisposition := the_string q ''ContentDisposition'', or_ContentEncoding := the_string q ''ContentEncoding'',
            or_ContentLanguage := the_string q ''ContentLanguage'', or_ContentType := the_string q ''ContentType'',
            or_StorageClass := GetDefaultStorageClass env, or_ContentLength := stop - start, or_LastModified := LastModified ob,
            or_xxHash64 := ETag ob, or_ETag := ETag ob,
            or_AcceptRanges := (if the_string q ''Range'' \<noteq> [] then ''bytes'' else [])\<rparr>)) None None))))))"

definition PutObject_handler :: "'r env \<Rightarrow> request \<Rightarrow> (('r, 'x) world_scheme, unit) web" where
  "PutObject_handler env r = HandleRequest env ObjectRequest r True True [] [] (\<lambda>q.
     bindE (callE (PutObjectStream env (request_location q) (rq_Body r))) (\<lambda>res.
     orReply res (internalError (the_string q ''BucketName'')) (\<lambda>ob.
     replyE (WriteResponse env 200 (ObjectResponse_headers (noObjectResponse\<lparr>or_xxHash64 := ETag ob,
        or_ChecksumType := cmd_Type GetDefaultChecksumMetadata, or_ETag := ETag ob, or_ObjectSize := Obj_Size ob\<rparr>)) None None))))"

text \<open>The data stream of the object, or of the part that the request names, and the content length when no
  range was asked for.\<close>

definition open_stream :: "'r env \<Rightarrow> http_struct \<Rightarrow> Object \<Rightarrow> int \<Rightarrow> int
    \<Rightarrow> (('r, 'x) world_scheme, int \<times> bytes \<times> error option) comp" where
  "open_stream env q ob start stop =
     (if the_int q ''PartNumber'' \<noteq> 0 then
        bindE (GetMultipartUploadByLocation env (request_location q)) (\<lambda>upload.
        bindE (GetPart env (UploadID upload) (the_int q ''PartNumber'')) (\<lambda>part.
        bindE (Part_GetDataStream env upload part start stop) (\<lambda>s. returnE (Part_Size part, s))))
      else bindE (Object_GetDataStream env ob start stop) (\<lambda>s. returnE (Obj_Size ob, s)))"

definition GetObject_handler :: "'r env \<Rightarrow> request \<Rightarrow> (('r, 'x) world_scheme, unit) web" where
  "GetObject_handler env r = HandleRequest env ObjectRequest r True True [] [] (\<lambda>q.
     let bucketName = the_string q ''BucketName''; ranged = (the_string q ''Range'' \<noteq> []) in
     bindE (callE (meta_GetObject env (request_location q))) (\<lambda>res.
     orReply res (internalError bucketName) (\<lambda>ob.
     case evalIfMatches env ob q of Some reply \<Rightarrow> replyE reply | None \<Rightarrow>
     (case request_range bucketName ob q ''Invalid range specified'' 0 of
        Inl reply \<Rightarrow> replyE reply
      | Inr (start, stop) \<Rightarrow>
          bindE (callE (open_stream env q ob start stop)) (\<lambda>opened.
          orReply opened (internalError bucketName) (\<lambda>(whole, stream).
          replyE (\<lambda>w.
            case WriteResponseStream env (if ranged then 206 else 200) (ObjectResponse_headers (noObjectResponse\<lparr>
                or_ContentType := the_string q ''ContentType'', or_ContentDisposition := the_string q ''ContentDisposition'',
                or_ContentEncoding := the_string q ''ContentEncoding'', or_ContentLanguage := the_string q ''ContentLanguage'',
                or_CacheControl := the_string q ''CacheControl'', or_Expires := the_time q ''Expires'',
                or_ContentLength := (if ranged then stop - start else whole),
                or_ContentRange := (if ranged then ''bytes '' @ FormatInt start @ ''-'' @ FormatInt (stop - 1) @ ''/'' @
                  FormatInt (Obj_Size ob) else [])\<rparr>)) None stream w of
              (None, w') \<Rightarrow> w' | (Some e, w') \<Rightarrow> internalError bucketName e w')))))))"

section \<open>Listing\<close>

text \<open>The keys that go into a common prefix, and the prefix: the rest of the key up to the first character of
  the delimiter. A prefix longer than a key is an index out of range.\<close>

definition common_prefix :: "string \<Rightarrow> string \<Rightarrow> string \<Rightarrow> string option" where
  "common_prefix prefix delim key =
     (case strIndex (drop (length prefix) key) delim of
        None \<Rightarrow> None | Some i \<Rightarrow> Some (prefix @ take (i + 1) (drop (length prefix) key)))"

definition split_prefixes :: "string \<Rightarrow> string \<Rightarrow> ('a \<Rightarrow> string) \<Rightarrow> 'a list \<Rightarrow> ('a list \<times> string set) res" where
  "split_prefixes prefix delim key xs =
     (if delim = [] then Inr (xs, {})
      else if \<exists>x \<in> set xs. length (key x) < length prefix then Inl ErrPanic
      else Inr (filter (\<lambda>x. common_prefix prefix delim (key x) = None) xs,
                {p. \<exists>x \<in> set xs. common_prefix prefix delim (key x) = Some p}))"

definition object_contents :: "'r env \<Rightarrow> http_struct \<Rightarrow> Object \<Rightarrow> Contents" where
  "object_contents env q ob = \<lparr>ct_ChecksumAlgorithm = cmd_Algorithm GetDefaultChecksumMetadata,
     ct_ChecksumType = cmd_Type GetDefaultChecksumMetadata, ct_ETag = ETag ob, ct_Key = Location_Key (Obj_Location ob),
     ct_LastModified = time_format env RFC3339 (LastModified ob),
     ct_Owner = (if the_string q ''FetchOwner'' \<noteq> ''true'' then \<lparr>User_ID = [], User_DisplayName = []\<rparr> else GetDefaultUser env),
     ct_IsRestoreInProgress = False, ct_RestoreExpiryDate = [], ct_Size = Obj_Size ob,
     ct_StorageClass = GetDefaultStorageClass env\<rparr>"

definition encode_key :: "Object \<Rightarrow> Object" where
  "encode_key ob = ob\<lparr>Obj_Location := (Obj_Location ob)\<lparr>Location_Key := urlEncode (Location_Key (Obj_Location ob))\<rparr>\<rparr>"

definition ListObjectsV2 :: "'r env \<Rightarrow> request \<Rightarrow> (('r, 'x) world_scheme, unit) web" where
  "ListObjectsV2 env r = HandleRequest env ObjectRequest r True False [] [] (\<lambda>q.
     let bucketName = the_string q ''BucketName''; token = the_int q ''ContinuationToken'' in
     bindE (callE (ListObjects env (named_bucket bucketName) (the_string q ''Prefix'') (the_string q ''Delimiter'')
       (the_string q ''StartAfter'') token (the_int q ''MaxKeys''))) (\<lambda>res.
     orReply res (internalError bucketName) (\<lambda>(objects, isTruncated).
     let url = (the_string q ''EncodingType'' = ''url'');
         enc = (if url then urlEncode else (\<lambda>s. s));
         delim = enc (the_string q ''Delimiter''); prefix = enc (the_string q ''Prefix'');
         startAfter = enc (the_string q ''StartAfter''); objects' = (if url then map encode_key objects else objects) in
     bindE (liftE (split_prefixes prefix delim (\<lambda>ob. Location_Key (Obj_Location ob)) objects')) (\<lambda>(listed, prefixes).
     replyE (WriteResponse env 200 [] (Some (XmlObjects \<lparr>lo_IsTruncated = isTruncated,
       lo_Contents = map (object_contents env q) listed, lo_Name = bucketName, lo_Prefix = prefix, lo_Delimiter = delim,
       lo_MaxKeys = the_int q ''MaxKeys'', lo_CommonPrefixes = prefixes, lo_EncodingType = the_string q ''EncodingType'',
       lo_KeyCount = int (length listed), lo_ContinuationToken = token,
       lo_NextContinuationToken = (if isTruncated then wrap64 (token + 1) else 0), lo_StartAfter = startAfter\<rparr>)) None)))))"

section \<open>Deleting\<close>

text \<open>One condition of a deletion: an error and a failed condition both reply.\<close>

definition require :: "check \<Rightarrow> (response \<Rightarrow> response) \<Rightarrow> ('w, unit) web \<Rightarrow> ('w, unit) web" where
  "require c failed k = (case c of Inl reply \<Rightarrow> replyE reply | Inr holds \<Rightarrow> if holds then k else replyE failed)"

definition DeleteObject_handler :: "'r env \<Rightarrow> request \<Rightarrow> (('r, 'x) world_scheme, unit) web" where
  "DeleteObject_handler env r = HandleRequest env ObjectRequest r True True [] [] (\<lambda>q.
     let bucketName = the_string q ''BucketName'';
         failed = (\<lambda>text. writeS3Error 412 ''PreconditionFailed'' (Msg text) bucketName) in
     bindE (callE (GetObject env (request_location q))) (\<lambda>res.
     orReply res (internalError bucketName) (\<lambda>ob.
     require (evalIfMatch ob q) (failed ''If-Match condition failed'')
       (require (evalIfMatchLastModifiedTime env r ob) (failed ''If-Match-Last-Modified-Time condition failed'')
         (require (evalIfMatchSize ob q) (failed ''If-Match-Size condition failed'')
           (bindE (callE (DeleteObject env (request_location q))) (\<lambda>res.
            orReply res (internalError bucketName) (\<lambda>_.
            replyE (\<lambda>w. WriteResponse env 200 (ObjectResponse_headers (noObjectResponse\<lparr>or_DeleteMarker := ''true''\<rparr>)) None None
              (setHeader ''x-amz-delete-marker'' ''true'' w))))))))))"

text \<open>Every entry of the request deletes the object that the path of the request names, as the source does.\<close>

fun delete_entries :: "'r env \<Rightarrow> ObjectLocation \<Rightarrow> string list
    \<Rightarrow> (('r, 'x) world_scheme, DeletedObject list \<times> DeleteError list) web" where
  "delete_entries env loc [] = returnE ([], [])"
| "delete_entries env loc (key # keys) =
     bindE (callE (DeleteObject env loc)) (\<lambda>res.
     bindE (delete_entries env loc keys) (\<lambda>(deleted, errs).
     returnE (case res of
         Inl e \<Rightarrow> (deleted, \<lparr>de_Code = ''InternalError'', de_Key = key, de_Message = MsgOf e, de_VersionId = []\<rparr> # errs)
       | Inr _ \<Rightarrow> (\<lparr>do_DeleteMarker = False, do_DeleteMarkerVersionId = [], do_Key = key, do_VersionId = []\<rparr> # deleted, errs))))"

text \<open>The decoder stops at the end of the root element, so what the body does after it does not matter.\<close>

definition DeleteObjects :: "'r env \<Rightarrow> request \<Rightarrow> (('r, 'x) world_scheme, unit) web" where
  "DeleteObjects env r = HandleRequest env ObjectRequest r True True [] [] (\<lambda>q.
     case xml_delete env (rd_data (rq_Body r)) of
       None \<Rightarrow> replyE (writeS3Error 400 ''MalformedXML'' (Msg ''failed to parse request body'') (the_string q ''BucketName''))
     | Some (keys, quiet) \<Rightarrow>
         bindE (delete_entries env (request_location q) keys) (\<lambda>(deleted, errs).
         replyE (WriteResponse env 200 [] (Some (XmlDelete \<lparr>dr_Deleted = (if quiet then [] else deleted), dr_Errors = errs\<rparr>)) None)))"

section \<open>Access control and tags\<close>

definition with_object :: "'r env \<Rightarrow> request \<Rightarrow> (http_struct \<Rightarrow> (('r, 'x) world_scheme, unit) web)
    \<Rightarrow> (('r, 'x) world_scheme, unit) web" where
  "with_object env r k = HandleRequest env ObjectRequest r True True [] [] (\<lambda>q.
     bindE (callE (GetObject env (request_location q))) (\<lambda>res.
     orReply res (internalError (the_string q ''BucketName'')) (\<lambda>_. k q)))"

definition GetObjectAcl :: "'r env \<Rightarrow> request \<Rightarrow> (('r, 'x) world_scheme, unit) web" where
  "GetObjectAcl env r = with_object env r (\<lambda>q. replyE (WriteResponse env 200 [] (Some (XmlAcl (owner_policy env))) None))"

definition GetObjectTagging :: "'r env \<Rightarrow> request \<Rightarrow> (('r, 'x) world_scheme, unit) web" where
  "GetObjectTagging env r = with_object env r (\<lambda>q. replyE (WriteResponse env 200 [] (Some (XmlTagging [])) None))"

end
