(* ===== verification/Checksums.thy ===== *)
theory Checksums
  imports Requests
begin

text \<open>
  The checksum headers of an upload (\<open>s3/checksum/checksum.go\<close>). The digests themselves are parameters.
  Go walks the map of the headers in any order; \<open>order\<close> is the order of one call.
\<close>

datatype ChecksumType = ChecksumCRC32 | ChecksumCRC32C | ChecksumCRC64NVME | ChecksumSHA1 | ChecksumSHA256
  | ChecksumSHA512 | ChecksumMD5 | ChecksumMD5_AltHeader | ChecksumXXHASH64 | ChecksumXXHASH3 | ChecksumXXHASH128

fun checksumHeader :: "ChecksumType \<Rightarrow> string" where
  "checksumHeader ChecksumCRC32 = ''x-amz-checksum-crc32''"
| "checksumHeader ChecksumCRC32C = ''x-amz-checksum-crc32c''"
| "checksumHeader ChecksumCRC64NVME = ''x-amz-checksum-crc64nvme''"
| "checksumHeader ChecksumSHA1 = ''x-amz-checksum-sha1''"
| "checksumHeader ChecksumSHA256 = ''x-amz-checksum-sha256''"
| "checksumHeader ChecksumSHA512 = ''x-amz-checksum-sha512''"
| "checksumHeader ChecksumMD5 = ''x-amz-checksum-md5''"
| "checksumHeader ChecksumMD5_AltHeader = ''Content-MD5''"
| "checksumHeader ChecksumXXHASH64 = ''x-amz-checksum-xxhash64''"
| "checksumHeader ChecksumXXHASH3 = ''x-amz-checksum-xxhash3''"
| "checksumHeader ChecksumXXHASH128 = ''x-amz-checksum-xxhash128''"

definition allChecksumTypes :: "ChecksumType list" where
  "allChecksumTypes = [ChecksumCRC32, ChecksumCRC32C, ChecksumCRC64NVME, ChecksumSHA1, ChecksumSHA256, ChecksumSHA512,
     ChecksumMD5, ChecksumMD5_AltHeader, ChecksumXXHASH64, ChecksumXXHASH3, ChecksumXXHASH128]"

text \<open>The hash that \<open>VerifyChecksums\<close> makes for a type, by its Go name, and its number (\<open>iota\<close>).\<close>

fun checksumHash :: "ChecksumType \<Rightarrow> string" where
  "checksumHash ChecksumCRC32 = ''crc32.IEEE''"
| "checksumHash ChecksumCRC32C = ''crc32.Castagnoli''"
| "checksumHash ChecksumCRC64NVME = ''crc64nvme''"
| "checksumHash ChecksumSHA1 = ''sha1''"
| "checksumHash ChecksumSHA256 = ''sha256''"
| "checksumHash ChecksumSHA512 = ''sha512''"
| "checksumHash ChecksumMD5 = ''md5''"
| "checksumHash ChecksumMD5_AltHeader = ''md5''"
| "checksumHash ChecksumXXHASH64 = ''xxhash''"
| "checksumHash ChecksumXXHASH3 = ''xxh3''"
| "checksumHash ChecksumXXHASH128 = ''xxh3.128''"

definition checksumNumber :: "ChecksumType \<Rightarrow> nat" where
  "checksumNumber t = length (takeWhile (\<lambda>t'. t' \<noteq> t) allChecksumTypes)"

record Checksum =
  Checksum_Type :: ChecksumType
  Checksum_Value :: string

definition GetChecksums :: "ChecksumType list \<Rightarrow> request \<Rightarrow> Checksum list" where
  "GetChecksums order r = map (\<lambda>t. \<lparr>Checksum_Type = t, Checksum_Value = Header_Get r (checksumHeader t)\<rparr>)
     (filter (\<lambda>t. Header_Get r (checksumHeader t) \<noteq> []) order)"

definition checksum_of :: "'r env \<Rightarrow> ChecksumType \<Rightarrow> bytes \<Rightarrow> string" where
  "checksum_of env t data = b64_encode env (hash_sum env (checksumHash t) data)"

fun check_sums :: "'r env \<Rightarrow> bytes \<Rightarrow> Checksum list \<Rightarrow> unit res" where
  "check_sums env data [] = Inr ()"
| "check_sums env data (c # cs) =
     (if checksum_of env (Checksum_Type c) data = Checksum_Value c then check_sums env data cs
      else Inl (ErrChecksum (checksumNumber (Checksum_Type c))))"

definition VerifyChecksums :: "'r env \<Rightarrow> ChecksumType list \<Rightarrow> request \<Rightarrow> reader \<Rightarrow> Checksum list res" where
  "VerifyChecksums env order r reader =
     (let checksums = GetChecksums order r
      in if rd_fails reader then Inl ErrReader
         else case check_sums env (rd_data reader) checksums of Inl e \<Rightarrow> Inl e | Inr _ \<Rightarrow> Inr checksums)"

definition AddChecksumHeaders :: "ChecksumType list \<Rightarrow> request \<Rightarrow> response \<Rightarrow> response" where
  "AddChecksumHeaders order r w =
     fold (\<lambda>c w. if Checksum_Type c = ChecksumMD5_AltHeader then w
                 else setHeader (checksumHeader (Checksum_Type c)) (Checksum_Value c) w) (GetChecksums order r) w"

section \<open>Correctness\<close>

text \<open>The code keeps one hash per type in a map; all types are distinct, so a checksum finds the hash of its
  own type. Whatever the order, the verification succeeds exactly when every header that is there has the
  digest of the data.\<close>

lemma check_sums_iff: "check_sums env data cs = Inr () \<longleftrightarrow> (\<forall>c \<in> set cs. checksum_of env (Checksum_Type c) data = Checksum_Value c)"
  by (induction cs) auto

lemma allChecksumTypes_UNIV: "set allChecksumTypes = UNIV"
proof -
  have "t \<in> set allChecksumTypes" for t by (cases t) (simp_all add: allChecksumTypes_def)
  then show ?thesis by blast
qed

lemma VerifyChecksums_iff:
  assumes "set order = UNIV"
  shows "(\<exists>cs. VerifyChecksums env order r reader = Inr cs) \<longleftrightarrow> \<not> rd_fails reader \<and>
     (\<forall>t. Header_Get r (checksumHeader t) = [] \<or> Header_Get r (checksumHeader t) = checksum_of env t (rd_data reader))"
proof -
  have "check_sums env (rd_data reader) (GetChecksums order r) = Inr () \<longleftrightarrow>
     (\<forall>t. Header_Get r (checksumHeader t) = [] \<or> Header_Get r (checksumHeader t) = checksum_of env t (rd_data reader))"
    unfolding check_sums_iff GetChecksums_def using assms by (auto simp: image_iff)
  moreover have "(\<exists>cs. VerifyChecksums env order r reader = Inr cs) \<longleftrightarrow>
      \<not> rd_fails reader \<and> check_sums env (rd_data reader) (GetChecksums order r) = Inr ()"
    by (auto simp: VerifyChecksums_def Let_def split: sum.split)
  ultimately show ?thesis by blast
qed

end
