(* ===== verification/Web_Multipart.thy ===== *)
theory Web_Multipart
  imports Web_Objects Checksums
begin

text \<open>
  The multipart handlers (\<open>s3/web/handlers_multipart.go\<close>). \<open>UploadPart\<close> copies the body into two pipes, one
  read by the checksum verification and one by the upload of the part; each runs in a goroutine of its own.
  Every write to the pipes waits for both readers, so an upload that returns before it has read the whole
  body leaves the handler waiting for ever.
\<close>

section \<open>The request\<close>

definition MultipartRequest :: "field_tag list" where
  "MultipartRequest = [(fld ''BucketName'' ''Bucket'' FromHost KString)\<lparr>f_label := ''bucket name''\<rparr>,
     (fld ''Key'' ''Key'' FromPath KString)\<lparr>f_label := ''object key''\<rparr>,
     (fld ''UploadID'' ''uploadId'' FromQuery KString)\<lparr>f_label := ''upload ID''\<rparr>,
     (fld ''PartNumber'' ''partNumber'' FromQuery KInt)\<lparr>f_range := Some (1, 10000), f_label := ''part number''\<rparr>,
     fld ''Delimiter'' ''delimiter'' FromQuery KString,
     fld ''EncodingType'' ''encoding-type'' FromQuery KString,
     fld ''KeyMarker'' ''key-marker'' FromQuery KString,
     (fld ''MaxUploads'' ''max-uploads'' FromQuery KInt)\<lparr>f_range := Some (1, 1000), f_default := ''1000''\<rparr>,
     fld ''Prefix'' ''prefix'' FromQuery KString,
     fld ''UploadIDMarker'' ''upload-id-marker'' FromQuery KString,
     (fld ''MaxParts'' ''max-parts'' FromQuery KInt)\<lparr>f_range := Some (1, 1000), f_default := ''1000''\<rparr>,
     (fld ''PartNumberMarker'' ''part-number-marker'' FromQuery KInt)\<lparr>f_range := Some (1, 10000)\<rparr>,
     fld ''IfMatch'' ''If-Match'' FromHeader KString,
     fld ''IfNoneMatch'' ''If-None-Match'' FromHeader KString,
     fld ''IfMatchInitiatedTime'' ''x-amz-if-match-initiated-time'' FromHeader KTime,
     fld ''Acl'' ''x-amz-acl'' FromHeader KString,
     fld ''CacheControl'' ''Cache-Control'' FromHeader KString,
     fld ''ContentDisposition'' ''Content-Disposition'' FromHeader KString,
     fld ''ContentEncoding'' ''Content-Encoding'' FromHeader KString,
     fld ''ContentLanguage'' ''Content-Language'' FromHeader KString,
     fld ''ContentType'' ''Content-Type'' FromHeader KString,
     fld ''ContentLength'' ''Content-Length'' FromHeader KInt,
     fld ''Expires'' ''Expires'' FromHeader KTime,
     fld ''GrantFullControl'' ''x-amz-grant-full-control'' FromHeader KString,
     fld ''GrantRead'' ''x-amz-grant-read'' FromHeader KString,
     fld ''GrantReadACP'' ''x-amz-grant-read-acp'' FromHeader KString,
     fld ''GrantWriteACP'' ''x-amz-grant-write-acp'' FromHeader KString,
     fld ''ServerSideEncryption'' ''x-amz-server-side-encryption'' FromHeader KString,
     fld ''StorageClass'' ''x-amz-storage-class'' FromHeader KString,
     fld ''WebsiteRedirectLocation'' ''x-amz-website-redirect-location'' FromHeader KString,
     fld ''Tagging'' ''x-amz-tagging'' FromHeader KString,
     fld ''ChecksumAlgorithm'' ''x-amz-checksum-algorithm'' FromHeader KString,
     fld ''ChecksumType'' ''x-amz-checksum-type'' FromHeader KString,
     fld ''MultipartObjectSize'' ''x-amz-mp-object-size'' FromHeader KInt]"

text \<open>The reply when the upload belongs to another object.\<close>

definition BucketAndKeyMatch :: "http_struct \<Rightarrow> MultipartUpload \<Rightarrow> (response \<Rightarrow> response) option" where
  "BucketAndKeyMatch q upload =
     (if loc_bucket (Upload_Location upload) \<noteq> the_string q ''BucketName'' \<or>
         Location_Key (Upload_Location upload) \<noteq> the_string q ''Key''
      then Some (writeS3Error 400 ''InvalidUploadId'' (Msg ''upload ID does not match bucket and key'') (the_string q ''Key''))
      else None)"

definition failed_condition :: "http_struct \<Rightarrow> string \<Rightarrow> response \<Rightarrow> response" where
  "failed_condition q text = writeS3Error 412 ''PreconditionFailed'' (Msg text) (the_string q ''Key'')"

definition ETagMatch :: "http_struct \<Rightarrow> Object \<Rightarrow> (response \<Rightarrow> response) option" where
  "ETagMatch q ob =
     (if the_string q ''IfMatch'' \<noteq> [] \<and> the_string q ''IfMatch'' \<noteq> FormatUint (ETag ob)
      then Some (failed_condition q ''ETag does not match'') else None)"

definition TimeMatch :: "http_struct \<Rightarrow> gotime option \<Rightarrow> gotime option \<Rightarrow> string \<Rightarrow> (response \<Rightarrow> response) option" where
  "TimeMatch q x y text =
     (case (x, y) of (Some t, Some u) \<Rightarrow> if t \<noteq> u then Some (failed_condition q text) else None | _ \<Rightarrow> None)"

definition KeyMatch :: "http_struct \<Rightarrow> string \<Rightarrow> string \<Rightarrow> (response \<Rightarrow> response) option" where
  "KeyMatch q key text = (if the_string q ''Key'' \<noteq> key then Some (failed_condition q text) else None)"

definition unless_reply :: "(response \<Rightarrow> response) option \<Rightarrow> ('w, unit) web \<Rightarrow> ('w, unit) web" where
  "unless_reply c k = (case c of Some reply \<Rightarrow> replyE reply | None \<Rightarrow> k)"

section \<open>Creating an upload\<close>

definition CreateMultipartUpload_handler :: "'r env \<Rightarrow> request \<Rightarrow> (('r, 'x) world_scheme, unit) web" where
  "CreateMultipartUpload_handler env r = HandleRequest env MultipartRequest r True True [] [] (\<lambda>q.
     let key = the_string q ''Key'' in
     bindE (callE (ObjectExists env (request_location q))) (\<lambda>res.
     orReply res (internalError key) (\<lambda>there.
     if there then replyE (writeS3Error 409 ''ObjectAlreadyExists'' (Msg ''object already exists'') key)
     else bindE (callE (CreateMultipartUpload env (request_location q))) (\<lambda>created.
       orReply created (internalError key) (\<lambda>upload.
       replyE (WriteResponse env 200
         (MultipartResponse_headers (cmd_Algorithm GetDefaultChecksumMetadata) (cmd_Type GetDefaultChecksumMetadata) 0)
         (Some (XmlInitiate \<lparr>im_Bucket = the_string q ''BucketName'', im_Key = key, im_UploadID = UploadID upload\<rparr>)) None))))))"

section \<open>Uploading a part\<close>

text \<open>The bytes of the stream that a \<open>ChunkStream\<close> started in this state does not read.\<close>

definition ChunkStream_unread :: "'r env \<Rightarrow> reader \<Rightarrow> int \<Rightarrow> Compression \<Rightarrow> BackendType list \<Rightarrow> int
    \<Rightarrow> ('r, 'x) world_scheme \<Rightarrow> bytes" where
  "ChunkStream_unread env r enc cmp backends concurrency w =
     (let limit = nat (if concurrency < 1 then 1 else concurrency); csize = nat (ChunkSize (Cfg env));
          step = jobStep env limit csize (rd_fails r) enc cmp backends;
          drain = drainJob env limit csize (rd_fails r) enc cmp backends
      in if ChunkSize (Cfg env) \<le> 0 then rd_data r
         else cj_rest (fst (drain (fold step (sched env (tick w)) (newJob (rd_data r), w\<lparr>tick := Suc (tick w)\<rparr>)))))"

definition UploadPart_unread :: "'r env \<Rightarrow> string \<Rightarrow> reader \<Rightarrow> ('r, 'x) world_scheme \<Rightarrow> bytes" where
  "UploadPart_unread env uploadId r w =
     (case EncryptionTypeFromString (EncryptionMethod (Cfg env)) of
        Inl _ \<Rightarrow> rd_data r
      | Inr enc \<Rightarrow> (case GetMultipartUpload env uploadId w of
          (Inl _, _) \<Rightarrow> rd_data r
        | (Inr _, w1) \<Rightarrow>
            ChunkStream_unread env r enc (configured_compression env) (availableBackends w1) (ChunkConcurrency (Cfg env)) w1))"

text \<open>An order in which Go may walk a map with these keys.\<close>

definition map_order :: "'r env \<Rightarrow> nat \<Rightarrow> 'a list \<Rightarrow> 'a list" where
  "map_order env n xs = map (nth xs) (remdups (filter (\<lambda>i. i < length xs) (sched env n @ [0 ..< length xs])))"

definition replies :: "(response \<Rightarrow> response) list \<Rightarrow> response \<Rightarrow> response" where
  "replies fs w = fold (\<lambda>f. f) fs w"

definition error_reply :: "string \<Rightarrow> 'a res \<Rightarrow> (response \<Rightarrow> response) list" where
  "error_reply key res = (case res of Inl e \<Rightarrow> [internalError key e] | Inr _ \<Rightarrow> [])"

text \<open>The scheduler decides which of the two goroutines reports its error first and, when the body fails,
  how many of them do so before the handler returns.\<close>

definition UploadPart :: "'r env \<Rightarrow> request \<Rightarrow> (('r, 'x) world_scheme, unit) web" where
  "UploadPart env r = HandleRequest env MultipartRequest r True True [] [''partNumber'', ''uploadId''] (\<lambda>q.
     let key = the_string q ''Key''; uploadId = the_string q ''UploadID''; body = rq_Body r in
     bindE (callE (GetMultipartUpload env uploadId)) (\<lambda>res.
     orReply res (internalError key) (\<lambda>upload.
     unless_reply (BucketAndKeyMatch q upload) (
     bindE (liftW next_tick) (\<lambda>n.
     bindE (liftW (getsE (UploadPart_unread env uploadId body))) (\<lambda>unread.
     bindE (callE (UploadPartStream env (Upload_Location upload) (the_int q ''PartNumber'') uploadId body)) (\<lambda>part.
     if unread \<noteq> [] then raiseE ErrDiverge
     else let order = map_order env n allChecksumTypes;
              pick = (case sched env n of [] \<Rightarrow> 0 | p # _ \<Rightarrow> p);
              sums = error_reply key (VerifyChecksums env order r body);
              stored = error_reply key part;
              races = (if even pick then sums @ stored else stored @ sums)
          in if rd_fails body then replyE (replies (take (pick div 2) races @ [internalError key ErrReader]))
             else replyE (\<lambda>w. WriteResponse env 200
               (MultipartResponse_headers [] [] (case part of Inl _ \<Rightarrow> 0 | Inr p \<Rightarrow> Part_ETag p)) None None
               (AddChecksumHeaders order r (replies races w))))))))))"

section \<open>Completing and aborting\<close>

text \<open>\<open>sort.Search\<close>: binary search for the least index in \<open>[i, j)\<close> at which the predicate holds.\<close>

function sortSearch :: "(nat \<Rightarrow> bool) \<Rightarrow> nat \<Rightarrow> nat \<Rightarrow> nat" where
  "sortSearch P i j = (if i < j then let h = (i + j) div 2 in if \<not> P h then sortSearch P (h + 1) j else sortSearch P i h else i)"
  by pat_completeness auto
termination
  by (relation "measure (\<lambda>(P, i, j). j - i)") auto

declare sortSearch.simps [simp del]

text \<open>\<open>sort.Slice\<close> is not stable: \<open>map_order\<close> before the sort gives parts with one number any order.
  The parts that the request names against the parts of the upload: the reply, or \<open>None\<close> when all agree.\<close>

fun verify_parts :: "string \<Rightarrow> (int \<times> string) list \<Rightarrow> MultipartPart list \<Rightarrow> (response \<Rightarrow> response) option res" where
  "verify_parts key named [] = Inr None"
| "verify_parts key named (part # parts) =
     (let n = PartNumber part;
          found = sortSearch (\<lambda>i. n \<le> fst (named ! i)) 0 (length named);
          index = (if n - 1 < int (length named) then int found else n - 1)
      in if n - 1 < int (length named) \<and> (length named \<le> found \<or> fst (named ! found) \<noteq> n)
         then Inr (Some (writeS3Error 400 ''InvalidPart''
           (Msg (''part number '' @ FormatInt n @ '' is missing in the complete multipart upload request'')) key))
         else if index < 0 \<or> int (length named) \<le> index then Inl ErrPanic
         else case ParseUint (snd (named ! nat index)) of
           Inl _ \<Rightarrow> Inr (Some (writeS3Error 400 ''InvalidETag'' (Msg ''ETag is not a valid integer'') key))
         | Inr etag \<Rightarrow>
             (if etag \<noteq> Part_ETag part
              then Inr (Some (writeS3Error 400 ''InvalidETag'' (Msg (''ETag does not match for part number '' @ FormatInt n)) key))
              else verify_parts key named parts))"

definition CompleteMultipartUpload_handler :: "'r env \<Rightarrow> request \<Rightarrow> (('r, 'x) world_scheme, unit) web" where
  "CompleteMultipartUpload_handler env r = HandleRequest env MultipartRequest r True True [] [''uploadId''] (\<lambda>q.
     let key = the_string q ''Key''; uploadId = the_string q ''UploadID'' in
     bindE (callE (GetMultipartUpload env uploadId)) (\<lambda>res.
     orReply res (internalError key) (\<lambda>upload.
     let present = KeyMatch q (Location_Key (Upload_Location upload))
           (''If-None-Match header is set to '' @ [char_of (39 :: nat)] @ ''*'' @ [char_of (39 :: nat)] @ '', but the object already exists'') in
     if the_string q ''IfNoneMatch'' = ''*'' \<and> present = None then returnE ()
     else bindE (if the_string q ''IfNoneMatch'' = ''*'' then unless_reply present (returnE ()) else returnE ()) (\<lambda>_.
     unless_reply (BucketAndKeyMatch q upload) (
     bindE (callE (meta_CompleteMultipartUpload env uploadId)) (\<lambda>completed.
     orReply completed (internalError key) (\<lambda>ob.
     unless_reply (ETagMatch q ob) (
     case xml_complete env (rd_data (rq_Body r)) of
       None \<Rightarrow> replyE (writeS3Error 400 ''MalformedXML''
         (Msg ''The XML you provided was not well-formed or did not validate against our published schema'') key)
     | Some named \<Rightarrow>
         bindE (callE (ListParts env uploadId 10000 1)) (\<lambda>listed.
         orReply listed (internalError key) (\<lambda>(parts, _).
         bindE (liftW next_tick) (\<lambda>n.
         bindE (liftE (verify_parts key (sort_key fst (map_order env n named)) parts)) (\<lambda>verdict.
         unless_reply verdict (
         replyE (WriteResponse env 200 [] (Some (XmlComplete \<lparr>cm_Bucket = the_string q ''BucketName'', cm_Key = key,
           cm_ETag = FormatUint (ETag ob)\<rparr>)) None))))))))))))))"

definition no_upload :: "http_struct \<Rightarrow> error \<Rightarrow> response \<Rightarrow> response" where
  "no_upload q e = (if the_time q ''IfMatchInitiatedTime'' \<noteq> 0 then writeHeader 204 else internalError (the_string q ''Key'') e)"

definition AbortMultipartUpload_handler :: "'r env \<Rightarrow> request \<Rightarrow> (('r, 'x) world_scheme, unit) web" where
  "AbortMultipartUpload_handler env r = HandleRequest env MultipartRequest r True True [] [''uploadId''] (\<lambda>q.
     let key = the_string q ''Key''; uploadId = the_string q ''UploadID''; asked = the_time q ''IfMatchInitiatedTime'' in
     bindE (callE (GetMultipartUpload env uploadId)) (\<lambda>res.
     orReply res (no_upload q) (\<lambda>upload.
     unless_reply (BucketAndKeyMatch q upload) (
     unless_reply (if asked \<noteq> 0 then TimeMatch q (Some asked) (Some (Initiated upload))
         ''If-Match-Initiated-Time header does not match the upload initiated time'' else None) (
     bindE (callE (AbortMultipartUpload env uploadId)) (\<lambda>aborted.
     orReply aborted (internalError key) (\<lambda>_. replyE (WriteResponse env 204 [] None None))))))))"

section \<open>Listing\<close>

definition upload_prefix :: "string \<Rightarrow> string \<Rightarrow> string \<Rightarrow> string option" where
  "upload_prefix prefix delim key =
     (case strIndex (drop (length prefix) key) delim of None \<Rightarrow> None | Some i \<Rightarrow> Some (take (length prefix + i) key))"

definition split_uploads :: "string \<Rightarrow> string \<Rightarrow> MultipartUpload list \<Rightarrow> (MultipartUpload list \<times> string set) res" where
  "split_uploads prefix delim us = (let key = (\<lambda>u. Location_Key (Upload_Location u)) in
     if delim = [] \<or> prefix = [] then Inr (us, {})
     else if \<exists>u \<in> set us. length (key u) < length prefix then Inl ErrPanic
     else Inr (filter (\<lambda>u. upload_prefix prefix delim (key u) = None) us,
               {p. \<exists>u \<in> set us. upload_prefix prefix delim (key u) = Some p}))"

definition upload_item :: "'r env \<Rightarrow> MultipartUpload \<Rightarrow> ListMultipartUploadsResultUpload" where
  "upload_item env u = \<lparr>lu_ChecksumAlgorithm = cmd_Algorithm GetDefaultChecksumMetadata,
     lu_ChecksumType = cmd_Type GetDefaultChecksumMetadata, lu_Initiated = time_format env RFC3339 (Initiated u),
     lu_Initiator = GetDefaultUser env, lu_Key = Location_Key (Upload_Location u), lu_Owner = GetDefaultUser env,
     lu_StorageClass = GetDefaultStorageClass env, lu_UploadID = UploadID u\<rparr>"

definition ListMultipartUploads_handler :: "'r env \<Rightarrow> request \<Rightarrow> (('r, 'x) world_scheme, unit) web" where
  "ListMultipartUploads_handler env r = HandleRequest env MultipartRequest r True True [] [] (\<lambda>q.
     let prefix = the_string q ''Prefix''; delim = the_string q ''Delimiter''; url = (the_string q ''EncodingType'' = ''url'');
         enc = (if url then urlEncode else (\<lambda>s. s)) in
     bindE (callE (ListMultipartUploads env (named_bucket (the_string q ''BucketName'')) prefix delim (the_string q ''KeyMarker'')
       (the_string q ''UploadIDMarker'') (the_int q ''MaxUploads''))) (\<lambda>res.
     orReply res (internalError (the_string q ''Key'')) (\<lambda>(found, hasMore).
     bindE (liftE (split_uploads prefix delim found)) (\<lambda>(us, prefixes).
     let more = (hasMore \<and> us \<noteq> []) in
     replyE (WriteResponse env 200 [] (Some (XmlUploads \<lparr>lm_Bucket = the_string q ''BucketName'',
       lm_KeyMarker = enc (the_string q ''KeyMarker''), lm_UploadIDMarker = the_string q ''UploadIDMarker'',
       lm_NextKeyMarker = (if more then Location_Key (Upload_Location (last us)) else []),
       lm_Prefix = enc prefix, lm_Delimiter = enc delim,
       lm_NextUploadIDMarker = (if more then UploadID (last us) else []),
       lm_MaxUploads = the_int q ''MaxUploads'', lm_IsTruncated = hasMore,
       lm_Uploads = map (\<lambda>u. (upload_item env u)\<lparr>lu_Key := enc (Location_Key (Upload_Location u))\<rparr>) us,
       lm_Prefixes = prefixes, lm_EncodingType = (if url then ''url'' else [])\<rparr>)) None)))))"

definition part_item :: "'r env \<Rightarrow> MultipartPart \<Rightarrow> ListPartsResultPart" where
  "part_item env part = \<lparr>lp_ETag = FormatUint (Part_ETag part), lp_LastModified = time_format env RFC3339 (Part_CreatedAt part),
     lp_PartNumber = PartNumber part, lp_Size = Part_Size part\<rparr>"

definition ListParts_handler :: "'r env \<Rightarrow> request \<Rightarrow> (('r, 'x) world_scheme, unit) web" where
  "ListParts_handler env r = HandleRequest env MultipartRequest r True True [] [''uploadId''] (\<lambda>q.
     let key = the_string q ''Key''; uploadId = the_string q ''UploadID'' in
     bindE (callE (GetMultipartUpload env uploadId)) (\<lambda>res.
     orReply res (no_upload q) (\<lambda>upload.
     unless_reply (BucketAndKeyMatch q upload) (
     bindE (callE (ListParts env uploadId (the_int q ''MaxParts'') (the_int q ''PartNumberMarker''))) (\<lambda>listed.
     orReply listed (internalError key) (\<lambda>(parts, hasMore).
     if hasMore \<and> parts = [] then raiseE ErrPanic
     else replyE (WriteResponse env 200 [] (Some (XmlParts \<lparr>ls_Bucket = loc_bucket (Upload_Location upload),
       ls_Key = Location_Key (Upload_Location upload), ls_UploadID = UploadID upload,
       ls_PartNumberMarker = the_int q ''PartNumberMarker'',
       ls_NextPartNumberMarker = (if hasMore then wrap64 (PartNumber (last parts) + 1) else 0), ls_MaxParts = the_int q ''MaxParts'',
       ls_IsTruncated = hasMore, ls_Parts = map (part_item env) parts, ls_Initiator = GetDefaultUser env,
       ls_Owner = GetDefaultUser env, ls_StorageClass = GetDefaultStorageClass env,
       ls_ChecksumAlgorithm = cmd_Algorithm GetDefaultChecksumMetadata,
       ls_ChecksumType = cmd_Type GetDefaultChecksumMetadata\<rparr>)) None)))))))"

end
