(* ===== verification/Dashboard.thy ===== *)
theory Dashboard
  imports Startup Web_Multipart
begin

text \<open>
  The service under the dashboard (\<open>dashboard/service.go\<close>): bucket and backend statistics, browsing a bucket as
  a tree of directories, creating and deleting buckets. A \<open>float64\<close> percentage is kept as its number of
  hundredths, which \<open>float_percent\<close> computes.
\<close>

section \<open>State and views\<close>

text \<open>The service holds the database or none.\<close>

type_synonym dash_service = bool

record dash_bucket =
  db_Name :: string
  db_Size :: int
  db_ObjectCount :: int

record ObjectEntry =
  oe_Name :: string
  oe_Path :: string
  oe_IsDir :: bool
  oe_LastModified :: gotime
  oe_Size :: int
  oe_ChunkCount :: int
  oe_ShardCount :: int

record dash_backend =
  dk_Name :: string
  dk_Configured :: bool
  dk_TotalShards :: int
  dk_TotalBytes :: int
  dk_TotalChunks :: int
  dk_TotalObjects :: int
  dk_TotalBuckets :: int
  dk_BytesShare :: int
  dk_ShardsShare :: int
  dk_LastVerified :: gotime
  dk_HasLastVerified :: bool
  dk_MaxShardSize :: int
  dk_MaxShardSizeErr :: "error option"

text \<open>A call whose error the caller looks at.\<close>

definition tryE :: "('w, 'a) comp \<Rightarrow> ('w, 'a res) comp" where
  "tryE m = (\<lambda>w. case m w of (r, w') \<Rightarrow> (case r of Inl e \<Rightarrow> if fatal e then Inl e else Inr (Inl e) | Inr x \<Rightarrow> Inr (Inr x), w'))"

text \<open>\<open>sort.Slice\<close> by a key: sorted, and equal keys in any order.\<close>

definition sortSlice :: "'r env \<Rightarrow> ('a \<Rightarrow> 'k::linorder) \<Rightarrow> 'a list \<Rightarrow> (('r, 'x) world_scheme, 'a list) comp" where
  "sortSlice env key xs = bindE next_tick (\<lambda>n. returnE (sort_key key (map_order env n xs)))"

definition dash_Health :: "'r env \<Rightarrow> dash_service \<Rightarrow> (('r, 'x) world_scheme, string) comp" where
  "dash_Health env s = (if \<not> s then raiseE ErrNoDatabase else bindE (ext_call env) (\<lambda>_. returnE ''ok''))"

section \<open>Buckets\<close>

text \<open>When the statistics cannot be read the names alone are shown, and nothing when that fails too.\<close>

definition dash_ListBuckets :: "'r env \<Rightarrow> (('r, 'x) world_scheme, dash_bucket list) comp" where
  "dash_ListBuckets env = bindE (tryE (ListBucketsWithStats env)) (\<lambda>stats. case stats of
     Inl _ \<Rightarrow> bindE (tryE (ListBuckets env [] 1 100)) (\<lambda>listed. case listed of
         Inl _ \<Rightarrow> returnE []
       | Inr (buckets, _) \<Rightarrow> returnE (map (\<lambda>b. \<lparr>db_Name = Bucket_Name b, db_Size = 0, db_ObjectCount = 0\<rparr>) buckets))
   | Inr bs \<Rightarrow> returnE (map (\<lambda>b. \<lparr>db_Name = Bucket_Name (bs_Bucket b), db_Size = bs_TotalSize b,
       db_ObjectCount = bs_TotalObjects b\<rparr>) bs))"

definition dash_ListObjects :: "'r env \<Rightarrow> string \<Rightarrow> string \<Rightarrow> (('r, 'x) world_scheme, Object list \<times> bool) comp" where
  "dash_ListObjects env bucketName prefix = ListObjects env (named_bucket bucketName) prefix ''/'' [] 1 100"

definition dash_CreateBucket :: "'r env \<Rightarrow> string \<Rightarrow> (('r, 'x) world_scheme, unit) comp" where
  "dash_CreateBucket env name = (if name = [] then raiseE ErrBucketNameRequired else CreateBucket env (named_bucket name))"

definition dash_DeleteBucket :: "'r env \<Rightarrow> string \<Rightarrow> (('r, 'x) world_scheme, unit) comp" where
  "dash_DeleteBucket env name = (if name = [] then raiseE ErrBucketNameRequired else DeleteBucket env (named_bucket name))"

definition bucketExists :: "'r env \<Rightarrow> string \<Rightarrow> (('r, 'x) world_scheme, bool) comp" where
  "bucketExists env name = bindE (dash_ListBuckets env) (\<lambda>bs. returnE (name \<in> db_Name ` set bs))"

definition deleteIfExists :: "'r env \<Rightarrow> string \<Rightarrow> (('r, 'x) world_scheme, unit) comp" where
  "deleteIfExists env name = bindE (bucketExists env name) (\<lambda>there.
     if \<not> there then raiseE (ErrNoRows name) else dash_DeleteBucket env name)"

section \<open>Browsing\<close>

definition normalizePrefix :: "string \<Rightarrow> string" where
  "normalizePrefix prefix =
     (let p = trimPrefix (trimSpace prefix) ''/''
      in if p = [] then [] else if \<not> hasSuffix p ''/'' then p @ ''/'' else p)"

definition dir_entry :: "string \<Rightarrow> string \<Rightarrow> ObjectEntry" where
  "dir_entry prefix dirName = \<lparr>oe_Name = dirName, oe_Path = prefix @ dirName @ ''/'', oe_IsDir = True, oe_LastModified = 0,
     oe_Size = 0, oe_ChunkCount = 0, oe_ShardCount = 0\<rparr>"

text \<open>The loop over the objects, with the paths of the directories seen so far.\<close>

fun browse :: "'r env \<Rightarrow> string \<Rightarrow> string set \<Rightarrow> Object list \<Rightarrow> (('r, 'x) world_scheme, ObjectEntry list) comp" where
  "browse env prefix dirs [] = returnE []"
| "browse env prefix dirs (ob # obs) =
     (let key = Location_Key (Obj_Location ob); remainder = trimPrefix key prefix
      in if remainder = [] then browse env prefix dirs obs
         else case strIndex remainder ''/'' of
           Some slash \<Rightarrow>
             (let dirName = take slash remainder; dirPath = prefix @ dirName @ ''/''
              in if dirPath \<in> dirs then browse env prefix dirs obs
                 else bindE (browse env prefix (insert dirPath dirs) obs) (\<lambda>es. returnE (dir_entry prefix dirName # es)))
         | None \<Rightarrow>
             bindE (getChunks env (Obj_Location ob)) (\<lambda>chunks.
             bindE (browse env prefix dirs obs) (\<lambda>es.
             returnE (\<lparr>oe_Name = remainder, oe_Path = key, oe_IsDir = False, oe_LastModified = LastModified ob,
               oe_Size = Obj_Size ob, oe_ChunkCount = int (length chunks),
               oe_ShardCount = int (sum_list (map (\<lambda>c. length (Chunk_Shards c)) chunks))\<rparr> # es))))"

text \<open>Directories first, then by the name in lower case.\<close>

definition entry_key :: "ObjectEntry \<Rightarrow> bool \<times> string" where
  "entry_key e = (\<not> oe_IsDir e, toLower (oe_Name e))"

definition BrowseObjects :: "'r env \<Rightarrow> string \<Rightarrow> string \<Rightarrow> (('r, 'x) world_scheme, ObjectEntry list) comp" where
  "BrowseObjects env bucketName prefix = (let p = normalizePrefix prefix in
     bindE (dash_ListObjects env bucketName p) (\<lambda>(objects, _).
     bindE (browse env p {} objects) (\<lambda>entries. sortSlice env entry_key entries)))"

section \<open>Backends\<close>

definition percentOf :: "'r env \<Rightarrow> int \<Rightarrow> int \<Rightarrow> int" where
  "percentOf env value largest = (if value \<le> 0 \<or> largest \<le> 0 then 0 else float_percent env value largest)"

text \<open>The shares are relative to the largest entry (at least 1).\<close>

definition with_shares :: "'r env \<Rightarrow> dash_backend list \<Rightarrow> dash_backend list" where
  "with_shares env es =
     (let maxBytes = fold (\<lambda>e m. max (dk_TotalBytes e) m) es 1; maxShards = fold (\<lambda>e m. max (dk_TotalShards e) m) es 1
      in map (\<lambda>e. e\<lparr>dk_BytesShare := percentOf env (dk_TotalBytes e) maxBytes,
                    dk_ShardsShare := percentOf env (dk_TotalShards e) maxShards\<rparr>) es)"

definition demo_backend :: "string \<Rightarrow> int \<Rightarrow> int \<Rightarrow> int \<Rightarrow> int \<Rightarrow> int \<Rightarrow> gotime \<Rightarrow> int \<Rightarrow> dash_backend" where
  "demo_backend name shards bytes chunks objects buckets verified maxSize =
     \<lparr>dk_Name = name, dk_Configured = True, dk_TotalShards = shards, dk_TotalBytes = bytes, dk_TotalChunks = chunks,
      dk_TotalObjects = objects, dk_TotalBuckets = buckets, dk_BytesShare = 0, dk_ShardsShare = 0,
      dk_LastVerified = verified, dk_HasLastVerified = True, dk_MaxShardSize = maxSize, dk_MaxShardSizeErr = None\<rparr>"

text \<open>Times are in nanoseconds.\<close>

definition minutes :: "int \<Rightarrow> gotime" where
  "minutes n = n * 60 * 1000000000"

definition demoBackendStats :: "'r env \<Rightarrow> (('r, 'x) world_scheme, dash_backend list) comp" where
  "demoBackendStats env = bindE (time_Now env) (\<lambda>now. let gib = 2 ^ 30; mib = 2 ^ 20 in
     returnE (with_shares env
       [demo_backend ''telegram'' 48213 (812 * gib + 344 * mib) 16071 9284 7 (now - minutes 11) (2 * gib),
        demo_backend ''youtube'' 379 (623 * gib + 902 * mib) 12646 7115 6 (now - minutes 38) (2 * gib),
        demo_backend ''discord'' 52887 (471 * gib + 118 * mib) 17629 8402 7 (now - minutes 4) (10 * mib)]))"

definition dash_ListBackendStats :: "'r env \<Rightarrow> (('r, 'x) world_scheme, dash_backend list) comp" where
  "dash_ListBackendStats env = demoBackendStats env"

definition stat_entry :: "bool \<Rightarrow> string \<Rightarrow> BackendStats option \<Rightarrow> dash_backend" where
  "stat_entry configured name stat = (case stat of
     None \<Rightarrow> \<lparr>dk_Name = name, dk_Configured = configured, dk_TotalShards = 0, dk_TotalBytes = 0, dk_TotalChunks = 0,
       dk_TotalObjects = 0, dk_TotalBuckets = 0, dk_BytesShare = 0, dk_ShardsShare = 0, dk_LastVerified = 0,
       dk_HasLastVerified = False, dk_MaxShardSize = 0, dk_MaxShardSizeErr = None\<rparr>
   | Some s \<Rightarrow> \<lparr>dk_Name = name, dk_Configured = configured, dk_TotalShards = be_TotalShards s, dk_TotalBytes = be_TotalBytes s,
       dk_TotalChunks = be_TotalChunks s, dk_TotalObjects = be_TotalObjects s, dk_TotalBuckets = be_TotalBuckets s,
       dk_BytesShare = 0, dk_ShardsShare = 0, dk_LastVerified = be_LastVerified s,
       dk_HasLastVerified = (be_LastVerified s \<noteq> 0), dk_MaxShardSize = 0, dk_MaxShardSizeErr = None\<rparr>)"

text \<open>A later row of the same backend replaces an earlier one in the map.\<close>

definition configured_entry :: "BackendStats list \<Rightarrow> BackendType \<Rightarrow> (('r, 'x) world_scheme, dash_backend) comp" where
  "configured_entry rawStats b = bindE (tryE (GetMaxShardSize b)) (\<lambda>size.
     let e = stat_entry True b (find (\<lambda>s. be_Backend s = b) (rev rawStats))
     in returnE (case size of Inl err \<Rightarrow> e\<lparr>dk_MaxShardSizeErr := Some err\<rparr> | Inr n \<Rightarrow> e\<lparr>dk_MaxShardSize := int n\<rparr>))"

definition listBackendStatsLive :: "'r env \<Rightarrow> (('r, 'x) world_scheme, dash_backend list) comp" where
  "listBackendStatsLive env =
     bindE (ListBackendStats env) (\<lambda>rawStats.
     bindE GetAvailableBackends (\<lambda>configured.
     bindE (mapE (configured_entry rawStats) configured) (\<lambda>es.
     let others = map (\<lambda>s. stat_entry False (be_Backend s) (Some s)) (filter (\<lambda>s. be_Backend s \<notin> set configured) rawStats)
     in sortSlice env (\<lambda>e. (\<not> dk_Configured e, toLower (dk_Name e))) (with_shares env (es @ others)))))"

end
