(* ===== verification/Dashboard_Web.thy ===== *)
theory Dashboard_Web
  imports Dashboard
begin

text \<open>
  The dashboard server (\<open>dashboard/web/server.go\<close>). A reply names the template it renders and the view it is
  given; the markup itself is not modelled, but what can make a template fail is: the function \<open>formatBytes\<close>
  panics on sizes from 1024^6 on (the template engine turns the panic of a function into an error), and
  \<open>objects_fragment.gohtml\<close> asks an entry that is not a directory for the field \<open>Created\<close>, which its struct does
  not have. A fragment is rendered straight into the response, so a failure leaves the part that was written,
  under status 200, with the error text after it. The templates that are executed inside others are total.
\<close>

section \<open>Template functions\<close>

text \<open>The loop that finds the unit: the divisor and the index of the unit.\<close>

function unit_loop :: "int \<Rightarrow> int \<Rightarrow> nat \<Rightarrow> int \<times> nat" where
  "unit_loop n d e = (if n \<ge> 1024 then unit_loop (n div 1024) (d * 1024) (e + 1) else (d, e))"
  by pat_completeness auto
termination
  by (relation "measure (\<lambda>(n, d, e). nat n)") auto

declare unit_loop.simps [simp del]

definition units :: "string list" where
  "units = [''KB'', ''MB'', ''GB'', ''TB'', ''PB'']"

definition formatBytes :: "'r env \<Rightarrow> int \<Rightarrow> string res" where
  "formatBytes env b =
     (if b < 1024 then Inr (FormatInt b @ '' B'')
      else case unit_loop (b div 1024) 1024 0 of (d, e) \<Rightarrow>
        if e < length units then Inr (float_fixed1 env b d @ '' '' @ units ! e) else Inl ErrPanic)"

definition formatBytesInt :: "'r env \<Rightarrow> int \<Rightarrow> string res" where
  "formatBytesInt env b = formatBytes env (signed_take_bit 63 b)"

definition formatTime :: "'r env \<Rightarrow> gotime \<Rightarrow> string" where
  "formatTime env t = (if t = 0 then ''-'' else time_format env ''2006-01-02 15:04:05 UTC'' t)"

definition parentPrefix :: "string \<Rightarrow> string" where
  "parentPrefix prefix =
     (let p = trimSuffix (trimSpace prefix) ''/''
      in if p = [] then [] else case lastIndexOf CHR ''/'' p of None \<Rightarrow> [] | Some i \<Rightarrow> take (i + 1) p)"

section \<open>Views and replies\<close>

record objectBrowserView =
  ov_Bucket :: string
  ov_Prefix :: string
  ov_DisplayPath :: string
  ov_HasParent :: bool
  ov_ParentPrefix :: string
  ov_Entries :: "ObjectEntry list"

record healthView =
  hv_Ok :: bool
  hv_Message :: string
  hv_Error :: "error option"
  hv_CheckedAt :: string

datatype view =
    BucketsView string "dash_bucket list"
  | BackendsView string "dash_backend list"
  | SettingsView string
  | ObjectsView objectBrowserView
  | HealthView healthView

text \<open>Rendered from a template (whole or cut off by an error), an error text, or the events of a stream.\<close>

datatype reply =
    Rendered string view
  | CutOff string view error
  | HttpError int error
  | Events "healthView list"
  | StaticFile string
  | MethodNotAllowed

definition sizes_ok :: "'r env \<Rightarrow> int list \<Rightarrow> bool" where
  "sizes_ok env ns \<longleftrightarrow> (\<forall>n \<in> set ns. \<not> isl (formatBytes env n))"

definition int_sizes_ok :: "'r env \<Rightarrow> int list \<Rightarrow> bool" where
  "int_sizes_ok env ns \<longleftrightarrow> (\<forall>n \<in> set ns. \<not> isl (formatBytesInt env n))"

definition template_error :: error where
  "template_error = ErrParse ''template''"

text \<open>Whether a template can be rendered with a view.\<close>

definition renders :: "'r env \<Rightarrow> string \<Rightarrow> view \<Rightarrow> bool" where
  "renders env template v = (case v of
     BucketsView _ bs \<Rightarrow> template = ''buckets_fragment'' \<longrightarrow> sizes_ok env (map db_Size bs)
   | BackendsView _ es \<Rightarrow> sizes_ok env (map dk_TotalBytes es) \<and>
       int_sizes_ok env (map dk_MaxShardSize (filter (\<lambda>e. dk_MaxShardSizeErr e = None) es))
   | ObjectsView o' \<Rightarrow> (\<forall>e \<in> set (ov_Entries o'). oe_IsDir e)
   | _ \<Rightarrow> True)"

text \<open>\<open>renderPage\<close> renders the content into a buffer first, the fragments render into the response.\<close>

definition renderPage :: "'r env \<Rightarrow> string \<Rightarrow> view \<Rightarrow> reply" where
  "renderPage env template v = (if renders env template v then Rendered template v else HttpError 500 template_error)"

definition renderFragment :: "'r env \<Rightarrow> string \<Rightarrow> view \<Rightarrow> reply" where
  "renderFragment env template v = (if renders env template v then Rendered template v else CutOff template v template_error)"

section \<open>Handlers\<close>

definition dashboardPage :: "'r env \<Rightarrow> (('r, 'x) world_scheme, reply) comp" where
  "dashboardPage env = bindE (dash_ListBuckets env) (\<lambda>bs.
     returnE (renderPage env ''dashboard_content'' (BucketsView ''ShardS3 Dashboard'' bs)))"

definition bucketsPage :: "'r env \<Rightarrow> (('r, 'x) world_scheme, reply) comp" where
  "bucketsPage env = bindE (dash_ListBuckets env) (\<lambda>bs.
     returnE (renderPage env ''buckets_content'' (BucketsView ''Buckets - ShardS3'' bs)))"

definition backendsPage :: "'r env \<Rightarrow> (('r, 'x) world_scheme, reply) comp" where
  "backendsPage env = bindE (tryE (dash_ListBackendStats env)) (\<lambda>stats. returnE (case stats of
     Inl e \<Rightarrow> HttpError 500 e
   | Inr es \<Rightarrow> renderPage env ''backends_content'' (BackendsView ''Backends - ShardS3'' es)))"

definition settingsPage :: "'r env \<Rightarrow> (('r, 'x) world_scheme, reply) comp" where
  "settingsPage env = returnE (renderPage env ''settings_content'' (SettingsView ''Settings - ShardS3''))"

definition currentHealth :: "'r env \<Rightarrow> dash_service \<Rightarrow> (('r, 'x) world_scheme, healthView) comp" where
  "currentHealth env s = bindE (time_Now env) (\<lambda>now. bindE (tryE (dash_Health env s)) (\<lambda>res.
     let checked = time_format env RFC1123 now in returnE (case res of
       Inl e \<Rightarrow> \<lparr>hv_Ok = False, hv_Message = [], hv_Error = Some e, hv_CheckedAt = checked\<rparr>
     | Inr m \<Rightarrow> \<lparr>hv_Ok = True, hv_Message = m, hv_Error = None, hv_CheckedAt = checked\<rparr>)))"

definition healthFragment :: "'r env \<Rightarrow> dash_service \<Rightarrow> (('r, 'x) world_scheme, reply) comp" where
  "healthFragment env s = bindE (currentHealth env s) (\<lambda>v. returnE (renderFragment env ''health_fragment'' (HealthView v)))"

text \<open>One event at once and one for each of the ticks before the client leaves.\<close>

definition healthLongLived :: "'r env \<Rightarrow> dash_service \<Rightarrow> nat \<Rightarrow> (('r, 'x) world_scheme, reply) comp" where
  "healthLongLived env s ticks = bindE (mapE (\<lambda>_. currentHealth env s) [0 ..< Suc ticks]) (\<lambda>vs. returnE (Events vs))"

definition bucketsFragment :: "'r env \<Rightarrow> (('r, 'x) world_scheme, reply) comp" where
  "bucketsFragment env = bindE (dash_ListBuckets env) (\<lambda>bs.
     returnE (renderFragment env ''buckets_fragment'' (BucketsView ''ShardS3 Dashboard'' bs)))"

definition bucketObjectsFragment :: "'r env \<Rightarrow> string \<Rightarrow> request \<Rightarrow> (('r, 'x) world_scheme, reply) comp" where
  "bucketObjectsFragment env pathBucket r =
     (let bucketName = trimSpace pathBucket; prefix = trimSpace (Query_Get r ''prefix'')
      in bindE (tryE (BrowseObjects env bucketName prefix)) (\<lambda>res. returnE (case res of
           Inl e \<Rightarrow> HttpError 400 e
         | Inr entries \<Rightarrow> renderFragment env ''objects_fragment'' (ObjectsView \<lparr>ov_Bucket = bucketName, ov_Prefix = prefix,
             ov_DisplayPath = ''/'' @ trimPrefix prefix ''/'', ov_HasParent = (prefix \<noteq> []), ov_ParentPrefix = parentPrefix prefix,
             ov_Entries = entries\<rparr>))))"

definition with_form :: "'r env \<Rightarrow> request \<Rightarrow> (string \<Rightarrow> (('r, 'x) world_scheme, unit) comp) \<Rightarrow> (('r, 'x) world_scheme, reply) comp" where
  "with_form env r act = (case parse_form env (rq_RawQuery r) (rq_Header r) (rd_data (rq_Body r)) of
     None \<Rightarrow> returnE (HttpError 400 (ErrParse ''form''))
   | Some form \<Rightarrow> bindE (tryE (act (trimSpace (form ''bucket_name'')))) (\<lambda>res. case res of
       Inl e \<Rightarrow> returnE (HttpError 400 e) | Inr _ \<Rightarrow> bucketsFragment env))"

definition createBucket :: "'r env \<Rightarrow> request \<Rightarrow> (('r, 'x) world_scheme, reply) comp" where
  "createBucket env r = with_form env r (dash_CreateBucket env)"

definition deleteBucket :: "'r env \<Rightarrow> request \<Rightarrow> (('r, 'x) world_scheme, reply) comp" where
  "deleteBucket env r = with_form env r (dash_DeleteBucket env)"

section \<open>Routes\<close>

text \<open>The patterns of \<open>http.ServeMux\<close> for a clean path without escaped slashes (a \<open>GET\<close> pattern also serves \<open>HEAD\<close>).
  \<open>GET /\<close> takes every path that no other pattern takes, so another method on an unknown path is not allowed. The
  static files are embedded in the program and not modelled.\<close>

definition objects_path :: "string \<Rightarrow> string option" where
  "objects_path p = (case strSplit CHR ''/'' p of
     [[], a, b, bucket, c] \<Rightarrow> if a = ''fragments'' \<and> b = ''buckets'' \<and> c = ''objects'' \<and> bucket \<noteq> [] then Some bucket else None
   | _ \<Rightarrow> None)"

definition dash_get :: "'r env \<Rightarrow> dash_service \<Rightarrow> nat \<Rightarrow> request \<Rightarrow> (('r, 'x) world_scheme, reply) comp" where
  "dash_get env s ticks r = (let p = rq_Path r in
     if p = ''/buckets'' then bucketsPage env
     else if p = ''/backends'' then backendsPage env
     else if p = ''/settings'' then settingsPage env
     else if p = ''/health/longlived'' then healthLongLived env s ticks
     else if p = ''/fragments/health'' then healthFragment env s
     else if p = ''/fragments/buckets'' then bucketsFragment env
     else if hasPrefix p ''/static/'' then returnE (StaticFile p)
     else case objects_path p of Some bucket \<Rightarrow> bucketObjectsFragment env bucket r | None \<Rightarrow> dashboardPage env)"

definition dash_routes :: "'r env \<Rightarrow> dash_service \<Rightarrow> nat \<Rightarrow> request \<Rightarrow> (('r, 'x) world_scheme, reply) comp" where
  "dash_routes env s ticks r =
     (if rq_Method r \<in> {''GET'', ''HEAD''} then dash_get env s ticks r
      else if rq_Method r = ''POST'' \<and> rq_Path r = ''/fragments/buckets'' then createBucket env r
      else if rq_Method r = ''POST'' \<and> rq_Path r = ''/fragments/buckets/delete'' then deleteBucket env r
      else returnE MethodNotAllowed)"

text \<open>The service of the dashboard, on the database that \<open>main\<close> has opened; the templates are embedded and parse.\<close>

definition runDashboardService :: "'r env \<Rightarrow> nat \<Rightarrow> request \<Rightarrow> (('r, 'x) world_scheme, reply) comp" where
  "runDashboardService env ticks r = dash_routes env True ticks r"

end
