(* ===== verification/Server.thy ===== *)
theory Server
  imports Web_Multipart Sig_V4
begin

text \<open>
  The S3 server (\<open>s3/web/server.go\<close>, \<open>routeHandler.go\<close>, \<open>middleware.go\<close>): the dispatch of a request on its
  host, method, path and query, the authentication middleware, and the log line. The router packages are
  parameters: \<open>host_route\<close> picks the pattern that a request belongs to (by its host, or by the forwarding headers
  that \<open>hostrouter\<close> trusts), \<open>chi_match\<close> says whether a router that has
  handlers for some methods on \<open>/*\<close> serves a request, and what they reject they answer with \<open>router_status\<close>.
\<close>

section \<open>Routes (\<open>routeHandler.go\<close>)\<close>

definition hasKey :: "request \<Rightarrow> bool" where
  "hasKey r \<longleftrightarrow> rq_Path r \<noteq> ''/'' \<and> rq_Path r \<noteq> []"

definition cannot_handle :: "('w, unit) web" where
  "cannot_handle = replyE (writeS3Error 500 ''InternalError'' (Msg ''request cannot be handled'') [])"

definition handleBucketsGet :: "'r env \<Rightarrow> request \<Rightarrow> (('r, 'x) world_scheme, unit) web" where
  "handleBucketsGet env r = (if hasKey r then cannot_handle else ListBuckets_handler env r)"

definition handleBucketPresentGet :: "'r env \<Rightarrow> request \<Rightarrow> (('r, 'x) world_scheme, unit) web" where
  "handleBucketPresentGet env r =
     (if hasKey r then
        (if Query_Has r ''tagging'' then GetObjectTagging env r
         else if Query_Has r ''acl'' then GetObjectAcl env r
         else if Query_Has r ''uploadId'' then ListParts_handler env r
         else GetObject_handler env r)
      else if Query_Has r ''location'' then GetBucketLocation env r
      else if Query_Has r ''tagging'' then GetBucketTagging env r
      else if Query_Has r ''acl'' then GetBucketAcl env r
      else if Query_Has r ''encryption'' then GetBucketEncryption env r
      else if Query_Has r ''uploads'' then ListMultipartUploads_handler env r
      else ListObjectsV2 env r)"

definition handleBucketPresentHead :: "'r env \<Rightarrow> request \<Rightarrow> (('r, 'x) world_scheme, unit) web" where
  "handleBucketPresentHead env r = (if hasKey r then HeadObject env r else HeadBucket env r)"

definition handleBucketPresentPut :: "'r env \<Rightarrow> request \<Rightarrow> (('r, 'x) world_scheme, unit) web" where
  "handleBucketPresentPut env r =
     (if \<not> hasKey r then cannot_handle
      else if Query_Has r ''uploadId'' then UploadPart env r
      else PutObject_handler env r)"

definition handleBucketPresentPost :: "'r env \<Rightarrow> request \<Rightarrow> (('r, 'x) world_scheme, unit) web" where
  "handleBucketPresentPost env r =
     (if Query_Has r ''delete'' then DeleteObjects env r
      else if Query_Has r ''uploads'' then CreateMultipartUpload_handler env r
      else if Query_Has r ''uploadId'' then CompleteMultipartUpload_handler env r
      else cannot_handle)"

definition handleBucketPresentDelete :: "'r env \<Rightarrow> request \<Rightarrow> (('r, 'x) world_scheme, unit) web" where
  "handleBucketPresentDelete env r =
     (if \<not> hasKey r then cannot_handle
      else if Query_Has r ''uploadId'' then AbortMultipartUpload_handler env r
      else DeleteObject_handler env r)"

section \<open>Hosts (\<open>server.go\<close>)\<close>

definition rootMethods :: "string list" where
  "rootMethods = [''GET'']"

definition bucketMethods :: "string list" where
  "bucketMethods = [''GET'', ''HEAD'', ''PUT'', ''POST'', ''DELETE'']"

definition rejected :: "'r env \<Rightarrow> ('w, unit) web" where
  "rejected env = replyE (writeHeader (router_status env))"

definition rootHostRouter :: "'r env \<Rightarrow> request \<Rightarrow> (('r, 'x) world_scheme, unit) web" where
  "rootHostRouter env r =
     (if chi_match env rootMethods (rq_Method r) (rq_Path r) then handleBucketsGet env r else rejected env)"

definition bucketHostRouter :: "'r env \<Rightarrow> request \<Rightarrow> (('r, 'x) world_scheme, unit) web" where
  "bucketHostRouter env r =
     (if \<not> chi_match env bucketMethods (rq_Method r) (rq_Path r) then rejected env
      else if rq_Method r = ''GET'' then handleBucketPresentGet env r
      else if rq_Method r = ''HEAD'' then handleBucketPresentHead env r
      else if rq_Method r = ''PUT'' then handleBucketPresentPut env r
      else if rq_Method r = ''POST'' then handleBucketPresentPost env r
      else handleBucketPresentDelete env r)"

definition hosts :: "'r env \<Rightarrow> request \<Rightarrow> (('r, 'x) world_scheme, unit) web" where
  "hosts env r = (let fqdn = FQDN (Cfg env); wildcard = ''*.'' @ fqdn in
     case host_route env [fqdn, wildcard] (rq_Header r) (rq_Host r) of
       None \<Rightarrow> rejected env
     | Some p \<Rightarrow> if p = fqdn then rootHostRouter env r else bucketHostRouter env r)"

section \<open>Middleware (\<open>middleware.go\<close>)\<close>

definition preCheckHeaders :: "'r env \<Rightarrow> request \<Rightarrow> (response \<Rightarrow> response) option" where
  "preCheckHeaders env r = (let owner = Header_Get r ''x-amz-expected-bucket-owner'' in
     if owner \<noteq> [] \<and> owner \<noteq> S3AccountID (Cfg env)
     then Some (writeS3Error 403 ''AccessDenied'' (Msg ''expected bucket owner does not match'') (rq_Path r))
     else None)"

definition auth_reply :: "string \<Rightarrow> error \<Rightarrow> response \<Rightarrow> response" where
  "auth_reply path e =
     (if e = ErrMissingAuthorization
      then writeS3Error 401 ''AuthorizationHeaderMalformed'' (Msg ''authorization header is required'') path
      else if e = ErrInvalidDate
      then writeS3Error 403 ''RequestTimeTooSkewed'' (Msg ''the difference between the request time and server time is too large'') path
      else if e = ErrInvalidSignature
      then writeS3Error 403 ''SignatureDoesNotMatch''
        (Msg ''the request signature we calculated does not match the signature you provided'') path
      else writeS3Error 403 ''AccessDenied'' (MsgOf e) path)"

text \<open>The source overwrites the result of the verification with \<open>nil\<close> (marked there as testing), so \<open>err\<close>
  below is always \<open>None\<close>.\<close>

definition requireSigV4 :: "'r env \<Rightarrow> auth_service option \<Rightarrow> (request \<Rightarrow> (('r, 'x) world_scheme, unit) web)
    \<Rightarrow> request \<Rightarrow> (('r, 'x) world_scheme, unit) web" where
  "requireSigV4 env auth next r = (case auth of
     None \<Rightarrow> replyE (writeS3Error 500 ''InternalError'' (Msg ''auth service not configured'') (rq_Path r))
   | Some s \<Rightarrow> bindE (callE (VerifyRequest env s r)) (\<lambda>verified.
       let r' = r\<lparr>rq_Host := normalizeHost (rq_Host r)\<rparr>;
           err = (None :: error option)
       in case err of
            None \<Rightarrow> unless_reply (preCheckHeaders env r') (next r')
          | Some e \<Rightarrow> replyE (auth_reply (rq_Path r') e)))"

text \<open>The handler runs on a fresh response; the recorder logs the status it ends with.\<close>

definition logRequests :: "('w, unit) web \<Rightarrow> 'w \<Rightarrow> (unit res \<times> response \<times> int) \<times> 'w" where
  "logRequests h w = (case h (newResponse, w) of (res, (rw, w')) \<Rightarrow> ((res, rw, finalStatus rw), w'))"

record server_config =
  srv_auth :: "auth_service option"

definition Routes :: "'r env \<Rightarrow> server_config \<Rightarrow> request \<Rightarrow> (('r, 'x) world_scheme, unit) web" where
  "Routes env srv r = requireSigV4 env (srv_auth srv) (hosts env) r"

text \<open>One request: the outcome of the handler, the response, and the system after it.\<close>

definition serve :: "'r env \<Rightarrow> server_config \<Rightarrow> request \<Rightarrow> ('r, 'x) world_scheme
    \<Rightarrow> (unit res \<times> response \<times> int) \<times> ('r, 'x) world_scheme" where
  "serve env srv r w = logRequests (Routes env srv r) w"

text \<open>The service of \<open>cmd/shards3/s3.go\<close>.\<close>

definition runS3Service :: "'r env \<Rightarrow> server_config" where
  "runS3Service env = \<lparr>srv_auth = Some (NewAuthService \<lparr>ac_AccessKeyID = S3AccessKeyID (Cfg env),
     ac_SecretAccessKey = S3SecretAccessKey (Cfg env), ac_Region = S3Region (Cfg env),
     ac_AllowedSkew = wrap64 (S3AllowedSkewSec (Cfg env) * 1000000000)\<rparr>)\<rparr>"

end
