(* ===== verification/Web_Frames.thy ===== *)
theory Web_Frames
  imports Server Steady
begin

text \<open>
  What a request can do to the storage system. The locale \<open>reading\<close> collects the operations that the handlers
  of \<open>GET\<close> and \<open>HEAD\<close> requests call, the locale \<open>serving\<close> those of all handlers; each fixes a relation that
  its operations keep, and shows that the handlers keep it too. \<open>reading\<close> is interpreted with the relation
  that nothing stored changes, \<open>serving\<close> with the preservation of the invariant of the system.
\<close>

section \<open>Frames of handlers\<close>

definition web_rel :: "('w \<Rightarrow> 'w \<Rightarrow> bool) \<Rightarrow> response \<times> 'w \<Rightarrow> response \<times> 'w \<Rightarrow> bool" where
  "web_rel R p q \<longleftrightarrow> R (snd p) (snd q)"

locale web_frame = frame_rel R for R :: "'w \<Rightarrow> 'w \<Rightarrow> bool"
begin

lemma web_callE: "keeps R m \<Longrightarrow> keeps (web_rel R) (callE m)"
  by (auto simp: keeps_def web_rel_def callE_def split: prod.split)
    (metis snd_conv)

lemma web_liftW: "keeps R m \<Longrightarrow> keeps (web_rel R) (liftW m)"
  by (auto simp: keeps_def web_rel_def liftW_def split: prod.split)
    (metis snd_conv)

lemma web_replyE: "keeps (web_rel R) (replyE f)"
  by (auto simp: keeps_def web_rel_def replyE_def reflR)

end

sublocale web_frame \<subseteq> web: frame_rel "web_rel R"
  by unfold_locales (auto simp: web_rel_def reflR intro: transR)

context web_frame
begin

lemma web_orReply: "(\<And>x. keeps (web_rel R) (k x)) \<Longrightarrow> keeps (web_rel R) (orReply r f k)"
  by (cases r) (simp_all add: orReply_def web_replyE)

lemma web_unless_reply: "keeps (web_rel R) k \<Longrightarrow> keeps (web_rel R) (unless_reply c k)"
  by (cases c) (simp_all add: unless_reply_def web_replyE)

lemma web_require: "keeps (web_rel R) k \<Longrightarrow> keeps (web_rel R) (require c f k)"
  by (cases c) (simp_all add: require_def web_replyE)

lemma web_HandleRequest: "(\<And>q. keeps (web_rel R) (k q)) \<Longrightarrow> keeps (web_rel R) (HandleRequest env tags r a b hs qs k)"
  by (auto simp: HandleRequest_def web_replyE split: sum.split option.split)

lemma web_sum: "(\<And>x. keeps (web_rel R) (f x)) \<Longrightarrow> (\<And>x. keeps (web_rel R) (k x)) \<Longrightarrow>
    keeps (web_rel R) (case v of Inl x \<Rightarrow> f x | Inr x \<Rightarrow> k x)"
  by (cases v) simp_all

lemma web_prod: "(\<And>x y. keeps (web_rel R) (k x y)) \<Longrightarrow> keeps (web_rel R) (case v of (x, y) \<Rightarrow> k x y)"
  by (cases v) simp

lemma keeps_sum: "(\<And>x. keeps R (f x)) \<Longrightarrow> (\<And>x. keeps R (k x)) \<Longrightarrow> keeps R (case v of Inl x \<Rightarrow> f x | Inr x \<Rightarrow> k x)"
  by (cases v) simp_all

lemma keeps_five: "(\<And>a b c d e. keeps R (f a b c d e)) \<Longrightarrow>
    keeps R (case xs of [a, b, c, d, e] \<Rightarrow> f a b c d e | _ \<Rightarrow> raiseE x)"
  by (auto split: list.split)

lemmas web_rules = web.keeps_rules web_callE web_liftW web_replyE web_orReply web_unless_reply web_require web_HandleRequest
  web_sum web_prod

end

section \<open>Reading\<close>

locale reading = web_frame R for R :: "('r, 'x) world_scheme \<Rightarrow> ('r, 'x) world_scheme \<Rightarrow> bool" +
  fixes env :: "'r env"
  assumes time: "keeps R (time_Now env)"
    and ticks: "keeps R next_tick"
    and bucket: "keeps R (GetBucket env b)"
    and buckets: "keeps R (ListBuckets env pre pg mx)"
    and objects: "keeps R (ListObjects env b pre dl sa pg mx)"
    and object: "keeps R (meta_GetObject env loc)"
    and upload: "keeps R (GetMultipartUpload env i)"
    and upload_at: "keeps R (GetMultipartUploadByLocation env loc)"
    and uploads: "keeps R (ListMultipartUploads env b pre dl km um mx)"
    and parts: "keeps R (ListParts env i mx f)"
    and part: "keeps R (GetPart env i n)"
    and stream: "keeps R (streamRangeFromChunks env cs cmp sz b1 e1)"
begin

lemma reads_bucket: "keeps R (service_GetBucket env n)" "keeps R (service_ListBuckets env pre pg mx)"
  by (simp_all add: service_GetBucket_def service_ListBuckets_def bucket buckets)

lemma keeps_with_bucket: "(\<And>q. keeps (web_rel R) (k q)) \<Longrightarrow> keeps (web_rel R) (with_bucket env r k)"
  unfolding with_bucket_def by (intro web_rules reads_bucket)

lemma keeps_with_object: "(\<And>q. keeps (web_rel R) (k q)) \<Longrightarrow> keeps (web_rel R) (with_object env r k)"
  unfolding with_object_def GetObject_def by (intro web_rules object)

lemma keeps_item: "keeps (web_rel R) (bucket_item env b)"
proof (rule keepsI)
  fix p :: "response \<times> ('r, 'x) world_scheme"
  obtain rw w where p: "p = (rw, w)" by (cases p)
  have "R w (snd (time_Now env w))" by (rule keeps_snd [OF time])
  then show "web_rel R p (snd (bucket_item env b p))"
    by (auto simp: p bucket_item_def web_rel_def reflR split: prod.splits sum.splits)
qed

lemma reads_buckets:
  "keeps (web_rel R) (GetBucketLocation env r)" "keeps (web_rel R) (HeadBucket env r)" "keeps (web_rel R) (GetBucketEncryption env r)"
  "keeps (web_rel R) (GetBucketAcl env r)" "keeps (web_rel R) (GetBucketTagging env r)" "keeps (web_rel R) (ListBuckets_handler env r)"
  unfolding GetBucketLocation_def HeadBucket_def GetBucketEncryption_def GetBucketAcl_def GetBucketTagging_def ListBuckets_handler_def Let_def
  by (intro web_rules keeps_with_bucket reads_bucket keeps_item)+

lemma reads_open: "keeps R (open_stream env q ob b e)"
  unfolding open_stream_def Part_GetDataStream_def Object_GetDataStream_def by (intro keeps_rules upload_at part stream)

lemma reads_objects:
  "keeps (web_rel R) (HeadObject env r)" "keeps (web_rel R) (GetObject_handler env r)" "keeps (web_rel R) (ListObjectsV2 env r)"
  "keeps (web_rel R) (GetObjectAcl env r)" "keeps (web_rel R) (GetObjectTagging env r)"
  unfolding HeadObject_def GetObject_handler_def ListObjectsV2_def GetObjectAcl_def GetObjectTagging_def Let_def
  by (intro web_rules keeps_with_object reads_open upload_at object objects)+

lemma reads_uploads: "keeps (web_rel R) (ListMultipartUploads_handler env r)" "keeps (web_rel R) (ListParts_handler env r)"
  unfolding ListMultipartUploads_handler_def ListParts_handler_def Let_def by (intro web_rules uploads upload parts)+

lemma reads_get: "keeps (web_rel R) (handleBucketsGet env r)" "keeps (web_rel R) (handleBucketPresentGet env r)"
  "keeps (web_rel R) (handleBucketPresentHead env r)"
  unfolding handleBucketsGet_def handleBucketPresentGet_def handleBucketPresentHead_def cannot_handle_def
  by (intro web_rules reads_buckets reads_objects reads_uploads)+

lemma reads_verify: "keeps R (VerifyRequest env s r)"
  unfolding VerifyRequest_def Let_def by (intro keeps_rules keeps_sum keeps_five time)

lemma keeps_requireSigV4: "(\<And>r. keeps (web_rel R) (h r)) \<Longrightarrow> keeps (web_rel R) (requireSigV4 env auth h r)"
  unfolding requireSigV4_def Let_def by (auto split: option.split intro!: web_rules reads_verify)

lemma reads_root: "keeps (web_rel R) (rootHostRouter env r)"
  unfolding rootHostRouter_def rejected_def by (intro web_rules reads_get)

lemma reads_hosts: "rq_Method r \<in> {''GET'', ''HEAD''} \<Longrightarrow> keeps (web_rel R) (hosts env r)"
  by (auto simp: hosts_def bucketHostRouter_def rejected_def Let_def web_replyE reads_root reads_get split: option.split)

lemma reads_routes: "rq_Method r \<in> {''GET'', ''HEAD''} \<Longrightarrow> keeps (web_rel R) (Routes env srv r)"
proof -
  assume "rq_Method r \<in> {''GET'', ''HEAD''}"
  then have "rq_Method (r\<lparr>rq_Host := h\<rparr>) \<in> {''GET'', ''HEAD''}" for h by simp
  from reads_hosts [OF this] show ?thesis
    unfolding Routes_def requireSigV4_def Let_def by (auto split: option.split intro!: web_rules reads_verify)
qed

end

section \<open>Serving\<close>

locale serving = reading R env for R :: "('r, 'x) world_scheme \<Rightarrow> ('r, 'x) world_scheme \<Rightarrow> bool" and env :: "'r env" +
  assumes put: "keeps R (PutObjectStream env loc rd)"
    and delete: "keeps R (DeleteObject env loc)"
    and exists: "keeps R (ObjectExists env loc)"
    and create_upload: "keeps R (CreateMultipartUpload env loc)"
    and upload_part: "keeps R (UploadPartStream env loc n i rd)"
    and complete: "keeps R (meta_CompleteMultipartUpload env i)"
    and abort: "keeps R (AbortMultipartUpload env i)"
begin

lemma serves_put: "keeps (web_rel R) (PutObject_handler env r)"
  unfolding PutObject_handler_def by (intro web_rules put)

lemma serves_delete: "keeps (web_rel R) (DeleteObject_handler env r)"
  unfolding DeleteObject_handler_def GetObject_def Let_def by (intro web_rules object delete)

lemma keeps_entries: "keeps (web_rel R) (delete_entries env loc ks)"
  by (induction ks) (auto intro!: web_rules delete)

lemma serves_deletes: "keeps (web_rel R) (DeleteObjects env r)"
  unfolding DeleteObjects_def by (intro web_rules keeps_entries)

lemma serves_create: "keeps (web_rel R) (CreateMultipartUpload_handler env r)"
  unfolding CreateMultipartUpload_handler_def Let_def by (intro web_rules exists create_upload)

lemma serves_part: "keeps (web_rel R) (UploadPart env r)"
  unfolding UploadPart_def Let_def by (intro web_rules upload upload_part ticks keeps_getsE)

lemma serves_complete: "keeps (web_rel R) (CompleteMultipartUpload_handler env r)"
  unfolding CompleteMultipartUpload_handler_def Let_def by (intro web_rules upload complete parts ticks)

lemma serves_abort: "keeps (web_rel R) (AbortMultipartUpload_handler env r)"
  unfolding AbortMultipartUpload_handler_def Let_def by (intro web_rules upload abort)

lemma serves_hosts: "keeps (web_rel R) (hosts env r)"
  unfolding hosts_def bucketHostRouter_def rejected_def cannot_handle_def handleBucketPresentPut_def handleBucketPresentPost_def
    handleBucketPresentDelete_def Let_def
  by (intro web_rules reads_root reads_get serves_put serves_delete serves_deletes serves_create serves_part serves_complete serves_abort)

lemma serves_routes: "keeps (web_rel R) (Routes env srv r)"
  unfolding Routes_def by (intro keeps_requireSigV4 serves_hosts)

lemma serve_keeps: "serve env srv r w = (out, t) \<Longrightarrow> R w t"
  using keeps_snd [OF serves_routes [of srv r], where s = "(newResponse, w)"]
  by (auto simp: serve_def logRequests_def web_rel_def split: prod.splits)

end

section \<open>The two interpretations\<close>

interpretation get_requests: reading "unchanged env" env for env
proof
  fix b :: Bucket and pre dl sa km um i :: string and pg mx f n sz b1 e1 :: int and loc cs cmp
  show "keeps (unchanged env) (time_Now env)" "keeps (unchanged env) next_tick" by (rule unchanged_basic)+
  show "keeps (unchanged env) (GetBucket env b)" "keeps (unchanged env) (ListBuckets env pre pg mx)"
    "keeps (unchanged env) (ListObjects env b pre dl sa pg mx)" "keeps (unchanged env) (meta_GetObject env loc)"
    "keeps (unchanged env) (GetMultipartUpload env i)" "keeps (unchanged env) (GetMultipartUploadByLocation env loc)"
    "keeps (unchanged env) (ListMultipartUploads env b pre dl km um mx)" "keeps (unchanged env) (ListParts env i mx f)"
    "keeps (unchanged env) (GetPart env i n)"
    unfolding GetBucket_def ListBuckets_def ListObjects_def meta_GetObject_def GetMultipartUpload_def GetMultipartUploadByLocation_def
      generateUploadID_def ListMultipartUploads_def ListParts_def GetPart_def
    by (intro unchanged_rules)+
  show "keeps (unchanged env) (streamRangeFromChunks env cs cmp sz b1 e1)" by (rule streamRange_unchanged)
qed

interpretation requests: serving "inv_step env" env for env
proof
  fix b :: Bucket and pre dl sa km um i :: string and pg mx f n sz b1 e1 :: int and loc cs cmp rd
  show "keeps (inv_step env) (time_Now env)" "keeps (inv_step env) next_tick"
    by (auto simp: keeps_def time_Now_eq next_tick_def intro: stable_inv_step [OF tick_stable])
  show "keeps (inv_step env) (GetBucket env b)" "keeps (inv_step env) (ListBuckets env pre pg mx)"
    "keeps (inv_step env) (ListObjects env b pre dl sa pg mx)" "keeps (inv_step env) (meta_GetObject env loc)"
    "keeps (inv_step env) (GetMultipartUpload env i)" "keeps (inv_step env) (GetMultipartUploadByLocation env loc)"
    "keeps (inv_step env) (ListMultipartUploads env b pre dl km um mx)" "keeps (inv_step env) (ListParts env i mx f)"
    "keeps (inv_step env) (GetPart env i n)" "keeps (inv_step env) (ObjectExists env loc)"
    "keeps (inv_step env) (meta_CompleteMultipartUpload env i)"
    by (rule meta_inv)+
  show "keeps (inv_step env) (streamRangeFromChunks env cs cmp sz b1 e1)" by (rule streamRange_inv)
  show "keeps (inv_step env) (PutObjectStream env loc rd)" "keeps (inv_step env) (DeleteObject env loc)" by (rule manager_inv)+
  show "keeps (inv_step env) (CreateMultipartUpload env loc)" "keeps (inv_step env) (UploadPartStream env loc n i rd)"
    "keeps (inv_step env) (AbortMultipartUpload env i)" by (rule multipart_inv)+
qed

end
