(* ===== verification/Dashboard_Laws.thy ===== *)
theory Dashboard_Laws
  imports Dashboard_Web Web_Frames
begin

text \<open>
  The dashboard is correct: what its requests can change (nothing but the tables, and only the two forms change
  those), what browsing shows, and what the template functions print. The locale \<open>viewing\<close> collects what the
  pages call, \<open>managing\<close> adds the two forms.
\<close>

section \<open>Frames\<close>

locale viewing = frame_rel R for R :: "('r, 'x) world_scheme \<Rightarrow> ('r, 'x) world_scheme \<Rightarrow> bool" +
  fixes env :: "'r env"
  assumes time: "keeps R (time_Now env)"
    and ticks: "keeps R next_tick"
    and call: "keeps R (ext_call env)"
    and buckets: "keeps R (ListBuckets env pre pg mx)"
    and stats: "keeps R (ListBucketsWithStats env)"
    and objects: "keeps R (ListObjects env b pre dl sa pg mx)"
    and chunks: "keeps R (getChunks env loc)"
begin

lemma keeps_tryE: "keeps R m \<Longrightarrow> keeps R (tryE m)"
  by (auto simp: keeps_def tryE_def split: prod.split) (metis snd_conv)

lemma keeps_res: "(\<And>x. keeps R (f x)) \<Longrightarrow> (\<And>x. keeps R (g x)) \<Longrightarrow> keeps R (case v of Inl x \<Rightarrow> f x | Inr x \<Rightarrow> g x)"
  by (cases v) simp_all

lemma keeps_sortSlice: "keeps R (sortSlice env key xs)"
  unfolding sortSlice_def by (intro keeps_rules ticks)

lemma views_buckets: "keeps R (dash_ListBuckets env)"
  unfolding dash_ListBuckets_def case_prod_beta by (intro keeps_rules keeps_tryE keeps_res stats buckets)

lemma keeps_browse: "keeps R (browse env pre dirs obs)"
  by (induction obs arbitrary: dirs)
    (auto simp: Let_def intro!: keeps_rules chunks split: option.split)

lemma views_browse: "keeps R (BrowseObjects env b pre)"
  unfolding BrowseObjects_def Let_def dash_ListObjects_def case_prod_beta
  by (intro keeps_rules keeps_browse keeps_sortSlice objects)

lemma views_health: "keeps R (currentHealth env s)"
  unfolding currentHealth_def dash_Health_def Let_def by (intro keeps_rules keeps_tryE time call)

lemma views_backends: "keeps R (dash_ListBackendStats env)"
  unfolding dash_ListBackendStats_def demoBackendStats_def Let_def by (intro keeps_rules time)

lemma keeps_dash_get: "keeps R (dash_get env s ticks r)"
  unfolding dash_get_def Let_def bucketsPage_def backendsPage_def settingsPage_def healthLongLived_def healthFragment_def bucketsFragment_def
    bucketObjectsFragment_def dashboardPage_def
  by (intro keeps_rules keeps_tryE keeps_res views_buckets views_browse views_health views_backends)

end

locale managing = viewing +
  assumes create: "keeps R (CreateBucket env b)"
    and delete: "keeps R (DeleteBucket env b)"
begin

lemma keeps_with_form: "(\<And>n. keeps R (act n)) \<Longrightarrow> keeps R (with_form env r act)"
  unfolding with_form_def bucketsFragment_def by (auto split: option.split intro!: keeps_rules keeps_tryE keeps_res views_buckets)

lemma keeps_dash_routes: "keeps R (dash_routes env s ticks r)"
  unfolding dash_routes_def createBucket_def deleteBucket_def dash_CreateBucket_def dash_DeleteBucket_def
  by (intro keeps_rules keeps_dash_get keeps_with_form create delete)

end

section \<open>The two interpretations\<close>

text \<open>Time passes, nothing else.\<close>

definition only_time :: "('r, 'x) world_scheme \<Rightarrow> ('r, 'x) world_scheme \<Rightarrow> bool" where
  "only_time w w' \<longleftrightarrow> (\<exists>n. w' = w\<lparr>tick := n\<rparr>)"

interpretation timed: frame_rel only_time
proof
  fix w u v :: "('a, 'b) world_scheme"
  show "only_time w w" unfolding only_time_def by (rule exI [of _ "tick w"]) simp
  show "only_time w v" if "only_time w u" "only_time u v" using that by (auto simp: only_time_def)
qed

lemma only_timeI: "only_time w (w\<lparr>tick := n\<rparr>)"
  by (auto simp: only_time_def)

lemma timed_basic:
  "keeps only_time (time_Now env)" "keeps only_time next_tick" "keeps only_time (ext_call env)" "keeps only_time getDB" "keeps only_time (query env f)"
  by (simp_all add: keeps_def time_Now_eq next_tick_def ext_call_eq getDB_eq query_eq only_timeI timed.reflR)

interpretation pages: viewing only_time env for env
proof
  fix b :: Bucket and pre dl sa :: string and pg mx :: int and loc
  show "keeps only_time (time_Now env)" "keeps only_time next_tick" "keeps only_time (ext_call env)" by (rule timed_basic)+
  show "keeps only_time (ListBuckets env pre pg mx)" "keeps only_time (ListBucketsWithStats env)" "keeps only_time (ListObjects env b pre dl sa pg mx)"
    "keeps only_time (getChunks env loc)"
    unfolding ListBuckets_def ListBucketsWithStats_def ListObjects_def getChunks_def chunkRowsToChunks_def getShards_def
    by (intro timed.keeps_rules timed_basic)+
qed

text \<open>The tables may change, within their integrity.\<close>

definition tables_only :: "('r, 'x) world_scheme \<Rightarrow> ('r, 'x) world_scheme \<Rightarrow> bool" where
  "tables_only w w' \<longleftrightarrow> store_same w w' \<and> db_step w w'"

interpretation tabled: frame_rel tables_only
  by unfold_locales (auto simp: tables_only_def sstep.reflR dstep.reflR intro: sstep.transR dstep.transR)

lemma keeps_tables_only: "keeps store_same m \<Longrightarrow> keeps db_step m \<Longrightarrow> keeps tables_only m"
  by (simp add: keeps_def tables_only_def)

interpretation forms: managing tables_only env for env
proof
  fix b :: Bucket and pre dl sa :: string and pg mx :: int and loc
  show "keeps tables_only (time_Now env)" "keeps tables_only next_tick" "keeps tables_only (ext_call env)"
    by (auto simp: keeps_def tables_only_def store_same_def db_step_def time_Now_eq next_tick_def ext_call_eq)
  show "keeps tables_only (ListBuckets env pre pg mx)" "keeps tables_only (ListBucketsWithStats env)"
    "keeps tables_only (ListObjects env b pre dl sa pg mx)" "keeps tables_only (getChunks env loc)"
    "keeps tables_only (CreateBucket env b)" "keeps tables_only (DeleteBucket env b)"
    by (intro keeps_tables_only bucket_frames object_frames chunks_frames)+
qed

section \<open>Browsing\<close>

lemma set_map_order: "mset (map_order env n xs) = mset xs"
proof -
  let ?is = "remdups (filter (\<lambda>i. i < length xs) (sched env n @ [0 ..< length xs]))"
  have "set ?is = {0 ..< length xs}" by auto
  then have "mset ?is = mset [0 ..< length xs]" by (intro set_eq_iff_mset_eq_distinct [THEN iffD1]) auto
  then have "mset (map (nth xs) ?is) = mset (map (nth xs) [0 ..< length xs])" by (simp only: mset_map)
  then show ?thesis by (simp add: map_order_def map_nth)
qed

lemma sortSlice_Inr:
  assumes "sortSlice env key xs w = (r, t)"
  shows "\<exists>ys. r = Inr ys \<and> mset ys = mset xs \<and> sorted (map key ys)"
  using assms by (auto simp: sortSlice_def bindE_def next_tick_def returnE_def set_map_order)

text \<open>What remains of a key under a prefix, and the directory it lies in.\<close>

abbreviation remains :: "string \<Rightarrow> Object \<Rightarrow> string" where
  "remains p ob \<equiv> trimPrefix (Location_Key (Obj_Location ob)) p"

definition is_file :: "string \<Rightarrow> Object \<Rightarrow> bool" where
  "is_file p ob \<longleftrightarrow> remains p ob \<noteq> [] \<and> CHR ''/'' \<notin> set (remains p ob)"

definition dir_of :: "string \<Rightarrow> Object \<Rightarrow> string" where
  "dir_of p ob = takeWhile (\<lambda>c. c \<noteq> CHR ''/'') (remains p ob)"

lemma strIndex_slash:
  "strIndex r ''/'' = (if CHR ''/'' \<in> set r then Some (length (takeWhile (\<lambda>c. c \<noteq> CHR ''/'') r)) else None)"
  by (induction r) (auto simp: hasPrefix_def)

lemma take_takeWhile: "take (length (takeWhile P xs)) xs = takeWhile P xs"
  by (metis takeWhile_eq_take)

abbreviation in_dir :: "string \<Rightarrow> Object \<Rightarrow> bool" where
  "in_dir p ob \<equiv> CHR ''/'' \<in> set (remains p ob)"

text \<open>Every directory that is not known yet is listed once, and every object that lies directly under the prefix.\<close>

lemma browse_Inr:
  "browse env p dirs obs w = (Inr es, t) \<Longrightarrow>
    distinct (map oe_Name (filter oe_IsDir es)) \<and>
    oe_Name ` set (filter oe_IsDir es) = dir_of p ` set (filter (in_dir p) obs) - {n. p @ n @ ''/'' \<in> dirs} \<and>
    (\<forall>e \<in> set es. oe_IsDir e \<longrightarrow> oe_Path e = p @ oe_Name e @ ''/'') \<and>
    map (\<lambda>e. (oe_Name e, oe_Path e, oe_LastModified e, oe_Size e)) (filter (\<lambda>e. \<not> oe_IsDir e) es) =
      map (\<lambda>ob. (remains p ob, Location_Key (Obj_Location ob), LastModified ob, Obj_Size ob)) (filter (is_file p) obs)"
proof (induction obs arbitrary: dirs es w t)
  case Nil
  then show ?case by (simp add: returnE_def)
next
  case (Cons ob obs)
  let ?r = "remains p ob" and ?n = "dir_of p ob"
  consider (nothing) "?r = []" | (folder) "?r \<noteq> []" "in_dir p ob" | (plain) "?r \<noteq> []" "\<not> in_dir p ob" by blast
  then show ?case
  proof cases
    case nothing
    with Cons.IH [of dirs w es t] Cons.prems show ?thesis by (simp add: Let_def is_file_def)
  next
    case folder
    then have f: "\<not> is_file p ob" and i: "strIndex ?r ''/'' = Some (length ?n)" "take (length ?n) ?r = ?n"
      by (simp_all add: is_file_def strIndex_slash dir_of_def take_takeWhile)
    show ?thesis
    proof (cases "p @ ?n @ ''/'' \<in> dirs")
      case True
      with Cons.IH [of dirs w es t] Cons.prems folder f i show ?thesis by (auto simp: Let_def)
    next
      case False
      with Cons.prems folder i obtain es' where es: "es = dir_entry p ?n # es'" and b: "browse env p (insert (p @ ?n @ ''/'') dirs) obs w = (Inr es', t)"
        by (auto simp: Let_def bindE_eq_Inr_iff)
      note IH = Cons.IH [OF b]
      have "?n \<notin> oe_Name ` set (filter oe_IsDir es')" using IH by auto
      moreover have "oe_Name ` set (filter oe_IsDir es) = insert ?n (oe_Name ` set (filter oe_IsDir es'))" by (simp add: es dir_entry_def)
      ultimately show ?thesis using IH folder f False by (auto simp: es dir_entry_def)
    qed
  next
    case plain
    then have "strIndex ?r ''/'' = None" "is_file p ob" by (simp_all add: strIndex_slash is_file_def)
    with Cons.prems plain obtain cc sc es' w1 where es: "es = \<lparr>oe_Name = ?r, oe_Path = Location_Key (Obj_Location ob), oe_IsDir = False,
        oe_LastModified = LastModified ob, oe_Size = Obj_Size ob, oe_ChunkCount = cc, oe_ShardCount = sc\<rparr> # es'"
      and b: "browse env p dirs obs w1 = (Inr es', t)"
      by (auto simp: Let_def bindE_eq_Inr_iff)
    from Cons.IH [OF b] \<open>is_file p ob\<close> plain show ?thesis by (simp add: es)
  qed
qed

lemma BrowseObjects_Inr:
  assumes "BrowseObjects env b pre w = (Inr es, t)"
  obtains obs more w1 es' where "dash_ListObjects env b (normalizePrefix pre) w = (Inr (obs, more), w1)"
    "mset es = mset es'" "sorted (map entry_key es)" "\<exists>w2. browse env (normalizePrefix pre) {} obs w1 = (Inr es', w2)"
proof -
  from assms obtain obs more w1 es' w2 where l: "dash_ListObjects env b (normalizePrefix pre) w = (Inr (obs, more), w1)"
    "browse env (normalizePrefix pre) {} obs w1 = (Inr es', w2)" "sortSlice env entry_key es' w2 = (Inr es, t)"
    by (auto simp: BrowseObjects_def Let_def bindE_eq_Inr_iff)
  with sortSlice_Inr [OF l(3)] show thesis by (intro that [of obs more w1 es']) auto
qed

section \<open>Sizes\<close>

lemma unit_loop_exact:
  assumes "1024 ^ k \<le> n" and "n < 1024 ^ Suc k"
  shows "unit_loop n d e = (d * 1024 ^ k, e + k)"
  using assms
proof (induction k arbitrary: n d e)
  case 0
  then show ?case by (simp add: unit_loop.simps [of n])
next
  case (Suc k)
  have "1024 ^ k \<le> n div 1024" "n div 1024 < 1024 ^ Suc k" using Suc.prems unfolding power_Suc by linarith+
  moreover have "1024 \<le> n" using Suc.prems(1) one_le_power [of "1024 :: int" k] unfolding power_Suc by linarith
  ultimately show ?case using Suc.IH [of "n div 1024" "d * 1024" "e + 1"] by (simp add: unit_loop.simps [of n])
qed

end
