(* ===== verification/Dashboard_Theorems.thy ===== *)
theory Dashboard_Theorems
  imports Dashboard_Laws Concrete
begin

text \<open>
  The properties of the dashboard.
\<close>

definition dash_request :: "string \<Rightarrow> string \<Rightarrow> request" where
  "dash_request m path = \<lparr>rq_Method = m, rq_Host = ''localhost'', rq_Path = path, rq_EscapedPath = path,
     rq_RawQuery = [], rq_Header = [], rq_ContentLength = 0, rq_Body = bytes_NewReader []\<rparr>"

section \<open>What a request can change\<close>

text \<open>C37: No request to the dashboard touches a backend: the blobs, the files, the registered and the available backends and the keys
  stay as they are, and the tables keep their integrity. A request that is not a \<open>POST\<close> changes nothing at all but the time. So the
  dashboard deletes a bucket from the tables only, and the blobs of its objects stay behind on the backends.\<close>

theorem dashboard_touches_tables_only:
  assumes "runDashboardService env ticks r w = (out, t)"
  shows "files t = files w \<and> remote t = remote w \<and> instances t = instances w \<and> availableBackends t = availableBackends w \<and>
    metaDB t = metaDB w \<and> defaultKMS t = defaultKMS w \<and> (db_inv (db w) \<longrightarrow> db_inv (db t)) \<and>
    (rq_Method r \<noteq> ''POST'' \<longrightarrow> t = w\<lparr>tick := tick t\<rparr>)"
proof -
  have "tables_only w t" using keepsD [OF forms.keeps_dash_routes] assms unfolding runDashboardService_def by blast
  moreover have "t = w\<lparr>tick := tick t\<rparr>" if "rq_Method r \<noteq> ''POST''"
  proof (cases "rq_Method r \<in> {''GET'', ''HEAD''}")
    case True
    then have "dash_get env True ticks r w = (out, t)" using assms by (simp add: runDashboardService_def dash_routes_def)
    then have "only_time w t" by (rule keepsD [OF pages.keeps_dash_get])
    then show ?thesis by (auto simp: only_time_def)
  next
    case False
    with that assms have "t = w" by (simp add: runDashboardService_def dash_routes_def returnE_def)
    then show ?thesis by simp
  qed
  ultimately show ?thesis by (simp add: tables_only_def store_same_def db_step_def)
qed

theorem dashboard_touches_tables_only_witness:
  "instances (snd (runDashboardService demo_env 3 (dash_request ''GET'' ''/health/longlived'') demo_object_world)) = instances demo_object_world \<and>
   db (snd (runDashboardService demo_env 3 (dash_request ''GET'' ''/health/longlived'') demo_object_world)) = db demo_object_world"
proof -
  let ?r = "dash_request ''GET'' ''/health/longlived''"
  let ?t = "snd (runDashboardService demo_env 3 ?r demo_object_world)"
  have p: "rq_Method ?r \<noteq> ''POST''" by (simp add: dash_request_def)
  from dashboard_touches_tables_only [OF surjective_pairing, of demo_env 3 ?r demo_object_world]
  have i: "instances ?t = instances demo_object_world" and t: "?t = demo_object_world\<lparr>tick := tick ?t\<rparr>" using p by blast+
  from i arg_cong [OF t, of db] show ?thesis by simp
qed

section \<open>Browsing\<close>








section \<open>Sizes\<close>



end
