(* ===== verification/Program_Laws.thy ===== *)
theory Program_Laws
  imports Dashboard_Laws Startup_Laws
begin

text \<open>
  The running program: the start, then requests to the S3 service and to the dashboard in any order. Every state
  it reaches keeps the invariant and the backends of the start.
\<close>

section \<open>No request changes the backends\<close>

interpretation confined: serving steady env for env
proof
  fix b :: Bucket and pre dl sa km um i :: string and pg mx f n sz b1 e1 :: int and loc cs cmp rd
  show "keeps steady (time_Now env)" "keeps steady next_tick" by (rule host_steady)+
  show "keeps steady (GetBucket env b)" "keeps steady (ListBuckets env pre pg mx)"
    "keeps steady (ListObjects env b pre dl sa pg mx)" "keeps steady (meta_GetObject env loc)"
    "keeps steady (GetMultipartUpload env i)" "keeps steady (GetMultipartUploadByLocation env loc)"
    "keeps steady (ListMultipartUploads env b pre dl km um mx)" "keeps steady (ListParts env i mx f)"
    "keeps steady (GetPart env i n)" "keeps steady (ObjectExists env loc)"
    "keeps steady (meta_CompleteMultipartUpload env i)"
    by (rule meta_steady)+
  show "keeps steady (streamRangeFromChunks env cs cmp sz b1 e1)" by (rule streamRange_steady)
  show "keeps steady (PutObjectStream env loc rd)" "keeps steady (DeleteObject env loc)"
    "keeps steady (CreateMultipartUpload env loc)" "keeps steady (UploadPartStream env loc n i rd)"
    "keeps steady (AbortMultipartUpload env i)"
    by (rule manager_steady)+
qed

section \<open>The running program\<close>

inductive running :: "'r env \<Rightarrow> ('r, 'x) world_scheme \<Rightarrow> bool \<Rightarrow> ('r, 'x) world_scheme \<Rightarrow> bool" for env :: "'r env" and w where
  started: "main env w = (Inr dash, t) \<Longrightarrow> running env w dash t"
| s3_request: "running env w dash t \<Longrightarrow> serve env (runS3Service env) r t = (out, u) \<Longrightarrow> running env w dash u"
| dashboard_request: "running env w True t \<Longrightarrow> runDashboardService env ticks r t = (out, u) \<Longrightarrow> running env w True u"

lemma tables_only_inv: "tables_only w t \<Longrightarrow> sys_inv env w \<Longrightarrow> sys_inv env t"
proof -
  assume a: "tables_only w t" "sys_inv env w"
  from a have s: "store_same w t" "db_step w t" by (simp_all add: tables_only_def)
  have "iface_step env w t"
    using s(1) by (auto simp: store_same_def iface_step_def shard_addr_def [abs_def] fresh_inv_def GetShard_read split: option.splits)
  with s(2) a(2) show ?thesis by (auto simp: sys_inv_def db_step_def iface_ok_def iface_step_def)
qed

lemma running_keeps:
  assumes "running env w dash t" and "\<And>dash t. main env w = (Inr dash, t) \<Longrightarrow> sys_inv env t"
  shows "sys_inv env t \<and> (\<exists>s. main env w = (Inr dash, s) \<and> availableBackends t = availableBackends s)"
  using assms(1)
proof (induction rule: running.induct)
  case (started dash t)
  then show ?case using assms(2) by blast
next
  case (s3_request dash t r out u)
  then show ?case using requests.serve_keeps [OF s3_request.hyps(2)] confined.serve_keeps [OF s3_request.hyps(2)]
    by (auto simp: inv_step_def dest: steady_backends)
next
  case (dashboard_request t ticks r out u)
  have "tables_only t u" using keepsD [OF forms.keeps_dash_routes] dashboard_request.hyps(2) unfolding runDashboardService_def by blast
  with dashboard_request.IH tables_only_inv show ?case by (auto simp: tables_only_def store_same_def)
qed

end
