(* ===== verification/Request_Laws.thy ===== *)
theory Request_Laws
  imports Server
begin

text \<open>
  Laws of the request parser: the bucket is read back from a host name built from it, a printed range header
  parses to its bounds (with the wrap of \<open>int64\<close>), URL escapes are undone, and the struct that
  \<open>GetRequest\<close> fills holds the value of every field.
\<close>

section \<open>Strings\<close>

lemma hasPrefix_iff: "hasPrefix s p \<longleftrightarrow> (\<exists>r. s = p @ r)"
  by (metis append_take_drop_id hasPrefix_append hasPrefix_def)

lemma hasSuffix_iff: "hasSuffix s p \<longleftrightarrow> (\<exists>r. s = r @ p)"
  by (metis append_take_drop_id hasSuffix_append hasSuffix_def)

lemma hasPrefix_single [simp]: "hasPrefix s [c] \<longleftrightarrow> s \<noteq> [] \<and> hd s = c"
  by (cases s) (auto simp: hasPrefix_def)

lemma strIndex_single: "strIndex s [c] = None \<longleftrightarrow> c \<notin> set s"
  by (induction s) auto

lemma strContains_single: "strContains s [c] \<longleftrightarrow> c \<in> set s"
  by (simp add: strContains_def strIndex_single)

lemma trimSuffix_other: "s \<noteq> [] \<Longrightarrow> last s \<noteq> c \<Longrightarrow> trimSuffix s [c] = s"
  by (auto simp: trimSuffix_def hasSuffix_iff)

section \<open>Hosts\<close>

text \<open>A host name in normal form, and a label that may stand before it.\<close>

definition host_char :: "char \<Rightarrow> bool" where
  "host_char c \<longleftrightarrow> toLower_char c = c \<and> \<not> isSpace c \<and> c \<noteq> CHR '':'' \<and> c \<noteq> CHR ''['' \<and> c \<noteq> CHR '']''"

definition host_name :: "string \<Rightarrow> bool" where
  "host_name h \<longleftrightarrow> h \<noteq> [] \<and> list_all host_char h \<and> last h \<noteq> CHR ''.''"

definition host_label :: "string \<Rightarrow> bool" where
  "host_label b \<longleftrightarrow> b \<noteq> [] \<and> list_all host_char b \<and> CHR ''.'' \<notin> set b"

lemma lastIndexOf_append: "x \<notin> set t \<Longrightarrow> lastIndexOf x (s @ x # t) = Some (length s)"
proof -
  assume "x \<notin> set t"
  then have "takeWhile (\<lambda>c. c \<noteq> x) (rev t @ x # rev s) = rev t" by (subst takeWhile_append2) auto
  then show ?thesis by (simp add: lastIndexOf_def)
qed

lemma host_trim: "h \<noteq> [] \<Longrightarrow> list_all host_char h \<Longrightarrow> trimSpace (toLower h) = h"
proof -
  assume h: "h \<noteq> []" "list_all host_char h"
  then have "toLower h = h" by (induction h) (auto simp: toLower_def host_char_def)
  moreover have "host_char (hd h)" "host_char (last h)" using h by (auto simp: list_all_iff)
  ultimately show ?thesis using h(1) by (simp add: trimSpace_id host_char_def)
qed

lemma normalizeHost_name: "host_name h \<Longrightarrow> normalizeHost h = h"
proof -
  assume h: "host_name h"
  then have "CHR '':'' \<notin> set h" by (auto simp: host_name_def list_all_iff host_char_def)
  then have "SplitHostPort h = None" by (simp add: SplitHostPort_def lastIndexOf_def)
  with h show ?thesis by (simp add: normalizeHost_def host_trim host_name_def trimSuffix_other)
qed

lemma normalizeHost_port:
  assumes h: "host_name h" and p: "list_all host_char p"
  shows "normalizeHost (h @ '':'' @ p) = h"
proof -
  have hc: "\<forall>c \<in> set h. host_char c" "\<forall>c \<in> set p. host_char c" "h \<noteq> []" using h p by (simp_all add: host_name_def list_all_iff)
  have colon: "toLower_char CHR '':'' = CHR '':''" "\<not> isSpace CHR '':''" by (simp_all add: toLower_char_def isSpace_def)
  have low: "toLower (h @ '':'' @ p) = h @ '':'' @ p"
    using hc colon by (simp add: toLower_def host_char_def map_idI)
  have l: "last (h @ '':'' @ p) = (if p = [] then CHR '':'' else last p)" by simp
  have "\<not> isSpace (last (h @ '':'' @ p))"
    unfolding l using hc(2) colon by (auto simp: host_char_def)
  moreover have "\<not> isSpace (hd (h @ '':'' @ p))" using hc by (auto simp: host_char_def)
  ultimately have t: "trimSpace (toLower (h @ '':'' @ p)) = h @ '':'' @ p" unfolding low by (intro trimSpace_id) simp_all
  have "CHR '':'' \<notin> set p" "CHR '':'' \<notin> set h" using hc by (auto simp: host_char_def)
  moreover have "CHR ''['' \<notin> set (h @ '':'' @ p)" "CHR '']'' \<notin> set (h @ '':'' @ p)" using hc by (auto simp: host_char_def)
  moreover have "hd (h @ '':'' @ p) \<noteq> CHR ''[''" using hc by (auto simp: host_char_def)
  ultimately have "SplitHostPort (h @ '':'' @ p) = Some (h, p)"
    using lastIndexOf_append [of "CHR '':''" p h] by (simp add: SplitHostPort_def)
  with t h show ?thesis by (simp add: normalizeHost_def host_name_def trimSuffix_other)
qed

lemma bucketFromHost_iff:
  "bucketFromHost host fqdn = Some b \<longleftrightarrow> normalizeHost host = b @ ''.'' @ normalizeHost fqdn \<and> normalizeHost fqdn \<noteq> [] \<and>
     b \<noteq> [] \<and> CHR ''.'' \<notin> set b"
proof -
  let ?h = "normalizeHost host" and ?f = "normalizeHost fqdn"
  have "bucketFromHost host fqdn = Some b \<longleftrightarrow> ?h \<noteq> [] \<and> ?f \<noteq> [] \<and> ?h \<noteq> ?f \<and> hasSuffix ?h (''.'' @ ?f) \<and>
      trimSuffix ?h (''.'' @ ?f) = b \<and> b \<noteq> [] \<and> CHR ''.'' \<notin> set b"
    unfolding bucketFromHost_def Let_def strContains_single by auto
  also have "\<dots> \<longleftrightarrow> ?h = b @ ''.'' @ ?f \<and> ?f \<noteq> [] \<and> b \<noteq> [] \<and> CHR ''.'' \<notin> set b"
    using trimSuffix_append [of _ "''.'' @ ?f"] by (auto simp: hasSuffix_iff)
  finally show ?thesis .
qed

lemma host_name_bucket: "host_label b \<Longrightarrow> host_name f \<Longrightarrow> host_name (b @ ''.'' @ f)"
  by (auto simp: host_name_def host_label_def host_char_def toLower_char_def isSpace_def)

lemma bucketFromHost_bucket: "host_label b \<Longrightarrow> host_name f \<Longrightarrow> bucketFromHost (b @ ''.'' @ f) f = Some b"
  using host_name_bucket [of b f] by (simp add: bucketFromHost_iff normalizeHost_name host_label_def host_name_def)

section \<open>Ranges\<close>

lemma isDigit_digit: "d < 10 \<Longrightarrow> isDigit (digit d)"
  by (simp add: isDigit_def)

lemma dec_isDigit: "list_all isDigit (dec n)"
  using dec_digits [of _ n] isDigit_digit by (auto simp: list_all_iff)

lemma takeWhile_dec: "\<not> isDigit c \<Longrightarrow> takeWhile isDigit (dec n @ c # s) = dec n" "\<not> isDigit c \<Longrightarrow> dropWhile isDigit (dec n @ c # s) = c # s"
  using dec_isDigit [of n] by (simp_all add: list_all_iff takeWhile_append dropWhile_append)

lemma takeWhile_dec_all: "takeWhile isDigit (dec n) = dec n" "dropWhile isDigit (dec n) = []"
  using dec_isDigit [of n] by (simp_all add: list_all_iff)

lemma not_isDigit [simp]: "\<not> isDigit CHR ''-''" "\<not> isDigit CHR ''/''" "\<not> isDigit CHR ''*''"
  by (simp_all add: isDigit_def digit_val_def)

lemma ParseInt_dec: "n < 2 ^ 63 \<Longrightarrow> ParseInt 64 (dec n) = Inr (int n)"
  using i64.parse_enc [of "int n"] by (simp add: int_range_def FormatInt_def)

lemma match_range_bytes:
  "match_range (''bytes='' @ dec a @ ''-'' @ dec b) = Some (dec a, dec b, [])"
  "match_range (''bytes '' @ dec a @ ''-'' @ dec b @ ''/'' @ dec c) = Some (dec a, dec b, dec c)"
proof -
  have s: "isRegexSpace CHR '' ''" "\<not> isRegexSpace CHR ''=''" by (simp_all add: isRegexSpace_def)
  have "\<not> isRegexSpace (hd (dec a))"
    using dec_hd [of a] by (auto simp: isRegexSpace_def digit_def of_char_of)
  then have d: "dropWhile isRegexSpace (dec a @ x) = dec a @ x" for x by (cases "dec a") auto
  show "match_range (''bytes='' @ dec a @ ''-'' @ dec b) = Some (dec a, dec b, [])"
    by (simp add: match_range_def hasPrefix_def takeWhile_dec takeWhile_dec_all)
  show "match_range (''bytes '' @ dec a @ ''-'' @ dec b @ ''/'' @ dec c) = Some (dec a, dec b, dec c)"
    using dec_isDigit [of c] s by (simp add: match_range_def hasPrefix_def takeWhile_dec takeWhile_dec_all d)
qed

lemma trim_range: "trimSpace (''bytes'' @ x @ dec n) = ''bytes'' @ x @ dec n"
  using dec_last [of n] digit_neq(3) by (intro trimSpace_id) (auto simp: isSpace_def)

lemma wrap64_id: "int_range 64 x \<Longrightarrow> wrap64 x = x"
  by (simp add: wrap64_def int_range_def)

lemma wrap64_range: "int_range 64 (wrap64 x)"
  by (simp add: wrap64_def int_range_def)

lemma ParseContentRangeHeader_bytes:
  assumes "a < 2 ^ 63" and "b < 2 ^ 63"
  shows "ParseContentRangeHeader (''bytes='' @ dec a @ ''-'' @ dec b) = Inr (int a, wrap64 (int b + 1), -1)"
  using assms trim_range [of "''='' @ dec a @ ''-''" b]
  by (simp add: ParseContentRangeHeader_def match_range_bytes [simplified] ParseInt_dec Let_def)

text \<open>A range that was accepted lies inside the object and is not empty, although the end may wrap.\<close>

lemma request_range_Inr:
  "request_range resource ob q text whole = Inr (b, e) \<Longrightarrow>
     (if the_string q ''Range'' = [] then b = 0 \<and> e = whole else 0 \<le> b \<and> b < e \<and> e \<le> Obj_Size ob)"
  by (auto simp: request_range_def split: if_splits sum.splits)

section \<open>URL escapes\<close>

lemma hexVal_hexDigit: "n < 16 \<Longrightarrow> hexVal (hexDigit n) = Some n"
  by (auto simp: hexVal_def hexDigit_def of_char_of Let_def)

lemma QueryUnescape_char:
  "QueryUnescape ((if unreserved c then [c] else if c = CHR '' '' then ''+''
     else [CHR ''%'', hexDigit (of_char c div 16), hexDigit (of_char c mod 16)]) @ s) = map_option ((#) c) (QueryUnescape s)"
proof -
  have n: "(of_char c :: nat) div 16 < 16" by (simp add: less_mult_imp_div_less)
  have "char_of (16 * (of_char c div 16) + of_char c mod 16 :: nat) = c" by simp
  moreover have "hexVal (hexDigit (of_char c div 16)) = Some (of_char c div 16)" "hexVal (hexDigit (of_char c mod 16)) = Some (of_char c mod 16)"
    using n by (simp_all add: hexVal_hexDigit)
  moreover have "c \<noteq> CHR ''%'' \<and> c \<noteq> CHR ''+''" if "unreserved c" using that by (auto simp: unreserved_def)
  ultimately show ?thesis by auto
qed

lemma QueryUnescape_QueryEscape: "QueryUnescape (QueryEscape s) = Some s"
  by (induction s) (simp_all only: QueryEscape_def list.map concat.simps QueryUnescape_char, simp_all)

section \<open>Request structs\<close>

lemma GetRequest_Inr:
  "GetRequest env tags r = Inr q \<Longrightarrow> map fst q = map f_Name tags \<and> (\<forall>(f, n, v) \<in> set (zip tags q). field_value env r f = Inr v)"
  by (induction tags arbitrary: q) (auto split: sum.splits)

lemma GetRequest_lookup:
  assumes "GetRequest env tags r = Inr q" and "f \<in> set tags" and "distinct (map f_Name tags)"
  shows "\<exists>v. field_value env r f = Inr v \<and> map_of q (f_Name f) = Some v"
  using assms
proof (induction tags arbitrary: q)
  case (Cons g gs)
  then obtain v q' where v: "field_value env r g = Inr v" "GetRequest env gs r = Inr q'" "q = (f_Name g, v) # q'"
    by (auto split: sum.splits)
  with Cons show ?case by (cases "f = g") (auto simp: image_iff)
qed simp

lemma ParseQuery_Nil [simp]: "ParseQuery [] = []"
  by (simp add: ParseQuery_def parsePair_def List.map_filter_def)

lemma Query_Nil [simp]: "rq_RawQuery r = [] \<Longrightarrow> Query_Get r n = []" "rq_RawQuery r = [] \<Longrightarrow> \<not> Query_Has r n"
  by (simp_all add: Query_Get_def Query_Has_def)

end
