(* ===== verification/Web_Laws.thy ===== *)
theory Web_Laws
  imports Request_Laws Web_Frames Upload_Safety
begin

text \<open>
  What the handlers answer. A plain request to an object (\<open>bucket_request\<close>: a bucket host, a path, no
  query) is followed from the router through the request parser to its handler, for \<open>PUT\<close>, \<open>GET\<close> and
  \<open>DELETE\<close>.
\<close>

section \<open>The routers\<close>

text \<open>Documented behaviour of the router packages. \<open>hostrouter\<close> looks the host up, then the host with its
  first label replaced by a star, unless a forwarding header names another host; \<open>chi\<close> serves the methods
  that were registered for \<open>/*\<close>.\<close>

definition unforwarded :: "(string \<times> string) list \<Rightarrow> bool" where
  "unforwarded hs \<longleftrightarrow> (\<forall>(k, v) \<in> set hs. CanonicalHeaderKey k \<notin> {''X-Forwarded-Host'', ''Forwarded''})"

definition routers_law :: "'r env \<Rightarrow> bool" where
  "routers_law env \<longleftrightarrow>
     (\<forall>fqdn hs b. host_name fqdn \<longrightarrow> host_label b \<longrightarrow> unforwarded hs \<longrightarrow>
        host_route env [fqdn, ''*.'' @ fqdn] hs (b @ ''.'' @ fqdn) = Some (''*.'' @ fqdn)) \<and>
     (\<forall>ms m p. m \<in> set ms \<longrightarrow> hasPrefix p ''/'' \<longrightarrow> chi_match env ms m p)"

definition bucket_request :: "'r env \<Rightarrow> string \<Rightarrow> string \<Rightarrow> string \<Rightarrow> request \<Rightarrow> bool" where
  "bucket_request env m b k r \<longleftrightarrow> rq_Method r = m \<and> rq_Host r = b @ ''.'' @ FQDN (Cfg env) \<and> host_label b \<and>
     host_name (FQDN (Cfg env)) \<and> rq_Path r = ''/'' @ k \<and> k \<noteq> [] \<and> rq_RawQuery r = [] \<and>
     Header_Get r ''x-amz-expected-bucket-owner'' = [] \<and> unforwarded (rq_Header r)"

lemma bucket_requestD:
  assumes "bucket_request env m b k r"
  shows "normalizeHost (rq_Host r) = rq_Host r" and "host_value env r = b" and "b \<noteq> []" and "hasKey r"
proof -
  have h: "host_name (b @ ''.'' @ FQDN (Cfg env))" using assms host_name_bucket by (auto simp: bucket_request_def)
  then show "normalizeHost (rq_Host r) = rq_Host r" using assms normalizeHost_name by (simp add: bucket_request_def)
  show "host_value env r = b" using assms bucketFromHost_bucket by (simp add: bucket_request_def host_value_def)
  show "b \<noteq> []" "hasKey r" using assms by (auto simp: bucket_request_def host_label_def hasKey_def)
qed

lemma hosts_bucket:
  assumes "bucket_request env m b k r" and "routers_law env" and "m \<in> set bucketMethods"
  shows "hosts env r = bucketHostRouter env r" and "chi_match env bucketMethods (rq_Method r) (rq_Path r)"
proof -
  have "''*.'' @ FQDN (Cfg env) \<noteq> FQDN (Cfg env)" by simp
  with assms show "hosts env r = bucketHostRouter env r"
    by (simp add: hosts_def Let_def bucket_request_def routers_law_def)
  show "chi_match env bucketMethods (rq_Method r) (rq_Path r)"
    using assms by (simp add: bucket_request_def routers_law_def)
qed

section \<open>Authentication\<close>

text \<open>The verification at most reads the clock, and its errors are ordinary ones.\<close>

definition mild :: "(('r, 'x) host_scheme, unit) comp \<Rightarrow> bool" where
  "mild m \<longleftrightarrow> (\<forall>w. (\<forall>e. fst (m w) = Inl e \<longrightarrow> \<not> fatal e) \<and> snd (m w) \<in> {w, w\<lparr>tick := Suc (tick w)\<rparr>})"

lemma mild_raise: "\<not> fatal e \<Longrightarrow> mild (raiseE e)"
  by (simp add: mild_def raiseE_def)

lemma mild_if: "mild m \<Longrightarrow> mild n \<Longrightarrow> mild (if p then m else n)"
  by simp

lemma mild_option: "mild m \<Longrightarrow> (\<And>x. mild (k x)) \<Longrightarrow> mild (case v of None \<Rightarrow> m | Some x \<Rightarrow> k x)"
  by (cases v) simp_all

lemma mild_sum: "(\<And>x. mild (f x)) \<Longrightarrow> (\<And>x. mild (k x)) \<Longrightarrow> mild (case v of Inl x \<Rightarrow> f x | Inr x \<Rightarrow> k x)"
  by (cases v) simp_all

lemma mild_five: "(\<And>a b c d e. mild (f a b c d e)) \<Longrightarrow> \<not> fatal x \<Longrightarrow> mild (case xs of [a, b, c, d, e] \<Rightarrow> f a b c d e | _ \<Rightarrow> raiseE x)"
  by (auto split: list.split intro: mild_raise)

lemma verify_at_mild: "verify_at env s r now t a b c d e = Inl x \<Longrightarrow> \<not> fatal x"
  by (auto simp: verify_at_def fatal_def Let_def split: if_splits option.splits sum.splits)

lemma mild_now: "(\<And>now x. f now = Inl x \<Longrightarrow> \<not> fatal x) \<Longrightarrow> mild (bindE (time_Now env) (\<lambda>now. liftE (f now)))"
  by (simp add: mild_def bindE_def time_Now_eq liftE_def)

lemma VerifyRequest_mild: "mild (VerifyRequest env s r)"
  unfolding VerifyRequest_def Let_def
  by (intro mild_if mild_option mild_sum mild_five mild_now mild_raise) (auto simp: fatal_def dest: verify_at_mild)

lemma VerifyRequest_passes:
  obtains w' where "callE (VerifyRequest env s r) (rw, w) = (Inr (fst (VerifyRequest env s r w)), (rw, w'))"
    and "w' = w \<or> w' = w\<lparr>tick := Suc (tick w)\<rparr>"
proof -
  obtain x w' where v: "VerifyRequest env s r w = (x, w')" by (cases "VerifyRequest env s r w")
  have "(\<forall>e. x = Inl e \<longrightarrow> \<not> fatal e) \<and> w' \<in> {w, w\<lparr>tick := Suc (tick w)\<rparr>}"
    using VerifyRequest_mild [of env s r] v unfolding mild_def by (metis fst_conv snd_conv)
  with v show ?thesis by (intro that [of w']) (auto simp: callE_def split: sum.split)
qed

text \<open>So a request of a bucket host reaches its handler, whatever its signature.\<close>

lemma serve_bucket:
  assumes r: "bucket_request env m b k r" "m \<in> set bucketMethods" and law: "routers_law env" and srv: "srv_auth srv = Some s"
  shows "\<exists>w'. (w' = w \<or> w' = w\<lparr>tick := Suc (tick w)\<rparr>) \<and> serve env srv r w = logRequests (bucketHostRouter env r) w'"
proof -
  obtain w' where w': "callE (VerifyRequest env s r) (newResponse, w) = (Inr (fst (VerifyRequest env s r w)), (newResponse, w'))"
    "w' = w \<or> w' = w\<lparr>tick := Suc (tick w)\<rparr>" by (rule VerifyRequest_passes)
  have "r\<lparr>rq_Host := normalizeHost (rq_Host r)\<rparr> = r" using bucket_requestD(1) [OF r(1)] by simp
  moreover have "preCheckHeaders env r = None" using r(1) by (simp add: preCheckHeaders_def bucket_request_def)
  ultimately have "Routes env srv r (newResponse, w) = hosts env r (newResponse, w')"
    using w'(1) by (simp only: Routes_def requireSigV4_def srv Let_def bindE_def unless_reply_def option.case prod.case sum.case)
  then have "serve env srv r w = logRequests (bucketHostRouter env r) w'"
    by (simp only: serve_def logRequests_def hosts_bucket(1) [OF r(1) law r(2)])
  with w'(2) show ?thesis by blast
qed

section \<open>The request struct\<close>

definition plain_struct :: "string \<Rightarrow> string \<Rightarrow> request \<Rightarrow> http_struct" where
  "plain_struct b k r = [(''BucketName'', VString b), (''Key'', VString k), (''CacheControl'', VString []),
     (''ContentDisposition'', VString []), (''ContentEncoding'', VString []), (''ContentLanguage'', VString []),
     (''ContentType'', VString []), (''PartNumber'', VInt 0), (''Expires'', VTime 0), (''Prefix'', VString []),
     (''ContinuationToken'', VInt 0), (''Delimiter'', VString []), (''FetchOwner'', VString []), (''StartAfter'', VString []),
     (''EncodingType'', VString []), (''MaxKeys'', VInt 1000), (''IfMatch'', VString (Header_Get r ''If-Match'')),
     (''IfModifiedSince'', VString (Header_Get r ''If-Modified-Since'')), (''IfNoneMatch'', VString (Header_Get r ''If-None-Match'')),
     (''IfUnmodifiedSince'', VString (Header_Get r ''If-Unmodified-Since'')),
     (''IfMatchSize'', VString (Header_Get r ''x-amz-if-match-size'')), (''Range'', VString (Header_Get r ''range''))]"

lemma ParseInt_1000: "ParseInt 64 ''1000'' = Inr 1000"
proof -
  have "digit 1 = CHR ''1''" "digit 0 = CHR ''0''" by code_simp+
  then have "dec 1000 = ''1000''" by (simp add: dec.simps)
  with ParseInt_dec [of 1000] show ?thesis by simp
qed

lemma ObjectRequest_struct:
  assumes "bucket_request env m b k r"
  shows "GetRequest env ObjectRequest r = Inr (plain_struct b k r)"
    and "check_fields env r True True [] [] ObjectRequest (plain_struct b k r) = None"
proof -
  note d = bucket_requestD [OF assms]
  have q: "rq_RawQuery r = []" "rq_Path r = CHR ''/'' # k" "k \<noteq> []" using assms by (simp_all add: bucket_request_def)
  show "GetRequest env ObjectRequest r = Inr (plain_struct b k r)"
    by (simp add: ObjectRequest_def plain_struct_def fld_def field_value_def raw_value_def field_parse_def d q ParseInt_1000 hasPrefix_def)
  show "check_fields env r True True [] [] ObjectRequest (plain_struct b k r) = None"
    by (simp add: ObjectRequest_def plain_struct_def fld_def missing_field_def out_of_range_def reflect_String_def d(3) q
        range_provided_def)
qed

lemma ObjectRequest_plain:
  "bucket_request env m b k r \<Longrightarrow> HandleRequest env ObjectRequest r True True [] [] h = h (plain_struct b k r)"
  by (simp add: HandleRequest_def ObjectRequest_struct)

definition obj_location :: "string \<Rightarrow> string \<Rightarrow> ObjectLocation" where
  "obj_location b k = \<lparr>Location_Bucket = named_bucket b, Location_Key = k\<rparr>"

lemma plain_values [simp]:
  "request_location (plain_struct b k r) = obj_location b k" "the_string (plain_struct b k r) ''BucketName'' = b"
  "the_int (plain_struct b k r) ''PartNumber'' = 0" "the_string (plain_struct b k r) ''Range'' = Header_Get r ''range''"
  "the_string (plain_struct b k r) ''IfMatch'' = Header_Get r ''If-Match''"
  "the_string (plain_struct b k r) ''IfMatchSize'' = Header_Get r ''x-amz-if-match-size''"
  "the_string (plain_struct b k r) ''IfNoneMatch'' = Header_Get r ''If-None-Match''"
  "the_string (plain_struct b k r) ''IfModifiedSince'' = Header_Get r ''If-Modified-Since''"
  "the_string (plain_struct b k r) ''IfUnmodifiedSince'' = Header_Get r ''If-Unmodified-Since''"
  by (simp_all add: plain_struct_def request_location_def obj_location_def the_string_def the_int_def)

section \<open>Response headers\<close>

definition sent :: "response \<Rightarrow> string \<Rightarrow> string option" where
  "sent rw name = rw_sent rw (CanonicalHeaderKey name)"

lemma canonical_keys:
  "CanonicalHeaderKey ''accept-ranges'' = ''Accept-Ranges''" "CanonicalHeaderKey ''last-modified'' = ''Last-Modified''"
  "CanonicalHeaderKey ''Content-Length'' = ''Content-Length''" "CanonicalHeaderKey ''x-amz-checksum-xxhash64'' = ''X-Amz-Checksum-Xxhash64''"
  "CanonicalHeaderKey ''x-amz-checksum-type'' = ''X-Amz-Checksum-Type''" "CanonicalHeaderKey ''ETag'' = ''Etag''"
  "CanonicalHeaderKey ''Cache-Control'' = ''Cache-Control''" "CanonicalHeaderKey ''Content-Disposition'' = ''Content-Disposition''"
  "CanonicalHeaderKey ''Content-Encoding'' = ''Content-Encoding''" "CanonicalHeaderKey ''Content-Language'' = ''Content-Language''"
  "CanonicalHeaderKey ''Content-Type'' = ''Content-Type''" "CanonicalHeaderKey ''x-amz-delete-marker'' = ''X-Amz-Delete-Marker''"
  "CanonicalHeaderKey ''Content-Range'' = ''Content-Range''" "CanonicalHeaderKey ''x-amz-storage-class'' = ''X-Amz-Storage-Class''"
  "CanonicalHeaderKey ''x-amz-object-size'' = ''X-Amz-Object-Size''" "CanonicalHeaderKey ''Expires'' = ''Expires''"
  by code_simp+

lemma write_response:
  assumes "rw_status w = None"
  shows "rw_status (WriteResponse env st hs None None w) = Some st"
    and "rw_sent (WriteResponse env st hs None None w) = rw_header (applyHeaders env hs w)"
    and "rw_body (WriteResponse env st hs None None w) = rw_body w"
proof -
  have a: "rw_status (applyHeaders env hs w) = None \<and> rw_body (applyHeaders env hs w) = rw_body w"
    using assms unfolding applyHeaders_def by (induction hs arbitrary: w) (auto simp: setHeader_def)
  then show "rw_status (WriteResponse env st hs None None w) = Some st"
    "rw_sent (WriteResponse env st hs None None w) = rw_header (applyHeaders env hs w)"
    "rw_body (WriteResponse env st hs None None w) = rw_body w"
    by (simp_all add: WriteResponse_def xml_header_def write_xml_def writeHeader_def)
qed

lemma write_stream:
  assumes "rw_status w = None" and "rw_body w = []"
  shows "WriteResponseStream env st hs None (d, None) w = (None, snd (WriteResponseStream env st hs None (d, None) w))"
    and "rw_status (snd (WriteResponseStream env st hs None (d, None) w)) = Some st"
    and "rw_sent (snd (WriteResponseStream env st hs None (d, None) w)) = rw_header (applyHeaders env hs w)"
    and "rw_body (snd (WriteResponseStream env st hs None (d, None) w)) = (if d = [] then [] else [Data d])"
proof -
  have a: "rw_status (applyHeaders env hs w) = None \<and> rw_body (applyHeaders env hs w) = rw_body w"
    using assms unfolding applyHeaders_def by (induction hs arbitrary: w) (auto simp: setHeader_def)
  with assms show "WriteResponseStream env st hs None (d, None) w = (None, snd (WriteResponseStream env st hs None (d, None) w))"
    "rw_status (snd (WriteResponseStream env st hs None (d, None) w)) = Some st"
    "rw_sent (snd (WriteResponseStream env st hs None (d, None) w)) = rw_header (applyHeaders env hs w)"
    "rw_body (snd (WriteResponseStream env st hs None (d, None) w)) = (if d = [] then [] else [Data d])"
    by (simp_all add: WriteResponseStream_def xml_header_def write_xml_def writeHeader_def writeBody_def Let_def)
qed

lemma object_headers:
  "rw_header (applyHeaders env (ObjectResponse_headers h) w) (CanonicalHeaderKey ''Content-Length'') = Some (FormatInt (or_ContentLength h))"
  "rw_header (applyHeaders env (ObjectResponse_headers h) w) (CanonicalHeaderKey ''ETag'') = Some (FormatUint (or_ETag h))"
  "rw_header (applyHeaders env (ObjectResponse_headers h) w) (CanonicalHeaderKey ''Content-Range'') = Some (or_ContentRange h)"
  "rw_header (applyHeaders env (ObjectResponse_headers h) w) (CanonicalHeaderKey ''x-amz-object-size'') = Some (FormatInt (or_ObjectSize h))"
  by (simp_all add: applyHeaders_def ObjectResponse_headers_def setHeader_def canonical_keys header_text_def)

section \<open>Putting and getting an object\<close>

lemma tick_conf: "same_conf w (w\<lparr>tick := n\<rparr>)"
  by (simp add: same_conf_def confs_def fun_eq_iff)

lemma accepting_tick: "accepting env w \<Longrightarrow> accepting env (w\<lparr>tick := Suc (tick w)\<rparr>)"
  using ready_stable [OF tick_stable, of env "availableBackends w" w]
  by (auto simp: accepting_def ids_past_def intro: less_SucI)

lemma data_fits_tick:
  assumes "accepting env w" and "data_fits env w data"
  shows "data_fits env (w\<lparr>tick := Suc (tick w)\<rparr>) data"
proof -
  have "\<forall>b \<in> set (availableBackends w). healthy env w b" using assms(1) by (simp add: accepting_def ready_def)
  from rowSize_stable [OF tick_conf this] assms(2) show ?thesis by (simp add: data_fits_def fits_def)
qed

lemma lossy_tick: "lossy env F cs w u \<Longrightarrow> lossy env F cs w (u\<lparr>tick := Suc (tick u)\<rparr>)"
  using degraded_calm [OF _ tick_calm] by (auto simp: lossy_def)

text \<open>The blobs on the backends in \<open>F\<close> may have become unreadable, the keys and the database are kept.\<close>

definition outage :: "'r env \<Rightarrow> BackendType set \<Rightarrow> ('r, 'x) world_scheme \<Rightarrow> ('r, 'x) world_scheme \<Rightarrow> bool" where
  "outage env F w u \<longleftrightarrow> finite F \<and> int (card F) \<le> FailureTolerance (Cfg env) \<and> db u = db w \<and> metaDB u = metaDB w \<and> keys_kept w u \<and>
     (\<forall>b l. fst (GetShard env b l u) = fst (GetShard env b l w) \<or> b \<in> F \<and> (\<exists>e. fst (GetShard env b l u) = Inl e))"

lemma outage_lossy: "outage env F w u \<Longrightarrow> metaDB w \<Longrightarrow> lossy env F cs w u"
  by (auto simp: outage_def lossy_def degraded_def backends_lost_def)

lemma outage_refl: "0 \<le> FailureTolerance (Cfg env) \<Longrightarrow> outage env {} w w"
  by (simp add: outage_def kkept.reflR)

lemma bucket_dispatch:
  assumes "bucket_request env m b k r" and "routers_law env"
  shows "m = ''PUT'' \<Longrightarrow> bucketHostRouter env r = PutObject_handler env r"
    and "m = ''GET'' \<Longrightarrow> bucketHostRouter env r = GetObject_handler env r"
    and "m = ''HEAD'' \<Longrightarrow> bucketHostRouter env r = HeadObject env r"
    and "m = ''DELETE'' \<Longrightarrow> bucketHostRouter env r = DeleteObject_handler env r"
proof -
  have r: "rq_Method r = m" "hasKey r" "\<not> Query_Has r n" for n
    using assms(1) bucket_requestD(4) [OF assms(1)] by (simp_all add: bucket_request_def)
  have c: "chi_match env bucketMethods (rq_Method r) (rq_Path r)" if "m \<in> set bucketMethods"
    by (rule hosts_bucket(2) [OF assms that])
  note defs = bucketHostRouter_def handleBucketPresentPut_def handleBucketPresentGet_def handleBucketPresentHead_def
    handleBucketPresentDelete_def
  show "m = ''PUT'' \<Longrightarrow> bucketHostRouter env r = PutObject_handler env r"
    "m = ''GET'' \<Longrightarrow> bucketHostRouter env r = GetObject_handler env r"
    "m = ''HEAD'' \<Longrightarrow> bucketHostRouter env r = HeadObject env r"
    "m = ''DELETE'' \<Longrightarrow> bucketHostRouter env r = DeleteObject_handler env r"
    using c r by (simp_all add: defs bucketMethods_def)
qed

lemma serve_put:
  assumes r: "bucket_request env ''PUT'' b k r" and law: "routers_law env" and srv: "srv_auth srv = Some s"
  shows "\<exists>w'. (w' = w \<or> w' = w\<lparr>tick := Suc (tick w)\<rparr>) \<and>
    (\<forall>ob t. PutObjectStream env (obj_location b k) (rq_Body r) w' = (Inr ob, t) \<longrightarrow>
       (\<exists>rw. serve env srv r w = ((Inr (), rw, 200), t) \<and> sent rw ''ETag'' = Some (FormatUint (ETag ob)) \<and>
          sent rw ''x-amz-object-size'' = Some (FormatInt (Obj_Size ob)) \<and> rw_body rw = []))"
proof -
  obtain w' where w': "w' = w \<or> w' = w\<lparr>tick := Suc (tick w)\<rparr>" "serve env srv r w = logRequests (PutObject_handler env r) w'"
    using serve_bucket [OF r _ law srv, of w] unfolding bucket_dispatch(1) [OF r law refl] by (auto simp: bucketMethods_def)
  have n: "rw_status newResponse = None" "rw_body newResponse = []" by (simp_all add: newResponse_def)
  have "\<exists>rw. serve env srv r w = ((Inr (), rw, 200), t) \<and> sent rw ''ETag'' = Some (FormatUint (ETag ob)) \<and>
      sent rw ''x-amz-object-size'' = Some (FormatInt (Obj_Size ob)) \<and> rw_body rw = []"
    if p: "PutObjectStream env (obj_location b k) (rq_Body r) w' = (Inr ob, t)" for ob t
  proof -
    define hs where "hs = ObjectResponse_headers (noObjectResponse\<lparr>or_xxHash64 := ETag ob,
        or_ChecksumType := cmd_Type GetDefaultChecksumMetadata, or_ETag := ETag ob, or_ObjectSize := Obj_Size ob\<rparr>)"
    have "PutObject_handler env r (newResponse, w') = (Inr (), (WriteResponse env 200 hs None None newResponse, t))"
      unfolding PutObject_handler_def ObjectRequest_plain [OF r]
      by (simp add: bindE_def callE_def p orReply_def replyE_def hs_def)
    then show ?thesis
      unfolding w'(2) using write_response [OF n(1), of env 200 hs] n(2)
      by (simp add: logRequests_def finalStatus_def sent_def hs_def object_headers)
  qed
  with w'(1) show ?thesis by blast
qed

text \<open>No conditional header.\<close>

definition unconditional :: "request \<Rightarrow> bool" where
  "unconditional r \<longleftrightarrow> Header_Get r ''If-Match'' = [] \<and> Header_Get r ''If-None-Match'' = [] \<and>
     Header_Get r ''If-Modified-Since'' = [] \<and> Header_Get r ''If-Unmodified-Since'' = []"

lemma unconditional_passes: "unconditional r \<Longrightarrow> evalIfMatches env ob (plain_struct b k r) = None"
  by (simp add: unconditional_def evalIfMatches_def evalIfMatch_def evalModifiedSince_def evalNoneMatch_def evalIfUnmodifiedSince_def)

text \<open>The answer to a read of an object with this content: all of it, the range that was asked for, or the
  range error.\<close>

definition answers :: "bytes \<Rightarrow> string \<Rightarrow> response \<Rightarrow> bool" where
  "answers data asked rw \<longleftrightarrow>
     (if asked = []
      then finalStatus rw = 200 \<and> sent rw ''Content-Length'' = Some (FormatInt (int (length data))) \<and>
           rw_body rw = (if data = [] then [] else [Data data])
      else case ParseContentRangeHeader asked of
        Inl _ \<Rightarrow> finalStatus rw = 416
      | Inr (b, e, _) \<Rightarrow>
          if 0 \<le> b \<and> b < e \<and> e \<le> int (length data)
          then finalStatus rw = 206 \<and> sent rw ''Content-Length'' = Some (FormatInt (e - b)) \<and>
               sent rw ''Content-Range'' = Some (''bytes '' @ FormatInt b @ ''-'' @ FormatInt (e - 1) @ ''/'' @ FormatInt (int (length data))) \<and>
               rw_body rw = [Data (take (nat (e - b)) (drop (nat b) data))]
          else finalStatus rw = 416)"

lemma write_error: "rw_status w = None \<Longrightarrow> rw_status (writeS3Error st c m x w) = Some st"
  by (simp add: writeS3Error_def writeBody_def writeHeader_def setHeader_def Let_def)

lemma GetObject_handler_answers:
  assumes r: "bucket_request env m b k r" and un: "unconditional r"
    and g: "meta_GetObject env (obj_location b k) u = (Inr ob, u1)" and sz: "Obj_Size ob = int (length data)"
    and st: "\<And>b e. fst (Object_GetDataStream env ob b e u1) = (case normalizeRange (int (length data)) b e of Inl x \<Rightarrow> Inl x
       | Inr (b', e') \<Rightarrow> Inr (take (nat e' - nat b') (drop (nat b') data), None))"
  shows "\<exists>rw u'. logRequests (GetObject_handler env r) u = ((Inr (), rw, finalStatus rw), u') \<and> answers data (Header_Get r ''range'') rw"
proof -
  let ?q = "plain_struct b k r" and ?h = "Header_Get r ''range''"
  have n: "rw_status newResponse = None" "rw_body newResponse = []" by (simp_all add: newResponse_def)
  note start = GetObject_handler_def ObjectRequest_plain [OF r]
  define rr where "rr = request_range b ob ?q ''Invalid range specified'' 0"
  show ?thesis
  proof (cases rr)
    case (Inl reply)
    then have reply: "?h \<noteq> []" "rw_status (reply newResponse) = Some 416" "case ParseContentRangeHeader ?h of Inl _ \<Rightarrow> True
        | Inr (b, e, _) \<Rightarrow> \<not> (0 \<le> b \<and> b < e \<and> e \<le> int (length data))"
      using n by (auto simp: rr_def request_range_def write_error sz split: if_splits sum.splits)
    have "GetObject_handler env r (newResponse, u) = (Inr (), (reply newResponse, u1))"
      unfolding start using Inl
      by (simp add: bindE_def callE_def g orReply_def replyE_def unconditional_passes [OF un] rr_def Let_def)
    with reply show ?thesis
      by (auto simp: logRequests_def answers_def finalStatus_def split: sum.splits)
  next
    case (Inr be)
    obtain x y where be: "be = (x, y)" by (cases be)
    have xy: "if ?h = [] then x = 0 \<and> y = 0 else 0 \<le> x \<and> x < y \<and> y \<le> int (length data)"
      using request_range_Inr [of b ob ?q "''Invalid range specified''" 0 x y] Inr by (auto simp: be rr_def sz split: if_splits)
    have p: "?h \<noteq> [] \<Longrightarrow> \<exists>z. ParseContentRangeHeader ?h = Inr (x, y, z)"
      using Inr by (auto simp: be rr_def request_range_def split: if_splits sum.splits)
    define d where "d = (if ?h = [] then data else take (nat (y - x)) (drop (nat x) data))"
    obtain u' where u': "Object_GetDataStream env ob x y u1 = (Inr (d, None), u')"
      using st [of x y] xy by (cases "Object_GetDataStream env ob x y u1") (auto simp: normalizeRange_def d_def nat_diff_distrib split: if_splits)
    define hs where "hs = ObjectResponse_headers (noObjectResponse\<lparr>
                or_ContentType := the_string ?q ''ContentType'', or_ContentDisposition := the_string ?q ''ContentDisposition'',
                or_ContentEncoding := the_string ?q ''ContentEncoding'', or_ContentLanguage := the_string ?q ''ContentLanguage'',
                or_CacheControl := the_string ?q ''CacheControl'', or_Expires := the_time ?q ''Expires'',
                or_ContentLength := (if ?h \<noteq> [] then y - x else int (length data)),
                or_ContentRange := (if ?h \<noteq> [] then ''bytes '' @ FormatInt x @ ''-'' @ FormatInt (y - 1) @ ''/'' @
                  FormatInt (int (length data)) else [])\<rparr>)"
    define sc where "sc = (if ?h \<noteq> [] then 206 else 200 :: int)"
    note ws = write_stream [OF n, of env sc hs d]
    obtain rw where rw: "WriteResponseStream env sc hs None (d, None) newResponse = (None, rw)"
      using ws(1) by metis
    have "GetObject_handler env r (newResponse, u) = (Inr (), (rw, u'))"
    proof (cases "?h = []")
      case True
      then show ?thesis
        unfolding start using Inr u' rw
        by (simp add: bindE_def callE_def g orReply_def replyE_def unconditional_passes [OF un] rr_def be open_stream_def returnE_def sz
            hs_def sc_def Let_def)
    next
      case False
      then show ?thesis
        unfolding start using Inr u' rw
        by (simp add: bindE_def callE_def g orReply_def replyE_def unconditional_passes [OF un] rr_def be open_stream_def returnE_def sz
            hs_def sc_def Let_def)
    qed
    moreover have "answers data ?h rw"
      using ws(2-4) [unfolded rw] xy p object_headers(1,3) [of env _ newResponse]
      by (auto simp: answers_def sent_def finalStatus_def sc_def d_def hs_def)
    ultimately show ?thesis by (simp add: logRequests_def)
  qed
qed

text \<open>A sequence of requests, one after the other.\<close>

fun serve_all :: "'r env \<Rightarrow> server_config \<Rightarrow> request list \<Rightarrow> ('r, 'x) world_scheme \<Rightarrow> ('r, 'x) world_scheme" where
  "serve_all env srv [] w = w"
| "serve_all env srv (r # rs) w = serve_all env srv rs (snd (serve env srv r w))"

lemma serve_inv: "sys_inv env w \<Longrightarrow> sys_inv env (snd (serve env srv r w))"
  by (rule requests.serve_keeps [OF surjective_pairing, unfolded inv_step_def, rule_format])

lemma serve_all_inv: "sys_inv env w \<Longrightarrow> sys_inv env (serve_all env srv rs w)"
  by (induction rs arbitrary: w) (simp_all add: serve_inv)

lemma serve_reads:
  assumes "rq_Method r \<in> {''GET'', ''HEAD''}"
  shows "unchanged env w (snd (serve env srv r w))"
  using keeps_snd [OF get_requests.reads_routes [OF assms, of env srv], where s = "(newResponse, w)"]
  by (auto simp: serve_def logRequests_def web_rel_def split: prod.splits)

section \<open>What the checks of a request enforce\<close>

definition typed_field :: "field_tag \<Rightarrow> field_value \<Rightarrow> bool" where
  "typed_field f v \<longleftrightarrow> (case f_kind f of KInt \<Rightarrow> \<exists>i. v = VInt i \<and> int_range 64 i
     | KString \<Rightarrow> \<exists>s. v = VString s | KTime \<Rightarrow> \<exists>t. v = VTime t)"

lemma ParseInt_range: "ParseInt 64 s = Inr i \<Longrightarrow> int_range 64 i"
  by (auto simp: ParseInt_def int_range_def Let_def split: if_splits sum.splits option.splits)

lemma field_value_typed: "field_value env r f = Inr v \<Longrightarrow> typed_field f v"
  by (auto simp: field_value_def field_parse_def typed_field_def Let_def int_range_def dest: ParseInt_range
      split: field_kind.splits if_splits sum.splits option.splits)

lemma GetRequest_typed: "GetRequest env tags r = Inr q \<Longrightarrow> list_all2 (\<lambda>f (n, v). n = f_Name f \<and> typed_field f v) tags q"
  by (induction tags arbitrary: q) (auto split: sum.splits dest: field_value_typed)

text \<open>The fields a handler asks for: the bucket of the host, the key of the path, headers and query values.\<close>

definition asked_for :: "bool \<Rightarrow> bool \<Rightarrow> string list \<Rightarrow> string list \<Rightarrow> field_tag \<Rightarrow> bool" where
  "asked_for bucketRequired keyRequired requiredHeaders requiredQueries f \<longleftrightarrow> (case f_source f of FromHost \<Rightarrow> bucketRequired
     | FromPath \<Rightarrow> keyRequired | FromQuery \<Rightarrow> f_http f \<in> set requiredQueries | FromHeader \<Rightarrow> f_http f \<in> set requiredHeaders)"

definition checked_field :: "'r env \<Rightarrow> request \<Rightarrow> bool \<Rightarrow> bool \<Rightarrow> string list \<Rightarrow> string list \<Rightarrow> field_tag \<Rightarrow> field_value \<Rightarrow> bool" where
  "checked_field env r bucketRequired keyRequired requiredHeaders requiredQueries f v \<longleftrightarrow>
     (asked_for bucketRequired keyRequired requiredHeaders requiredQueries f \<longrightarrow> v \<noteq> VString []) \<and>
     (\<forall>i a b. v = VInt i \<longrightarrow> f_range f = Some (a, b) \<longrightarrow> range_provided env r f \<longrightarrow> a \<le> i \<and> i \<le> b)"

lemma check_fields_None:
  assumes "list_all2 (\<lambda>f (n, v). n = f_Name f \<and> typed_field f v) tags q" and "check_fields env r br kr hs qs tags q = None"
  shows "list_all2 (\<lambda>f (n, v). checked_field env r br kr hs qs f v) tags q"
  using assms
proof (induction tags q rule: list_all2_induct)
  case (Cons f fs nv q)
  obtain n v where nv: "nv = (n, v)" by (cases nv)
  have m: "missing_field br kr hs qs f v = None" "out_of_range env r f v = None" "check_fields env r br kr hs qs fs q = None"
    using Cons.prems by (auto simp: nv split: option.splits)
  have "checked_field env r br kr hs qs f v"
    using m(1,2) by (auto simp: checked_field_def asked_for_def missing_field_def reflect_String_def out_of_range_def
        split: field_source.splits if_splits)
  with Cons.IH [OF m(3)] show ?case by (simp add: nv)
qed simp

text \<open>Conditional requests: what the headers must look like, and which combinations are refused.\<close>

definition is_number :: "string \<Rightarrow> bool" where
  "is_number v \<longleftrightarrow> (\<exists>u. ParseUint v = Inr u)"

definition is_time :: "'r env \<Rightarrow> string \<Rightarrow> bool" where
  "is_time env v \<longleftrightarrow> (\<exists>t. time_parse env RFC1123 v = Some t)"

definition condition_ok :: "'r env \<Rightarrow> http_struct \<Rightarrow> bool" where
  "condition_ok env q \<longleftrightarrow>
     (the_string q ''IfMatch'' \<in> {[], ''*''} \<or> is_number (the_string q ''IfMatch'')) \<and>
     (the_string q ''IfModifiedSince'' = [] \<or> is_time env (the_string q ''IfModifiedSince'')) \<and>
     (the_string q ''IfUnmodifiedSince'' = [] \<or> is_time env (the_string q ''IfUnmodifiedSince''))"

lemma eval_eqs:
  "evalIfMatch ob q = (if the_string q ''IfMatch'' \<in> {[], ''*''} \<or> is_number (the_string q ''IfMatch'') then Inr True
     else bad_header ''Invalid If-Match header format'' ob)"
  "evalModifiedSince env ob q = (if the_string q ''IfModifiedSince'' = [] \<or> is_time env (the_string q ''IfModifiedSince'') then Inr True
     else bad_header ''Invalid If-Modified-Since header format'' ob)"
  "evalIfUnmodifiedSince env ob q = (if the_string q ''IfUnmodifiedSince'' = [] \<or> is_time env (the_string q ''IfUnmodifiedSince'')
     then Inr True else bad_header ''Invalid If-Unmodified-Since header format'' ob)"
  "evalNoneMatch ob q"
  by (auto simp: evalIfMatch_def evalModifiedSince_def evalIfUnmodifiedSince_def evalNoneMatch_def is_number_def is_time_def Let_def
      split: sum.splits option.splits)

lemma evalIfMatches_None:
  "evalIfMatches env ob q = None \<longleftrightarrow> condition_ok env q \<and>
     (the_string q ''IfMatch'' = [] \<or> the_string q ''IfUnmodifiedSince'' = []) \<and>
     (the_string q ''IfNoneMatch'' = [] \<or> the_string q ''IfModifiedSince'' = [])"
  unfolding evalIfMatches_def eval_eqs condition_ok_def bad_header_def by (simp add: eval_eqs(4) Let_def)

lemma evalIfMatches_Some:
  assumes "evalIfMatches env ob q = Some reply" and "rw_status w = None"
  shows "rw_status (reply w) = Some (if condition_ok env q then 412 else 400)"
  using assms unfolding evalIfMatches_def eval_eqs condition_ok_def bad_header_def
  by (simp add: eval_eqs(4) Let_def precondition_failed_def write_error split: if_splits) (auto simp: write_error)

end
