(* ===== verification/Startup_Theorems.thy ===== *)
theory Startup_Theorems
  imports Startup_Laws Concrete Web_Laws
begin

text \<open>
  The properties of the start of the program.
\<close>

definition demo_defs :: "BackendDef list" where
  "demo_defs = [\<lparr>Def_ID = ''a'', Def_Kind = ''file'', Def_Enabled = True, Def_Settings = [''storage_dir'' \<mapsto> AnyString ''/data'']\<rparr>,
     \<lparr>Def_ID = ''b'', Def_Kind = ''file'', Def_Enabled = True, Def_Settings = Map.empty\<rparr>,
     \<lparr>Def_ID = ''c'', Def_Kind = ''discord'', Def_Enabled = False, Def_Settings = Map.empty\<rparr>]"

definition demo_start_env :: "unit env" where
  "demo_start_env = demo_env\<lparr>yaml_backends := (\<lambda>_. Some demo_defs)\<rparr>"

definition demo_start_world :: "unit world" where
  "demo_start_world = \<lparr>tick = 0, files = [''backends.json'' \<mapsto> []], remote = (), instances = Map.empty, availableBackends = [],
     db = empty_db, metaDB = False, defaultKMS = None\<rparr>"

lemma demo_start_laws:
  "no_faults demo_start_env" "crypto_law demo_start_env" "lawful demo_start_env" "Cfg demo_start_env = demo_cfg"
  "yaml_backends demo_start_env data = Some demo_defs"
proof -
  show "no_faults demo_start_env" using demo_no_faults by (simp add: no_faults_def demo_start_env_def)
  show "crypto_law demo_start_env" using demo_crypto_law by (simp add: crypto_law_def demo_start_env_def)
  show "Cfg demo_start_env = demo_cfg" "yaml_backends demo_start_env data = Some demo_defs"
    by (simp_all add: demo_start_env_def demo_env_def)
  have "uuid_law demo_start_env" using demo_lawful by (simp add: lawful_def uuid_law_def demo_start_env_def)
  moreover have "discord_law demo_start_env" "telegram_law demo_start_env"
    by (simp_all add: discord_law_def telegram_law_def remote_grows_def demo_start_env_def demo_env_def ds_download_def td_GetObject_def
        split: sum.splits)
  ultimately show "lawful demo_start_env" by (simp add: lawful_def)
qed

lemma demo_key_path: "key_path demo_start_env = ''kms.key''"
  by (simp add: key_path_def demo_start_laws(4) demo_cfg_def trimSpace_def isSpace_def)

lemma demo_key_apart: "key_apart demo_start_env"
  by (simp add: key_apart_def demo_key_path name_of_def)

lemma demo_start_fresh: "fresh_inv demo_start_env demo_start_world"
proof -
  have "filepath_Join dir (''shard_'' @ replicate (Suc n) CHR ''u'') \<noteq> ''backends.json''" for dir n
  proof
    assume a: "filepath_Join dir (''shard_'' @ replicate (Suc n) CHR ''u'') = ''backends.json''"
    have "name_of (filepath_Join dir (''shard_'' @ replicate (Suc n) CHR ''u'')) = ''shard_'' @ replicate (Suc n) CHR ''u''"
      by (rule name_of_Join) simp_all
    then show False unfolding a by (simp add: name_of_def)
  qed
  then show ?thesis by (auto simp: fresh_inv_def demo_start_world_def demo_start_env_def demo_env_def)
qed

lemma demo_yaml: "yaml_law demo_start_env"
  by (auto simp: yaml_law_def demo_start_laws(5) demo_defs_def yaml_ok_def)

text \<open>C35: When the start of the program succeeds, the database is as it was, the key file is there, every enabled backend of the inventory
  (and no other) is available and registered under its own name as a service of its kind with well-typed settings and nothing stored in
  memory, the invariant of the system holds, and there are more backends than \<open>FailureTolerance\<close>, so that the search for the
  parity count ends for every number of rows.\<close>

theorem start_up:
  assumes "main env w = (Inr dash, t)" and "yaml_law env"
    and "lawful env" and "key_apart env" and "fresh_inv env w" and "instances w = Map.empty" and "db_inv (db w)"
    and "0 \<le> FailureTolerance (Cfg env)"
  shows "sys_inv env t \<and> (\<exists>data defs. yaml_backends env data = Some defs \<and> started env defs w t) \<and>
    (\<forall>rows. \<exists>p. getShardParityCount env (length (availableBackends t)) rows = Inr p)"
proof -
  from main_ok [OF assms(1-7)] have t: "iface_ok env t" "db_inv (db t)" "FailureTolerance (Cfg env) < int (length (availableBackends t))"
    "\<exists>data defs. yaml_backends env data = Some defs \<and> started env defs w t" by blast+
  with getShardParityCount_defined [OF assms(8) t(3)] show ?thesis by (simp add: sys_inv_def)
qed

theorem start_up_witness:
  "\<exists>dash t. main demo_start_env demo_start_world = (Inr dash, t) \<and> sys_inv demo_start_env t \<and>
     (\<forall>rows. \<exists>p. getShardParityCount demo_start_env (length (availableBackends t)) rows = Inr p)"
proof -
  obtain t where m: "main demo_start_env demo_start_world = (Inr (EnableDashboard (Cfg demo_start_env)), t)"
    using main_files [OF demo_start_laws(1,2) _ _ demo_start_laws(5) _ _ _ demo_yaml, of demo_start_world "[]"]
    by (auto simp: demo_key_path demo_start_laws(4) demo_cfg_def) (auto simp: demo_start_world_def demo_defs_def)
  have "instances demo_start_world = Map.empty" "db_inv (db demo_start_world)" "0 \<le> FailureTolerance (Cfg demo_start_env)"
    by (simp_all add: demo_start_world_def empty_db_inv demo_start_laws(4) demo_cfg_def)
  from start_up [OF m demo_yaml demo_start_laws(3) demo_key_apart demo_start_fresh this] m show ?thesis by blast
qed

text \<open>C36: A first start with an inventory of file backends, when no call fails, succeeds and leaves a system that accepts every upload
  whose data fits: the state from which putting and getting objects is proved to work.\<close>

theorem first_start_accepts:
  assumes "no_faults env" and "crypto_law env" and "lawful env" and "key_apart env"
    and "files w (key_path env) = None" and "files w (BackendsConfigPath (Cfg env)) = Some data" and "yaml_backends env data = Some defs"
    and "\<forall>d \<in> set defs. Def_ID d \<noteq> [] \<and> Def_Kind d \<noteq> [] \<and> (Def_Enabled d \<longrightarrow> Def_Kind d = ''file'')" and "distinct (map Def_ID defs)"
    and "yaml_law env" and "0 \<le> FailureTolerance (Cfg env)" and "FailureTolerance (Cfg env) < int (length (filter Def_Enabled defs))"
    and "0 < ChunkSize (Cfg env)" and "EncryptionTypeFromString (EncryptionMethod (Cfg env)) = Inr ty"
    and "fresh_inv env w" and "instances w = Map.empty" and "db_inv (db w)" and "ids_past env w"
  shows "\<exists>t. main env w = (Inr (EnableDashboard (Cfg env)), t) \<and> accepting env t \<and> db t = db w"
proof -
  obtain t where m: "main env w = (Inr (EnableDashboard (Cfg env)), t)" and k: "kms_ready env t" and st: "started env defs w t"
    using main_files [OF assms(1,2,5-9,12,10)] by blast
  have ok: "iface_ok env t" by (rule started_ok [OF st assms(3,4,15,16)])
  have s: "availableBackends t = map Def_ID (filter Def_Enabled defs)" "distinct (availableBackends t)" "db t = db w" "tick w \<le> tick t"
    and up: "metaDB t" "FailureTolerance (Cfg env) < int (length (availableBackends t))"
    using st unfolding started_def by blast+
  have reg: "\<exists>svc. instances t (Def_ID d) = Some svc \<and> built svc \<and> kind_of svc = ''file''" if "d \<in> set defs" "Def_Enabled d" for d
    using st that assms(8) unfolding started_def by metis
  have "healthy env t b" if b: "b \<in> set (availableBackends t)" for b
  proof -
    from b obtain d where d: "d \<in> set defs" "Def_Enabled d" "b = Def_ID d" unfolding s(1) by auto
    from reg [OF d(1,2)] obtain svc where "instances t b = Some svc" "built svc" "kind_of svc = ''file''" using d(3) by blast
    then show ?thesis by (cases svc) (auto simp: healthy_def)
  qed
  then have "ready env (availableBackends t) t" using ok k s(2,3) assms(17) by (simp add: ready_def)
  moreover have "ids_past env t" using assms(18) s(4) unfolding ids_past_def s(3) by (meson order_less_le_trans)
  moreover have "availableBackends t \<noteq> []" using assms(11,12) unfolding s(1) by auto
  ultimately have "accepting env t" using up s(2) assms(13,14) by (auto simp: accepting_def)
  with m s(3) show ?thesis by blast
qed

theorem first_start_accepts_witness:
  "\<exists>t. main demo_start_env demo_start_world = (Inr False, t) \<and> accepting demo_start_env t \<and> db t = empty_db"
proof -
  have c: "0 \<le> FailureTolerance (Cfg demo_start_env)" "FailureTolerance (Cfg demo_start_env) < int (length (filter Def_Enabled demo_defs))"
    "0 < ChunkSize (Cfg demo_start_env)" "EncryptionTypeFromString (EncryptionMethod (Cfg demo_start_env)) = Inr 1"
    "EnableDashboard (Cfg demo_start_env) = False" "BackendsConfigPath (Cfg demo_start_env) = ''backends.json''"
    by (simp_all add: demo_start_laws(4) demo_cfg_def demo_defs_def EncryptionTypeFromString_def)
  have w: "files demo_start_world (key_path demo_start_env) = None"
    "files demo_start_world (BackendsConfigPath (Cfg demo_start_env)) = Some []" "instances demo_start_world = Map.empty"
    "db demo_start_world = empty_db" "db_inv (db demo_start_world)" "ids_past demo_start_env demo_start_world"
    by (simp_all add: demo_key_path c(6) demo_start_world_def empty_db_inv ids_past_def) (simp add: empty_db_def)
  have d: "\<forall>d \<in> set demo_defs. Def_ID d \<noteq> [] \<and> Def_Kind d \<noteq> [] \<and> (Def_Enabled d \<longrightarrow> Def_Kind d = ''file'')" "distinct (map Def_ID demo_defs)"
    by (simp_all add: demo_defs_def)
  from first_start_accepts [OF demo_start_laws(1,2,3) demo_key_apart w(1,2) demo_start_laws(5) d demo_yaml c(1-4) demo_start_fresh w(3,5,6)]
  show ?thesis by (simp add: c(5) w(4))
qed

end
