(* ===== verification/Web_Theorems.thy ===== *)
theory Web_Theorems
  imports Web_Laws Concrete
begin

text \<open>
  The properties of the S3 server as a client sees them: requests and responses through the whole stack, from
  the router to the backends and back.
\<close>

section \<open>Requests for the examples\<close>

definition demo_request :: "string \<Rightarrow> string \<Rightarrow> (string \<times> string) list \<Rightarrow> bytes \<Rightarrow> request" where
  "demo_request m path hs body = \<lparr>rq_Method = m, rq_Host = ''bucket.localhost'', rq_Path = path, rq_EscapedPath = path,
     rq_RawQuery = [], rq_Header = hs, rq_ContentLength = int (length body), rq_Body = bytes_NewReader body\<rparr>"

abbreviation demo_srv :: server_config where
  "demo_srv \<equiv> runS3Service demo_env"

lemma demo_auth: "\<exists>s. srv_auth demo_srv = Some s"
  by (simp add: runS3Service_def)

lemma demo_fqdn: "FQDN (Cfg demo_env) = ''localhost''" "host_name ''localhost''" "host_label ''bucket''"
  by (simp add: demo_env_def demo_cfg_def) code_simp+

lemma demo_routers: "routers_law demo_env"
proof -
  have d: "dropWhile (\<lambda>c. c \<noteq> CHR ''.'') (b @ CHR ''.'' # h) = CHR ''.'' # h" if "CHR ''.'' \<notin> set b" for b h
    using that by (induction b) auto
  have n: "b @ CHR ''.'' # h \<noteq> h" for b h :: string
  proof
    assume "b @ CHR ''.'' # h = h"
    then have "length (b @ CHR ''.'' # h) = length h" by simp
    then show False by simp
  qed
  show ?thesis
    by (auto simp: routers_law_def demo_env_def Let_def n d host_label_def)
qed

lemma demo_bucket_request:
  assumes "k \<noteq> []" and "\<forall>(h, v) \<in> set hs. CanonicalHeaderKey h \<in> {''Range'', ''Content-Type''}"
  shows "bucket_request demo_env m ''bucket'' k (demo_request m (''/'' @ k) hs body)"
proof -
  have c: "CanonicalHeaderKey ''x-amz-expected-bucket-owner'' = ''X-Amz-Expected-Bucket-Owner''" by code_simp
  have "find (\<lambda>(k, _). CanonicalHeaderKey k = ''X-Amz-Expected-Bucket-Owner'') hs = None"
    using assms(2) by (auto simp: find_None_iff)
  with assms show ?thesis
    by (auto simp: bucket_request_def demo_request_def demo_fqdn Header_Get_def c unforwarded_def)
qed

lemma condition_keys:
  "CanonicalHeaderKey ''If-Match'' = ''If-Match''" "CanonicalHeaderKey ''If-None-Match'' = ''If-None-Match''"
  "CanonicalHeaderKey ''If-Modified-Since'' = ''If-Modified-Since''"
  "CanonicalHeaderKey ''If-Unmodified-Since'' = ''If-Unmodified-Since''"
  by code_simp+

section \<open>Objects over HTTP\<close>

text \<open>C9: A \<open>PUT\<close> request to a system with healthy backends is answered with status 200, the size and the ETag of the
  body, and every later \<open>GET\<close> of the same URL is answered with the body, with the range that it asks for
  (status 206), or with status 416 when the range does not lie in the object, although \<open>FailureTolerance\<close> backends
  are lost in between. The requests are not required to carry a valid signature.\<close>

theorem http_put_get:
  assumes "packages env" and "routers_law env" and "accepting env w" and "data_fits env w (rd_data (rq_Body p))"
    and "\<not> rd_fails (rq_Body p)" and "srv_auth srv = Some s"
    and "bucket_request env ''PUT'' b k p" and "bucket_request env ''GET'' b k g" and "unconditional g"
  shows "\<exists>rw t. serve env srv p w = ((Inr (), rw, 200), t) \<and> rw_body rw = [] \<and>
    sent rw ''ETag'' = Some (FormatUint (xxhash64 env (rd_data (rq_Body p)))) \<and>
    sent rw ''x-amz-object-size'' = Some (FormatInt (int (length (rd_data (rq_Body p))))) \<and>
    (\<forall>F u. outage env F t u \<longrightarrow>
       (\<exists>rw' u'. serve env srv g u = ((Inr (), rw', finalStatus rw'), u') \<and>
          answers (rd_data (rq_Body p)) (Header_Get g ''range'') rw'))"
proof -
  have l: "rs_law env" "crypto_law env" "zstd_law env" "no_faults env" using assms(1) by (simp_all add: packages_def)
  obtain w' where w': "w' = w \<or> w' = w\<lparr>tick := Suc (tick w)\<rparr>"
    and p: "\<And>ob t. PutObjectStream env (obj_location b k) (rq_Body p) w' = (Inr ob, t) \<Longrightarrow>
       (\<exists>rw. serve env srv p w = ((Inr (), rw, 200), t) \<and> sent rw ''ETag'' = Some (FormatUint (ETag ob)) \<and>
          sent rw ''x-amz-object-size'' = Some (FormatInt (Obj_Size ob)) \<and> rw_body rw = [])"
    using serve_put [OF assms(7,2,6), of w] by blast
  have a: "accepting env w'" "data_fits env w' (rd_data (rq_Body p))"
    using w' assms(3,4) accepting_tick data_fits_tick by auto
  have hyp: "iface_ok env w'" "db_inv (db w')" "distinct (availableBackends w')" "0 < ChunkSize (Cfg env)"
    using a(1) by (simp_all add: accepting_def ready_def)
  obtain ob t where put: "PutObjectStream env (obj_location b k) (rq_Body p) w' = (Inr ob, t)"
    using PutObjectStream_succeeds [OF assms(1) a assms(5)] by blast
  note st = PutObjectStream_Inr [OF l(1,2) hyp put]
  have "\<exists>rw' u'. serve env srv g u = ((Inr (), rw', finalStatus rw'), u') \<and>
      answers (rd_data (rq_Body p)) (Header_Get g ''range'') rw'" if F: "outage env F t u" for F u
  proof -
    obtain v where v: "v = u \<or> v = u\<lparr>tick := Suc (tick u)\<rparr>" "serve env srv g u = logRequests (GetObject_handler env g) v"
      using serve_bucket [OF assms(8) _ assms(2,6), of u] unfolding bucket_dispatch(2) [OF assms(8,2) refl]
      by (auto simp: bucketMethods_def)
    have o: "lossy env F (Obj_Chunks ob) t u" by (rule outage_lossy [OF F st(3)])
    have "lossy env F (Obj_Chunks ob) t v" using v(1) o lossy_tick [OF o] by metis
    from meta_GetObject_stored [OF l hyp(3) st(1) this] obtain r n where
      r: "ob_size r = int (length (rd_data (rq_Body p)))"
        "meta_GetObject env (obj_location b k) v = (Inr (row_object (obj_location b k) r (Obj_Chunks ob) (xxhash64 env (rd_data (rq_Body p)))), v\<lparr>tick := n\<rparr>)"
      and d: "\<And>b' e. fst (Object_GetDataStream env (row_object (obj_location b k) r (Obj_Chunks ob) (xxhash64 env (rd_data (rq_Body p)))) b' e (v\<lparr>tick := n\<rparr>)) =
        (case normalizeRange (int (length (rd_data (rq_Body p)))) b' e of Inl x \<Rightarrow> Inl x
         | Inr (b', e') \<Rightarrow> Inr (take (nat e' - nat b') (drop (nat b') (rd_data (rq_Body p))), None))" by blast
    have "Obj_Size (row_object (obj_location b k) r (Obj_Chunks ob) (xxhash64 env (rd_data (rq_Body p)))) = int (length (rd_data (rq_Body p)))"
      using r(1) by (simp add: row_object_def)
    from GetObject_handler_answers [OF assms(8,9) r(2) this d] v(2) show ?thesis by auto
  qed
  with p [OF put] st(4,5) show ?thesis by metis
qed

theorem http_put_get_witness:
  "\<exists>rw t rw' u'. serve demo_env demo_srv (demo_request ''PUT'' ''/key'' [] [1, 2, 3, 4, 5]) demo_world = ((Inr (), rw, 200), t) \<and>
    serve demo_env demo_srv (demo_request ''GET'' ''/key'' [(''Range'', ''bytes=1-3'')] []) t = ((Inr (), rw', 206), u') \<and>
    rw_body rw' = [Data [2, 3, 4]] \<and> sent rw' ''Content-Range'' = Some (''bytes '' @ FormatInt 1 @ ''-'' @ FormatInt 3 @ ''/'' @ FormatInt 5)"
proof -
  let ?p = "demo_request ''PUT'' ''/key'' [] [1, 2, 3, 4, 5]" and ?g = "demo_request ''GET'' ''/key'' [(''Range'', ''bytes=1-3'')] []"
  have c: "CanonicalHeaderKey ''Range'' = ''Range''" "CanonicalHeaderKey ''range'' = ''Range''" by code_simp+
  obtain s where s: "srv_auth demo_srv = Some s" using demo_auth by blast
  have p: "bucket_request demo_env ''PUT'' ''bucket'' ''key'' ?p" "bucket_request demo_env ''GET'' ''bucket'' ''key'' ?g"
    using demo_bucket_request [of "''key''" "[]" "''PUT''" "[1, 2, 3, 4, 5]"]
      demo_bucket_request [of "''key''" "[(''Range'', ''bytes=1-3'')]" "''GET''" "[]"]
    by (simp_all add: c)
  have b: "rd_data (rq_Body ?p) = [1, 2, 3, 4, 5]" "\<not> rd_fails (rq_Body ?p)"
    by (simp_all add: demo_request_def bytes_NewReader_def)
  have u: "unconditional ?g" by (simp add: unconditional_def demo_request_def Header_Get_def condition_keys c)
  have h: "Header_Get ?g ''range'' = ''bytes=1-3''" by (simp add: demo_request_def Header_Get_def c)
  have "digit 1 = CHR ''1''" "digit 3 = CHR ''3''" by code_simp+
  then have r: "ParseContentRangeHeader ''bytes=1-3'' = Inr (1, 4, -1)"
    using ParseContentRangeHeader_bytes [of 1 3] wrap64_id [of 4] by (simp add: dec.simps int_range_def)
  obtain rw t where t: "serve demo_env demo_srv ?p demo_world = ((Inr (), rw, 200), t)"
    and g: "\<And>F u. outage demo_env F t u \<Longrightarrow> (\<exists>rw' u'. serve demo_env demo_srv ?g u = ((Inr (), rw', finalStatus rw'), u') \<and>
       answers [1, 2, 3, 4, 5] ''bytes=1-3'' rw')"
    using http_put_get [OF demo_packages demo_routers demo_accepting demo_data_fits b(2) s p u] unfolding b h by blast
  obtain rw' u' where "serve demo_env demo_srv ?g t = ((Inr (), rw', finalStatus rw'), u')" "answers [1, 2, 3, 4, 5] ''bytes=1-3'' rw'"
    using g [OF outage_refl] by (auto simp: demo_tolerance)
  with t show ?thesis by (auto simp: answers_def r numeral_eq_Suc)
qed

text \<open>C13: Whatever requests arrive, in any order, with any methods, headers and bodies, and whichever of the calls behind
  them fail, the tables of the database keep their integrity (keys, references, no two chunks at one place) and the
  backends keep their invariant.\<close>

theorem http_invariant:
  assumes "iface_ok env w" and "db_inv (db w)"
  shows "iface_ok env (serve_all env srv rs w) \<and> db_inv (db (serve_all env srv rs w))"
  using serve_all_inv [of env w srv rs] assms by (simp add: sys_inv_def)

theorem http_invariant_witness:
  "iface_ok demo_env (serve_all demo_env demo_srv [demo_request ''PUT'' ''/key'' [] [1, 2], demo_request ''DELETE'' ''/key'' [] []] demo_world) \<and>
   db_inv (db (serve_all demo_env demo_srv [demo_request ''PUT'' ''/key'' [] [1, 2], demo_request ''DELETE'' ''/key'' [] []] demo_world))"
  by (rule http_invariant [OF demo_ok]) (simp add: demo_world_def empty_db_inv)

text \<open>C27: A \<open>GET\<close> or \<open>HEAD\<close> request changes nothing that is stored: the database, every blob on every backend, the keys and
  the set of available backends are as before.\<close>

theorem http_reads_change_nothing:
  assumes "rq_Method r \<in> {''GET'', ''HEAD''}" and "serve env srv r w = (out, t)"
  shows "db t = db w \<and> availableBackends t = availableBackends w \<and> keys_kept w t \<and>
    (\<forall>b l. fst (GetShard env b l t) = fst (GetShard env b l w))"
  using serve_reads [OF assms(1), of env w srv] assms(2) by (simp add: unchanged_def calm_def same_conf_def)

theorem http_reads_change_nothing_witness:
  "db (snd (serve demo_env demo_srv (demo_request ''GET'' ''/key'' [] []) demo_object_world)) = db demo_object_world \<and>
   fst (GetShard demo_env ''a'' ''old'' (snd (serve demo_env demo_srv (demo_request ''GET'' ''/key'' [] []) demo_object_world)))
     = fst (GetShard demo_env ''a'' ''old'' demo_object_world)"
proof -
  have "rq_Method (demo_request ''GET'' ''/key'' [] []) \<in> {''GET'', ''HEAD''}" by (simp add: demo_request_def)
  from http_reads_change_nothing [OF this surjective_pairing, of demo_env demo_srv demo_object_world] show ?thesis by blast
qed

section \<open>Authentication\<close>

text \<open>C29: The outcome of the signature check decides nothing: with an authentication service configured, every request,
  signed or not, is handled as if its signature were correct (the middleware overwrites the error with \<open>nil\<close>); only the
  header \<open>x-amz-expected-bucket-owner\<close> can still refuse it.\<close>

theorem signature_never_refuses:
  assumes "srv_auth srv = Some s"
  shows "\<exists>w'. w' \<in> {w, w\<lparr>tick := Suc (tick w)\<rparr>} \<and> serve env srv r w =
    logRequests (let r' = r\<lparr>rq_Host := normalizeHost (rq_Host r)\<rparr> in
      if Header_Get r ''x-amz-expected-bucket-owner'' \<in> {[], S3AccountID (Cfg env)} then hosts env r'
      else replyE (writeS3Error 403 ''AccessDenied'' (Msg ''expected bucket owner does not match'') (rq_Path r))) w'"
proof -
  obtain w' where w': "callE (VerifyRequest env s r) (newResponse, w) = (Inr (fst (VerifyRequest env s r w)), (newResponse, w'))"
    "w' = w \<or> w' = w\<lparr>tick := Suc (tick w)\<rparr>" by (rule VerifyRequest_passes)
  have h: "Header_Get (r\<lparr>rq_Host := x\<rparr>) n = Header_Get r n" for x n by (simp add: Header_Get_def)
  have "Routes env srv r (newResponse, w) = unless_reply (preCheckHeaders env (r\<lparr>rq_Host := normalizeHost (rq_Host r)\<rparr>))
      (hosts env (r\<lparr>rq_Host := normalizeHost (rq_Host r)\<rparr>)) (newResponse, w')"
    using w'(1) by (simp only: Routes_def requireSigV4_def assms Let_def bindE_def option.case prod.case sum.case)
  then have "serve env srv r w = logRequests (let r' = r\<lparr>rq_Host := normalizeHost (rq_Host r)\<rparr> in
      if Header_Get r ''x-amz-expected-bucket-owner'' \<in> {[], S3AccountID (Cfg env)} then hosts env r'
      else replyE (writeS3Error 403 ''AccessDenied'' (Msg ''expected bucket owner does not match'') (rq_Path r))) w'"
    by (simp add: serve_def logRequests_def preCheckHeaders_def h unless_reply_def Let_def)
  with w'(2) show ?thesis by blast
qed

theorem signature_never_refuses_witness:
  "\<exists>w'. w' \<in> {demo_world, demo_world\<lparr>tick := 1\<rparr>} \<and> serve demo_env demo_srv (demo_request ''GET'' ''/key'' [] []) demo_world =
    logRequests (let r' = (demo_request ''GET'' ''/key'' [] [])\<lparr>rq_Host := normalizeHost (rq_Host (demo_request ''GET'' ''/key'' [] []))\<rparr> in
      if Header_Get (demo_request ''GET'' ''/key'' [] []) ''x-amz-expected-bucket-owner'' \<in> {[], S3AccountID (Cfg demo_env)}
      then hosts demo_env r'
      else replyE (writeS3Error 403 ''AccessDenied'' (Msg ''expected bucket owner does not match'')
        (rq_Path (demo_request ''GET'' ''/key'' [] [])))) w'"
proof -
  obtain s where "srv_auth demo_srv = Some s" using demo_auth by blast
  from signature_never_refuses [OF this, of demo_world demo_env "demo_request ''GET'' ''/key'' [] []"] show ?thesis
    by (simp add: demo_world_def)
qed

section \<open>Requests\<close>

text \<open>C33: The bucket of a request is the one label before the configured domain: it is read back from the host, with or
  without a port; the domain itself has none; and no other host names a bucket.\<close>

theorem bucket_from_host:
  assumes "host_name fqdn" and "host_label b" and "list_all host_char port"
  shows "bucketFromHost (b @ ''.'' @ fqdn) fqdn = Some b \<and> bucketFromHost (b @ ''.'' @ fqdn @ '':'' @ port) fqdn = Some b \<and>
    bucketFromHost fqdn fqdn = None \<and> (bucketFromHost host fqdn = Some x \<longleftrightarrow>
      normalizeHost host = x @ ''.'' @ fqdn \<and> x \<noteq> [] \<and> CHR ''.'' \<notin> set x)"
proof -
  have n: "normalizeHost fqdn = fqdn" "fqdn \<noteq> []" using normalizeHost_name [OF assms(1)] assms(1) by (simp_all add: host_name_def)
  have iff: "bucketFromHost host fqdn = Some x \<longleftrightarrow> normalizeHost host = x @ ''.'' @ fqdn \<and> x \<noteq> [] \<and> CHR ''.'' \<notin> set x" for host x
    by (simp add: bucketFromHost_iff n)
  have plain: "bucketFromHost (b @ ''.'' @ fqdn) fqdn = Some b" by (rule bucketFromHost_bucket [OF assms(2,1)])
  have "normalizeHost ((b @ ''.'' @ fqdn) @ '':'' @ port) = b @ ''.'' @ fqdn"
    by (rule normalizeHost_port [OF host_name_bucket [OF assms(2,1)] assms(3)])
  then have port: "bucketFromHost (b @ ''.'' @ fqdn @ '':'' @ port) fqdn = Some b"
    using assms(2) by (simp add: iff host_label_def)
  have "fqdn \<noteq> x @ ''.'' @ fqdn" for x by (metis append_self_conv2 append_assoc list.distinct(1) append_is_Nil_conv)
  then have "bucketFromHost fqdn fqdn = None" using iff [of fqdn] n(1) by (cases "bucketFromHost fqdn fqdn") auto
  with plain port iff show ?thesis by blast
qed

theorem bucket_from_host_witness:
  "bucketFromHost (''bucket'' @ ''.'' @ ''localhost'' @ '':'' @ ''8080'') ''localhost'' = Some ''bucket''"
proof -
  have "list_all host_char ''8080''" by code_simp
  from bucket_from_host [OF demo_fqdn(2,3) this] show ?thesis by blast
qed

text \<open>C32: The range \<open>bytes=a-b\<close> of an object of \<open>size\<close> bytes is accepted exactly when \<open>a \<le> b < size\<close>, with the bounds
  \<open>[a, b + 1)\<close>; otherwise the answer is 416. The largest end, where \<open>b + 1\<close> wraps around, is refused too.\<close>

theorem range_request_exact:
  assumes "the_string q ''Range'' = ''bytes='' @ dec a @ ''-'' @ dec b" and "a < 2 ^ 63" and "b < 2 ^ 63"
    and "0 \<le> Obj_Size ob" and "Obj_Size ob < 2 ^ 63"
  shows "request_range resource ob q text whole = (if a \<le> b \<and> int b < Obj_Size ob then Inr (int a, int b + 1)
    else Inl (writeS3Error 416 ''InvalidRange'' (Msg text) resource))"
proof -
  have "wrap64 (int b + 1) = (if b + 1 < 2 ^ 63 then int b + 1 else - (2 ^ 63))"
  proof (cases "b + 1 < 2 ^ 63")
    case False
    then have "b = 2 ^ 63 - 1" using assms(3) by simp
    then show ?thesis by (simp add: wrap64_def)
  qed (simp add: wrap64_def)
  then show ?thesis
    using ParseContentRangeHeader_bytes [OF assms(2,3)] assms by (auto simp: request_range_def)
qed

theorem range_request_exact_witness:
  "request_range ''bucket'' (row_object demo_loc \<lparr>ob_bucket = ''bucket'', ob_key = ''key'', ob_etag = [], ob_size = 10, ob_ctype = 0,
      ob_clevel = 0, ob_created = 0, ob_updated = 0\<rparr> [] 0) [(''Range'', VString (''bytes='' @ dec 3 @ ''-'' @ dec 9))] ''text'' 0 = Inr (3, 10)"
  by (subst range_request_exact [of _ 3 9]) (simp_all add: the_string_def row_object_def)

text \<open>C31: The struct that a handler works on is well typed: it has every field of its type in order, a field of type \<open>int\<close>
  holds a 64-bit integer and, when the request gives it, one within its declared range, and the strings that the handler
  requires are not empty. An \<open>int\<close> that is required but missing passes as 0.\<close>

theorem request_struct_typed:
  assumes "GetRequest env tags r = Inr q" and "check_fields env r bucketRequired keyRequired requiredHeaders requiredQueries tags q = None"
  shows "list_all2 (\<lambda>f (n, v). n = f_Name f \<and> typed_field f v \<and>
    checked_field env r bucketRequired keyRequired requiredHeaders requiredQueries f v) tags q"
  using GetRequest_typed [OF assms(1)] check_fields_None [OF GetRequest_typed [OF assms(1)] assms(2)]
  by (auto simp: list_all2_conv_all_nth split: prod.splits)

theorem request_struct_typed_witness:
  "list_all2 (\<lambda>f (n, v). n = f_Name f \<and> typed_field f v \<and> checked_field demo_env (demo_request ''GET'' ''/key'' [] []) True True [] [] f v)
     ObjectRequest (plain_struct ''bucket'' ''key'' (demo_request ''GET'' ''/key'' [] []))"
proof -
  have r: "bucket_request demo_env ''GET'' ''bucket'' ''key'' (demo_request ''GET'' ''/key'' [] [])"
    using demo_bucket_request [of "''key''" "[]" "''GET''" "[]"] by simp
  show ?thesis by (rule request_struct_typed [OF ObjectRequest_struct [OF r]])
qed

text \<open>C30: Conditional requests never look at the object: whether \<open>If-Match\<close>, \<open>If-None-Match\<close>, \<open>If-Modified-Since\<close> and
  \<open>If-Unmodified-Since\<close> let a request pass depends only on their syntax and on which of them are present. A malformed one
  is answered with 400; the pairs \<open>If-Match\<close> with \<open>If-Unmodified-Since\<close> and \<open>If-None-Match\<close> with
  \<open>If-Modified-Since\<close> are answered with 412 for every object.\<close>

theorem conditions_ignore_object:
  "(case evalIfMatches env ob q of
      None \<Rightarrow> condition_ok env q \<and> (the_string q ''IfMatch'' = [] \<or> the_string q ''IfUnmodifiedSince'' = []) \<and>
        (the_string q ''IfNoneMatch'' = [] \<or> the_string q ''IfModifiedSince'' = [])
    | Some reply \<Rightarrow> \<not> (condition_ok env q \<and> (the_string q ''IfMatch'' = [] \<or> the_string q ''IfUnmodifiedSince'' = []) \<and>
        (the_string q ''IfNoneMatch'' = [] \<or> the_string q ''IfModifiedSince'' = [])) \<and>
        rw_status (reply newResponse) = Some (if condition_ok env q then 412 else 400))"
proof (cases "evalIfMatches env ob q")
  case None
  then show ?thesis using evalIfMatches_None [of env ob q] by simp
next
  case (Some reply)
  then show ?thesis
    using evalIfMatches_None [of env ob q] evalIfMatches_Some [OF Some, of newResponse] by (simp add: newResponse_def)
qed



end
