(* ===== verification/Program_Theorems.thy ===== *)
theory Program_Theorems
  imports Program_Laws Startup_Theorems Web_Theorems
begin

text \<open>
  The property of the running program: what the start establishes holds for as long as it runs.
\<close>

text \<open>C12: Whatever requests the S3 service and the dashboard receive after a successful start, in any order, and whichever calls fail: in
  every state that the program reaches, the tables have their integrity, the backends keep their invariant, the backends are those of
  the start, and the search for the parity count of an upload ends.\<close>

theorem program_stays_sound:
  assumes "running env w dash t"
    and "yaml_law env" and "lawful env" and "key_apart env" and "fresh_inv env w" and "instances w = Map.empty" and "db_inv (db w)"
    and "0 \<le> FailureTolerance (Cfg env)"
  shows "iface_ok env t \<and> db_inv (db t) \<and> (\<exists>s. main env w = (Inr dash, s) \<and> availableBackends t = availableBackends s) \<and>
    (\<forall>rows. \<exists>p. getShardParityCount env (length (availableBackends t)) rows = Inr p)"
proof -
  note m = main_ok [OF _ assms(2-7)]
  have "sys_inv env t \<and> (\<exists>s. main env w = (Inr dash, s) \<and> availableBackends t = availableBackends s)"
    by (rule running_keeps [OF assms(1)]) (use m in \<open>auto simp: sys_inv_def\<close>)
  then obtain s where s: "sys_inv env t" "main env w = (Inr dash, s)" "availableBackends t = availableBackends s" by blast
  have "FailureTolerance (Cfg env) < int (length (availableBackends t))" using m [OF s(2)] s(3) by simp
  with getShardParityCount_defined [OF assms(8)] s show ?thesis by (auto simp: sys_inv_def)
qed

theorem program_stays_sound_witness:
  "\<exists>s. main demo_start_env demo_start_world = (Inr False, s) \<and>
     db_inv (db (serve_all demo_start_env (runS3Service demo_start_env) [demo_request ''PUT'' ''/key'' [] [1, 2], demo_request ''DELETE'' ''/key'' [] []] s)) \<and>
     availableBackends (serve_all demo_start_env (runS3Service demo_start_env) [demo_request ''PUT'' ''/key'' [] [1, 2], demo_request ''DELETE'' ''/key'' [] []] s)
       = availableBackends s"
proof -
  obtain s where m: "main demo_start_env demo_start_world = (Inr (EnableDashboard (Cfg demo_start_env)), s)"
    using main_files [OF demo_start_laws(1,2) _ _ demo_start_laws(5) _ _ _ demo_yaml, of demo_start_world "[]"]
    by (auto simp: demo_key_path demo_start_laws(4) demo_cfg_def) (auto simp: demo_start_world_def demo_defs_def)
  then have m: "main demo_start_env demo_start_world = (Inr False, s)" by (simp add: demo_start_laws(4) demo_cfg_def)
  let ?srv = "runS3Service demo_start_env"
  let ?p = "demo_request ''PUT'' ''/key'' [] [1, 2]" and ?d = "demo_request ''DELETE'' ''/key'' [] []"
  let ?s1 = "snd (serve demo_start_env ?srv ?p s)" and ?s2 = "serve_all demo_start_env ?srv [?p, ?d] s"
  have "running demo_start_env demo_start_world False ?s1"
    by (rule running.s3_request [OF running.started [OF m] surjective_pairing])
  then have r: "running demo_start_env demo_start_world False ?s2"
    using running.s3_request [OF _ surjective_pairing] by (metis serve_all.simps)
  have e: "instances demo_start_world = Map.empty" "db_inv (db demo_start_world)" "0 \<le> FailureTolerance (Cfg demo_start_env)"
    by (simp_all add: demo_start_world_def empty_db_inv demo_start_laws(4) demo_cfg_def)
  from program_stays_sound [OF r demo_yaml demo_start_laws(3) demo_key_apart demo_start_fresh e] m show ?thesis by auto
qed

end
