(* ===== verification/Spec2Isabelle.thy ===== *)
theory Spec2Isabelle
  imports Store_Theorems Object_Theorems Shard_Theorems Crypto_Theorems Metadata_Theorems Multipart_Theorems Sig_Theorems Dashboard_Theorems Program_Theorems
begin

text \<open>
  ShardS3 is an S3-compatible store that spreads the shards of its objects over backends (files, Discord, Telegram).
  This development models its Go code (\<open>src/src/shards3\<close>; the paths below are relative to \<open>internal/modules\<close> there, unless
  they begin with \<open>platform\<close> or \<open>cmd\<close>) from the HTTP request down to the single blob, and proves what the layers promise
  each other and what a client of the whole program can rely on.

  \<^bold>\<open>How the program works.\<close> An upload arrives at the S3 server, which checks the headers, finds the handler and calls
  the object manager. That has the chunker cut the stream into chunks; each chunk is compressed, encrypted under a fresh
  data key of the key manager, and handed to the sharding layer. The sharding layer cuts it into rows, adds parity rows
  by a Reed-Solomon code, merges rows into blobs as large as each backend takes, and stores the blobs concurrently. The
  chunks with their shards become rows of a SQLite database. A download goes the way back, and needs only as many rows as
  there were data rows. The dashboard shows the same tables. \<open>main\<close> opens the database, loads or creates the master key,
  builds the backends of the inventory, and starts the two servers.

  \<^bold>\<open>How it is modelled.\<close> A Go function that may fail is a computation \<open>'s \<Rightarrow> (error + 'a) \<times> 's\<close> (\<open>comp\<close>, \<open>Prelude\<close>).
  \<open>ErrPanic\<close> is a Go panic, \<open>ErrDiverge\<close> a call that never returns; the other errors are the code's own. Everything the
  code cannot decide by itself is a field of the record \<open>env\<close> (\<open>Host\<close>): the configuration, which calls of the operating
  system fail, clock, UUIDs, random bytes, the scheduler, and the third-party packages. The state grows along the layers
  as extensible records: \<open>host\<close> (a counter that numbers the calls that may fail, files, remote services), the registered
  backends (\<open>Interfaces\<close>), the tables (\<open>Database\<close>), the key manager's master key (\<open>Kms\<close>).

  \<^bold>\<open>The theories and the code.\<close>

  \<^item> \<open>Prelude\<close>, \<open>Strconv\<close>, \<open>Host\<close>: computations and their laws, the locale \<open>frame_rel\<close> of the relations that computations
    keep, the parts of \<open>strings\<close> and \<open>strconv\<close> the code uses (with the locale \<open>text_codec\<close> of printers and parsers), and
    the parameters.
  \<^item> \<open>Interfaces\<close>: \<open>storage/interfaces\<close>, the three backends and \<open>GetShard\<close>, \<open>PutShard\<close>, \<open>DeleteShard\<close>. \<open>Blob_Store\<close> states
    their contract as a locale, \<open>Backend_Laws\<close> interprets it on the code (\<open>iface\<close>), \<open>Blob_Spec\<close> is the abstract store they
    refine, \<open>Backend_Health\<close> says when a put succeeds.
  \<^item> \<open>Shard\<close> with \<open>Shard_Laws\<close>, \<open>Shard_Theorems\<close>: \<open>storage/shard/service.go\<close>, from the parity count to distribution,
    merging, upload, collection and deletion.
  \<^item> \<open>Chunker\<close> with \<open>Chunker_Laws\<close>, \<open>Stream_Laws\<close>: \<open>storage/chunker/service.go\<close>, the pipeline of one chunk and the
    concurrent loop over a stream.
  \<^item> \<open>Ciphers\<close>, \<open>Kms\<close> with \<open>Crypto_Theorems\<close>: \<open>storage/compression\<close>, \<open>storage/encryption\<close>.
  \<^item> \<open>Database\<close> with \<open>Database_Laws\<close>: the schema of \<open>platform/db/db.go\<close> as lists of rows, with unique keys, foreign keys,
    cascades and transactions.
  \<^item> \<open>Metadata\<close> with \<open>Metadata_Laws\<close>, \<open>Metadata_Theorems\<close>: \<open>storage/metadata\<close>, every query and statement.
  \<^item> \<open>Objects\<close>, \<open>Object_Manager\<close>: \<open>storage/object\<close>, \<open>storage/objectManager\<close>. \<open>Manager_Laws\<close> has what a put stores and a get
    returns, \<open>System\<close> the state machine of all storage operations and its invariant, \<open>Steady\<close> what none of them changes,
    \<open>Upload_Safety\<close> what an upload leaves alone, \<open>Delete_Laws\<close> what a deletion does, \<open>Store_Laws\<close> the objects of a system
    that works, \<open>Multipart_Laws\<close> the parts of an upload. The properties are in this theory, in \<open>Object_Theorems\<close>,
    \<open>Store_Theorems\<close> (the map that the store implements) and \<open>Multipart_Theorems\<close>.
  \<^item> \<open>Http\<close>, \<open>S3_Types\<close>, \<open>Requests\<close>, \<open>Web_Buckets\<close>, \<open>Web_Objects\<close>, \<open>Web_Multipart\<close>, \<open>Server\<close>: \<open>s3/web\<close>, that is requests
    and replies, the structs that are encoded, request parsing by struct tags, the handlers, routing and middleware.
    \<open>Request_Laws\<close>, \<open>Web_Frames\<close> (the locales \<open>reading\<close> and \<open>serving\<close>: what every request keeps), \<open>Web_Laws\<close> and
    \<open>Web_Theorems\<close> are about them.
  \<^item> \<open>Sig_V4\<close> with \<open>Sig_Theorems\<close>: \<open>s3/auth\<close>. \<open>Checksums\<close>: \<open>s3/checksum\<close>.
  \<^item> \<open>Backend_Config\<close>, \<open>Startup\<close> with \<open>Startup_Laws\<close>, \<open>Startup_Theorems\<close>: \<open>platform/backendconfig\<close>, the factories of the
    backends, \<open>cmd/shards3/main.go\<close>.
  \<^item> \<open>Dashboard\<close>, \<open>Dashboard_Web\<close> with \<open>Dashboard_Laws\<close>, \<open>Dashboard_Theorems\<close>: \<open>dashboard/service.go\<close>,
    \<open>dashboard/web/server.go\<close>.
  \<^item> \<open>Program_Laws\<close>, \<open>Program_Theorems\<close>: the running program, that is the start and then requests to both servers.
  \<^item> \<open>Concrete\<close>: an environment and states on which the hypotheses of the properties hold; the witnesses use it.

  \<^bold>\<open>What is shown.\<close>

  \<^item> What is stored comes back: for one object over storage calls and over HTTP, for a stream of chunks, for the rows of one
    chunk, for a multipart upload, always after the loss of any \<open>FailureTolerance\<close> backends and for every scheduler; the
    calls succeed on healthy backends. On such a system the object store is, seen from outside, a map from places to bytes.
  \<^item> What must not happen does not: a read returns the stored bytes or an error, no upload or deletion harms an object at
    another place, a failed write leaves the tables as they were, reading requests change nothing, a deleted object is gone.
  \<^item> The invariants (integrity of the tables, distinct readable blobs, configuration of the start) are kept by every storage
    operation, every request, and the running program.
  \<^item> The components keep their contracts: the backends refine the abstract blob store, the parity count is the least that
    suffices, the layout is balanced and within the limits of the backends, listing pages partition a listing, printed
    identifiers parse back, the signature check decides as SigV4 says, checksums and ranges are decided exactly.
  \<^item> Where the code differs from its intention the theorem says what it does: the search for the parity count that does not
    end, the upload found by its location under a wrong identifier, the signature whose verdict is dropped, the conditional
    requests that never look at the object, the page that fails when it shows a file, the sizes without a unit.

  \<^bold>\<open>Loops, fuel and concurrency.\<close> There is no fuel. The parity search is a \<open>partial_function (option)\<close>; \<open>None\<close> is a search
  that does not end, and that it ends is proved from \<open>FailureTolerance\<close> being below the number of backends, which the start
  checks. Every other loop is recursion with a termination proof. The goroutines of an upload run in the order that
  \<open>sched\<close> draws: a list of picks chooses the next one to move, and when it is used up the rest runs to its end. A step of the
  stream loop reads one chunk, starts a worker, or runs the pipeline of one chunk; a step of the sharding layer stores one
  blob. So every order of the chunks, and of the blobs of a chunk, is a value of \<open>sched\<close>, and each of them terminates (a
  measure counts the bytes to read and the jobs to finish). The pipelines of two chunks are not interleaved blob by blob.
  Bytes and hashes are words; the other integers of the code are \<open>int\<close> or \<open>nat\<close>, with the range checks and the wrap of the
  source written out where they can leave their width.

  \<^bold>\<open>Parameters and their laws.\<close> Code that is not in the repository is an argument, and the properties that rely on it name
  what they rely on: \<open>rs_law\<close> (Reed-Solomon restores missing rows), \<open>crypto_law\<close> and \<open>zstd_law\<close> (decryption and decompression
  undo their inverse), \<open>lawful\<close> with \<open>discord_law\<close>, \<open>telegram_law\<close>, \<open>uuid_law\<close> (what was sent can be fetched under its own
  name, identifiers are fresh), \<open>removable\<close> (a deleted message is not found), \<open>yaml_law\<close>, \<open>routers_law\<close>, \<open>no_faults\<close>. JSON,
  XML, base64, SHA-256, HMAC, xxhash, \<open>float64\<close> and the time formats are parameters as well. \<open>Concrete\<close> satisfies the laws.

  \<^bold>\<open>Not modelled.\<close> Filling the configuration from environment variables (a library fills the struct), sockets and
  \<open>net/http\<close> below the handler, the markup of the templates and the static files, interfaces that nothing implements
  (\<open>s3/head\<close>, \<open>s3/multipart\<close>, \<open>s3/object\<close>, \<open>s3/presign\<close>), the listing of the registered kinds, which nothing calls. A
  download's two pipes are modelled by the bytes they deliver, not by their buffers. Requests are served one after another;
  the concurrency within one upload is modelled, that between requests is not.
\<close>

section \<open>Objects\<close>

text \<open>C1: An object that is put into a system with healthy backends is stored, and reading any range of it
  returns exactly those bytes (or the range error of the code), its size and its ETag, even after any
  \<open>FailureTolerance\<close> backends became unreadable. This holds for every scheduler of the concurrent upload.\<close>

theorem put_get:
  assumes "packages env" and "accepting env w" and "data_fits env w data"
  shows "\<exists>ob t. PutObject env loc data w = (Inr ob, t) \<and>
    (\<forall>F u b e. lossy env F (Obj_Chunks ob) t u \<longrightarrow>
       (\<exists>ob' u'. GetObject env loc u = (Inr ob', u') \<and> Obj_Size ob' = int (length data) \<and> ETag ob' = xxhash64 env data \<and>
          fst (Object_GetData env ob' b e u') = (case normalizeRange (int (length data)) b e of Inl x \<Rightarrow> Inl x
            | Inr (b', e') \<Rightarrow> Inr (take (nat e' - nat b') (drop (nat b') data)))))"
proof -
  let ?r = "bytes_NewReader data"
  have r: "rd_data ?r = data" "\<not> rd_fails ?r" by (simp_all add: bytes_NewReader_def)
  have l: "rs_law env" "crypto_law env" "zstd_law env" "no_faults env" using assms(1) by (simp_all add: packages_def)
  have a: "iface_ok env w" "db_inv (db w)" "distinct (availableBackends w)" "0 < ChunkSize (Cfg env)"
    using assms(2) by (simp_all add: accepting_def ready_def)
  obtain ob t where p: "PutObjectStream env loc ?r w = (Inr ob, t)"
    using PutObjectStream_succeeds [OF assms(1,2), of ?r loc] assms(3) r by auto
  note s = PutObjectStream_Inr(1) [OF l(1,2) a p, unfolded r(1)]
  from p GetObject_stored [OF l a(3) s] show ?thesis unfolding PutObject_def by blast
qed

theorem put_get_witness:
  "\<exists>ob t. PutObject demo_env demo_loc [1, 2, 3, 4, 5] demo_world = (Inr ob, t) \<and>
    (\<forall>F u b e. lossy demo_env F (Obj_Chunks ob) t u \<longrightarrow>
       (\<exists>ob' u'. GetObject demo_env demo_loc u = (Inr ob', u') \<and> Obj_Size ob' = 5 \<and> ETag ob' = xxhash64 demo_env [1, 2, 3, 4, 5] \<and>
          fst (Object_GetData demo_env ob' b e u') = (case normalizeRange 5 b e of Inl x \<Rightarrow> Inl x
            | Inr (b', e') \<Rightarrow> Inr (take (nat e' - nat b') (drop (nat b') [1, 2, 3, 4, 5])))))"
  using put_get [OF demo_packages demo_accepting demo_data_fits, of demo_loc "[1, 2, 3, 4, 5]"] by simp

section \<open>Chunks\<close>

text \<open>C5: A stream is cut into chunks of \<open>ChunkSize\<close> bytes that are returned in stream order whatever the
  order in which the workers finish, with the length and the hash of the stream, and collecting them gives the
  stream back although \<open>FailureTolerance\<close> backends are lost.\<close>

theorem chunk_stream_roundtrip:
  assumes "packages env" and "ready env bs w" and "distinct bs" and "bs \<noteq> []" and "0 < ChunkSize (Cfg env)"
    and "FailureTolerance (Cfg env) < int (length bs)" and "ty \<in> {0, 1, 2}" and "Compression_Type cmp \<in> {0, 1}"
    and "\<not> rd_fails r" and "\<forall>p \<in> set (pieces (nat (ChunkSize (Cfg env))) (rd_data r)). fits env bs ty cmp w p"
  shows "\<exists>cs t. ChunkStream env r ty cmp bs conc w = (Inr (cs, int (length (rd_data r)), xxhash64 env (rd_data r)), t) \<and>
    length cs = length (pieces (nat (ChunkSize (Cfg env))) (rd_data r)) \<and>
    (\<forall>F u. finite F \<and> int (card F) \<le> FailureTolerance (Cfg env) \<and> degraded env F cs t u \<longrightarrow>
       fst (CollectChunks env cs cmp u) = Inr (rd_data r))"
proof -
  have l: "rs_law env" "crypto_law env" "zstd_law env" "no_faults env" using assms(1) by (simp_all add: packages_def)
  have ok: "iface_ok env w" "db_inv (db w)" using assms(2) by (simp_all add: ready_def)
  obtain cs t where c: "ChunkStream env r ty cmp bs conc w = (Inr (cs, int (length (rd_data r)), xxhash64 env (rd_data r)), t)"
    using ChunkStream_succeeds [OF l assms(3,4,6,7,8,2,10,5,9)] by blast
  note s = ChunkStream_Inr(5) [OF l(1,2) ok assms(3,5) c]
  have "concat (pieces (nat (ChunkSize (Cfg env))) (rd_data r)) = rd_data r" using assms(5) by (simp add: concat_pieces)
  with c s CollectChunks_stored [OF l assms(3) _ _ s] show ?thesis by (metis fst_conv list_all2_lengthD)
qed

theorem chunk_stream_roundtrip_witness:
  "\<exists>cs t. ChunkStream demo_env (bytes_NewReader [1, 2, 3, 4, 5]) 1 (configured_compression demo_env) [''a'', ''b''] 2 demo_world
      = (Inr (cs, 5, xxhash64 demo_env [1, 2, 3, 4, 5]), t) \<and> length cs = length (pieces 4 [1 :: byte, 2, 3, 4, 5]) \<and>
    (\<forall>F u. finite F \<and> int (card F) \<le> 1 \<and> degraded demo_env F cs t u \<longrightarrow>
       fst (CollectChunks demo_env cs (configured_compression demo_env) u) = Inr [1, 2, 3, 4, 5])"
proof -
  have "ready demo_env [''a'', ''b''] demo_world" "0 < ChunkSize (Cfg demo_env)"
    using demo_accepting by (simp_all add: accepting_def demo_backends)
  moreover have "nat (ChunkSize (Cfg demo_env)) = 4" by (simp add: demo_env_def demo_cfg_def)
  moreover have "\<forall>p \<in> set (pieces 4 data). fits demo_env [''a'', ''b''] 1 (configured_compression demo_env) demo_world p" for data
    using pieces_length [of _ 4 data] demo_fits by blast
  ultimately show ?thesis
    using chunk_stream_roundtrip [OF demo_packages, of "[''a'', ''b'']" demo_world 1 "configured_compression demo_env"
        "bytes_NewReader [1, 2, 3, 4, 5]" 2]
    by (simp add: demo_tolerance configured_compression_def bytes_NewReader_def)
qed

text \<open>C14: Whether an upload succeeds or fails (a reader that fails, a backend that fails, the clean-up of the chunks that were
  already stored), no blob that could be read before it is lost or changed.\<close>

theorem chunk_stream_preserves:
  assumes "rs_law env" and "crypto_law env" and "iface_ok env w" and "db_inv (db w)" and "distinct bs"
    and "0 < ChunkSize (Cfg env)" and "fst (GetShard env b l w) = Inr d"
  shows "fst (GetShard env b l (snd (ChunkStream env r ty cmp bs conc w))) = Inr d"
  using ChunkStream_preserves(1) [OF assms(1-6) _ assms(7)] by (metis surjective_pairing)

theorem chunk_stream_preserves_witness:
  "fst (GetShard demo_env ''a'' ''old'' (snd (ChunkStream demo_env \<lparr>rd_data = [1, 2, 3], rd_fails = True\<rparr> 0
      (configured_compression demo_env) [''a'', ''b''] 2 demo_full_world))) = Inr [9]"
proof -
  have "0 < ChunkSize (Cfg demo_env)" by (simp add: demo_env_def demo_cfg_def)
  then show ?thesis
    by (intro chunk_stream_preserves [OF demo_rs_law demo_crypto_law demo_full_ok demo_full_inv]) (simp_all add: demo_full_blob)
qed

section \<open>Sharding\<close>

text \<open>C6: Data that was sharded over healthy backends comes back (padded to whole rows) after any
  \<open>FailureTolerance\<close> of the backends became unreadable. The call succeeds, for every scheduler.\<close>

theorem shard_recovery:
  assumes "no_faults env" and "rs_law env" and "iface_ok env w" and "distinct bs" and "bs \<noteq> []" and "data \<noteq> []"
    and "\<forall>b \<in> set bs. healthy env w b" and "FailureTolerance (Cfg env) < int (length bs)"
    and "rs_accepts env (length bs) (rowCount (length data) (rowSize w bs data)) (rowSize w bs data)"
  shows "\<exists>shards d p n t. ShardData env data bs w = (Inr (shards, d, n), t) \<and>
    (\<forall>F u. finite F \<and> int (card F) \<le> FailureTolerance (Cfg env) \<and> backends_lost env F shards t u \<longrightarrow>
       fst (CollectShards env shards (int n) (int d) (int p) u) = Inr (padTo (d * n) data))"
proof -
  from ShardData_succeeds [OF assms(1,2,4,5,6,7,8,9)] obtain shards d n t where
    s: "ShardData env data bs w = (Inr (shards, d, n), t)" by blast
  from ShardData_sharded [OF assms(2,3,4) s] obtain p ys groups finals where
    sh: "sharded env data bs w shards d p n ys groups finals t" by blast
  from s sharded_recover [OF assms(2) sh assms(4)] show ?thesis by (metis fst_conv)
qed

theorem shard_recovery_witness:
  "\<exists>shards d p n t. ShardData demo_env [1, 2, 3] [''a'', ''b''] demo_world = (Inr (shards, d, n), t) \<and>
    (\<forall>F u. finite F \<and> int (card F) \<le> 1 \<and> backends_lost demo_env F shards t u \<longrightarrow>
       fst (CollectShards demo_env shards (int n) (int d) (int p) u) = Inr (padTo (d * n) [1, 2, 3]))"
  using shard_recovery [OF demo_no_faults demo_rs_law demo_ok _ _ _ demo_healthy, of "[1, 2, 3]"]
  by (simp add: demo_tolerance demo_rowSize demo_rowCount demo_accepts [simplified])

end
